(* ===== verification/OF_Prelude.thy ===== *)
theory OF_Prelude
  imports Main "HOL-Library.Word"
begin

unbundle bit_operations_syntax

text \<open>
  Shared vocabulary of the development: the widths of the C integer types, the result type
  that makes every way a C function can fail to return a value explicit, the memory view of
  multi-byte fields on a little-endian host together with the byte-order functions
  \<open>htons\<close>, \<open>ntohs\<close>, \<open>htonl\<close>, \<open>ntohl\<close>, \<open>htonll\<close> and \<open>ntohll\<close>, and the generic lemmas on
  lists, words and byte strings that the components use.
\<close>

section \<open>Machine types\<close>

type_synonym u8 = "8 word"
type_synonym u16 = "16 word"
type_synonym u32 = "32 word"
type_synonym u64 = "64 word"
type_synonym bytes = "u8 list"

section \<open>Results\<close>

text \<open>
  A call of the program either returns a value or ends in one of four ways that are not a
  return: a violated \<open>assert\<close> (the process aborts), an access outside the object a pointer
  points into, a call of \<open>ofp_fatal\<close> (the process exits), or a loop or recursion that does
  not come to an end.
\<close>

datatype failure = Assertion | Bad_access | Fatal | No_return

datatype 'a result = Ok 'a | Fail failure

fun bindR :: "'a result \<Rightarrow> ('a \<Rightarrow> 'b result) \<Rightarrow> 'b result" where
  "bindR (Ok x) f = f x"
| "bindR (Fail e) f = Fail e"

fun is_Ok :: "'a result \<Rightarrow> bool" where
  "is_Ok (Ok _) = True"
| "is_Ok (Fail _) = False"

definition mapR :: "('a \<Rightarrow> 'b) \<Rightarrow> 'a result \<Rightarrow> 'b result" where
  "mapR f m = bindR m (\<lambda>x. Ok (f x))"

text \<open>\<open>guardR c e m\<close> runs \<open>m\<close> when the condition holds and fails with \<open>e\<close> when it does not.\<close>

definition guardR :: "bool \<Rightarrow> failure \<Rightarrow> 'a result \<Rightarrow> 'a result" where
  "guardR c e m = (if c then m else Fail e)"

named_theorems result_simps \<open>equations of the result type\<close>
named_theorems const_defs \<open>definitions of the numeric constants of the headers\<close>

lemma bindR_eq_Ok [result_simps]:
  "bindR m f = Ok y \<longleftrightarrow> (\<exists>x. m = Ok x \<and> f x = Ok y)"
  by (cases m) auto

lemma bindR_eq_Fail [result_simps]:
  "bindR m f = Fail e \<longleftrightarrow> m = Fail e \<or> (\<exists>x. m = Ok x \<and> f x = Fail e)"
  by (cases m) auto

lemma bindR_Ok_right [simp]: "bindR m Ok = m"
  by (cases m) auto

lemma bindR_assoc: "bindR (bindR m f) g = bindR m (\<lambda>x. bindR (f x) g)"
  by (cases m) auto

lemma bindR_cong [fundef_cong]:
  "m = m' \<Longrightarrow> (\<And>x. m' = Ok x \<Longrightarrow> f x = f' x) \<Longrightarrow> bindR m f = bindR m' f'"
  by (cases m') auto

lemma guardR_simps [simp]:
  "guardR True e m = m" "guardR False e m = Fail e"
  by (simp_all add: guardR_def)

lemma guardR_eq_Ok [result_simps]: "guardR c e m = Ok x \<longleftrightarrow> c \<and> m = Ok x"
  by (simp add: guardR_def)

lemma guardR_cong [fundef_cong]:
  "c = c' \<Longrightarrow> e = e' \<Longrightarrow> (c' \<Longrightarrow> m = m') \<Longrightarrow> guardR c e m = guardR c' e' m'"
  by (simp add: guardR_def)

lemma mapR_simps [simp]: "mapR f (Ok x) = Ok (f x)" "mapR f (Fail e) = Fail e"
  by (simp_all add: mapR_def)

lemma is_Ok_iff: "is_Ok m \<longleftrightarrow> (\<exists>x. m = Ok x)"
  by (cases m) auto

section \<open>Multi-byte values in memory\<close>

text \<open>
  The host is little-endian: the first byte in memory is the least significant one.
  \<open>le_word\<close> reads a run of bytes as a word, \<open>le_bytes n\<close> writes the \<open>n\<close> low bytes of one.
  \<open>ld16 m i\<close> is the 16-bit load at byte offset \<open>i\<close> of the object \<open>m\<close>; a load is only used
  where the model has checked the bounds of the object.
\<close>

fun le_word :: "bytes \<Rightarrow> 'a::len word" where
  "le_word [] = 0"
| "le_word (b # bs) = ucast b OR push_bit 8 (le_word bs)"

fun le_bytes :: "nat \<Rightarrow> 'a::len word \<Rightarrow> bytes" where
  "le_bytes 0 x = []"
| "le_bytes (Suc n) x = ucast x # le_bytes n (drop_bit 8 x)"

definition ld8 :: "bytes \<Rightarrow> nat \<Rightarrow> u8" where
  "ld8 m i = le_word (take 1 (drop i m))"

definition ld16 :: "bytes \<Rightarrow> nat \<Rightarrow> u16" where
  "ld16 m i = le_word (take 2 (drop i m))"

definition ld32 :: "bytes \<Rightarrow> nat \<Rightarrow> u32" where
  "ld32 m i = le_word (take 4 (drop i m))"

definition ld64 :: "bytes \<Rightarrow> nat \<Rightarrow> u64" where
  "ld64 m i = le_word (take 8 (drop i m))"

text \<open>A store overwrites bytes in place and leaves the length of the object alone.\<close>

definition overwrite :: "bytes \<Rightarrow> nat \<Rightarrow> bytes \<Rightarrow> bytes" where
  "overwrite m i v = take i m @ v @ drop (i + length v) m"

definition st8 :: "bytes \<Rightarrow> nat \<Rightarrow> u8 \<Rightarrow> bytes" where
  "st8 m i x = overwrite m i (le_bytes 1 x)"

definition st16 :: "bytes \<Rightarrow> nat \<Rightarrow> u16 \<Rightarrow> bytes" where
  "st16 m i x = overwrite m i (le_bytes 2 x)"

definition st32 :: "bytes \<Rightarrow> nat \<Rightarrow> u32 \<Rightarrow> bytes" where
  "st32 m i x = overwrite m i (le_bytes 4 x)"

text \<open>The byte-order functions reverse the bytes of a value on a little-endian host.\<close>

definition htons :: "u16 \<Rightarrow> u16" where "htons x = le_word (rev (le_bytes 2 x))"
definition ntohs :: "u16 \<Rightarrow> u16" where "ntohs x = le_word (rev (le_bytes 2 x))"
definition htonl :: "u32 \<Rightarrow> u32" where "htonl x = le_word (rev (le_bytes 4 x))"
definition ntohl :: "u32 \<Rightarrow> u32" where "ntohl x = le_word (rev (le_bytes 4 x))"
definition htonll :: "u64 \<Rightarrow> u64" where "htonll x = le_word (rev (le_bytes 8 x))"
definition ntohll :: "u64 \<Rightarrow> u64" where "ntohll x = le_word (rev (le_bytes 8 x))"

lemmas byte_order_defs = htons_def ntohs_def htonl_def ntohl_def htonll_def ntohll_def
lemmas load_defs = ld8_def ld16_def ld32_def ld64_def

lemma length_le_bytes [simp]: "length (le_bytes n x) = n"
  by (induction n arbitrary: x) auto

lemma bit_u8_high [simp]: "8 \<le> n \<Longrightarrow> \<not> bit (b :: u8) n"
  using bit_imp_le_length [of b n] by auto

lemma le_word_le_bytes: "le_word (le_bytes n x) = (take_bit (8 * n) x :: 'a::len word)"
proof (induction n arbitrary: x)
  case 0
  then show ?case by simp
next
  case (Suc n)
  show ?case
    by (rule bit_word_eqI) (auto simp: Suc.IH bit_simps not_less)
qed

lemma le_word_full: "LENGTH('a) \<le> 8 * n \<Longrightarrow> le_word (le_bytes n x) = (x :: 'a::len word)"
  by (simp add: le_word_le_bytes take_bit_word_eq_self)

lemma ucast_le_word_Cons [simp]:
  "8 \<le> LENGTH('a) \<Longrightarrow> ucast (le_word (b # bs) :: 'a::len word) = b"
  by (rule bit_word_eqI) (auto simp: bit_simps)

lemma drop_bit_le_word_Cons:
  assumes "8 * Suc (length bs) \<le> LENGTH('a)"
  shows "drop_bit 8 (le_word (b # bs) :: 'a::len word) = le_word bs"
proof -
  have high: "\<not> bit (le_word bs :: 'a word) n" if "8 * length bs \<le> n" for n
    using that
  proof (induction bs arbitrary: n)
    case Nil
    then show ?case by simp
  next
    case (Cons c cs)
    then show ?case by (auto simp: bit_simps)
  qed
  show ?thesis
  proof (rule bit_word_eqI)
    fix n
    show "bit (drop_bit 8 (le_word (b # bs) :: 'a word)) n = bit (le_word bs :: 'a word) n"
      using assms high [of n] by (cases "8 * length bs \<le> n") (auto simp: bit_simps)
  qed
qed

lemma le_bytes_le_word:
  "8 * length bs \<le> LENGTH('a) \<Longrightarrow> le_bytes (length bs) (le_word bs :: 'a::len word) = bs"
proof (induction bs)
  case Nil
  then show ?case by simp
next
  case (Cons b bs)
  then show ?case
    by (simp del: le_word.simps add: drop_bit_le_word_Cons)
qed

lemma le_bytes_inject:
  "LENGTH('a) \<le> 8 * n \<Longrightarrow> le_bytes n x = le_bytes n y \<longleftrightarrow> x = (y :: 'a::len word)"
  by (metis le_word_full)

lemma unat_of_nat_less: "n < 2 ^ LENGTH('a) \<Longrightarrow> unat (of_nat n :: 'a::len word) = n"
  by (simp add: unsigned_of_nat take_bit_nat_eq_self)

section \<open>Byte order\<close>

lemma rev_bytes_involution:
  assumes "8 * n = LENGTH('a)"
  shows "le_word (rev (le_bytes n (le_word (rev (le_bytes n x)) :: 'a::len word))) = (x :: 'a word)"
proof -
  have "le_bytes n (le_word (rev (le_bytes n x)) :: 'a word) = rev (le_bytes n x)"
    using le_bytes_le_word [of "rev (le_bytes n x)", where 'a = 'a] assms by simp
  then show ?thesis using assms by (simp add: le_word_full)
qed

lemma ntohs_htons [simp]: "ntohs (htons x) = x" "htons (ntohs x) = x"
  using rev_bytes_involution [where 'a = 16, of 2] by (simp_all add: byte_order_defs)

lemma ntohl_htonl [simp]: "ntohl (htonl x) = x" "htonl (ntohl x) = x"
  using rev_bytes_involution [where 'a = 32, of 4] by (simp_all add: byte_order_defs)

lemma ntohll_htonll [simp]: "ntohll (htonll x) = x" "htonll (ntohll x) = x"
  using rev_bytes_involution [where 'a = 64, of 8] by (simp_all add: byte_order_defs)

lemma htons_inject [simp]: "htons x = htons y \<longleftrightarrow> x = y"
  by (metis ntohs_htons(1))

lemma htons_eq_ntohs: "ntohs = htons" by (simp add: byte_order_defs fun_eq_iff)
lemma htonl_eq_ntohl: "ntohl = htonl" by (simp add: byte_order_defs fun_eq_iff)

lemma eq_htons_iff: "x = htons y \<longleftrightarrow> ntohs x = y" "htons y = x \<longleftrightarrow> y = ntohs x"
  by auto

section \<open>Loads and stores\<close>

lemma length_overwrite [simp]: "i + length v \<le> length m \<Longrightarrow> length (overwrite m i v) = length m"
  by (simp add: overwrite_def)

lemma overwrite_same: "i + length v \<le> length m \<Longrightarrow> take (length v) (drop i (overwrite m i v)) = v"
  by (simp add: overwrite_def)

lemma nth_overwrite:
  assumes "i + length v \<le> length m" and "k < length m"
  shows "overwrite m i v ! k = (if i \<le> k \<and> k < i + length v then v ! (k - i) else m ! k)"
proof -
  have "k - i < length v \<longleftrightarrow> k < i + length v" if "i \<le> k"
    using that by linarith
  then show ?thesis
    using assms by (auto simp: overwrite_def nth_append min_absorb2)
qed

lemma overwrite_other:
  assumes "i + length v \<le> length m" and "j + n \<le> i \<or> i + length v \<le> j"
  shows "take n (drop j (overwrite m i v)) = take n (drop j m)"
proof (rule nth_equalityI)
  show "length (take n (drop j (overwrite m i v))) = length (take n (drop j m))"
    using assms by simp
next
  fix k
  assume "k < length (take n (drop j (overwrite m i v)))"
  then have k: "k < n" "j + k < length m"
    using assms(1) by auto
  then show "take n (drop j (overwrite m i v)) ! k = take n (drop j m) ! k"
    using assms nth_overwrite [of i v m "j + k"] by auto
qed

lemma length_st [simp]:
  "i < length m \<Longrightarrow> length (st8 m i x) = length m"
  "i + 2 \<le> length m \<Longrightarrow> length (st16 m i y) = length m"
  "i + 4 \<le> length m \<Longrightarrow> length (st32 m i z) = length m"
  by (simp_all add: st8_def st16_def st32_def)

lemma ld_st_same [simp]:
  "i < length m \<Longrightarrow> ld8 (st8 m i x) i = x"
  "i + 2 \<le> length m \<Longrightarrow> ld16 (st16 m i y) i = y"
  "i + 4 \<le> length m \<Longrightarrow> ld32 (st32 m i z) i = z"
  using overwrite_same [of i "le_bytes 1 x" m] overwrite_same [of i "le_bytes 2 y" m]
    overwrite_same [of i "le_bytes 4 z" m]
  by (simp_all add: load_defs st8_def st16_def st32_def le_word_full del: le_bytes.simps)

section \<open>Lists\<close>

lemma find_Some_set: "find P xs = Some x \<Longrightarrow> x \<in> set xs \<and> P x"
  by (auto simp: find_Some_iff)

lemma find_filter: "find P xs = (case filter P xs of [] \<Rightarrow> None | x # _ \<Rightarrow> Some x)"
  by (induction xs) auto

lemma length_filter_partition:
  "length (filter P xs) + length (filter (\<lambda>x. \<not> P x) xs) = length xs"
  by (induction xs) auto

end
