(* ===== verification/OF_Proto.thy ===== *)
theory OF_Proto
  imports OF_Prelude
begin

unbundle bit_operations_syntax

text \<open>
  The vocabulary of the OpenFlow 1.0 wire protocol and of the packet headers: the enumerations of
  \<open>include/openflow/openflow.h\<close> and the constants of \<open>lib/packets.h\<close> with the width they have
  where the code compares them, Ethernet addresses, \<open>struct ofp_match\<close> and its place in memory.
  Error codes of the form \<open>-EINVAL\<close> are integers.
\<close>


section \<open>Ports: enum ofp_port\<close>

abbreviation (input) OFPP_MAX :: u16 where "OFPP_MAX \<equiv> 0xff00"
abbreviation (input) OFPP_IN_PORT :: u16 where "OFPP_IN_PORT \<equiv> 0xfff8"
abbreviation (input) OFPP_TABLE :: u16 where "OFPP_TABLE \<equiv> 0xfff9"
abbreviation (input) OFPP_NORMAL :: u16 where "OFPP_NORMAL \<equiv> 0xfffa"
abbreviation (input) OFPP_FLOOD :: u16 where "OFPP_FLOOD \<equiv> 0xfffb"
abbreviation (input) OFPP_ALL :: u16 where "OFPP_ALL \<equiv> 0xfffc"
abbreviation (input) OFPP_CONTROLLER :: u16 where "OFPP_CONTROLLER \<equiv> 0xfffd"
abbreviation (input) OFPP_LOCAL :: u16 where "OFPP_LOCAL \<equiv> 0xfffe"
abbreviation (input) OFPP_NONE :: u16 where "OFPP_NONE \<equiv> 0xffff"

section \<open>Message types: enum ofp_type\<close>

abbreviation (input) OFPT_HELLO :: u8 where "OFPT_HELLO \<equiv> 0"
abbreviation (input) OFPT_ERROR :: u8 where "OFPT_ERROR \<equiv> 1"
abbreviation (input) OFPT_ECHO_REQUEST :: u8 where "OFPT_ECHO_REQUEST \<equiv> 2"
abbreviation (input) OFPT_ECHO_REPLY :: u8 where "OFPT_ECHO_REPLY \<equiv> 3"
abbreviation (input) OFPT_VENDOR :: u8 where "OFPT_VENDOR \<equiv> 4"
abbreviation (input) OFPT_FEATURES_REQUEST :: u8 where "OFPT_FEATURES_REQUEST \<equiv> 5"
abbreviation (input) OFPT_FEATURES_REPLY :: u8 where "OFPT_FEATURES_REPLY \<equiv> 6"
abbreviation (input) OFPT_GET_CONFIG_REQUEST :: u8 where "OFPT_GET_CONFIG_REQUEST \<equiv> 7"
abbreviation (input) OFPT_GET_CONFIG_REPLY :: u8 where "OFPT_GET_CONFIG_REPLY \<equiv> 8"
abbreviation (input) OFPT_SET_CONFIG :: u8 where "OFPT_SET_CONFIG \<equiv> 9"
abbreviation (input) OFPT_PACKET_IN :: u8 where "OFPT_PACKET_IN \<equiv> 10"
abbreviation (input) OFPT_FLOW_REMOVED :: u8 where "OFPT_FLOW_REMOVED \<equiv> 11"
abbreviation (input) OFPT_PORT_STATUS :: u8 where "OFPT_PORT_STATUS \<equiv> 12"
abbreviation (input) OFPT_PACKET_OUT :: u8 where "OFPT_PACKET_OUT \<equiv> 13"
abbreviation (input) OFPT_FLOW_MOD :: u8 where "OFPT_FLOW_MOD \<equiv> 14"
abbreviation (input) OFPT_PORT_MOD :: u8 where "OFPT_PORT_MOD \<equiv> 15"
abbreviation (input) OFPT_STATS_REQUEST :: u8 where "OFPT_STATS_REQUEST \<equiv> 16"
abbreviation (input) OFPT_STATS_REPLY :: u8 where "OFPT_STATS_REPLY \<equiv> 17"
abbreviation (input) OFPT_BARRIER_REQUEST :: u8 where "OFPT_BARRIER_REQUEST \<equiv> 18"
abbreviation (input) OFPT_BARRIER_REPLY :: u8 where "OFPT_BARRIER_REPLY \<equiv> 19"
abbreviation (input) OFPT_QUEUE_GET_CONFIG_REQUEST :: u8 where "OFPT_QUEUE_GET_CONFIG_REQUEST \<equiv> 20"
abbreviation (input) OFPT_QUEUE_GET_CONFIG_REPLY :: u8 where "OFPT_QUEUE_GET_CONFIG_REPLY \<equiv> 21"
abbreviation (input) OFP_VERSION :: u8 where "OFP_VERSION \<equiv> 1"

section \<open>Switch and port configuration\<close>

abbreviation (input) OFP_DEFAULT_MISS_SEND_LEN :: u16 where "OFP_DEFAULT_MISS_SEND_LEN \<equiv> 128"
abbreviation (input) OFPC_FRAG_NORMAL :: u16 where "OFPC_FRAG_NORMAL \<equiv> 0"
abbreviation (input) OFPC_FRAG_DROP :: u16 where "OFPC_FRAG_DROP \<equiv> 1"
abbreviation (input) OFPC_FRAG_REASM :: u16 where "OFPC_FRAG_REASM \<equiv> 2"
abbreviation (input) OFPC_FRAG_MASK :: u16 where "OFPC_FRAG_MASK \<equiv> 3"
abbreviation (input) OFPPC_PORT_DOWN :: u32 where "OFPPC_PORT_DOWN \<equiv> 1"
abbreviation (input) OFPPC_NO_STP :: u32 where "OFPPC_NO_STP \<equiv> 2"
abbreviation (input) OFPPC_NO_RECV :: u32 where "OFPPC_NO_RECV \<equiv> 4"
abbreviation (input) OFPPC_NO_RECV_STP :: u32 where "OFPPC_NO_RECV_STP \<equiv> 8"
abbreviation (input) OFPPC_NO_FLOOD :: u32 where "OFPPC_NO_FLOOD \<equiv> 16"
abbreviation (input) OFPPC_NO_FWD :: u32 where "OFPPC_NO_FWD \<equiv> 32"
abbreviation (input) OFPPC_NO_PACKET_IN :: u32 where "OFPPC_NO_PACKET_IN \<equiv> 64"
abbreviation (input) OFPR_NO_MATCH :: u8 where "OFPR_NO_MATCH \<equiv> 0"
abbreviation (input) OFPR_ACTION :: u8 where "OFPR_ACTION \<equiv> 1"

section \<open>Actions: enum ofp_action_type\<close>

abbreviation (input) OFPAT_OUTPUT :: u16 where "OFPAT_OUTPUT \<equiv> 0"
abbreviation (input) OFPAT_SET_VLAN_VID :: u16 where "OFPAT_SET_VLAN_VID \<equiv> 1"
abbreviation (input) OFPAT_SET_VLAN_PCP :: u16 where "OFPAT_SET_VLAN_PCP \<equiv> 2"
abbreviation (input) OFPAT_STRIP_VLAN :: u16 where "OFPAT_STRIP_VLAN \<equiv> 3"
abbreviation (input) OFPAT_SET_DL_SRC :: u16 where "OFPAT_SET_DL_SRC \<equiv> 4"
abbreviation (input) OFPAT_SET_DL_DST :: u16 where "OFPAT_SET_DL_DST \<equiv> 5"
abbreviation (input) OFPAT_SET_NW_SRC :: u16 where "OFPAT_SET_NW_SRC \<equiv> 6"
abbreviation (input) OFPAT_SET_NW_DST :: u16 where "OFPAT_SET_NW_DST \<equiv> 7"
abbreviation (input) OFPAT_SET_NW_TOS :: u16 where "OFPAT_SET_NW_TOS \<equiv> 8"
abbreviation (input) OFPAT_SET_TP_SRC :: u16 where "OFPAT_SET_TP_SRC \<equiv> 9"
abbreviation (input) OFPAT_SET_TP_DST :: u16 where "OFPAT_SET_TP_DST \<equiv> 10"
abbreviation (input) OFPAT_ENQUEUE :: u16 where "OFPAT_ENQUEUE \<equiv> 11"
abbreviation (input) OFPAT_VENDOR :: u16 where "OFPAT_VENDOR \<equiv> 0xffff"

section \<open>Flow modification\<close>

abbreviation (input) OFPFC_ADD :: u16 where "OFPFC_ADD \<equiv> 0"
abbreviation (input) OFPFC_MODIFY :: u16 where "OFPFC_MODIFY \<equiv> 1"
abbreviation (input) OFPFC_MODIFY_STRICT :: u16 where "OFPFC_MODIFY_STRICT \<equiv> 2"
abbreviation (input) OFPFC_DELETE :: u16 where "OFPFC_DELETE \<equiv> 3"
abbreviation (input) OFPFC_DELETE_STRICT :: u16 where "OFPFC_DELETE_STRICT \<equiv> 4"
abbreviation (input) OFPFF_SEND_FLOW_REM :: u16 where "OFPFF_SEND_FLOW_REM \<equiv> 1"
abbreviation (input) OFPFF_CHECK_OVERLAP :: u16 where "OFPFF_CHECK_OVERLAP \<equiv> 2"
abbreviation (input) OFPFF_EMERG :: u16 where "OFPFF_EMERG \<equiv> 4"
abbreviation (input) OFPRR_IDLE_TIMEOUT :: u8 where "OFPRR_IDLE_TIMEOUT \<equiv> 0"
abbreviation (input) OFPRR_HARD_TIMEOUT :: u8 where "OFPRR_HARD_TIMEOUT \<equiv> 1"
abbreviation (input) OFPRR_DELETE :: u8 where "OFPRR_DELETE \<equiv> 2"
abbreviation (input) OFP_FLOW_PERMANENT :: u16 where "OFP_FLOW_PERMANENT \<equiv> 0"
abbreviation (input) OFP_VLAN_NONE :: u16 where "OFP_VLAN_NONE \<equiv> 0xffff"
abbreviation (input) OFP_DL_TYPE_ETH2_CUTOFF :: u16 where "OFP_DL_TYPE_ETH2_CUTOFF \<equiv> 0x0600"
abbreviation (input) OFP_DL_TYPE_NOT_ETH_TYPE :: u16 where "OFP_DL_TYPE_NOT_ETH_TYPE \<equiv> 0x05ff"

section \<open>Wildcards: enum ofp_flow_wildcards\<close>

abbreviation (input) OFPFW_IN_PORT :: u32 where "OFPFW_IN_PORT \<equiv> 0x1"
abbreviation (input) OFPFW_DL_VLAN :: u32 where "OFPFW_DL_VLAN \<equiv> 0x2"
abbreviation (input) OFPFW_DL_SRC :: u32 where "OFPFW_DL_SRC \<equiv> 0x4"
abbreviation (input) OFPFW_DL_DST :: u32 where "OFPFW_DL_DST \<equiv> 0x8"
abbreviation (input) OFPFW_DL_TYPE :: u32 where "OFPFW_DL_TYPE \<equiv> 0x10"
abbreviation (input) OFPFW_NW_PROTO :: u32 where "OFPFW_NW_PROTO \<equiv> 0x20"
abbreviation (input) OFPFW_TP_SRC :: u32 where "OFPFW_TP_SRC \<equiv> 0x40"
abbreviation (input) OFPFW_TP_DST :: u32 where "OFPFW_TP_DST \<equiv> 0x80"
abbreviation (input) OFPFW_DL_VLAN_PCP :: u32 where "OFPFW_DL_VLAN_PCP \<equiv> 0x100000"
abbreviation (input) OFPFW_NW_TOS :: u32 where "OFPFW_NW_TOS \<equiv> 0x200000"
abbreviation (input) OFPFW_NW_SRC_SHIFT :: nat where "OFPFW_NW_SRC_SHIFT \<equiv> 8"
abbreviation (input) OFPFW_NW_DST_SHIFT :: nat where "OFPFW_NW_DST_SHIFT \<equiv> 14"
abbreviation (input) OFPFW_NW_SRC_BITS :: nat where "OFPFW_NW_SRC_BITS \<equiv> 6"
abbreviation (input) OFPFW_NW_DST_BITS :: nat where "OFPFW_NW_DST_BITS \<equiv> 6"
abbreviation (input) OFPFW_NW_SRC_MASK :: u32 where "OFPFW_NW_SRC_MASK \<equiv> 0x3f00"
abbreviation (input) OFPFW_NW_DST_MASK :: u32 where "OFPFW_NW_DST_MASK \<equiv> 0xfc000"
abbreviation (input) OFPFW_ALL :: u32 where "OFPFW_ALL \<equiv> 0x3fffff"

section \<open>Error messages\<close>

abbreviation (input) OFPET_HELLO_FAILED :: u16 where "OFPET_HELLO_FAILED \<equiv> 0"
abbreviation (input) OFPET_BAD_REQUEST :: u16 where "OFPET_BAD_REQUEST \<equiv> 1"
abbreviation (input) OFPET_BAD_ACTION :: u16 where "OFPET_BAD_ACTION \<equiv> 2"
abbreviation (input) OFPET_FLOW_MOD_FAILED :: u16 where "OFPET_FLOW_MOD_FAILED \<equiv> 3"
abbreviation (input) OFPET_PORT_MOD_FAILED :: u16 where "OFPET_PORT_MOD_FAILED \<equiv> 4"
abbreviation (input) OFPET_QUEUE_OP_FAILED :: u16 where "OFPET_QUEUE_OP_FAILED \<equiv> 5"
abbreviation (input) OFPBRC_BAD_VERSION :: u16 where "OFPBRC_BAD_VERSION \<equiv> 0"
abbreviation (input) OFPBRC_BAD_TYPE :: u16 where "OFPBRC_BAD_TYPE \<equiv> 1"
abbreviation (input) OFPBRC_BAD_STAT :: u16 where "OFPBRC_BAD_STAT \<equiv> 2"
abbreviation (input) OFPBRC_BAD_VENDOR :: u16 where "OFPBRC_BAD_VENDOR \<equiv> 3"
abbreviation (input) OFPBRC_BAD_SUBTYPE :: u16 where "OFPBRC_BAD_SUBTYPE \<equiv> 4"
abbreviation (input) OFPBRC_EPERM :: u16 where "OFPBRC_EPERM \<equiv> 5"
abbreviation (input) OFPBRC_BAD_LEN :: u16 where "OFPBRC_BAD_LEN \<equiv> 6"
abbreviation (input) OFPBRC_BUFFER_EMPTY :: u16 where "OFPBRC_BUFFER_EMPTY \<equiv> 7"
abbreviation (input) OFPBRC_BUFFER_UNKNOWN :: u16 where "OFPBRC_BUFFER_UNKNOWN \<equiv> 8"
abbreviation (input) OFPBAC_BAD_TYPE :: u16 where "OFPBAC_BAD_TYPE \<equiv> 0"
abbreviation (input) OFPBAC_BAD_LEN :: u16 where "OFPBAC_BAD_LEN \<equiv> 1"
abbreviation (input) OFPBAC_BAD_VENDOR :: u16 where "OFPBAC_BAD_VENDOR \<equiv> 2"
abbreviation (input) OFPBAC_BAD_VENDOR_TYPE :: u16 where "OFPBAC_BAD_VENDOR_TYPE \<equiv> 3"
abbreviation (input) OFPBAC_BAD_OUT_PORT :: u16 where "OFPBAC_BAD_OUT_PORT \<equiv> 4"
abbreviation (input) OFPBAC_BAD_ARGUMENT :: u16 where "OFPBAC_BAD_ARGUMENT \<equiv> 5"
abbreviation (input) OFPBAC_EPERM :: u16 where "OFPBAC_EPERM \<equiv> 6"
abbreviation (input) OFPBAC_TOO_MANY :: u16 where "OFPBAC_TOO_MANY \<equiv> 7"
abbreviation (input) OFPBAC_BAD_QUEUE :: u16 where "OFPBAC_BAD_QUEUE \<equiv> 8"
abbreviation (input) OFPFMFC_ALL_TABLES_FULL :: u16 where "OFPFMFC_ALL_TABLES_FULL \<equiv> 0"
abbreviation (input) OFPFMFC_OVERLAP :: u16 where "OFPFMFC_OVERLAP \<equiv> 1"
abbreviation (input) OFPFMFC_EPERM :: u16 where "OFPFMFC_EPERM \<equiv> 2"
abbreviation (input) OFPFMFC_BAD_EMERG_TIMEOUT :: u16 where "OFPFMFC_BAD_EMERG_TIMEOUT \<equiv> 3"
abbreviation (input) OFPFMFC_BAD_COMMAND :: u16 where "OFPFMFC_BAD_COMMAND \<equiv> 4"
abbreviation (input) OFPFMFC_UNSUPPORTED :: u16 where "OFPFMFC_UNSUPPORTED \<equiv> 5"
abbreviation (input) OFPQOFC_BAD_PORT :: u16 where "OFPQOFC_BAD_PORT \<equiv> 0"
abbreviation (input) OFPQOFC_BAD_QUEUE :: u16 where "OFPQOFC_BAD_QUEUE \<equiv> 1"
abbreviation (input) OFPQOFC_EPERM :: u16 where "OFPQOFC_EPERM \<equiv> 2"
abbreviation (input) ESRCH :: int where "ESRCH \<equiv> 3"
abbreviation (input) EAGAIN :: int where "EAGAIN \<equiv> 11"
abbreviation (input) ENOMEM :: int where "ENOMEM \<equiv> 12"
abbreviation (input) EFAULT :: int where "EFAULT \<equiv> 14"
abbreviation (input) ENODEV :: int where "ENODEV \<equiv> 19"
abbreviation (input) EINVAL :: int where "EINVAL \<equiv> 22"
abbreviation (input) EXFULL :: int where "EXFULL \<equiv> 54"
abbreviation (input) ENOBUFS :: int where "ENOBUFS \<equiv> 105"
abbreviation (input) ENOTCONN :: int where "ENOTCONN \<equiv> 107"

section \<open>Packet headers: lib/packets.h\<close>

abbreviation (input) ETH_TYPE_IP :: u16 where "ETH_TYPE_IP \<equiv> 0x0800"
abbreviation (input) ETH_TYPE_ARP :: u16 where "ETH_TYPE_ARP \<equiv> 0x0806"
abbreviation (input) ETH_TYPE_VLAN :: u16 where "ETH_TYPE_VLAN \<equiv> 0x8100"
abbreviation (input) ARP_PRO_IP :: u16 where "ARP_PRO_IP \<equiv> 0x0800"
abbreviation (input) VLAN_VID_MASK :: u16 where "VLAN_VID_MASK \<equiv> 0x0fff"
abbreviation (input) VLAN_PCP_MASK :: u16 where "VLAN_PCP_MASK \<equiv> 0xe000"
abbreviation (input) VLAN_PCP_BITMASK :: u16 where "VLAN_PCP_BITMASK \<equiv> 0x0007"
abbreviation (input) IP_TYPE_ICMP :: u8 where "IP_TYPE_ICMP \<equiv> 1"
abbreviation (input) IP_TYPE_TCP :: u8 where "IP_TYPE_TCP \<equiv> 6"
abbreviation (input) IP_TYPE_UDP :: u8 where "IP_TYPE_UDP \<equiv> 17"
abbreviation (input) ETH_HEADER_LEN :: nat where "ETH_HEADER_LEN \<equiv> 14"
abbreviation (input) LLC_HEADER_LEN :: nat where "LLC_HEADER_LEN \<equiv> 3"
abbreviation (input) SNAP_HEADER_LEN :: nat where "SNAP_HEADER_LEN \<equiv> 5"
abbreviation (input) LLC_SNAP_HEADER_LEN :: nat where "LLC_SNAP_HEADER_LEN \<equiv> 8"
abbreviation (input) VLAN_HEADER_LEN :: nat where "VLAN_HEADER_LEN \<equiv> 4"
abbreviation (input) VLAN_ETH_HEADER_LEN :: nat where "VLAN_ETH_HEADER_LEN \<equiv> 18"
abbreviation (input) IP_HEADER_LEN :: nat where "IP_HEADER_LEN \<equiv> 20"
abbreviation (input) ICMP_HEADER_LEN :: nat where "ICMP_HEADER_LEN \<equiv> 4"
abbreviation (input) UDP_HEADER_LEN :: nat where "UDP_HEADER_LEN \<equiv> 8"
abbreviation (input) TCP_HEADER_LEN :: nat where "TCP_HEADER_LEN \<equiv> 20"
abbreviation (input) ARP_ETH_HEADER_LEN :: nat where "ARP_ETH_HEADER_LEN \<equiv> 28"
abbreviation (input) VLAN_PCP_SHIFT :: nat where "VLAN_PCP_SHIFT \<equiv> 13"
abbreviation (input) IP_ADDR_LEN :: nat where "IP_ADDR_LEN \<equiv> 4"

definition IP_IS_FRAGMENT :: "u16 \<Rightarrow> bool" where
  "IP_IS_FRAGMENT ip_frag_off \<longleftrightarrow> ip_frag_off AND htons (0x2000 OR 0x1fff) \<noteq> 0"

section \<open>Ethernet addresses\<close>

text \<open>An array \<open>uint8_t ea[6]\<close>.\<close>

datatype eth_addr = EA u8 u8 u8 u8 u8 u8

fun ea_bytes :: "eth_addr \<Rightarrow> bytes" where
  "ea_bytes (EA a b c d e f) = [a, b, c, d, e, f]"

definition ea_at :: "bytes \<Rightarrow> nat \<Rightarrow> eth_addr" where
  "ea_at m i = EA (ld8 m i) (ld8 m (i + 1)) (ld8 m (i + 2)) (ld8 m (i + 3)) (ld8 m (i + 4)) (ld8 m (i + 5))"

fun memcmp :: "bytes \<Rightarrow> bytes \<Rightarrow> int" where
  "memcmp (x # xs) (y # ys) = (if x = y then memcmp xs ys else if x < y then -1 else 1)"
| "memcmp _ _ = 0"

definition eth_addr_equals :: "eth_addr \<Rightarrow> eth_addr \<Rightarrow> bool" where
  "eth_addr_equals a b \<longleftrightarrow> memcmp (ea_bytes a) (ea_bytes b) = 0"

fun eth_addr_is_broadcast :: "eth_addr \<Rightarrow> bool" where
  "eth_addr_is_broadcast (EA a b c d e f) \<longleftrightarrow> (a AND b AND c AND d AND e AND f) = 0xff"

fun eth_addr_is_multicast :: "eth_addr \<Rightarrow> bool" where
  "eth_addr_is_multicast (EA a b c d e f) \<longleftrightarrow> a AND 1 \<noteq> 0"

fun eth_addr_is_zero :: "eth_addr \<Rightarrow> bool" where
  "eth_addr_is_zero (EA a b c d e f) \<longleftrightarrow> (a OR b OR c OR d OR e OR f) = 0"

fun eth_addr_to_uint64 :: "eth_addr \<Rightarrow> u64" where
  "eth_addr_to_uint64 (EA a b c d e f) =
     push_bit 40 (ucast a) OR push_bit 32 (ucast b) OR push_bit 24 (ucast c) OR
     push_bit 16 (ucast d) OR push_bit 8 (ucast e) OR ucast f"

definition eth_addr_from_uint64 :: "u64 \<Rightarrow> eth_addr" where
  "eth_addr_from_uint64 x =
     EA (ucast (drop_bit 40 x)) (ucast (drop_bit 32 x)) (ucast (drop_bit 24 x))
        (ucast (drop_bit 16 x)) (ucast (drop_bit 8 x)) (ucast x)"

fun eth_addr_is_reserved :: "eth_addr \<Rightarrow> bool" where
  "eth_addr_is_reserved (EA a b c d e f) \<longleftrightarrow>
     a = 0x01 \<and> b = 0x80 \<and> c = 0xc2 \<and> d = 0x00 \<and> e = 0x00 \<and> f AND 0xf0 = 0x00"

text \<open>The 802.1D group address \<open>stp_eth_addr\<close> of \<open>lib/stp.c\<close>.\<close>

definition stp_eth_addr :: eth_addr where
  "stp_eth_addr = EA 0x01 0x80 0xc2 0x00 0x00 0x00"

lemma length_ea_bytes [simp]: "length (ea_bytes a) = 6"
  by (cases a) simp

lemma ea_bytes_inject [simp]: "ea_bytes a = ea_bytes b \<longleftrightarrow> a = b"
  by (cases a; cases b) simp

lemma memcmp_eq_0: "length xs = length ys \<Longrightarrow> memcmp xs ys = 0 \<longleftrightarrow> xs = ys"
  by (induction xs ys rule: memcmp.induct) auto

lemma eth_addr_equals_iff [simp]: "eth_addr_equals a b \<longleftrightarrow> a = b"
  by (simp add: eth_addr_equals_def memcmp_eq_0)

lemma eth_addr_from_to_uint64: "eth_addr_from_uint64 (eth_addr_to_uint64 ea) = ea"
  by (cases ea) (auto simp: eth_addr_from_uint64_def bit_simps intro!: bit_word_eqI)

section \<open>struct ofp_match\<close>

record ofp_match =
  m_wildcards :: u32
  m_in_port :: u16
  m_dl_src :: eth_addr
  m_dl_dst :: eth_addr
  m_dl_vlan :: u16
  m_dl_vlan_pcp :: u8
  m_dl_type :: u16
  m_nw_tos :: u8
  m_nw_proto :: u8
  m_nw_src :: u32
  m_nw_dst :: u32
  m_tp_src :: u16
  m_tp_dst :: u16

text \<open>The 40 bytes of a \<open>struct ofp_match\<close> at offset \<open>i\<close>, and the way back (padding is zero).\<close>

definition ofp_match_at :: "bytes \<Rightarrow> nat \<Rightarrow> ofp_match" where
  "ofp_match_at m i = \<lparr>m_wildcards = ld32 m i, m_in_port = ld16 m (i + 4),
     m_dl_src = ea_at m (i + 6), m_dl_dst = ea_at m (i + 12), m_dl_vlan = ld16 m (i + 18),
     m_dl_vlan_pcp = ld8 m (i + 20), m_dl_type = ld16 m (i + 22), m_nw_tos = ld8 m (i + 24),
     m_nw_proto = ld8 m (i + 25), m_nw_src = ld32 m (i + 28), m_nw_dst = ld32 m (i + 32),
     m_tp_src = ld16 m (i + 36), m_tp_dst = ld16 m (i + 38)\<rparr>"

definition ofp_match_bytes :: "ofp_match \<Rightarrow> bytes" where
  "ofp_match_bytes m =
     le_bytes 4 (m_wildcards m) @ le_bytes 2 (m_in_port m) @ ea_bytes (m_dl_src m) @
     ea_bytes (m_dl_dst m) @ le_bytes 2 (m_dl_vlan m) @ [m_dl_vlan_pcp m, 0] @
     le_bytes 2 (m_dl_type m) @ [m_nw_tos m, m_nw_proto m, 0, 0] @ le_bytes 4 (m_nw_src m) @
     le_bytes 4 (m_nw_dst m) @ le_bytes 2 (m_tp_src m) @ le_bytes 2 (m_tp_dst m)"

lemma length_ofp_match_bytes [simp]: "length (ofp_match_bytes m) = 40"
  by (simp add: ofp_match_bytes_def)

text \<open>Loads step over a prefix whose length is known.\<close>

lemma ld_append:
  "ld8 (xs @ ys) (length xs + i) = ld8 ys i" "ld16 (xs @ ys) (length xs + i) = ld16 ys i"
  "ld32 (xs @ ys) (length xs + i) = ld32 ys i" "ld64 (xs @ ys) (length xs + i) = ld64 ys i"
  by (simp_all add: load_defs)

lemma ld_append_ge:
  "length xs \<le> i \<Longrightarrow> ld8 (xs @ ys) i = ld8 ys (i - length xs)"
  "length xs \<le> i \<Longrightarrow> ld16 (xs @ ys) i = ld16 ys (i - length xs)"
  "length xs \<le> i \<Longrightarrow> ld32 (xs @ ys) i = ld32 ys (i - length xs)"
  "length xs \<le> i \<Longrightarrow> ld64 (xs @ ys) i = ld64 ys (i - length xs)"
  by (simp_all add: load_defs)

lemma ld_le_bytes:
  "ld16 (le_bytes 2 x @ ys) 0 = x" "ld32 (le_bytes 4 y @ ys) 0 = y"
  "ld64 (le_bytes 8 z @ ys) 0 = z" "ld16 (le_bytes 2 x) 0 = x" "ld32 (le_bytes 4 y) 0 = y"
  by (simp_all add: load_defs le_word_full del: le_bytes.simps)

lemma ld8_Cons [simp]: "ld8 (b # ys) 0 = b" "ld8 (b # ys) (Suc i) = ld8 ys i"
  by (simp_all add: ld8_def)

lemma ld_Cons_numeral [simp]:
  "ld8 (b # ys) (numeral k) = ld8 ys (numeral k - 1)"
  "ld16 (b # ys) (numeral k) = ld16 ys (numeral k - 1)"
  "ld32 (b # ys) (numeral k) = ld32 ys (numeral k - 1)"
  by (simp_all add: load_defs drop_Cons')

lemma ld_Cons_Suc [simp]: "ld16 (b # ys) (Suc i) = ld16 ys i" "ld32 (b # ys) (Suc i) = ld32 ys i"
  by (simp_all add: load_defs)

lemma ea_at_bytes: "ea_at (ea_bytes a @ ys) 0 = a"
  by (cases a) (simp add: ea_at_def numeral_eq_Suc)

lemma ea_at_append_ge: "length xs \<le> i \<Longrightarrow> ea_at (xs @ ys) i = ea_at ys (i - length xs)"
  by (simp add: ea_at_def ld_append_ge Suc_diff_le)

lemma ofp_match_at_bytes: "ofp_match_at (ofp_match_bytes m @ rest) 0 = m"
  by (simp add: ofp_match_at_def ofp_match_bytes_def ld_append_ge ea_at_append_ge ld_le_bytes
      ea_at_bytes del: le_bytes.simps)

lemma ofp_match_at_append_ge:
  "length xs \<le> i \<Longrightarrow> ofp_match_at (xs @ ys) i = ofp_match_at ys (i - length xs)"
  by (simp add: ofp_match_at_def ld_append_ge ea_at_append_ge)

end
