(* ===== verification/OF_Buf.thy ===== *)
theory OF_Buf
  imports OF_Prelude
begin

text \<open>
  Packet buffers, \<open>lib/ofpbuf.c\<close>. An \<open>ofpbuf\<close> is an allocation of \<open>allocated\<close> bytes with
  \<open>headroom\<close> unused bytes before the bytes in use. The layer pointers \<open>l2\<close>, \<open>l3\<close>, \<open>l4\<close> and \<open>l7\<close>
  are offsets from the start of the allocation, \<open>None\<close> for a null pointer. Memory that the code
  obtains with \<open>ofpbuf_put_uninit\<close> or \<open>ofpbuf_push_uninit\<close> is filled by its caller at once; it
  reads as zero in between. Allocation goes through \<open>xmalloc\<close>, which does not return on failure.
\<close>

record ofpbuf =
  headroom :: nat
  data :: bytes
  allocated :: nat
  l2 :: "nat option"
  l3 :: "nat option"
  l4 :: "nat option"
  l7 :: "nat option"

definition size_of :: "ofpbuf \<Rightarrow> nat" where
  "size_of b = length (data b)"

definition ofpbuf_use :: "nat \<Rightarrow> ofpbuf" where
  "ofpbuf_use n = \<lparr>headroom = 0, data = [], allocated = n, l2 = None, l3 = None, l4 = None, l7 = None\<rparr>"

definition ofpbuf_init :: "nat \<Rightarrow> ofpbuf" where
  "ofpbuf_init n = ofpbuf_use n"

definition ofpbuf_new :: "nat \<Rightarrow> ofpbuf" where
  "ofpbuf_new n = ofpbuf_init n"

definition ofpbuf_headroom :: "ofpbuf \<Rightarrow> nat" where
  "ofpbuf_headroom b = headroom b"

text \<open>The end of the allocation is never before the tail of the data; see \<open>buf_wf\<close>.\<close>

definition ofpbuf_tailroom :: "ofpbuf \<Rightarrow> nat" where
  "ofpbuf_tailroom b = allocated b - (headroom b + size_of b)"

text \<open>
  Reallocation moves the base and every pointer by the same distance, so offsets from the base
  stay as they are and only the size of the allocation changes.
\<close>

definition ofpbuf_prealloc_tailroom :: "ofpbuf \<Rightarrow> nat \<Rightarrow> ofpbuf" where
  "ofpbuf_prealloc_tailroom b n =
     (if n > ofpbuf_tailroom b then b\<lparr>allocated := allocated b + max n 64\<rparr> else b)"

definition ofpbuf_prealloc_headroom :: "ofpbuf \<Rightarrow> nat \<Rightarrow> ofpbuf result" where
  "ofpbuf_prealloc_headroom b n = guardR (n \<le> ofpbuf_headroom b) Assertion (Ok b)"

definition ofpbuf_put_uninit :: "ofpbuf \<Rightarrow> nat \<Rightarrow> ofpbuf" where
  "ofpbuf_put_uninit b n =
     (let b = ofpbuf_prealloc_tailroom b n in b\<lparr>data := data b @ replicate n 0\<rparr>)"

definition ofpbuf_put_zeros :: "ofpbuf \<Rightarrow> nat \<Rightarrow> ofpbuf" where
  "ofpbuf_put_zeros b n = ofpbuf_put_uninit b n"

definition ofpbuf_put :: "ofpbuf \<Rightarrow> bytes \<Rightarrow> ofpbuf" where
  "ofpbuf_put b p =
     (let dst = size_of b; b = ofpbuf_put_uninit b (length p) in b\<lparr>data := overwrite (data b) dst p\<rparr>)"

definition ofpbuf_reserve :: "ofpbuf \<Rightarrow> nat \<Rightarrow> ofpbuf result" where
  "ofpbuf_reserve b n =
     guardR (size_of b = 0) Assertion
       (let b = ofpbuf_prealloc_tailroom b n in Ok (b\<lparr>headroom := headroom b + n\<rparr>))"

definition ofpbuf_push_uninit :: "ofpbuf \<Rightarrow> nat \<Rightarrow> ofpbuf result" where
  "ofpbuf_push_uninit b n =
     bindR (ofpbuf_prealloc_headroom b n)
       (\<lambda>b. Ok (b\<lparr>headroom := headroom b - n, data := replicate n 0 @ data b\<rparr>))"

definition ofpbuf_push :: "ofpbuf \<Rightarrow> bytes \<Rightarrow> ofpbuf result" where
  "ofpbuf_push b p =
     bindR (ofpbuf_push_uninit b (length p)) (\<lambda>b. Ok (b\<lparr>data := overwrite (data b) 0 p\<rparr>))"

definition ofpbuf_clone_data :: "bytes \<Rightarrow> ofpbuf" where
  "ofpbuf_clone_data d = ofpbuf_put (ofpbuf_new (length d)) d"

definition ofpbuf_clone :: "ofpbuf \<Rightarrow> ofpbuf" where
  "ofpbuf_clone b = ofpbuf_clone_data (data b)"

definition ofpbuf_at :: "ofpbuf \<Rightarrow> nat \<Rightarrow> nat \<Rightarrow> bytes option" where
  "ofpbuf_at b off n =
     (if off + n \<le> size_of b then Some (take n (drop off (data b))) else None)"

definition ofpbuf_clear :: "ofpbuf \<Rightarrow> ofpbuf" where
  "ofpbuf_clear b = b\<lparr>headroom := 0, data := []\<rparr>"

text \<open>\<open>pull\<close> is what \<open>ofpbuf_pull\<close> does once its assertion holds: the bytes removed and the rest.\<close>

definition pull :: "ofpbuf \<Rightarrow> nat \<Rightarrow> bytes \<times> ofpbuf" where
  "pull b n = (take n (data b), b\<lparr>headroom := headroom b + n, data := drop n (data b)\<rparr>)"

definition ofpbuf_pull :: "ofpbuf \<Rightarrow> nat \<Rightarrow> (bytes \<times> ofpbuf) result" where
  "ofpbuf_pull b n = guardR (n \<le> size_of b) Assertion (Ok (pull b n))"

definition ofpbuf_try_pull :: "ofpbuf \<Rightarrow> nat \<Rightarrow> (bytes \<times> ofpbuf) option" where
  "ofpbuf_try_pull b n = (if n \<le> size_of b then Some (pull b n) else None)"

section \<open>Access through a pointer\<close>

text \<open>
  Reading or writing \<open>n\<close> bytes at a pointer into the buffer. A null pointer and an access that
  leaves the bytes in use are failures.
\<close>

definition in_data :: "ofpbuf \<Rightarrow> nat \<Rightarrow> nat \<Rightarrow> bool" where
  "in_data b p n \<longleftrightarrow> headroom b \<le> p \<and> p + n \<le> headroom b + size_of b"

definition deref :: "ofpbuf \<Rightarrow> nat option \<Rightarrow> nat \<Rightarrow> nat result" where
  "deref b p n =
     (case p of None \<Rightarrow> Fail Bad_access
      | Some q \<Rightarrow> if in_data b q n then Ok (q - headroom b) else Fail Bad_access)"

section \<open>Invariant\<close>

definition buf_wf :: "ofpbuf \<Rightarrow> bool" where
  "buf_wf b \<longleftrightarrow> headroom b + size_of b \<le> allocated b"

named_theorems buf_defs \<open>definitions of the buffer operations\<close>

lemmas [buf_defs] = ofpbuf_use_def ofpbuf_init_def ofpbuf_new_def ofpbuf_headroom_def
  ofpbuf_tailroom_def ofpbuf_prealloc_tailroom_def ofpbuf_prealloc_headroom_def
  ofpbuf_put_uninit_def ofpbuf_put_zeros_def ofpbuf_put_def ofpbuf_reserve_def
  ofpbuf_push_uninit_def ofpbuf_push_def ofpbuf_clone_data_def ofpbuf_clone_def
  ofpbuf_clear_def pull_def ofpbuf_pull_def size_of_def Let_def

lemma data_ofpbuf_put [simp]: "data (ofpbuf_put b p) = data b @ p"
  by (simp add: buf_defs overwrite_def)

lemma headroom_ofpbuf_put [simp]: "headroom (ofpbuf_put b p) = headroom b"
  by (simp add: buf_defs)

lemma buf_wf_put_uninit: "buf_wf b \<Longrightarrow> buf_wf (ofpbuf_put_uninit b n)"
  by (auto simp: buf_wf_def buf_defs)

lemma buf_wf_put: "buf_wf b \<Longrightarrow> buf_wf (ofpbuf_put b p)"
  using buf_wf_put_uninit [of b "length p"]
  by (auto simp: buf_wf_def buf_defs overwrite_def)

lemma buf_wf_push: "buf_wf b \<Longrightarrow> ofpbuf_push b p = Ok b' \<Longrightarrow> buf_wf b'"
  by (auto simp: buf_wf_def buf_defs overwrite_def result_simps)

lemma buf_wf_pull: "buf_wf b \<Longrightarrow> ofpbuf_pull b n = Ok (h, b') \<Longrightarrow> buf_wf b'"
  by (auto simp: buf_wf_def buf_defs result_simps)

lemma clone_props [simp]:
  "data (ofpbuf_clone b) = data b" "headroom (ofpbuf_clone b) = 0"
  "l2 (ofpbuf_clone b) = None" "l3 (ofpbuf_clone b) = None"
  "l4 (ofpbuf_clone b) = None" "l7 (ofpbuf_clone b) = None"
  by (simp_all add: ofpbuf_clone_def ofpbuf_clone_data_def, simp_all add: buf_defs)

lemma buf_wf_clone: "buf_wf (ofpbuf_clone b)"
  unfolding ofpbuf_clone_def ofpbuf_clone_data_def
  by (rule buf_wf_put) (simp add: buf_wf_def buf_defs)

lemma push_uninit_Ok:
  "n \<le> headroom b \<Longrightarrow>
   ofpbuf_push_uninit b n = Ok (b\<lparr>headroom := headroom b - n, data := replicate n 0 @ data b\<rparr>)"
  by (simp add: buf_defs)

lemma push_uninit_Fail: "headroom b < n \<Longrightarrow> ofpbuf_push_uninit b n = Fail Assertion"
  by (simp add: buf_defs)

lemma pull_push:
  assumes "ofpbuf_push b p = Ok b'"
  shows "ofpbuf_pull b' (length p) = Ok (p, b)"
  using assms by (auto simp: buf_defs overwrite_def result_simps)

lemma try_pull_eq:
  "ofpbuf_try_pull b n = (case ofpbuf_pull b n of Ok r \<Rightarrow> Some r | Fail _ \<Rightarrow> None)"
  by (simp add: ofpbuf_try_pull_def ofpbuf_pull_def guardR_def)

lemma try_pull_Some [simp]:
  "ofpbuf_try_pull b n = Some r \<longleftrightarrow> n \<le> size_of b \<and> r = pull b n"
  by (auto simp: ofpbuf_try_pull_def)

lemma deref_Ok: "deref b p n = Ok i \<longleftrightarrow> (\<exists>q. p = Some q \<and> in_data b q n \<and> i = q - headroom b)"
  by (auto simp: deref_def split: option.splits if_splits)

lemma deref_bounds: "deref b p n = Ok i \<Longrightarrow> i + n \<le> length (data b)"
  by (auto simp: deref_Ok in_data_def size_of_def)

end
