(* ===== verification/OF_Flow.thy ===== *)
theory OF_Flow
  imports OF_Proto OF_Buf
begin

unbundle bit_operations_syntax

text \<open>
  Flow identification, \<open>lib/flow.h\<close> and \<open>lib/flow.c\<close>: \<open>struct flow\<close> with its 36-byte memory image
  and bytewise comparison, the header parser \<open>flow_extract\<close> and \<open>flow_fill_match\<close>. As in the
  program, the multi-byte fields of a flow hold values in network byte order.
\<close>

section \<open>struct flow\<close>

record flow =
  nw_src :: u32
  nw_dst :: u32
  in_port :: u16
  dl_vlan :: u16
  dl_type :: u16
  tp_src :: u16
  tp_dst :: u16
  dl_src :: eth_addr
  dl_dst :: eth_addr
  dl_vlan_pcp :: u8
  nw_tos :: u8
  nw_proto :: u8
  pad :: "u8 \<times> u8 \<times> u8"

definition zero_flow :: flow where
  "zero_flow = \<lparr>nw_src = 0, nw_dst = 0, in_port = 0, dl_vlan = 0, dl_type = 0, tp_src = 0,
     tp_dst = 0, dl_src = EA 0 0 0 0 0 0, dl_dst = EA 0 0 0 0 0 0, dl_vlan_pcp = 0,
     nw_tos = 0, nw_proto = 0, pad = (0, 0, 0)\<rparr>"

definition flow_bytes :: "flow \<Rightarrow> bytes" where
  "flow_bytes f =
     le_bytes 4 (nw_src f) @ le_bytes 4 (nw_dst f) @ le_bytes 2 (in_port f) @
     le_bytes 2 (dl_vlan f) @ le_bytes 2 (dl_type f) @ le_bytes 2 (tp_src f) @
     le_bytes 2 (tp_dst f) @ ea_bytes (dl_src f) @ ea_bytes (dl_dst f) @
     [dl_vlan_pcp f, nw_tos f, nw_proto f] @ (case pad f of (a, b, c) \<Rightarrow> [a, b, c])"

definition flow_compare :: "flow \<Rightarrow> flow \<Rightarrow> int" where
  "flow_compare a b = memcmp (flow_bytes a) (flow_bytes b)"

definition flow_equal :: "flow \<Rightarrow> flow \<Rightarrow> bool" where
  "flow_equal a b \<longleftrightarrow> \<not> flow_compare a b \<noteq> 0"

section \<open>Header parsing: flow_extract\<close>

definition pull_arp :: "ofpbuf \<Rightarrow> (bytes \<times> ofpbuf) option" where
  "pull_arp b = (if size_of b \<ge> ARP_ETH_HEADER_LEN then Some (pull b ARP_ETH_HEADER_LEN) else None)"

definition pull_ip :: "ofpbuf \<Rightarrow> (bytes \<times> ofpbuf) option" where
  "pull_ip b =
     (if size_of b \<ge> IP_HEADER_LEN then
        let ip_len = unat (ld8 (data b) 0 AND 15) * 4
        in if ip_len \<ge> IP_HEADER_LEN \<and> size_of b \<ge> ip_len then Some (pull b ip_len) else None
      else None)"

definition pull_tcp :: "ofpbuf \<Rightarrow> (bytes \<times> ofpbuf) option" where
  "pull_tcp b =
     (if size_of b \<ge> TCP_HEADER_LEN then
        let tcp_len = unat (drop_bit 12 (htons (ld16 (data b) 12))) * 4
        in if tcp_len \<ge> TCP_HEADER_LEN \<and> size_of b \<ge> tcp_len then Some (pull b tcp_len) else None
      else None)"

definition pull_udp :: "ofpbuf \<Rightarrow> (bytes \<times> ofpbuf) option" where
  "pull_udp b = ofpbuf_try_pull b UDP_HEADER_LEN"

definition pull_icmp :: "ofpbuf \<Rightarrow> (bytes \<times> ofpbuf) option" where
  "pull_icmp b = ofpbuf_try_pull b ICMP_HEADER_LEN"

definition pull_eth :: "ofpbuf \<Rightarrow> (bytes \<times> ofpbuf) option" where
  "pull_eth b = ofpbuf_try_pull b ETH_HEADER_LEN"

definition pull_vlan :: "ofpbuf \<Rightarrow> (bytes \<times> ofpbuf) option" where
  "pull_vlan b = ofpbuf_try_pull b VLAN_HEADER_LEN"

text \<open>
  The frame type of an Ethernet II or 802.2 frame, with what is left of the packet; \<open>None\<close> is the
  early return on a frame too short for its LLC header.
\<close>

definition extract_dl_type :: "bytes \<Rightarrow> ofpbuf \<Rightarrow> (u16 \<times> ofpbuf) option" where
  "extract_dl_type eth b =
     (if ntohs (ld16 eth 12) \<ge> OFP_DL_TYPE_ETH2_CUTOFF then Some (ld16 eth 12, b)
      else case ofpbuf_at b 0 LLC_HEADER_LEN of
        None \<Rightarrow> None
      | Some llc \<Rightarrow>
          (case ofpbuf_at b LLC_HEADER_LEN SNAP_HEADER_LEN of
             Some snap \<Rightarrow>
               if ld8 llc 0 = 0xaa \<and> ld8 llc 1 = 0xaa \<and> ld8 llc 2 = 3 \<and> take 3 snap = [0, 0, 0]
               then Some (ld16 snap 3, snd (pull b LLC_SNAP_HEADER_LEN))
               else Some (htons OFP_DL_TYPE_NOT_ETH_TYPE, snd (pull b LLC_HEADER_LEN))
           | None \<Rightarrow> Some (htons OFP_DL_TYPE_NOT_ETH_TYPE, snd (pull b LLC_HEADER_LEN))))"

definition extract_vlan :: "flow \<Rightarrow> ofpbuf \<Rightarrow> flow \<times> ofpbuf" where
  "extract_vlan flow b =
     (if dl_type flow = htons ETH_TYPE_VLAN then
        case pull_vlan b of
          Some (vh, b) \<Rightarrow>
            (flow\<lparr>dl_type := ld16 vh 2, dl_vlan := ld16 vh 0 AND htons VLAN_VID_MASK,
               dl_vlan_pcp := ucast (drop_bit VLAN_PCP_SHIFT (ntohs (ld16 vh 0)) AND VLAN_PCP_BITMASK)\<rparr>, b)
        | None \<Rightarrow> (flow, b)
      else (flow, b))"

definition extract_l4 :: "bytes \<Rightarrow> ofpbuf \<Rightarrow> flow \<Rightarrow> ofpbuf \<Rightarrow> int \<times> flow \<times> ofpbuf" where
  "extract_l4 nh b flow packet =
     (if \<not> IP_IS_FRAGMENT (ld16 nh 6) then
        if nw_proto flow = IP_TYPE_TCP then
          (case pull_tcp b of
             Some (tcp, b) \<Rightarrow> (0, flow\<lparr>tp_src := ld16 tcp 0, tp_dst := ld16 tcp 2\<rparr>,
                                packet\<lparr>l7 := Some (headroom b)\<rparr>)
           | None \<Rightarrow> (0, flow\<lparr>nw_proto := 0\<rparr>, packet))
        else if nw_proto flow = IP_TYPE_UDP then
          (case pull_udp b of
             Some (udp, b) \<Rightarrow> (0, flow\<lparr>tp_src := ld16 udp 0, tp_dst := ld16 udp 2\<rparr>,
                                packet\<lparr>l7 := Some (headroom b)\<rparr>)
           | None \<Rightarrow> (0, flow\<lparr>nw_proto := 0\<rparr>, packet))
        else if nw_proto flow = IP_TYPE_ICMP then
          (case pull_icmp b of
             Some (icmp, b) \<Rightarrow> (0, flow\<lparr>tp_src := htons (ucast (ld8 icmp 0)),
                                         tp_dst := htons (ucast (ld8 icmp 1))\<rparr>,
                                 packet\<lparr>l7 := Some (headroom b)\<rparr>)
           | None \<Rightarrow> (0, flow\<lparr>nw_proto := 0\<rparr>, packet))
        else (0, flow, packet)
      else (1, flow, packet))"

definition extract_nw :: "ofpbuf \<Rightarrow> flow \<Rightarrow> ofpbuf \<Rightarrow> int \<times> flow \<times> ofpbuf" where
  "extract_nw b flow packet =
     (if dl_type flow = htons ETH_TYPE_IP then
        (case pull_ip b of
           Some (nh, b) \<Rightarrow>
             extract_l4 nh b
               (flow\<lparr>nw_tos := ld8 nh 1 AND 0xfc, nw_proto := ld8 nh 9,
                  nw_src := ld32 nh 12, nw_dst := ld32 nh 16\<rparr>)
               (packet\<lparr>l4 := Some (headroom b)\<rparr>)
         | None \<Rightarrow> (0, flow, packet))
      else if dl_type flow = htons ETH_TYPE_ARP then
        (case pull_arp b of
           Some (arp, _) \<Rightarrow>
             let flow = (if ld16 arp 2 = htons ARP_PRO_IP \<and> ld8 arp 5 = 4
                         then flow\<lparr>nw_src := ld32 arp 14, nw_dst := ld32 arp 24\<rparr> else flow)
             in (0, flow\<lparr>nw_proto := ucast (ntohs (ld16 arp 6) AND 0xff)\<rparr>, packet)
         | None \<Rightarrow> (0, flow, packet))
      else (0, flow, packet))"

text \<open>The result is the return value (1 for a fragment), the flow and the packet with its layer pointers.\<close>

definition flow_extract :: "ofpbuf \<Rightarrow> u16 \<Rightarrow> int \<times> flow \<times> ofpbuf" where
  "flow_extract packet port =
     (let b = packet;
          flow = zero_flow\<lparr>dl_vlan := htons OFP_VLAN_NONE, in_port := htons port\<rparr>;
          packet = packet\<lparr>l2 := Some (headroom b), l3 := None, l4 := None, l7 := None\<rparr>
      in case pull_eth b of
           None \<Rightarrow> (0, flow, packet)
         | Some (eth, b) \<Rightarrow>
             (case extract_dl_type eth b of
                None \<Rightarrow> (0, flow, packet)
              | Some (ty, b) \<Rightarrow>
                  let (flow, b) = extract_vlan (flow\<lparr>dl_type := ty\<rparr>) b;
                      flow = flow\<lparr>dl_src := ea_at eth 6, dl_dst := ea_at eth 0\<rparr>;
                      packet = packet\<lparr>l3 := Some (headroom b)\<rparr>
                  in extract_nw b flow packet))"

definition flow_fill_match :: "flow \<Rightarrow> u32 \<Rightarrow> ofp_match" where
  "flow_fill_match from wildcards =
     \<lparr>m_wildcards = htonl wildcards, m_in_port = in_port from, m_dl_src = dl_src from,
      m_dl_dst = dl_dst from, m_dl_vlan = dl_vlan from, m_dl_vlan_pcp = dl_vlan_pcp from,
      m_dl_type = dl_type from, m_nw_tos = nw_tos from, m_nw_proto = nw_proto from,
      m_nw_src = nw_src from, m_nw_dst = nw_dst from, m_tp_src = tp_src from,
      m_tp_dst = tp_dst from\<rparr>"

section \<open>The memory image identifies a flow\<close>

lemma length_flow_bytes [simp]: "length (flow_bytes f) = 36"
  by (simp add: flow_bytes_def split: prod.splits)

lemma flow_bytes_inject [simp]: "flow_bytes a = flow_bytes b \<longleftrightarrow> a = b"
proof
  assume "flow_bytes a = flow_bytes b"
  then show "a = b"
    by (cases a; cases b) (auto simp: flow_bytes_def le_bytes_inject simp del: le_bytes.simps
        split: prod.splits)
qed simp

lemma flow_compare_eq_0 [simp]: "flow_compare a b = 0 \<longleftrightarrow> a = b"
  by (simp add: flow_compare_def memcmp_eq_0)

lemma flow_equal_iff [simp]: "flow_equal a b \<longleftrightarrow> a = b"
  by (simp add: flow_equal_def)

section \<open>What flow_extract establishes\<close>

lemmas extract_defs = extract_dl_type_def extract_vlan_def extract_l4_def extract_nw_def

lemmas pull_defs = pull_arp_def pull_ip_def pull_tcp_def pull_udp_def pull_icmp_def pull_eth_def
  pull_vlan_def ofpbuf_try_pull_def

text \<open>
  A flow is canonical when the fields that its frame type and protocol leave undefined are zero,
  the two low bits of the type of service are zero and the padding is zero.
\<close>

definition canonical_flow :: "flow \<Rightarrow> bool" where
  "canonical_flow f \<longleftrightarrow>
     pad f = (0, 0, 0) \<and> nw_tos f AND 0xfc = nw_tos f \<and>
     (dl_type f \<noteq> htons ETH_TYPE_IP \<longrightarrow> nw_tos f = 0 \<and> tp_src f = 0 \<and> tp_dst f = 0) \<and>
     (dl_type f \<noteq> htons ETH_TYPE_IP \<and> dl_type f \<noteq> htons ETH_TYPE_ARP \<longrightarrow>
        nw_proto f = 0 \<and> nw_src f = 0 \<and> nw_dst f = 0) \<and>
     (nw_proto f \<notin> {IP_TYPE_TCP, IP_TYPE_UDP, IP_TYPE_ICMP} \<longrightarrow> tp_src f = 0 \<and> tp_dst f = 0)"

lemma and_fc_idem: "(x :: u8) AND 0xfc AND 0xfc = x AND 0xfc"
  by (rule bit_word_eqI) (auto simp: bit_simps)

lemma htons_types_neq [simp]: "htons ETH_TYPE_IP \<noteq> htons ETH_TYPE_ARP"
  "htons ETH_TYPE_ARP \<noteq> htons ETH_TYPE_IP"
  by simp_all

lemma extract_l4_canonical:
  assumes "extract_l4 nh b f p = (r, f', p')" and "dl_type f = htons ETH_TYPE_IP"
    and "nw_tos f AND 0xfc = nw_tos f" and "pad f = (0, 0, 0)" and "tp_src f = 0" "tp_dst f = 0"
  shows "canonical_flow f'"
  using assms unfolding canonical_flow_def extract_l4_def
  by (auto split: if_splits option.splits prod.splits)

lemma canonical_flow_zero:
  "nw_tos f = 0 \<Longrightarrow> pad f = (0, 0, 0) \<Longrightarrow> tp_src f = 0 \<Longrightarrow> tp_dst f = 0 \<Longrightarrow>
   nw_proto f = 0 \<Longrightarrow> nw_src f = 0 \<Longrightarrow> nw_dst f = 0 \<Longrightarrow> canonical_flow f"
  by (simp add: canonical_flow_def)

lemma extract_nw_canonical:
  assumes "extract_nw b f p = (r, f', p')"
    and zero: "nw_tos f = 0" "pad f = (0, 0, 0)" "tp_src f = 0" "tp_dst f = 0"
      "nw_proto f = 0" "nw_src f = 0" "nw_dst f = 0"
  shows "canonical_flow f'"
proof (cases "dl_type f = htons ETH_TYPE_IP")
  case True
  then show ?thesis
    using assms by (auto simp: extract_nw_def and_fc_idem canonical_flow_zero
        split: option.splits elim!: extract_l4_canonical)
next
  case False
  then show ?thesis
    using assms by (auto simp: extract_nw_def canonical_flow_def Let_def
        split: if_splits option.splits prod.splits)
qed

lemma extract_vlan_frame:
  assumes "extract_vlan f b = (f', b')"
  shows "nw_tos f' = nw_tos f \<and> pad f' = pad f \<and> tp_src f' = tp_src f \<and> tp_dst f' = tp_dst f \<and>
    nw_proto f' = nw_proto f \<and> nw_src f' = nw_src f \<and> nw_dst f' = nw_dst f \<and> in_port f' = in_port f"
  using assms by (auto simp: extract_vlan_def split: if_splits option.splits prod.splits)

lemma flow_extract_canonical:
  assumes "flow_extract packet port = (r, f, p)"
  shows "canonical_flow f"
proof -
  have z: "canonical_flow (zero_flow\<lparr>dl_vlan := v, in_port := q\<rparr>)" for v q
    by (simp add: zero_flow_def canonical_flow_zero)
  show ?thesis
    using assms z unfolding flow_extract_def Let_def
    by (auto split: option.splits prod.splits elim!: extract_nw_canonical
        dest!: extract_vlan_frame simp: zero_flow_def)
qed

text \<open>
  The parser works on suffixes of the packet: \<open>within b p\<close> says that the copy \<open>b\<close> has been
  advanced but still ends where the packet ends.
\<close>

definition within :: "ofpbuf \<Rightarrow> ofpbuf \<Rightarrow> bool" where
  "within b p \<longleftrightarrow> headroom p \<le> headroom b \<and> headroom b + size_of b = headroom p + size_of p \<and>
     data b = drop (headroom b - headroom p) (data p)"

lemma within_refl [simp]: "within b b"
  by (simp add: within_def)

lemma within_pull: "n \<le> size_of b \<Longrightarrow> within b p \<Longrightarrow> within (snd (pull b n)) p"
  by (auto simp: within_def pull_def size_of_def add.commute)

lemma pull_Some_bounds:
  "pull_eth b = Some (h, b') \<Longrightarrow> 14 \<le> size_of b \<and> (h, b') = pull b 14"
  "pull_vlan b = Some (h, b') \<Longrightarrow> 4 \<le> size_of b \<and> (h, b') = pull b 4"
  "pull_udp b = Some (h, b') \<Longrightarrow> 8 \<le> size_of b \<and> (h, b') = pull b 8"
  "pull_icmp b = Some (h, b') \<Longrightarrow> 4 \<le> size_of b \<and> (h, b') = pull b 4"
  "pull_arp b = Some (h, b') \<Longrightarrow> 28 \<le> size_of b \<and> (h, b') = pull b 28"
  by (auto simp: pull_defs Let_def split: if_splits)

lemma pull_ip_tcp_bounds:
  "pull_ip b = Some (h, b') \<Longrightarrow> \<exists>n\<ge>20. n \<le> size_of b \<and> (h, b') = pull b n"
  "pull_tcp b = Some (h, b') \<Longrightarrow> \<exists>n\<ge>20. n \<le> size_of b \<and> (h, b') = pull b n"
  unfolding pull_ip_def pull_tcp_def Let_def
  by (metis option.distinct(1) option.inject)+

lemma within_pull': "(h, b') = pull b n \<Longrightarrow> n \<le> size_of b \<Longrightarrow> within b p \<Longrightarrow> within b' p"
  using within_pull [of n b p] by (simp add: pull_def)

lemma extract_dl_type_within:
  "extract_dl_type eth b = Some (ty, b') \<Longrightarrow> within b p \<Longrightarrow> within b' p"
  by (auto simp: extract_dl_type_def ofpbuf_at_def within_pull split: if_splits option.splits)

lemma extract_vlan_within: "extract_vlan f b = (f', b') \<Longrightarrow> within b p \<Longrightarrow> within b' p"
  by (auto simp: extract_vlan_def split: if_splits option.splits prod.splits
      dest!: pull_Some_bounds(2) elim: within_pull')

text \<open>
  The layer pointers of a parsed packet. The headers that the pointers stand for are complete: the
  transport header follows an IP header of the length that header gives, and the payload follows a
  transport header of the length that a TCP header gives or of the fixed length of a UDP or ICMP
  header.
\<close>

definition bytes_at :: "ofpbuf \<Rightarrow> nat \<Rightarrow> bytes" where
  "bytes_at p q = drop (q - headroom p) (data p)"

definition ip_len_at :: "ofpbuf \<Rightarrow> nat \<Rightarrow> nat" where
  "ip_len_at p q = 4 * unat (ld8 (bytes_at p q) 0 AND 15)"

definition tcp_len_at :: "ofpbuf \<Rightarrow> nat \<Rightarrow> nat" where
  "tcp_len_at p q = 4 * unat (drop_bit 12 (ntohs (ld16 (bytes_at p q) 12)))"

definition l4_len :: "flow \<Rightarrow> ofpbuf \<Rightarrow> nat \<Rightarrow> nat" where
  "l4_len f p q = (if nw_proto f = IP_TYPE_TCP then tcp_len_at p q else if nw_proto f = IP_TYPE_UDP then 8 else 4)"

definition layers_ok :: "int \<Rightarrow> flow \<Rightarrow> ofpbuf \<Rightarrow> bool" where
  "layers_ok r f p \<longleftrightarrow>
     l2 p = Some (headroom p) \<and>
     (\<forall>q. l3 p = Some q \<longrightarrow> in_data p q 0) \<and>
     (\<forall>q. l4 p = Some q \<longrightarrow> in_data p q 0 \<and>
        (\<exists>i. l3 p = Some i \<and> 20 \<le> ip_len_at p i \<and> q = i + ip_len_at p i)) \<and>
     (dl_type f = htons ETH_TYPE_IP \<and> nw_proto f \<noteq> 0 \<longrightarrow> l4 p \<noteq> None) \<and>
     (l7 p \<noteq> None \<longleftrightarrow> dl_type f = htons ETH_TYPE_IP \<and> r = 0 \<and> nw_proto f \<in> {IP_TYPE_TCP, IP_TYPE_UDP, IP_TYPE_ICMP}) \<and>
     (\<forall>q. l7 p = Some q \<longrightarrow> (\<exists>i. l4 p = Some i \<and> q = i + l4_len f p i \<and> in_data p i (l4_len f p i))) \<and>
     (\<forall>q. l7 p = Some q \<and> nw_proto f = IP_TYPE_TCP \<longrightarrow> (\<exists>i. l4 p = Some i \<and> 20 \<le> tcp_len_at p i))"

definition same_data :: "ofpbuf \<Rightarrow> ofpbuf \<Rightarrow> bool" where
  "same_data p p' \<longleftrightarrow> data p' = data p \<and> headroom p' = headroom p \<and> allocated p' = allocated p"

lemma within_bytes_at: "within b p \<Longrightarrow> data b = bytes_at p (headroom b)"
  by (simp add: within_def bytes_at_def)

lemma pull_lens:
  "pull_ip b = Some (h, b') \<Longrightarrow> within b p \<Longrightarrow> 20 \<le> ip_len_at p (headroom b) \<and> ip_len_at p (headroom b) \<le> size_of b \<and>
     (h, b') = pull b (ip_len_at p (headroom b))"
  "pull_tcp b = Some (h, b') \<Longrightarrow> within b p \<Longrightarrow> 20 \<le> tcp_len_at p (headroom b) \<and> tcp_len_at p (headroom b) \<le> size_of b \<and>
     (h, b') = pull b (tcp_len_at p (headroom b))"
  by (simp_all add: pull_ip_def pull_tcp_def Let_def within_bytes_at ip_len_at_def tcp_len_at_def ntohs_def htons_def mult.commute split: if_splits)

lemma in_data_within: "within b p \<Longrightarrow> in_data p (headroom b) n \<longleftrightarrow> n \<le> size_of b"
  by (auto simp: within_def in_data_def)

lemma layers_upd [simp]: "in_data (p\<lparr>l4 := x\<rparr>) = in_data p" "in_data (p\<lparr>l7 := x\<rparr>) = in_data p"
  "ip_len_at (p\<lparr>l4 := x\<rparr>) = ip_len_at p" "ip_len_at (p\<lparr>l7 := x\<rparr>) = ip_len_at p"
  "tcp_len_at (p\<lparr>l4 := x\<rparr>) = tcp_len_at p" "tcp_len_at (p\<lparr>l7 := x\<rparr>) = tcp_len_at p"
  "within b (p\<lparr>l4 := x\<rparr>) = within b p"
  by (simp_all add: fun_eq_iff in_data_def size_of_def ip_len_at_def tcp_len_at_def bytes_at_def within_def)

lemma extract_l4_layers:
  assumes "extract_l4 nh b f p = (r, f', p')" and w: "within b p"
    and "l2 p = Some (headroom p)" "l3 p = Some i" "in_data p i 0" "20 \<le> ip_len_at p i" "headroom b = i + ip_len_at p i"
    and "l4 p = Some (headroom b)" "l7 p = None" "dl_type f = htons ETH_TYPE_IP"
  shows "layers_ok r f' p' \<and> same_data p p' \<and> in_port f' = in_port f"
proof -
  note b = in_data_within [OF w]
  have u: "pull_udp b = Some x \<Longrightarrow> 8 \<le> size_of b \<and> headroom (snd x) = headroom b + 8"
    "pull_icmp b = Some x \<Longrightarrow> 4 \<le> size_of b \<and> headroom (snd x) = headroom b + 4" for x
    by (cases x; auto simp: pull_def dest: pull_Some_bounds(3,4))+
  have t: "pull_tcp b = Some x \<Longrightarrow> 20 \<le> tcp_len_at p (headroom b) \<and> tcp_len_at p (headroom b) \<le> size_of b \<and>
     headroom (snd x) = headroom b + tcp_len_at p (headroom b)" for x
    using pull_lens(2) [OF _ w, of "fst x" "snd x"] by (cases x) (auto simp: pull_def)
  show ?thesis
    using assms b t u unfolding extract_l4_def
    by (auto simp: layers_ok_def same_data_def l4_len_def split: if_splits option.splits prod.splits)
qed

lemma extract_nw_layers:
  assumes "extract_nw b f p = (r, f', p')" and w: "within b p"
    and "l2 p = Some (headroom p)" "l3 p = Some (headroom b)" "l4 p = None" "l7 p = None"
    and z: "nw_proto f = 0"
  shows "layers_ok r f' p' \<and> same_data p p' \<and> in_port f' = in_port f"
proof (cases "dl_type f = htons ETH_TYPE_IP \<and> pull_ip b \<noteq> None")
  case True
  then obtain nh b2 where ip1: "pull_ip b = Some (nh, b2)" by (cases "pull_ip b") auto
  then have ip: "20 \<le> ip_len_at p (headroom b)" "ip_len_at p (headroom b) \<le> size_of b" "(nh, b2) = pull b (ip_len_at p (headroom b))"
    using pull_lens(1) [OF ip1 w] by simp_all
  then have w2: "within b2 (p\<lparr>l4 := Some (headroom b2)\<rparr>)" and h: "headroom b2 = headroom b + ip_len_at p (headroom b)"
    using within_pull' [OF ip(3,2) w] by (simp_all add: pull_def)
  have i3: "in_data p (headroom b) 0" using in_data_within [OF w] by simp
  from True ip1 assms(1) have "extract_l4 nh b2
      (f\<lparr>nw_tos := ld8 nh 1 AND 0xfc, nw_proto := ld8 nh 9, nw_src := ld32 nh 12, nw_dst := ld32 nh 16\<rparr>)
      (p\<lparr>l4 := Some (headroom b2)\<rparr>) = (r, f', p')"
    by (simp add: extract_nw_def)
  from extract_l4_layers [OF this w2, of "headroom b"] show ?thesis
    using assms(3-6) True h ip i3 by (simp add: same_data_def)
next
  case False
  with assms(1) have "p' = p" "in_port f' = in_port f"
    "dl_type f' = htons ETH_TYPE_IP \<Longrightarrow> nw_proto f' = 0"
    using z by (auto simp: extract_nw_def Let_def split: if_splits option.splits prod.splits)
  moreover have "in_data p (headroom b) 0"
    using w by (simp add: within_def in_data_def)
  ultimately show ?thesis
    using assms(3-6) by (auto simp: layers_ok_def same_data_def)
qed

lemma flow_extract_layers:
  assumes "flow_extract packet port = (r, f, p)"
  shows "layers_ok r f p \<and> same_data packet p \<and> in_port f = htons port"
proof (cases "pull_eth packet")
  case None
  then show ?thesis
    using assms by (auto simp: flow_extract_def Let_def layers_ok_def same_data_def zero_flow_def)
next
  case (Some hb)
  then obtain eth b where eth: "pull_eth packet = Some (eth, b)" by (cases hb) auto
  show ?thesis
  proof (cases "extract_dl_type eth b")
    case None
    with eth show ?thesis
      using assms by (auto simp: flow_extract_def Let_def layers_ok_def same_data_def zero_flow_def)
  next
    case (Some tb)
    then obtain ty b1 where ty: "extract_dl_type eth b = Some (ty, b1)" by (cases tb) auto
    let ?f0 = "zero_flow\<lparr>dl_vlan := htons OFP_VLAN_NONE, in_port := htons port, dl_type := ty\<rparr>"
    obtain f2 b2 where v: "extract_vlan ?f0 b1 = (f2, b2)" by fastforce
    let ?p = "packet\<lparr>l2 := Some (headroom packet), l4 := None, l7 := None, l3 := Some (headroom b2)\<rparr>"
    have "within b packet"
      using pull_Some_bounds(1) [OF eth] within_pull' by auto
    then have "within b2 packet"
      using extract_dl_type_within [OF ty] extract_vlan_within [OF v] by blast
    then have w: "within b2 ?p" by (simp add: within_def size_of_def)
    have "extract_nw b2 (f2\<lparr>dl_src := ea_at eth 6, dl_dst := ea_at eth 0\<rparr>) ?p = (r, f, p)"
      using assms eth ty v by (simp add: flow_extract_def Let_def)
    from extract_nw_layers [OF this w] extract_vlan_frame [OF v] show ?thesis
      by (simp add: zero_flow_def same_data_def)
  qed
qed

end
