(* ===== verification/OF_Switch_Flow.thy ===== *)
theory OF_Switch_Flow
  imports OF_Flow
begin

unbundle bit_operations_syntax

text \<open>
  Flow entries, \<open>udatapath/switch-flow.h\<close> and \<open>udatapath/switch-flow.c\<close>: keys with wildcards, the
  matching predicates, normalisation of a match description, entries with their counters and
  timeouts, and the scan of an action list for an output port.
\<close>

section \<open>Keys and matching\<close>

record sw_flow_key =
  kflow :: flow
  wildcards :: u32
  nw_src_mask :: u32
  nw_dst_mask :: u32

abbreviation wild :: "u32 \<Rightarrow> u32 \<Rightarrow> bool" where
  "wild w fw \<equiv> w AND fw \<noteq> 0"

definition flow_fields_match :: "flow \<Rightarrow> flow \<Rightarrow> u32 \<Rightarrow> u32 \<Rightarrow> u32 \<Rightarrow> bool" where
  "flow_fields_match a b w src_mask dst_mask \<longleftrightarrow>
     (wild w OFPFW_IN_PORT \<or> in_port a = in_port b) \<and>
     (wild w OFPFW_DL_VLAN \<or> dl_vlan a = dl_vlan b) \<and>
     (wild w OFPFW_DL_VLAN_PCP \<or> dl_vlan_pcp a = dl_vlan_pcp b) \<and>
     (wild w OFPFW_DL_SRC \<or> eth_addr_equals (dl_src a) (dl_src b)) \<and>
     (wild w OFPFW_DL_DST \<or> eth_addr_equals (dl_dst a) (dl_dst b)) \<and>
     (wild w OFPFW_DL_TYPE \<or> dl_type a = dl_type b) \<and>
     (wild w OFPFW_NW_TOS \<or> nw_tos a = nw_tos b) \<and>
     (wild w OFPFW_NW_PROTO \<or> nw_proto a = nw_proto b) \<and>
     (nw_src a XOR nw_src b) AND src_mask = 0 \<and>
     (nw_dst a XOR nw_dst b) AND dst_mask = 0 \<and>
     (wild w OFPFW_TP_SRC \<or> tp_src a = tp_src b) \<and>
     (wild w OFPFW_TP_DST \<or> tp_dst a = tp_dst b)"

definition make_nw_mask :: "u32 \<Rightarrow> u32" where
  "make_nw_mask n_wild_bits =
     (let n = n_wild_bits AND (push_bit OFPFW_NW_SRC_BITS 1 - 1)
      in if n < 32 then htonl (NOT (push_bit (unat n) 1 - 1)) else 0)"

definition flow_matches_1wild :: "sw_flow_key \<Rightarrow> sw_flow_key \<Rightarrow> bool" where
  "flow_matches_1wild a b \<longleftrightarrow>
     flow_fields_match (kflow a) (kflow b) (wildcards b) (nw_src_mask b) (nw_dst_mask b)"

definition flow_matches_2wild :: "sw_flow_key \<Rightarrow> sw_flow_key \<Rightarrow> bool" where
  "flow_matches_2wild a b \<longleftrightarrow>
     flow_fields_match (kflow a) (kflow b) (wildcards a OR wildcards b)
       (nw_src_mask a AND nw_src_mask b) (nw_dst_mask a AND nw_dst_mask b)"

definition flow_matches_desc :: "sw_flow_key \<Rightarrow> sw_flow_key \<Rightarrow> bool \<Rightarrow> bool" where
  "flow_matches_desc t d strict \<longleftrightarrow>
     (if strict \<and> wildcards d \<noteq> wildcards t then False else flow_matches_1wild t d)"

definition flow_matches_2desc :: "sw_flow_key \<Rightarrow> sw_flow_key \<Rightarrow> bool \<Rightarrow> bool" where
  "flow_matches_2desc t d strict \<longleftrightarrow>
     (if strict \<and> wildcards d \<noteq> wildcards t then False else flow_matches_2wild t d)"

section \<open>Normalising a match description\<close>

abbreviation (input) OFPFW_TP :: u32 where
  "OFPFW_TP \<equiv> OFPFW_TP_SRC OR OFPFW_TP_DST"

abbreviation (input) OFPFW_NW :: u32 where
  "OFPFW_NW \<equiv> OFPFW_NW_TOS OR OFPFW_NW_PROTO OR OFPFW_NW_SRC_MASK OR OFPFW_NW_DST_MASK"

definition flow_extract_match :: "ofp_match \<Rightarrow> sw_flow_key" where
  "flow_extract_match from =
     (let w = ntohl (m_wildcards from) AND OFPFW_ALL;
          f = \<lparr>nw_src = 0, nw_dst = 0, in_port = m_in_port from, dl_vlan = m_dl_vlan from,
               dl_type = m_dl_type from, tp_src = 0, tp_dst = 0, dl_src = m_dl_src from,
               dl_dst = m_dl_dst from, dl_vlan_pcp = m_dl_vlan_pcp from, nw_tos = 0,
               nw_proto = 0, pad = (0, 0, 0)\<rparr>;
          (w, f) =
            (if wild w OFPFW_DL_TYPE then (w OR (OFPFW_NW OR OFPFW_TP), f)
             else if m_dl_type from = htons ETH_TYPE_IP then
               let f = f\<lparr>nw_tos := m_nw_tos from AND 0xfc, nw_proto := m_nw_proto from,
                         nw_src := m_nw_src from, nw_dst := m_nw_dst from\<rparr>
               in if wild w OFPFW_NW_PROTO then (w OR OFPFW_TP, f)
                  else if m_nw_proto from = IP_TYPE_TCP \<or> m_nw_proto from = IP_TYPE_UDP
                          \<or> m_nw_proto from = IP_TYPE_ICMP
                  then (w, f\<lparr>tp_src := m_tp_src from, tp_dst := m_tp_dst from\<rparr>)
                  else (w AND NOT OFPFW_TP, f)
             else if m_dl_type from = htons ETH_TYPE_ARP then
               (w AND NOT OFPFW_TP,
                f\<lparr>nw_src := m_nw_src from, nw_dst := m_nw_dst from, nw_proto := m_nw_proto from\<rparr>)
             else (w AND NOT (OFPFW_NW OR OFPFW_TP), f))
      in \<lparr>kflow = f, wildcards = w,
          nw_src_mask = make_nw_mask (drop_bit OFPFW_NW_SRC_SHIFT w),
          nw_dst_mask = make_nw_mask (drop_bit OFPFW_NW_DST_SHIFT w)\<rparr>)"

section \<open>Flow entries\<close>

text \<open>
  \<open>struct sw_flow\<close>. The action block \<open>sf_acts\<close> is its bytes; \<open>actions_len\<close> is their number. The list
  links of an entry are the position it has in the table that holds it, and \<open>serial\<close> is the number
  the linear table gives it. An allocator says for each size whether an allocation succeeds.
  A request that replaces the actions of several entries allocates once for each of them, so there
  each entry has an allocator of its own.
\<close>

record sw_flow =
  key :: sw_flow_key
  cookie :: u64
  priority :: u16
  idle_timeout :: u16
  hard_timeout :: u16
  used :: u64
  created :: u64
  packet_count :: u64
  byte_count :: u64
  reason :: u8
  send_flow_rem :: u8
  emerg_flow :: u8
  sf_acts :: bytes
  serial :: u64

type_synonym allocator = "nat \<Rightarrow> bool"
type_synonym acts_allocator = "sw_flow \<Rightarrow> allocator"

definition zero_key :: sw_flow_key where
  "zero_key = \<lparr>kflow = zero_flow, wildcards = 0, nw_src_mask = 0, nw_dst_mask = 0\<rparr>"

definition flow_alloc :: "allocator \<Rightarrow> nat \<Rightarrow> sw_flow option" where
  "flow_alloc alloc actions_len =
     (if alloc actions_len then
        Some \<lparr>key = zero_key, cookie = 0, priority = 0, idle_timeout = 0, hard_timeout = 0,
              used = 0, created = 0, packet_count = 0, byte_count = 0, reason = 0,
              send_flow_rem = 0, emerg_flow = 0, sf_acts = replicate actions_len 0, serial = 0\<rparr>
      else None)"

definition flow_setup_actions :: "sw_flow \<Rightarrow> bytes \<Rightarrow> u64 \<Rightarrow> sw_flow result" where
  "flow_setup_actions flow actions now =
     guardR (\<not> length actions > length (sf_acts flow)) Fatal
       (Ok (flow\<lparr>used := now, created := now, sf_acts := actions, byte_count := 0, packet_count := 0\<rparr>))"

definition flow_replace_acts :: "allocator \<Rightarrow> sw_flow \<Rightarrow> bytes \<Rightarrow> sw_flow" where
  "flow_replace_acts alloc flow actions =
     (if alloc (length actions) then flow\<lparr>sf_acts := actions\<rparr> else flow)"

text \<open>\<open>flow_timeout\<close> records the reason in the entry it is given.\<close>

definition flow_timeout :: "u64 \<Rightarrow> sw_flow \<Rightarrow> sw_flow \<times> bool" where
  "flow_timeout now flow =
     (if idle_timeout flow \<noteq> OFP_FLOW_PERMANENT \<and> now > used flow + ucast (idle_timeout flow) * 1000
      then (flow\<lparr>reason := OFPRR_IDLE_TIMEOUT\<rparr>, True)
      else if hard_timeout flow \<noteq> OFP_FLOW_PERMANENT \<and> now > created flow + ucast (hard_timeout flow) * 1000
      then (flow\<lparr>reason := OFPRR_HARD_TIMEOUT\<rparr>, True)
      else (flow, False))"

text \<open>
  The loop of \<open>flow_has_out_port\<close> walks the action block by the length fields it finds there. A
  zero length makes it stand still, a length beyond the end wraps the remaining count around.
\<close>

function has_out_port_loop :: "bytes \<Rightarrow> u16 \<Rightarrow> bool result" where
  "has_out_port_loop p out_port =
     (if p = [] then Ok False
      else if length p < 4 then Fail Bad_access
      else
        let len = unat (ntohs (ld16 p 2))
        in if ld16 p 0 = htons OFPAT_OUTPUT \<and> length p < 6 then Fail Bad_access
           else if ld16 p 0 = htons OFPAT_OUTPUT \<and> ld16 p 4 = out_port then Ok True
           else if len = 0 then Fail No_return
           else if length p < len then Fail Bad_access
           else has_out_port_loop (drop len p) out_port)"
  by pat_completeness auto
termination
  by (relation "measure (\<lambda>(p, _). length p)") auto

definition flow_has_out_port :: "sw_flow \<Rightarrow> u16 \<Rightarrow> bool result" where
  "flow_has_out_port flow out_port =
     (if out_port = htons OFPP_NONE then Ok True else has_out_port_loop (sf_acts flow) out_port)"

definition flow_used :: "u64 \<Rightarrow> sw_flow \<Rightarrow> ofpbuf \<Rightarrow> sw_flow" where
  "flow_used now flow buffer =
     flow\<lparr>used := now, packet_count := packet_count flow + 1,
          byte_count := byte_count flow + of_nat (size_of buffer)\<rparr>"

declare has_out_port_loop.simps [simp del]

section \<open>Matching laws\<close>

lemmas match_defs = flow_fields_match_def flow_matches_1wild_def flow_matches_2wild_def
  flow_matches_desc_def flow_matches_2desc_def

lemma flow_matches_1wild_refl [simp]: "flow_matches_1wild k k"
  by (simp add: match_defs)

lemma flow_matches_2wild_refl [simp]: "flow_matches_2wild k k"
  by (simp add: match_defs)

lemma wild_or [simp]: "wild (v OR w) b \<longleftrightarrow> wild v b \<or> wild w b"
  by (simp add: bit.conj_disj_distrib2 or_eq_0_iff)

text \<open>Two masked addresses that agree on the common bits have a common refinement.\<close>

lemma masked_join:
  fixes a b :: u32
  assumes "(a XOR b) AND (ma AND mb) = 0"
  defines "p \<equiv> (a AND ma) OR (b AND mb)"
  shows "(p XOR a) AND ma = 0" "(p XOR b) AND mb = 0"
proof -
  have "bit a n = bit b n" if "bit ma n" "bit mb n" for n
    using arg_cong [OF assms(1), of "\<lambda>x. bit x n"] that bit_imp_le_length [OF that(1)]
    by (auto simp: bit_simps)
  then show "(p XOR a) AND ma = 0" "(p XOR b) AND mb = 0"
    by (auto intro!: bit_word_eqI simp: p_def bit_simps)
qed

lemma masked_join_conv:
  fixes a b :: u32
  assumes "(p XOR a) AND ma = 0" "(p XOR b) AND mb = 0"
  shows "(a XOR b) AND (ma AND mb) = 0"
proof (rule bit_word_eqI)
  fix n :: nat
  assume "n < LENGTH(32)"
  have "bit ((p XOR a) AND ma) n = bit (0 :: u32) n" "bit ((p XOR b) AND mb) n = bit (0 :: u32) n"
    by (simp_all only: assms)
  then show "bit ((a XOR b) AND (ma AND mb)) n = bit (0 :: u32) n"
    by (auto simp: bit_simps)
qed

text \<open>The key that two overlapping keys have in common: each field from the key that fixes it.\<close>

definition common_flow :: "sw_flow_key \<Rightarrow> sw_flow_key \<Rightarrow> flow" where
  "common_flow a b =
     (let f = kflow a; g = kflow b; w = wildcards a
      in \<lparr>nw_src = (nw_src f AND nw_src_mask a) OR (nw_src g AND nw_src_mask b),
          nw_dst = (nw_dst f AND nw_dst_mask a) OR (nw_dst g AND nw_dst_mask b),
          in_port = (if wild w OFPFW_IN_PORT then in_port g else in_port f),
          dl_vlan = (if wild w OFPFW_DL_VLAN then dl_vlan g else dl_vlan f),
          dl_type = (if wild w OFPFW_DL_TYPE then dl_type g else dl_type f),
          tp_src = (if wild w OFPFW_TP_SRC then tp_src g else tp_src f),
          tp_dst = (if wild w OFPFW_TP_DST then tp_dst g else tp_dst f),
          dl_src = (if wild w OFPFW_DL_SRC then dl_src g else dl_src f),
          dl_dst = (if wild w OFPFW_DL_DST then dl_dst g else dl_dst f),
          dl_vlan_pcp = (if wild w OFPFW_DL_VLAN_PCP then dl_vlan_pcp g else dl_vlan_pcp f),
          nw_tos = (if wild w OFPFW_NW_TOS then nw_tos g else nw_tos f),
          nw_proto = (if wild w OFPFW_NW_PROTO then nw_proto g else nw_proto f),
          pad = (0, 0, 0)\<rparr>)"

lemma common_flow_matches:
  assumes "flow_matches_2wild a b" and "kflow k = common_flow a b"
  shows "flow_matches_1wild k a" "flow_matches_1wild k b"
proof -
  have src: "(nw_src (kflow a) XOR nw_src (kflow b)) AND (nw_src_mask a AND nw_src_mask b) = 0"
    and dst: "(nw_dst (kflow a) XOR nw_dst (kflow b)) AND (nw_dst_mask a AND nw_dst_mask b) = 0"
    using assms(1) by (simp_all add: match_defs)
  show "flow_matches_1wild k a"
    using masked_join(1) [OF src] masked_join(1) [OF dst]
    by (simp add: match_defs assms(2) common_flow_def Let_def)
  show "flow_matches_1wild k b"
    using masked_join(2) [OF src] masked_join(2) [OF dst] assms(1)
    by (auto simp: match_defs assms(2) common_flow_def Let_def)
qed

lemma field_join:
  "wild v fw \<or> p = a \<Longrightarrow> wild w fw \<or> p = b \<Longrightarrow> wild (v OR w) fw \<or> a = b"
  by auto

lemma matches_both_2wild:
  assumes "flow_matches_1wild k a" "flow_matches_1wild k b"
  shows "flow_matches_2wild a b"
  using assms unfolding match_defs eth_addr_equals_iff
  by (elim conjE) (intro conjI; (rule field_join masked_join_conv, assumption, assumption))

lemma flow_matches_2wild_iff:
  "flow_matches_2wild a b \<longleftrightarrow> (\<exists>k. flow_matches_1wild k a \<and> flow_matches_1wild k b)"
  using common_flow_matches [of a b "zero_key\<lparr>kflow := common_flow a b\<rparr>"] matches_both_2wild
  by auto

lemma flow_matches_2wild_sym: "flow_matches_2wild a b = flow_matches_2wild b a"
  unfolding flow_matches_2wild_iff by blast

lemma flow_matches_1wild_imp_2wild: "flow_matches_1wild a b \<Longrightarrow> flow_matches_2wild a b"
  unfolding flow_matches_2wild_iff using flow_matches_1wild_refl by blast

lemma make_nw_mask_0 [simp]: "make_nw_mask 0 = 0xffffffff"
  by code_simp

text \<open>A key that fixes every field matches exactly the packets with its fields.\<close>

definition exact_key :: "sw_flow_key \<Rightarrow> bool" where
  "exact_key k \<longleftrightarrow> wildcards k = 0 \<and> nw_src_mask k = 0xffffffff \<and> nw_dst_mask k = 0xffffffff"

lemma and_full_32 [simp]: "(x :: u32) AND 0xffffffff = x"
proof -
  have full: "(0xffffffff :: u32) = - 1" by simp
  show ?thesis unfolding full by (rule and.right_neutral)
qed

lemma xor_eq_0 [simp]: "(x :: 'a::len word) XOR y = 0 \<longleftrightarrow> x = y"
  by (metis xor.assoc xor.left_neutral xor_self_eq)

lemma exact_key_matches:
  assumes "exact_key b" "pad (kflow a) = pad (kflow b)"
  shows "flow_matches_1wild a b \<longleftrightarrow> kflow a = kflow b"
  using assms by (auto simp: match_defs exact_key_def eth_addr_equals_iff intro!: flow.equality)

section \<open>Normal form of match descriptions\<close>

lemma pad_extract_match [simp]: "pad (kflow (flow_extract_match m)) = (0, 0, 0)"
  by (simp add: flow_extract_match_def Let_def)

lemma masks_extract_match:
  "nw_src_mask (flow_extract_match m) =
     make_nw_mask (drop_bit OFPFW_NW_SRC_SHIFT (wildcards (flow_extract_match m)))"
  "nw_dst_mask (flow_extract_match m) =
     make_nw_mask (drop_bit OFPFW_NW_DST_SHIFT (wildcards (flow_extract_match m)))"
  by (simp_all add: flow_extract_match_def Let_def split: prod.split)

lemma exact_extract_match: "wildcards (flow_extract_match m) = 0 \<Longrightarrow> exact_key (flow_extract_match m)"
  by (simp add: exact_key_def masks_extract_match)

lemma extract_fill_exact:
  assumes "canonical_flow f"
  shows "flow_extract_match (flow_fill_match f 0) =
    \<lparr>kflow = f, wildcards = 0, nw_src_mask = 0xffffffff, nw_dst_mask = 0xffffffff\<rparr>"
  using assms
  by (auto simp: flow_extract_match_def flow_fill_match_def canonical_flow_def Let_def
      intro!: flow.equality)

lemma and_or_sub: "c AND m = c \<Longrightarrow> (w AND m OR c) AND m = (w AND m OR (c::u32))"
  by (simp add: bit.conj_disj_distrib2 and.assoc)

lemmas extract_match_defs = flow_extract_match_def flow_fill_match_def Let_def

lemma extract_fill_extract:
  "flow_extract_match (flow_fill_match (kflow (flow_extract_match m)) (wildcards (flow_extract_match m)))
   = flow_extract_match m"
proof -
  let ?w = "ntohl (m_wildcards m)"
  consider (any) "wild ?w OFPFW_DL_TYPE"
    | (ip_any) "\<not> wild ?w OFPFW_DL_TYPE" "m_dl_type m = htons ETH_TYPE_IP" "wild ?w OFPFW_NW_PROTO"
    | (ip_l4) "\<not> wild ?w OFPFW_DL_TYPE" "m_dl_type m = htons ETH_TYPE_IP" "\<not> wild ?w OFPFW_NW_PROTO"
        "m_nw_proto m = IP_TYPE_TCP \<or> m_nw_proto m = IP_TYPE_UDP \<or> m_nw_proto m = IP_TYPE_ICMP"
    | (ip_other) "\<not> wild ?w OFPFW_DL_TYPE" "m_dl_type m = htons ETH_TYPE_IP" "\<not> wild ?w OFPFW_NW_PROTO"
        "\<not> (m_nw_proto m = IP_TYPE_TCP \<or> m_nw_proto m = IP_TYPE_UDP \<or> m_nw_proto m = IP_TYPE_ICMP)"
    | (arp) "\<not> wild ?w OFPFW_DL_TYPE" "m_dl_type m = htons ETH_TYPE_ARP"
    | (other) "\<not> wild ?w OFPFW_DL_TYPE" "m_dl_type m \<noteq> htons ETH_TYPE_IP" "m_dl_type m \<noteq> htons ETH_TYPE_ARP"
    by blast
  then show ?thesis
  proof cases
    case any
    then show ?thesis by (simp add: extract_match_defs and_or_sub or.assoc and.assoc)
  next
    case ip_any
    then show ?thesis by (simp add: extract_match_defs and_or_sub or.assoc and.assoc and_fc_idem)
  next
    case ip_l4
    then show ?thesis by (simp add: extract_match_defs and_or_sub or.assoc and.assoc and_fc_idem)
  next
    case ip_other
    then show ?thesis by (simp add: extract_match_defs and_or_sub or.assoc and.assoc and_fc_idem)
  next
    case arp
    then show ?thesis by (simp add: extract_match_defs and_or_sub or.assoc and.assoc and_fc_idem)
  next
    case other
    then show ?thesis by (simp add: extract_match_defs and_or_sub or.assoc and.assoc and_fc_idem)
  qed
qed
section \<open>Action blocks\<close>

text \<open>
  A block is framed when it is a sequence of actions of at least eight bytes each. \<open>act_list\<close> cuts
  a framed block into its actions.
\<close>

function acts_framed :: "bytes \<Rightarrow> bool" where
  "acts_framed p =
     (if p = [] then True
      else if length p < 8 \<or> unat (ntohs (ld16 p 2)) < 8 \<or> length p < unat (ntohs (ld16 p 2)) then False
      else acts_framed (drop (unat (ntohs (ld16 p 2))) p))"
  by pat_completeness auto
termination
  by (relation "measure length") auto

function act_list :: "bytes \<Rightarrow> bytes list" where
  "act_list p =
     (if length p < 8 \<or> unat (ntohs (ld16 p 2)) < 8 then []
      else take (unat (ntohs (ld16 p 2))) p # act_list (drop (unat (ntohs (ld16 p 2))) p))"
  by pat_completeness auto
termination
  by (relation "measure length") auto

declare acts_framed.simps [simp del] act_list.simps [simp del]

lemma acts_framed_Nil [simp]: "acts_framed []"
  by (simp add: acts_framed.simps)

lemma act_list_Nil [simp]: "act_list [] = []"
  by (simp add: act_list.simps)

definition act_outputs :: "bytes \<Rightarrow> u16 \<Rightarrow> bool" where
  "act_outputs a port \<longleftrightarrow> ld16 a 0 = htons OFPAT_OUTPUT \<and> ld16 a 4 = port"

lemma ld16_take: "i + 2 \<le> n \<Longrightarrow> ld16 (take n p) i = ld16 p i"
  by (simp add: ld16_def drop_take)

lemma has_out_port_framed:
  "acts_framed p \<Longrightarrow>
   has_out_port_loop p port = Ok (\<exists>a \<in> set (act_list p). act_outputs a port)"
proof (induction p rule: acts_framed.induct)
  case (1 p)
  show ?case
  proof (cases "p = []")
    case False
    define len where "len = unat (ntohs (ld16 p 2))"
    have len: "8 \<le> length p" "8 \<le> len" "len \<le> length p" "acts_framed (drop len p)"
      using 1(2) False acts_framed.simps [of p] by (simp_all add: len_def not_less split: if_splits)
    have "has_out_port_loop (drop len p) port = Ok (\<exists>a \<in> set (act_list (drop len p)). act_outputs a port)"
      using 1(1) len(4) False len(1,2,3) by (simp add: len_def)
    moreover have "act_list p = take len p # act_list (drop len p)"
      using len by (simp add: act_list.simps [of p] len_def)
    ultimately show ?thesis
      using len False
      by (subst has_out_port_loop.simps) (auto simp: len_def [symmetric] Let_def act_outputs_def ld16_take)
  qed (simp add: has_out_port_loop.simps)
qed

lemma flow_has_out_port_framed:
  "acts_framed (sf_acts flow) \<Longrightarrow>
   flow_has_out_port flow port =
     Ok (port = htons OFPP_NONE \<or> (\<exists>a \<in> set (act_list (sf_acts flow)). act_outputs a port))"
  by (simp add: flow_has_out_port_def has_out_port_framed)

section \<open>Entries\<close>

lemma flow_timeout_fields:
  "flow_timeout now flow = (flow', b) \<Longrightarrow> flow' = flow\<lparr>reason := reason flow'\<rparr>"
  by (auto simp: flow_timeout_def split: if_splits)

lemma flow_timeout_permanent:
  "idle_timeout flow = OFP_FLOW_PERMANENT \<Longrightarrow> hard_timeout flow = OFP_FLOW_PERMANENT \<Longrightarrow>
   flow_timeout now flow = (flow, False)"
  by (simp add: flow_timeout_def)

lemma flow_setup_after_alloc:
  "flow_alloc alloc (length acts) = Some flow \<Longrightarrow>
   \<exists>flow'. flow_setup_actions flow acts now = Ok flow' \<and> sf_acts flow' = acts"
  by (auto simp: flow_alloc_def flow_setup_actions_def split: if_splits)

end
