(* ===== verification/OF_Table.thy ===== *)
theory OF_Table
  imports OF_Switch_Flow
begin

unbundle bit_operations_syntax

text \<open>
  The interface of flow tables, \<open>udatapath/table.h\<close>. \<open>struct sw_table\<close> is a record of function
  pointers; what a caller may rely on is the locale \<open>flow_table\<close> below, which the hash table, the
  double hash table and the linear table are shown to satisfy. The locale's lemmas are what the
  chain and the datapath use of any table.
\<close>

section \<open>Data of the interface\<close>

record sw_table_stats =
  st_name :: string
  st_wildcards :: u32
  st_n_flows :: u32
  st_max_flows :: u32
  st_n_lookup :: u64
  st_n_matched :: u64

text \<open>
  A position has four private words, of which the tables use two. The counters are the data
  members of \<open>struct sw_table\<close>.
\<close>

record sw_table_position =
  private0 :: u64
  private1 :: u64

record swt =
  n_lookup :: u64
  n_matched :: u64

definition start_position :: sw_table_position where
  "start_position = \<lparr>private0 = 0, private1 = 0\<rparr>"

definition zero_swt :: swt where
  "zero_swt = \<lparr>n_lookup = 0, n_matched = 0\<rparr>"

text \<open>
  \<open>dp_send_flow_end\<close> is called by the tables on every entry they delete; the tables only pass
  the datapath on to it. An iteration calls back with its private state.
\<close>

type_synonym 'd flow_end = "'d \<Rightarrow> sw_flow \<Rightarrow> u8 \<Rightarrow> 'd"
type_synonym 's flow_callback = "sw_flow \<Rightarrow> 's \<Rightarrow> int \<times> 's"

section \<open>Entries and selection\<close>

text \<open>
  Keys come from \<open>flow_extract_match\<close>; equivalently they are unchanged when they are written out
  as a match description and read back. The entries a table is given have such keys, the highest
  priority when they have no wildcards, and a framed action block.
\<close>

definition key_ok :: "sw_flow_key \<Rightarrow> bool" where
  "key_ok k \<longleftrightarrow> flow_extract_match (flow_fill_match (kflow k) (wildcards k)) = k"

definition entry_ok :: "sw_flow \<Rightarrow> bool" where
  "entry_ok f \<longleftrightarrow>
     key_ok (key f) \<and> (wildcards (key f) = 0 \<longrightarrow> priority f = 0xffff) \<and> acts_framed (sf_acts f)"

text \<open>Which entries a modification, a conflict check, a deletion or an iteration is about.\<close>

definition modify_sel :: "sw_flow_key \<Rightarrow> u16 \<Rightarrow> bool \<Rightarrow> sw_flow \<Rightarrow> bool" where
  "modify_sel k prio strict f \<longleftrightarrow> flow_matches_desc (key f) k strict \<and> (strict \<longrightarrow> priority f = prio)"

definition conflict_sel :: "sw_flow_key \<Rightarrow> u16 \<Rightarrow> bool \<Rightarrow> sw_flow \<Rightarrow> bool" where
  "conflict_sel k prio strict f \<longleftrightarrow> flow_matches_2desc (key f) k strict \<and> priority f = prio"

definition outputs_to :: "u16 \<Rightarrow> sw_flow \<Rightarrow> bool" where
  "outputs_to port f \<longleftrightarrow> port = htons OFPP_NONE \<or> (\<exists>a \<in> set (act_list (sf_acts f)). act_outputs a port)"

definition delete_sel :: "sw_flow_key \<Rightarrow> u16 \<Rightarrow> u16 \<Rightarrow> bool \<Rightarrow> sw_flow \<Rightarrow> bool" where
  "delete_sel k port prio strict f \<longleftrightarrow> modify_sel k prio strict f \<and> outputs_to port f"

definition visit_sel :: "sw_flow_key \<Rightarrow> u16 \<Rightarrow> sw_flow \<Rightarrow> bool" where
  "visit_sel k port f \<longleftrightarrow> flow_matches_2wild k (key f) \<and> outputs_to port f"

definition same_entry :: "sw_flow \<Rightarrow> sw_flow \<Rightarrow> bool" where
  "same_entry f g \<longleftrightarrow> priority f = priority g \<and> wildcards (key f) = wildcards (key g) \<and>
     flow_matches_2wild (key f) (key g)"

text \<open>Entries that a table may exchange for one another in place.\<close>

definition same_slot :: "sw_flow \<Rightarrow> sw_flow \<Rightarrow> bool" where
  "same_slot f g \<longleftrightarrow> key f = key g \<and> priority f = priority g \<and> sf_acts f = sf_acts g \<and> serial f = serial g"

definition expired :: "u64 \<Rightarrow> sw_flow \<Rightarrow> bool" where
  "expired now f \<longleftrightarrow> snd (flow_timeout now f)"

lemma key_ok_extract [simp]: "key_ok (flow_extract_match m)"
  by (simp add: key_ok_def extract_fill_extract)

lemma key_ok_pad: "key_ok k \<Longrightarrow> pad (kflow k) = (0, 0, 0)"
  by (metis key_ok_def pad_extract_match)

lemma key_ok_exact: "key_ok k \<Longrightarrow> wildcards k = 0 \<Longrightarrow> exact_key k"
  by (metis exact_extract_match key_ok_def)

lemma key_ok_masks:
  "key_ok a \<Longrightarrow> key_ok b \<Longrightarrow> wildcards a = wildcards b \<Longrightarrow>
   nw_src_mask a = nw_src_mask b \<and> nw_dst_mask a = nw_dst_mask b"
  by (metis key_ok_def masks_extract_match)

lemma key_ok_exact_matches:
  assumes "key_ok b" "wildcards b = 0" "pad (kflow a) = (0, 0, 0)"
  shows "flow_matches_1wild a b \<longleftrightarrow> kflow a = kflow b"
  using assms by (simp add: exact_key_matches key_ok_exact key_ok_pad)

text \<open>Two exact keys overlap only when they are equal.\<close>

lemma exact_2wild_1wild:
  assumes "exact_key b"
  shows "flow_matches_2wild b a \<longleftrightarrow> flow_matches_1wild b a"
  using assms unfolding match_defs exact_key_def
  by (simp add: and.commute [of "0xffffffff"])

lemma key_ok_exact_2wild:
  assumes "key_ok a" "key_ok b" "wildcards a = 0" "wildcards b = 0"
  shows "flow_matches_2wild a b \<longleftrightarrow> kflow a = kflow b"
  using assms exact_2wild_1wild [OF key_ok_exact [OF assms(1,3)], of b]
    key_ok_exact_matches [OF assms(2,4), of a] key_ok_pad [OF assms(1)]
  by simp

text \<open>
  What replacing an entry relies on: two keys with the same wildcards that overlap match the same
  packets.
\<close>

lemma field_cong: "wild w fw \<or> a = b \<Longrightarrow> (wild w fw \<or> p = a) = (wild w fw \<or> p = b)"
  by auto

lemma mask_cong:
  fixes a b p m :: u32
  assumes "(a XOR b) AND m = 0"
  shows "((p XOR a) AND m = 0) = ((p XOR b) AND m = 0)"
proof -
  have "(p XOR a) AND m = ((p XOR b) AND m) XOR ((a XOR b) AND m)"
    by (rule bit_word_eqI) (auto simp: bit_simps)
  then show ?thesis by (simp add: assms)
qed

lemma flow_fields_match_cong:
  "flow_fields_match f g w ms md \<Longrightarrow> flow_fields_match p f w ms md = flow_fields_match p g w ms md"
  unfolding flow_fields_match_def eth_addr_equals_iff
  by (elim conjE) (intro conj_cong field_cong mask_cong; assumption)

lemma same_wildcards_overlap:
  assumes "key_ok a" "key_ok b" "wildcards a = wildcards b" "flow_matches_2wild a b"
  shows "flow_matches_1wild k a \<longleftrightarrow> flow_matches_1wild k b"
proof -
  have m: "nw_src_mask a = nw_src_mask b" "nw_dst_mask a = nw_dst_mask b"
    using key_ok_masks [OF assms(1-3)] by simp_all
  then have "flow_fields_match (kflow a) (kflow b) (wildcards b) (nw_src_mask b) (nw_dst_mask b)"
    using assms(3,4) by (simp add: flow_matches_2wild_def)
  then show ?thesis
    using flow_fields_match_cong assms(3) m by (simp add: flow_matches_1wild_def)
qed

lemma flow_has_out_port_ok:
  "entry_ok f \<Longrightarrow> flow_has_out_port f port = Ok (outputs_to port f)"
  by (simp add: entry_ok_def flow_has_out_port_framed outputs_to_def)

lemma same_slot_refl [simp]: "same_slot f f"
  by (simp add: same_slot_def)

lemma entry_ok_same_slot: "same_slot f g \<Longrightarrow> entry_ok f = entry_ok g"
  by (simp add: same_slot_def entry_ok_def)

lemma entry_ok_replace_acts:
  "entry_ok f \<Longrightarrow> acts_framed acts \<Longrightarrow> entry_ok (flow_replace_acts alloc f acts)"
  by (simp add: entry_ok_def flow_replace_acts_def)

lemma key_replace_acts [simp]:
  "key (flow_replace_acts alloc f acts) = key f"
  "priority (flow_replace_acts alloc f acts) = priority f"
  "serial (flow_replace_acts alloc f acts) = serial f"
  by (simp_all add: flow_replace_acts_def)

lemma entry_ok_serial [simp]: "entry_ok (f\<lparr>serial := s\<rparr>) = entry_ok f"
  by (simp add: entry_ok_def)

text \<open>A strict description without wildcards always carries the highest priority.\<close>

definition desc_ok :: "sw_flow_key \<Rightarrow> u16 \<Rightarrow> bool" where
  "desc_ok k prio \<longleftrightarrow> key_ok k \<and> (wildcards k = 0 \<longrightarrow> prio = 0xffff)"

section \<open>The contract of a table\<close>

locale flow_table =
  fixes inv :: "'t \<Rightarrow> bool"
    and flows :: "'t \<Rightarrow> sw_flow list"
    and lookup :: "'t \<Rightarrow> sw_flow_key \<Rightarrow> 'r option"
    and flow_at :: "'t \<Rightarrow> 'r \<Rightarrow> sw_flow"
    and set_flow :: "'t \<Rightarrow> 'r \<Rightarrow> sw_flow \<Rightarrow> 't"
    and insert :: "'t \<Rightarrow> sw_flow \<Rightarrow> 't \<times> bool"
    and modify :: "acts_allocator \<Rightarrow> 't \<Rightarrow> sw_flow_key \<Rightarrow> u16 \<Rightarrow> bool \<Rightarrow> bytes \<Rightarrow> 't \<times> u32"
    and has_conflict :: "'t \<Rightarrow> sw_flow_key \<Rightarrow> u16 \<Rightarrow> bool \<Rightarrow> bool"
    and delete :: "'d flow_end \<Rightarrow> 'd \<Rightarrow> 't \<Rightarrow> sw_flow_key \<Rightarrow> u16 \<Rightarrow> u16 \<Rightarrow> bool \<Rightarrow> ('d \<times> 't \<times> u32) result"
    and timeout :: "u64 \<Rightarrow> 't \<Rightarrow> 't \<times> sw_flow list"
  assumes flows_ok: "inv t \<Longrightarrow> f \<in> set (flows t) \<Longrightarrow> entry_ok f"
    and lookup_Some: "inv t \<Longrightarrow> pad (kflow k) = (0, 0, 0) \<Longrightarrow> lookup t k = Some r \<Longrightarrow>
        flow_at t r \<in> set (flows t) \<and> flow_matches_1wild k (key (flow_at t r)) \<and>
        (\<forall>f \<in> set (flows t). flow_matches_1wild k (key f) \<longrightarrow> priority f \<le> priority (flow_at t r))"
    and lookup_None: "inv t \<Longrightarrow> pad (kflow k) = (0, 0, 0) \<Longrightarrow> lookup t k = None \<Longrightarrow>
        f \<in> set (flows t) \<Longrightarrow> \<not> flow_matches_1wild k (key f)"
    and set_flow: "inv t \<Longrightarrow> pad (kflow k) = (0, 0, 0) \<Longrightarrow> lookup t k = Some r \<Longrightarrow>
        same_slot f (flow_at t r) \<Longrightarrow>
        inv (set_flow t r f) \<and>
        (\<exists>xs ys. flows t = xs @ flow_at t r # ys \<and> flows (set_flow t r f) = xs @ f # ys)"
    and insert_True: "inv t \<Longrightarrow> entry_ok f \<Longrightarrow> insert t f = (t', True) \<Longrightarrow>
        inv t' \<and> (\<exists>xs ys s. flows t' = xs @ f\<lparr>serial := s\<rparr> # ys \<and>
          (flows t = xs @ ys \<or> (\<exists>g. flows t = xs @ g # ys \<and> same_entry g f)))"
    and insert_False: "insert t f = (t', False) \<Longrightarrow> t' = t"
    and modify_spec: "inv t \<Longrightarrow> desc_ok k prio \<Longrightarrow> acts_framed acts \<Longrightarrow>
        modify alloc t k prio strict acts = (t', n) \<Longrightarrow>
        inv t' \<and> n = of_nat (length (filter (modify_sel k prio strict) (flows t))) \<and>
        flows t' = map (\<lambda>f. if modify_sel k prio strict f then flow_replace_acts (alloc f) f acts else f) (flows t)"
    and has_conflict_spec: "inv t \<Longrightarrow> desc_ok k prio \<Longrightarrow>
        has_conflict t k prio strict \<longleftrightarrow> (\<exists>f \<in> set (flows t). conflict_sel k prio strict f)"
    and delete_spec: "inv t \<Longrightarrow> desc_ok k prio \<Longrightarrow>
        \<exists>t'. delete flow_end dp t k port prio strict =
          Ok (foldl (\<lambda>d f. flow_end d f OFPRR_DELETE) dp (filter (delete_sel k port prio strict) (flows t)),
              t', of_nat (length (filter (delete_sel k port prio strict) (flows t)))) \<and>
          inv t' \<and> flows t' = filter (\<lambda>f. \<not> delete_sel k port prio strict f) (flows t)"
    and timeout_spec: "inv t \<Longrightarrow> timeout now t = (t', gone) \<Longrightarrow>
        inv t' \<and> flows t' = filter (\<lambda>f. \<not> expired now f) (flows t) \<and>
        gone = map (\<lambda>f. fst (flow_timeout now f)) (filter (expired now) (flows t))"
begin

text \<open>An inserted entry is in force: a packet it matches finds it or one of at least its priority.\<close>

lemma lookup_after_insert:
  assumes "inv t" "entry_ok f" "insert t f = (t', True)"
    and "pad (kflow k) = (0, 0, 0)" "flow_matches_1wild k (key f)"
  shows "\<exists>r. lookup t' k = Some r \<and> flow_matches_1wild k (key (flow_at t' r)) \<and>
    priority f \<le> priority (flow_at t' r)"
proof -
  have inv: "inv t'" and "\<exists>s. f\<lparr>serial := s\<rparr> \<in> set (flows t')"
    using insert_True [OF assms(1-3)] by auto
  then obtain s where mem: "f\<lparr>serial := s\<rparr> \<in> set (flows t')" by blast
  have "lookup t' k \<noteq> None"
    using lookup_None [OF inv assms(4) _ mem] assms(5) by auto
  then obtain r where r: "lookup t' k = Some r" by blast
  have "flow_matches_1wild k (key (flow_at t' r))"
    and le: "\<forall>f \<in> set (flows t'). flow_matches_1wild k (key f) \<longrightarrow> priority f \<le> priority (flow_at t' r)"
    using lookup_Some [OF inv assms(4) r] by auto
  moreover have "priority f \<le> priority (flow_at t' r)"
    using le mem assms(5) by fastforce
  ultimately show ?thesis using r by blast
qed

text \<open>A deletion leaves nothing behind that it was about, so repeating it changes nothing.\<close>

lemma delete_idem:
  assumes "inv t" "desc_ok k prio" "delete flow_end dp t k port prio strict = Ok (dp', t', n)"
  shows "\<exists>t''. delete flow_end dp' t' k port prio strict = Ok (dp', t'', 0) \<and> flows t'' = flows t'"
proof -
  have "inv t'" and t': "flows t' = filter (\<lambda>f. \<not> delete_sel k port prio strict f) (flows t)"
    using delete_spec [OF assms(1,2), of flow_end dp port strict] assms(3) by auto
  then show ?thesis
    using delete_spec [OF _ assms(2), of t' flow_end dp' port strict] by auto
qed

text \<open>After a deletion for every port no lookup finds an entry the description covers.\<close>

lemma lookup_after_delete:
  assumes "inv t" "desc_ok k prio"
    and del: "delete flow_end dp t k (htons OFPP_NONE) prio False = Ok (dp', t', n)"
    and pk: "pad (kflow p) = (0, 0, 0)" "lookup t' p = Some r"
  shows "\<not> flow_matches_1wild (key (flow_at t' r)) k"
proof -
  have "inv t'" and t': "flows t' = filter (\<lambda>f. \<not> delete_sel k (htons OFPP_NONE) prio False f) (flows t)"
    using delete_spec [OF assms(1,2), of flow_end dp "htons OFPP_NONE" False] del by auto
  then have "flow_at t' r \<in> set (flows t')"
    using lookup_Some pk by blast
  then show ?thesis
    by (auto simp: t' delete_sel_def modify_sel_def outputs_to_def flow_matches_desc_def)
qed

lemma timeout_survivors:
  assumes "inv t" "timeout now t = (t', gone)"
  shows "length (flows t') + length gone = length (flows t)"
    "f \<in> set (flows t') \<Longrightarrow> \<not> expired now f"
  using timeout_spec [OF assms] length_filter_partition [of "expired now" "flows t"] by auto

end

end
