(* ===== verification/OF_Crc32.thy ===== *)
theory OF_Crc32
  imports OF_Prelude
begin

unbundle bit_operations_syntax

text \<open>
  The table-driven CRC of \<open>udatapath/crc32.c\<close>, which the hash tables use to pick a bucket, and its
  agreement with bit-by-bit polynomial division.
\<close>

abbreviation (input) CRC32_TABLE_BITS :: nat where "CRC32_TABLE_BITS \<equiv> 8"
abbreviation (input) CRC32_TABLE_SIZE :: nat where "CRC32_TABLE_SIZE \<equiv> 256"

text \<open>One round of the inner loop of \<open>crc32_init\<close>, and the loop.\<close>

definition crc32_bit :: "u32 \<Rightarrow> u32 \<Rightarrow> u32" where
  "crc32_bit polynomial reg =
     (let top_bit = reg AND 0x80000000 \<noteq> 0; reg = push_bit 1 reg
      in if top_bit then reg XOR polynomial else reg)"

definition crc32_entry :: "u32 \<Rightarrow> nat \<Rightarrow> u32" where
  "crc32_entry polynomial i = (crc32_bit polynomial ^^ CRC32_TABLE_BITS) (push_bit 24 (of_nat i))"

definition crc32_init :: "u32 \<Rightarrow> u32 list" where
  "crc32_init polynomial = map (crc32_entry polynomial) [0..<CRC32_TABLE_SIZE]"

definition crc32_byte :: "u32 list \<Rightarrow> u32 \<Rightarrow> u8 \<Rightarrow> u32" where
  "crc32_byte table result d =
     (let top = drop_bit 24 result XOR ucast d
      in push_bit 8 result XOR table ! unat top)"

definition crc32_calculate :: "u32 list \<Rightarrow> bytes \<Rightarrow> u32" where
  "crc32_calculate table data = foldl (crc32_byte table) 0 data"

section \<open>Agreement with polynomial division\<close>

text \<open>
  The reference: every input byte is added to the top of the register, which is then shifted
  eight times, subtracting the polynomial whenever a bit falls out.
\<close>

definition crc32_ref_byte :: "u32 \<Rightarrow> u32 \<Rightarrow> u8 \<Rightarrow> u32" where
  "crc32_ref_byte polynomial reg d = (crc32_bit polynomial ^^ 8) (reg XOR push_bit 24 (ucast d))"

definition crc32_ref :: "u32 \<Rightarrow> bytes \<Rightarrow> u32" where
  "crc32_ref polynomial data = foldl (crc32_ref_byte polynomial) 0 data"

lemma top_bit_iff: "(r :: u32) AND 0x80000000 \<noteq> 0 \<longleftrightarrow> bit r 31"
proof -
  have top: "(0x80000000 :: u32) = 2 ^ 31" by simp
  show ?thesis
    unfolding top and_exp_eq_0_iff_not_bit by simp
qed

lemma crc32_bit_alt: "crc32_bit p r = push_bit 1 r XOR (if bit r 31 then p else 0)"
  unfolding crc32_bit_def Let_def top_bit_iff by simp

lemma crc32_bit_xor: "crc32_bit p (a XOR b) = crc32_bit p a XOR crc32_bit p b"
  by (rule bit_word_eqI) (auto simp: crc32_bit_alt bit_simps)

lemma crc32_bits_xor:
  "(crc32_bit p ^^ n) (a XOR b) = (crc32_bit p ^^ n) a XOR (crc32_bit p ^^ n) b"
  by (induction n) (simp_all add: crc32_bit_xor)

lemma crc32_bits_low:
  "n \<le> 8 \<Longrightarrow> (crc32_bit p ^^ n) (take_bit 24 r) = push_bit n (take_bit 24 r)"
proof (induction n)
  case (Suc n)
  then have "\<not> 31 - n < 24" by linarith
  then have "\<not> bit (push_bit n (take_bit 24 r)) 31"
    by (simp add: bit_simps)
  then have "crc32_bit p (push_bit n (take_bit 24 r)) = push_bit (Suc n) (take_bit 24 r)"
    unfolding crc32_bit_alt by (simp only: if_False xor.right_neutral push_bit_push_bit plus_1_eq_Suc)
  with Suc show ?case by simp
qed simp

lemma split_top: "(r :: u32) = push_bit 24 (drop_bit 24 r) XOR take_bit 24 r"
  by (rule bit_word_eqI) (auto simp: bit_simps)

lemma unat_top_byte: "unat (drop_bit 24 (r :: u32)) < 256"
proof -
  have "unat r < 2 ^ LENGTH(32)" by (rule unsigned_less)
  then have "unat r div 2 ^ 24 < 256" by simp
  then show ?thesis unfolding unat_drop_bit_eq by (simp only: drop_bit_eq_div)
qed

lemma crc32_byte_eq: "crc32_byte (crc32_init p) r d = crc32_ref_byte p r d"
proof -
  define x where "x = r XOR push_bit 24 (ucast d)"
  have top: "drop_bit 24 r XOR ucast d = drop_bit 24 x" and low: "take_bit 24 x = take_bit 24 r"
    by (auto intro!: bit_word_eqI simp: x_def bit_simps)
  have "(crc32_bit p ^^ 8) x
      = (crc32_bit p ^^ 8) (push_bit 24 (drop_bit 24 x)) XOR push_bit 8 (take_bit 24 r)"
    by (subst (1) split_top [of x]) (simp only: crc32_bits_xor crc32_bits_low low)
  moreover have "push_bit 8 (take_bit 24 r) = push_bit 8 r"
    by (rule bit_word_eqI) (auto simp: bit_simps)
  moreover have "crc32_init p ! unat (drop_bit 24 x) = (crc32_bit p ^^ 8) (push_bit 24 (drop_bit 24 x))"
    using unat_top_byte [of x] by (simp add: crc32_init_def crc32_entry_def)
  ultimately show ?thesis
    by (simp add: crc32_byte_def crc32_ref_byte_def Let_def top x_def [symmetric] xor.commute [of "push_bit 8 r"])
qed

lemma crc32_calculate_eq: "crc32_calculate (crc32_init p) data = crc32_ref p data"
proof -
  have "crc32_byte (crc32_init p) = crc32_ref_byte p"
    by (simp add: fun_eq_iff crc32_byte_eq)
  then show ?thesis by (simp only: crc32_calculate_def crc32_ref_def)
qed

end
