(* ===== verification/OF_Table_Hash.thy ===== *)
theory OF_Table_Hash
  imports OF_Table OF_Crc32
begin

unbundle bit_operations_syntax

text \<open>
  The hash table and the double hash table of \<open>udatapath/table-hash.c\<close>. A bucket holds at most
  one entry and there is no chaining: an entry whose bucket is taken by another key is refused.
  The double hash table tries two hash tables with different polynomials.
\<close>

section \<open>struct sw_table_hash and its operations\<close>

record sw_table_hash =
  h_swt :: swt
  crc32 :: "u32 list"
  h_n_flows :: u32
  bucket_mask :: u32
  buckets :: "sw_flow option list"

text \<open>The bucket of a key, as an index: the CRC of the 36 bytes of its \<open>flow\<close> member.\<close>

definition find_bucket :: "sw_table_hash \<Rightarrow> sw_flow_key \<Rightarrow> nat" where
  "find_bucket th k = unat (crc32_calculate (crc32 th) (flow_bytes (kflow k)) AND bucket_mask th)"

definition table_hash_lookup :: "sw_table_hash \<Rightarrow> sw_flow_key \<Rightarrow> nat option" where
  "table_hash_lookup th k =
     (let i = find_bucket th k
      in case buckets th ! i of
           None \<Rightarrow> None
         | Some flow \<Rightarrow> if flow_compare (kflow (key flow)) (kflow k) = 0 then Some i else None)"

definition table_hash_insert :: "sw_table_hash \<Rightarrow> sw_flow \<Rightarrow> sw_table_hash \<times> bool" where
  "table_hash_insert th flow =
     (if wildcards (key flow) \<noteq> 0 then (th, False)
      else
        let i = find_bucket th (key flow)
        in case buckets th ! i of
             None \<Rightarrow>
               (th\<lparr>h_n_flows := h_n_flows th + 1, buckets := (buckets th)[i := Some flow]\<rparr>, True)
           | Some old_flow \<Rightarrow>
               if flow_compare (kflow (key old_flow)) (kflow (key flow)) = 0
               then (th\<lparr>buckets := (buckets th)[i := Some flow]\<rparr>, True)
               else (th, False))"

primrec hash_modify_loop ::
  "acts_allocator \<Rightarrow> sw_flow_key \<Rightarrow> u16 \<Rightarrow> bool \<Rightarrow> bytes \<Rightarrow> sw_flow option list \<Rightarrow>
   u32 \<Rightarrow> sw_flow option list \<times> u32" where
  "hash_modify_loop alloc k prio strict acts [] count = ([], count)"
| "hash_modify_loop alloc k prio strict acts (b # bs) count =
     (case b of
        Some flow \<Rightarrow>
          if flow_matches_desc (key flow) k strict \<and> (\<not> strict \<or> priority flow = prio) then
            let (bs', n) = hash_modify_loop alloc k prio strict acts bs (count + 1)
            in (Some (flow_replace_acts (alloc flow) flow acts) # bs', n)
          else
            let (bs', n) = hash_modify_loop alloc k prio strict acts bs count in (b # bs', n)
      | None \<Rightarrow>
          let (bs', n) = hash_modify_loop alloc k prio strict acts bs count in (b # bs', n))"

definition table_hash_modify ::
  "acts_allocator \<Rightarrow> sw_table_hash \<Rightarrow> sw_flow_key \<Rightarrow> u16 \<Rightarrow> bool \<Rightarrow> bytes \<Rightarrow> sw_table_hash \<times> u32" where
  "table_hash_modify alloc th k prio strict acts =
     (if wildcards k = 0 then
        let i = find_bucket th k
        in case buckets th ! i of
             Some flow \<Rightarrow>
               if flow_matches_desc (key flow) k strict \<and> (\<not> strict \<or> priority flow = prio)
               then (th\<lparr>buckets := (buckets th)[i := Some (flow_replace_acts (alloc flow) flow acts)]\<rparr>, 1)
               else (th, 0)
           | None \<Rightarrow> (th, 0)
      else
        let (bs, count) = hash_modify_loop alloc k prio strict acts (buckets th) 0
        in (th\<lparr>buckets := bs\<rparr>, count))"

primrec hash_conflict_loop :: "sw_flow_key \<Rightarrow> u16 \<Rightarrow> bool \<Rightarrow> sw_flow option list \<Rightarrow> bool" where
  "hash_conflict_loop k prio strict [] = False"
| "hash_conflict_loop k prio strict (b # bs) =
     (case b of
        Some flow \<Rightarrow>
          if flow_matches_2desc (key flow) k strict \<and> priority flow = prio then True
          else hash_conflict_loop k prio strict bs
      | None \<Rightarrow> hash_conflict_loop k prio strict bs)"

definition table_hash_has_conflict :: "sw_table_hash \<Rightarrow> sw_flow_key \<Rightarrow> u16 \<Rightarrow> bool \<Rightarrow> bool" where
  "table_hash_has_conflict th k prio strict =
     (if wildcards k = 0 then
        case buckets th ! find_bucket th k of
          Some flow \<Rightarrow> flow_matches_2desc (key flow) k strict \<and> priority flow = prio
        | None \<Rightarrow> False
      else hash_conflict_loop k prio strict (buckets th))"

primrec hash_delete_loop ::
  "'d flow_end \<Rightarrow> sw_flow_key \<Rightarrow> u16 \<Rightarrow> bool \<Rightarrow> sw_flow option list \<Rightarrow> 'd \<Rightarrow> u32 \<Rightarrow>
   ('d \<times> sw_flow option list \<times> u32) result" where
  "hash_delete_loop flow_end k port strict [] dp count = Ok (dp, [], count)"
| "hash_delete_loop flow_end k port strict (b # bs) dp count =
     (case b of
        Some flow \<Rightarrow>
          bindR (if flow_matches_desc (key flow) k strict then flow_has_out_port flow port else Ok False)
            (\<lambda>hit. if hit then
                     bindR (hash_delete_loop flow_end k port strict bs
                              (flow_end dp flow OFPRR_DELETE) (count + 1))
                       (\<lambda>(dp, bs', n). Ok (dp, None # bs', n))
                   else
                     bindR (hash_delete_loop flow_end k port strict bs dp count)
                       (\<lambda>(dp, bs', n). Ok (dp, b # bs', n)))
      | None \<Rightarrow>
          bindR (hash_delete_loop flow_end k port strict bs dp count)
            (\<lambda>(dp, bs', n). Ok (dp, b # bs', n)))"

definition table_hash_delete ::
  "'d flow_end \<Rightarrow> 'd \<Rightarrow> sw_table_hash \<Rightarrow> sw_flow_key \<Rightarrow> u16 \<Rightarrow> u16 \<Rightarrow> bool \<Rightarrow>
   ('d \<times> sw_table_hash \<times> u32) result" where
  "table_hash_delete flow_end dp th k out_port prio strict =
     bindR
       (if wildcards k = 0 then
          let i = find_bucket th k
          in case buckets th ! i of
               Some flow \<Rightarrow>
                 bindR (if flow_compare (kflow (key flow)) (kflow k) = 0
                        then flow_has_out_port flow out_port else Ok False)
                   (\<lambda>hit. if hit
                          then Ok (flow_end dp flow OFPRR_DELETE, (buckets th)[i := None], 1)
                          else Ok (dp, buckets th, 0))
             | None \<Rightarrow> Ok (dp, buckets th, 0)
        else hash_delete_loop flow_end k out_port strict (buckets th) dp 0)
       (\<lambda>(dp, bs, count). Ok (dp, th\<lparr>buckets := bs, h_n_flows := h_n_flows th - count\<rparr>, count))"

primrec hash_timeout_loop ::
  "u64 \<Rightarrow> sw_flow option list \<Rightarrow> u32 \<Rightarrow> sw_flow option list \<times> u32 \<times> sw_flow list" where
  "hash_timeout_loop now [] n = ([], n, [])"
| "hash_timeout_loop now (b # bs) n =
     (case b of
        Some flow \<Rightarrow>
          (case flow_timeout now flow of
             (flow', True) \<Rightarrow>
               let (bs', n', deleted) = hash_timeout_loop now bs (n - 1) in (None # bs', n', flow' # deleted)
           | (flow', False) \<Rightarrow>
               let (bs', n', deleted) = hash_timeout_loop now bs n in (Some flow' # bs', n', deleted))
      | None \<Rightarrow> let (bs', n', deleted) = hash_timeout_loop now bs n in (b # bs', n', deleted))"

definition table_hash_timeout :: "u64 \<Rightarrow> sw_table_hash \<Rightarrow> sw_table_hash \<times> sw_flow list" where
  "table_hash_timeout now th =
     (let (bs, n, deleted) = hash_timeout_loop now (buckets th) (h_n_flows th)
      in (th\<lparr>buckets := bs, h_n_flows := n\<rparr>, deleted))"

text \<open>
  The iteration over the buckets from index \<open>i\<close> on. On an error of the callback the index to resume
  at is returned with it.
\<close>

primrec hash_iterate_loop ::
  "sw_flow_key \<Rightarrow> u16 \<Rightarrow> 's flow_callback \<Rightarrow> sw_flow option list \<Rightarrow> nat \<Rightarrow> 's \<Rightarrow>
   (int \<times> nat option \<times> 's) result" where
  "hash_iterate_loop k port cb [] i s = Ok (0, None, s)"
| "hash_iterate_loop k port cb (b # bs) i s =
     (case b of
        Some flow \<Rightarrow>
          bindR (if flow_matches_1wild (key flow) k then flow_has_out_port flow port else Ok False)
            (\<lambda>hit. if hit then
                     let (error, s) = cb flow s
                     in if error \<noteq> 0 then Ok (error, Some (i + 1), s)
                        else hash_iterate_loop k port cb bs (i + 1) s
                   else hash_iterate_loop k port cb bs (i + 1) s)
      | None \<Rightarrow> hash_iterate_loop k port cb bs (i + 1) s)"

definition table_hash_iterate ::
  "sw_table_hash \<Rightarrow> sw_flow_key \<Rightarrow> u16 \<Rightarrow> sw_table_position \<Rightarrow> 's flow_callback \<Rightarrow> 's \<Rightarrow>
   (int \<times> sw_table_position \<times> 's) result" where
  "table_hash_iterate th k out_port position cb s =
     (if private0 position > ucast (bucket_mask th) then Ok (0, position, s)
      else if wildcards k = 0 then
        let position = position\<lparr>private0 := - 1\<rparr>
        in case table_hash_lookup th k of
             None \<Rightarrow> Ok (0, position, s)
           | Some i \<Rightarrow>
               (case buckets th ! i of
                  None \<Rightarrow> Ok (0, position, s)
                | Some flow \<Rightarrow>
                    bindR (flow_has_out_port flow out_port)
                      (\<lambda>hit. if hit then let (error, s) = cb flow s in Ok (error, position, s)
                             else Ok (0, position, s)))
      else
        let i = unat (private0 position)
        in bindR (hash_iterate_loop k out_port cb (drop i (buckets th)) i s)
             (\<lambda>(error, next, s).
                Ok (error,
                    (case next of None \<Rightarrow> position | Some j \<Rightarrow> position\<lparr>private0 := of_nat j\<rparr>), s)))"

definition table_hash_stats :: "sw_table_hash \<Rightarrow> sw_table_stats" where
  "table_hash_stats th =
     \<lparr>st_name = ''hash'', st_wildcards = 0, st_n_flows = h_n_flows th,
      st_max_flows = bucket_mask th + 1, st_n_lookup = n_lookup (h_swt th),
      st_n_matched = n_matched (h_swt th)\<rparr>"

definition table_hash_create :: "allocator \<Rightarrow> u32 \<Rightarrow> u32 \<Rightarrow> sw_table_hash option result" where
  "table_hash_create alloc polynomial n_buckets =
     (if \<not> alloc 0 then Ok None
      else guardR (n_buckets AND (n_buckets - 1) = 0) Assertion
        (if \<not> alloc (unat n_buckets) then Ok None
         else Ok (Some \<lparr>h_swt = zero_swt, crc32 = crc32_init polynomial, h_n_flows = 0,
                        bucket_mask = n_buckets - 1,
                        buckets = replicate (unat n_buckets) None\<rparr>)))"

section \<open>struct sw_table_hash2 and its operations\<close>

record sw_table_hash2 =
  h2_swt :: swt
  subtable0 :: sw_table_hash
  subtable1 :: sw_table_hash

text \<open>An entry of the double hash table is named by the subtable and the bucket it is in.\<close>

definition table_hash2_lookup :: "sw_table_hash2 \<Rightarrow> sw_flow_key \<Rightarrow> (nat \<times> nat) option" where
  "table_hash2_lookup t2 k =
     (case table_hash_lookup (subtable0 t2) k of
        Some i \<Rightarrow> Some (0, i)
      | None \<Rightarrow> map_option (Pair 1) (table_hash_lookup (subtable1 t2) k))"

definition table_hash2_insert :: "sw_table_hash2 \<Rightarrow> sw_flow \<Rightarrow> sw_table_hash2 \<times> bool" where
  "table_hash2_insert t2 flow =
     (case table_hash_insert (subtable0 t2) flow of
        (th, True) \<Rightarrow> (t2\<lparr>subtable0 := th\<rparr>, True)
      | (th, False) \<Rightarrow>
          let (th', retval) = table_hash_insert (subtable1 t2) flow
          in (t2\<lparr>subtable0 := th, subtable1 := th'\<rparr>, retval))"

definition table_hash2_modify ::
  "acts_allocator \<Rightarrow> sw_table_hash2 \<Rightarrow> sw_flow_key \<Rightarrow> u16 \<Rightarrow> bool \<Rightarrow> bytes \<Rightarrow> sw_table_hash2 \<times> u32" where
  "table_hash2_modify alloc t2 k prio strict acts =
     (let (th0, n0) = table_hash_modify alloc (subtable0 t2) k prio strict acts;
          (th1, n1) = table_hash_modify alloc (subtable1 t2) k prio strict acts
      in (t2\<lparr>subtable0 := th0, subtable1 := th1\<rparr>, n0 + n1))"

definition table_hash2_has_conflict :: "sw_table_hash2 \<Rightarrow> sw_flow_key \<Rightarrow> u16 \<Rightarrow> bool \<Rightarrow> bool" where
  "table_hash2_has_conflict t2 k prio strict \<longleftrightarrow>
     table_hash_has_conflict (subtable0 t2) k prio strict \<or>
     table_hash_has_conflict (subtable1 t2) k prio strict"

definition table_hash2_delete ::
  "'d flow_end \<Rightarrow> 'd \<Rightarrow> sw_table_hash2 \<Rightarrow> sw_flow_key \<Rightarrow> u16 \<Rightarrow> u16 \<Rightarrow> bool \<Rightarrow>
   ('d \<times> sw_table_hash2 \<times> u32) result" where
  "table_hash2_delete flow_end dp t2 k out_port prio strict =
     bindR (table_hash_delete flow_end dp (subtable0 t2) k out_port prio strict)
       (\<lambda>(dp, th0, n0).
          bindR (table_hash_delete flow_end dp (subtable1 t2) k out_port prio strict)
            (\<lambda>(dp, th1, n1). Ok (dp, t2\<lparr>subtable0 := th0, subtable1 := th1\<rparr>, n0 + n1)))"

definition table_hash2_timeout :: "u64 \<Rightarrow> sw_table_hash2 \<Rightarrow> sw_table_hash2 \<times> sw_flow list" where
  "table_hash2_timeout now t2 =
     (let (th0, gone0) = table_hash_timeout now (subtable0 t2);
          (th1, gone1) = table_hash_timeout now (subtable1 t2)
      in (t2\<lparr>subtable0 := th0, subtable1 := th1\<rparr>, gone0 @ gone1))"

text \<open>
  The loop over the two subtables, which starts at the subtable recorded in the position. After a
  subtable is finished the position moves to the start of the next one.
\<close>

definition next_subtable :: "sw_table_position \<Rightarrow> sw_table_position" where
  "next_subtable p = p\<lparr>private0 := 0, private1 := private1 p + 1\<rparr>"

definition table_hash2_iterate ::
  "sw_table_hash2 \<Rightarrow> sw_flow_key \<Rightarrow> u16 \<Rightarrow> sw_table_position \<Rightarrow> 's flow_callback \<Rightarrow> 's \<Rightarrow>
   (int \<times> sw_table_position \<times> 's) result" where
  "table_hash2_iterate t2 k out_port position cb s =
     (let second = (\<lambda>position s.
            bindR (table_hash_iterate (subtable1 t2) k out_port position cb s)
              (\<lambda>(error, p, s). if error \<noteq> 0 then Ok (error, p, s) else Ok (0, next_subtable p, s)))
      in if private1 position = 0 then
           bindR (table_hash_iterate (subtable0 t2) k out_port position cb s)
             (\<lambda>(error, p, s). if error \<noteq> 0 then Ok (error, p, s) else second (next_subtable p) s)
         else if private1 position = 1 then second position s
         else Ok (0, position, s))"

definition table_hash2_stats :: "sw_table_hash2 \<Rightarrow> sw_table_stats" where
  "table_hash2_stats t2 =
     (let s0 = table_hash_stats (subtable0 t2); s1 = table_hash_stats (subtable1 t2)
      in \<lparr>st_name = ''hash2'', st_wildcards = 0, st_n_flows = st_n_flows s0 + st_n_flows s1,
          st_max_flows = st_max_flows s0 + st_max_flows s1, st_n_lookup = n_lookup (h2_swt t2),
          st_n_matched = n_matched (h2_swt t2)\<rparr>)"

definition table_hash2_create ::
  "allocator \<Rightarrow> u32 \<Rightarrow> u32 \<Rightarrow> u32 \<Rightarrow> u32 \<Rightarrow> sw_table_hash2 option result" where
  "table_hash2_create alloc poly0 buckets0 poly1 buckets1 =
     (if \<not> alloc 0 then Ok None
      else bindR (table_hash_create alloc poly0 buckets0)
        (\<lambda>t0. case t0 of
           None \<Rightarrow> Ok None
         | Some th0 \<Rightarrow>
             bindR (table_hash_create alloc poly1 buckets1)
               (\<lambda>t1. case t1 of
                  None \<Rightarrow> Ok None
                | Some th1 \<Rightarrow> Ok (Some \<lparr>h2_swt = zero_swt, subtable0 = th0, subtable1 = th1\<rparr>))))"

section \<open>Contents and invariant of a hash table\<close>

definition opt_list :: "'a option \<Rightarrow> 'a list" where
  "opt_list b = (case b of None \<Rightarrow> [] | Some x \<Rightarrow> [x])"

definition entries :: "'a option list \<Rightarrow> 'a list" where
  "entries bs = concat (map opt_list bs)"

definition hash_flows :: "sw_table_hash \<Rightarrow> sw_flow list" where
  "hash_flows th = entries (buckets th)"

definition hash_entry_ok :: "sw_table_hash \<Rightarrow> nat \<Rightarrow> sw_flow \<Rightarrow> bool" where
  "hash_entry_ok th i f \<longleftrightarrow> entry_ok f \<and> wildcards (key f) = 0 \<and> find_bucket th (key f) = i"

definition hash_inv :: "sw_table_hash \<Rightarrow> bool" where
  "hash_inv th \<longleftrightarrow>
     length (buckets th) = Suc (unat (bucket_mask th)) \<and>
     h_n_flows th = of_nat (length (hash_flows th)) \<and>
     (\<forall>i < length (buckets th). \<forall>f \<in> set_option (buckets th ! i). hash_entry_ok th i f)"

lemma opt_list_simps [simp]: "opt_list None = []" "opt_list (Some x) = [x]"
  by (simp_all add: opt_list_def)

lemma entries_simps [simp]:
  "entries [] = []" "entries (b # bs) = opt_list b @ entries bs" "entries (bs @ cs) = entries bs @ entries cs"
  by (simp_all add: entries_def)

lemma set_opt_list [simp]: "set (opt_list b) = set_option b"
  by (cases b) auto

lemma set_entries: "x \<in> set (entries bs) \<longleftrightarrow> (\<exists>i < length bs. bs ! i = Some x)"
  by (fastforce simp: entries_def in_set_conv_nth elem_set)

lemma entries_split:
  assumes "i < length bs"
  shows "entries bs = entries (take i bs) @ opt_list (bs ! i) @ entries (drop (Suc i) bs)"
    "entries (bs[i := b]) = entries (take i bs) @ opt_list b @ entries (drop (Suc i) bs)"
  using id_take_nth_drop [OF assms] upd_conv_take_nth_drop [OF assms, of b]
  by (metis append_Cons append_Nil entries_simps(2,3))+

lemma find_bucket_less: "hash_inv th \<Longrightarrow> find_bucket th k < length (buckets th)"
  using word_and_le1 [of "crc32_calculate (crc32 th) (flow_bytes (kflow k))" "bucket_mask th"]
  by (simp add: hash_inv_def find_bucket_def less_Suc_eq_le word_le_nat_alt and.commute)

lemma find_bucket_cong: "kflow k = kflow k' \<Longrightarrow> find_bucket th k = find_bucket th k'"
  by (simp add: find_bucket_def)

lemma find_bucket_upd [simp]:
  "find_bucket (th\<lparr>buckets := bs\<rparr>) = find_bucket th"
  "find_bucket (th\<lparr>h_n_flows := n\<rparr>) = find_bucket th"
  "find_bucket (th\<lparr>h_swt := s\<rparr>) = find_bucket th"
  by (simp_all add: find_bucket_def fun_eq_iff)

lemma hash_entry_ok_upd [simp]:
  "hash_entry_ok (th\<lparr>buckets := bs\<rparr>) = hash_entry_ok th"
  "hash_entry_ok (th\<lparr>h_n_flows := n\<rparr>) = hash_entry_ok th"
  by (simp_all add: hash_entry_ok_def fun_eq_iff)

lemma hash_inv_at:
  "hash_inv th \<Longrightarrow> i < length (buckets th) \<Longrightarrow> buckets th ! i = Some f \<Longrightarrow> hash_entry_ok th i f"
  by (simp add: hash_inv_def)

lemma hash_flowsD: "hash_inv th \<Longrightarrow> f \<in> set (hash_flows th) \<Longrightarrow> hash_entry_ok th (find_bucket th (key f)) f"
  using hash_inv_at by (fastforce simp: hash_flows_def set_entries hash_entry_ok_def)

lemma hash_flows_ok: "hash_inv th \<Longrightarrow> f \<in> set (hash_flows th) \<Longrightarrow> entry_ok f \<and> wildcards (key f) = 0"
  using hash_flowsD by (auto simp: hash_entry_ok_def)

text \<open>Every entry with the fields of \<open>k\<close> is in the bucket of \<open>k\<close>.\<close>

lemma elsewhere:
  assumes "hash_inv th" "find_bucket th k = i"
    and "g \<in> set (entries (take i (buckets th))) \<union> set (entries (drop (Suc i) (buckets th)))"
  shows "kflow (key g) \<noteq> kflow k"
proof
  assume eq: "kflow (key g) = kflow k"
  from assms(3) have "\<exists>j < length (buckets th). j \<noteq> i \<and> buckets th ! j = Some g"
  proof
    assume "g \<in> set (entries (take i (buckets th)))"
    then show ?thesis by (auto simp: set_entries)
  next
    assume "g \<in> set (entries (drop (Suc i) (buckets th)))"
    then obtain j where "Suc i + j < length (buckets th)" "buckets th ! (Suc i + j) = Some g"
      by (auto simp: set_entries less_diff_conv ac_simps)
    then show ?thesis by (intro exI [of _ "Suc i + j"]) simp
  qed
  then obtain j where j: "j < length (buckets th)" "j \<noteq> i" "buckets th ! j = Some g"
    by blast
  then show False
    using hash_inv_at [OF assms(1) j(1,3)] assms(2) find_bucket_cong [OF eq, of th]
    by (simp add: hash_entry_ok_def)
qed

text \<open>Rebuilding the invariant after one bucket was written.\<close>

lemma hash_inv_upd:
  assumes "hash_inv th" "i < length (buckets th)" "\<And>f. b = Some f \<Longrightarrow> hash_entry_ok th i f"
    and "n = of_nat (length (entries ((buckets th)[i := b])))"
  shows "hash_inv (th\<lparr>h_n_flows := n, buckets := (buckets th)[i := b]\<rparr>)"
  using assms by (auto simp: hash_inv_def hash_flows_def nth_list_update elem_set)

section \<open>The hash table satisfies the contract\<close>

lemma hash_lookup_Some:
  assumes "hash_inv th" "pad (kflow k) = (0, 0, 0)" "table_hash_lookup th k = Some i"
  obtains f where "i = find_bucket th k" "i < length (buckets th)" "buckets th ! i = Some f"
    "kflow (key f) = kflow k" "f \<in> set (hash_flows th)"
  using assms(3) find_bucket_less [OF assms(1), of k]
  by (auto simp: table_hash_lookup_def Let_def hash_flows_def set_entries split: option.splits if_splits)

definition hash_flow_at :: "sw_table_hash \<Rightarrow> nat \<Rightarrow> sw_flow" where
  "hash_flow_at th i = the (buckets th ! i)"

definition hash_set_flow :: "sw_table_hash \<Rightarrow> nat \<Rightarrow> sw_flow \<Rightarrow> sw_table_hash" where
  "hash_set_flow th i f = th\<lparr>buckets := (buckets th)[i := Some f]\<rparr>"

lemma hash_matches:
  assumes "hash_inv th" "f \<in> set (hash_flows th)" "pad (kflow k) = (0, 0, 0)"
  shows "flow_matches_1wild k (key f) \<longleftrightarrow> kflow k = kflow (key f)"
  using hash_flows_ok [OF assms(1,2)] assms(3) by (simp add: entry_ok_def key_ok_exact_matches)

lemma hash_priority: "hash_inv th \<Longrightarrow> f \<in> set (hash_flows th) \<Longrightarrow> priority f = 0xffff"
  using hash_flows_ok [of th f] by (simp add: entry_ok_def)

lemma hash_lookup_None:
  assumes "hash_inv th" "table_hash_lookup th k = None" "f \<in> set (hash_flows th)"
  shows "kflow k \<noteq> kflow (key f)"
proof
  assume "kflow k = kflow (key f)"
  then have "find_bucket th (key f) = find_bucket th k"
    by (simp add: find_bucket_def)
  moreover obtain i where "i < length (buckets th)" "buckets th ! i = Some f"
    using assms(3) by (auto simp: hash_flows_def set_entries)
  ultimately show False
    using hash_inv_at [OF assms(1)] assms(2) \<open>kflow k = kflow (key f)\<close>
    by (auto simp: table_hash_lookup_def hash_entry_ok_def Let_def)
qed

lemma hash_set_flow_spec:
  assumes "hash_inv th" "i < length (buckets th)" "buckets th ! i = Some g" "same_slot f g"
  shows "hash_inv (hash_set_flow th i f)"
    "\<exists>xs ys. hash_flows th = xs @ g # ys \<and> hash_flows (hash_set_flow th i f) = xs @ f # ys"
proof -
  have ok: "hash_entry_ok th i f"
    using hash_inv_at [OF assms(1-3)] assms(4) entry_ok_same_slot [OF assms(4)]
    by (simp add: hash_entry_ok_def same_slot_def)
  have "length (entries ((buckets th)[i := Some f])) = length (hash_flows th)"
    using entries_split [OF assms(2)] assms(3) by (simp add: hash_flows_def)
  then show "hash_inv (hash_set_flow th i f)"
    using assms(1,2) ok by (auto simp: hash_inv_def hash_set_flow_def hash_flows_def nth_list_update elem_set)
  show "\<exists>xs ys. hash_flows th = xs @ g # ys \<and> hash_flows (hash_set_flow th i f) = xs @ f # ys"
    using entries_split [OF assms(2)] assms(3) by (auto simp: hash_flows_def hash_set_flow_def)
qed

lemma hash_insert_True:
  assumes inv: "hash_inv th" and ok: "entry_ok f" and ins: "table_hash_insert th f = (th', True)"
  shows "hash_inv th' \<and> (\<exists>xs ys. hash_flows th' = xs @ f # ys \<and>
    (hash_flows th = xs @ ys \<or> (\<exists>g. hash_flows th = xs @ g # ys \<and> same_entry g f)))"
proof -
  define i where "i = find_bucket th (key f)"
  have i: "i < length (buckets th)" and w: "wildcards (key f) = 0"
    using find_bucket_less [OF inv] ins by (auto simp: i_def table_hash_insert_def split: if_splits)
  then have e: "hash_entry_ok th i f"
    using ok by (simp add: hash_entry_ok_def i_def)
  note split = entries_split [OF i]
  show ?thesis
  proof (cases "buckets th ! i")
    case None
    then have th': "th' = th\<lparr>h_n_flows := h_n_flows th + 1, buckets := (buckets th)[i := Some f]\<rparr>"
      using ins w by (simp add: table_hash_insert_def i_def)
    have "hash_inv th'"
      unfolding th' using inv i e None split
      by (intro hash_inv_upd) (auto simp: hash_inv_def hash_flows_def)
    then show ?thesis
      using None split by (auto simp: th' hash_flows_def)
  next
    case (Some g)
    then have th': "th' = th\<lparr>buckets := (buckets th)[i := Some f]\<rparr>" and g: "kflow (key g) = kflow (key f)"
      using ins w by (auto simp: table_hash_insert_def i_def Let_def split: if_splits)
    have "hash_inv (th\<lparr>h_n_flows := h_n_flows th, buckets := (buckets th)[i := Some f]\<rparr>)"
      using inv i e Some split by (intro hash_inv_upd) (auto simp: hash_inv_def hash_flows_def)
    moreover have "same_entry g f"
      using hash_inv_at [OF inv i Some] ok w g
      by (simp add: same_entry_def hash_entry_ok_def entry_ok_def key_ok_exact_2wild)
    ultimately show ?thesis
      using Some split by (auto simp: th' hash_flows_def)
  qed
qed

lemma hash_insert_False: "table_hash_insert th f = (th', False) \<Longrightarrow> th' = th"
  by (auto simp: table_hash_insert_def Let_def split: if_splits option.splits)

subsection \<open>Modification\<close>

definition modify_entry :: "acts_allocator \<Rightarrow> sw_flow_key \<Rightarrow> u16 \<Rightarrow> bool \<Rightarrow> bytes \<Rightarrow> sw_flow \<Rightarrow> sw_flow" where
  "modify_entry alloc k prio strict acts f =
     (if modify_sel k prio strict f then flow_replace_acts (alloc f) f acts else f)"

lemma hash_modify_loop_eq:
  "hash_modify_loop alloc k prio strict acts bs count =
     (map (map_option (modify_entry alloc k prio strict acts)) bs,
      count + of_nat (length (filter (modify_sel k prio strict) (entries bs))))"
proof (induction bs arbitrary: count)
  case (Cons b bs)
  then show ?case
    by (cases b) (auto simp: modify_entry_def modify_sel_def ac_simps)
qed simp

lemma entries_map: "entries (map (map_option g) bs) = map g (entries bs)"
proof (induction bs)
  case (Cons b bs)
  then show ?case by (cases b) auto
qed simp

lemma modify_entry_keeps [simp]:
  "key (modify_entry alloc k prio strict acts f) = key f"
  "priority (modify_entry alloc k prio strict acts f) = priority f"
  "serial (modify_entry alloc k prio strict acts f) = serial f"
  by (simp_all add: modify_entry_def)

lemma entry_ok_modify: "entry_ok f \<Longrightarrow> acts_framed acts \<Longrightarrow> entry_ok (modify_entry alloc k prio strict acts f)"
  by (simp add: modify_entry_def entry_ok_replace_acts)

lemma hash_inv_map:
  assumes "hash_inv th" "\<And>f. key (g f) = key f" "\<And>f. f \<in> set (hash_flows th) \<Longrightarrow> entry_ok (g f)"
  shows "hash_inv (th\<lparr>buckets := map (map_option g) (buckets th)\<rparr>)"
  using assms by (auto simp: hash_inv_def hash_flows_def entries_map hash_entry_ok_def set_entries elem_set)

text \<open>For a key without wildcards the selected entries have its fields.\<close>

lemma modify_sel_exact:
  assumes "hash_inv th" "f \<in> set (hash_flows th)" "desc_ok k prio" "wildcards k = 0"
  shows "modify_sel k prio strict f \<longleftrightarrow> kflow (key f) = kflow k"
proof -
  have f: "key_ok (key f)" "wildcards (key f) = 0" "priority f = 0xffff"
    using hash_flows_ok [OF assms(1,2)] by (auto simp: entry_ok_def)
  then show ?thesis
    using assms(3,4) key_ok_exact_matches [of k "key f"] key_ok_pad [OF f(1)]
    by (auto simp: modify_sel_def flow_matches_desc_def desc_ok_def)
qed

text \<open>When only entries with the fields of \<open>k\<close> are selected, the bucket of \<open>k\<close> is all there is to see.\<close>

definition drop_sel :: "('a \<Rightarrow> bool) \<Rightarrow> 'a option \<Rightarrow> 'a option" where
  "drop_sel P b = (case b of Some f \<Rightarrow> if P f then None else Some f | None \<Rightarrow> None)"

lemma drop_sel_simps [simp]: "drop_sel P None = None" "drop_sel P (Some f) = (if P f then None else Some f)"
  by (simp_all add: drop_sel_def)

lemma entries_drop_sel: "entries (map (drop_sel P) bs) = filter (\<lambda>f. \<not> P f) (entries bs)"
proof (induction bs)
  case (Cons b bs)
  then show ?case by (cases b) auto
qed simp

lemma only_bucket:
  assumes inv: "hash_inv th" and i: "i = find_bucket th k"
    and P: "\<And>f. f \<in> set (hash_flows th) \<Longrightarrow> P f \<longleftrightarrow> kflow (key f) = kflow k"
  shows "filter P (hash_flows th) = filter P (opt_list (buckets th ! i))"
    "filter (\<lambda>f. \<not> P f) (hash_flows th) =
       entries ((buckets th)[i := drop_sel P (buckets th ! i)])"
proof -
  let ?l = "entries (take i (buckets th))" and ?r = "entries (drop (Suc i) (buckets th))"
  have len: "i < length (buckets th)" using find_bucket_less [OF inv] i by simp
  note split = entries_split [OF len]
  have flows: "hash_flows th = ?l @ opt_list (buckets th ! i) @ ?r"
    unfolding hash_flows_def by (rule split(1))
  have none: "\<not> P g" if "g \<in> set ?l \<union> set ?r" for g
    using that elsewhere [OF inv i [symmetric] that] P [of g] by (auto simp: flows)
  then have *: "filter P ?l = []" "filter P ?r = []" "filter (\<lambda>f. \<not> P f) ?l = ?l" "filter (\<lambda>f. \<not> P f) ?r = ?r"
    by (simp_all add: filter_empty_conv filter_id_conv)
  show "filter P (hash_flows th) = filter P (opt_list (buckets th ! i))"
    by (simp only: flows filter_append * append_Nil append_Nil2)
  show "filter (\<lambda>f. \<not> P f) (hash_flows th) =
       entries ((buckets th)[i := drop_sel P (buckets th ! i)])"
    unfolding split(2) flows filter_append * by (cases "buckets th ! i") auto
qed

lemma map_only_bucket:
  assumes inv: "hash_inv th" and i: "i = find_bucket th k"
    and g: "\<And>f. f \<in> set (hash_flows th) \<Longrightarrow> kflow (key f) \<noteq> kflow k \<Longrightarrow> g f = f"
  shows "map (map_option g) (buckets th) = (buckets th)[i := map_option g (buckets th ! i)]"
proof (rule nth_equalityI)
  fix j
  assume "j < length (map (map_option g) (buckets th))"
  then have j: "j < length (buckets th)" by simp
  show "map (map_option g) (buckets th) ! j = (buckets th)[i := map_option g (buckets th ! i)] ! j"
  proof (cases "j = i \<or> buckets th ! j = None")
    case True
    then show ?thesis using j by (cases "j = i") (auto simp: nth_list_update)
  next
    case False
    then obtain f where f: "buckets th ! j = Some f" and "j \<noteq> i" by auto
    then have "kflow (key f) \<noteq> kflow k"
      using hash_inv_at [OF inv j f] find_bucket_cong [of "key f" k th] i by (auto simp: hash_entry_ok_def)
    moreover have "f \<in> set (hash_flows th)"
      using j f by (auto simp: hash_flows_def set_entries)
    ultimately show ?thesis using g f j \<open>j \<noteq> i\<close> by (simp add: nth_list_update)
  qed
qed simp

lemma hash_modify_eq:
  assumes inv: "hash_inv th" and k: "desc_ok k prio"
  shows "table_hash_modify alloc th k prio strict acts =
    (th\<lparr>buckets := map (map_option (modify_entry alloc k prio strict acts)) (buckets th)\<rparr>,
     of_nat (length (filter (modify_sel k prio strict) (hash_flows th))))"
proof (cases "wildcards k = 0")
  case True
  define i where "i = find_bucket th k"
  note sel = modify_sel_exact [OF inv _ k True, of _ strict]
  have "filter (modify_sel k prio strict) (hash_flows th)
      = filter (modify_sel k prio strict) (opt_list (buckets th ! i))"
    by (rule only_bucket(1) [OF inv i_def sel])
  moreover have "map (map_option (modify_entry alloc k prio strict acts)) (buckets th)
      = (buckets th)[i := map_option (modify_entry alloc k prio strict acts) (buckets th ! i)]"
    by (rule map_only_bucket [OF inv i_def]) (simp add: modify_entry_def sel)
  moreover have "(buckets th)[i := buckets th ! i] = buckets th" by simp
  ultimately show ?thesis
    using True
    by (cases "buckets th ! i") (auto simp: table_hash_modify_def i_def [symmetric] modify_entry_def modify_sel_def)
qed (simp add: table_hash_modify_def hash_modify_loop_eq hash_flows_def)

lemma hash_modify_spec:
  assumes "hash_inv th" "desc_ok k prio" "acts_framed acts"
    "table_hash_modify alloc th k prio strict acts = (th', n)"
  shows "hash_inv th' \<and> n = of_nat (length (filter (modify_sel k prio strict) (hash_flows th))) \<and>
    hash_flows th' = map (modify_entry alloc k prio strict acts) (hash_flows th)"
proof -
  have "hash_inv (th\<lparr>buckets := map (map_option (modify_entry alloc k prio strict acts)) (buckets th)\<rparr>)"
    using assms(1,3) by (intro hash_inv_map) (auto intro: entry_ok_modify dest: hash_flows_ok)
  then show ?thesis
    using assms(4) hash_modify_eq [OF assms(1,2)] by (auto simp: hash_flows_def entries_map)
qed

subsection \<open>Conflicts\<close>

lemma hash_conflict_loop_eq:
  "hash_conflict_loop k prio strict bs \<longleftrightarrow> (\<exists>f \<in> set (entries bs). conflict_sel k prio strict f)"
proof (induction bs)
  case (Cons b bs)
  then show ?case by (cases b) (auto simp: conflict_sel_def)
qed simp

lemma hash_conflict_spec:
  assumes inv: "hash_inv th" and k: "desc_ok k prio"
  shows "table_hash_has_conflict th k prio strict \<longleftrightarrow>
    (\<exists>f \<in> set (hash_flows th). conflict_sel k prio strict f)"
proof (cases "wildcards k = 0")
  case True
  have "conflict_sel k prio strict f \<longleftrightarrow> kflow (key f) = kflow k" if "f \<in> set (hash_flows th)" for f
    using hash_flows_ok [OF inv that] k True
    by (auto simp: conflict_sel_def flow_matches_2desc_def desc_ok_def entry_ok_def key_ok_exact_2wild)
  then have "filter (conflict_sel k prio strict) (hash_flows th)
      = filter (conflict_sel k prio strict) (opt_list (buckets th ! find_bucket th k))"
    by (rule only_bucket(1) [OF inv refl])
  then have "(\<exists>f \<in> set (hash_flows th). conflict_sel k prio strict f) \<longleftrightarrow>
      (\<exists>f \<in> set (opt_list (buckets th ! find_bucket th k)). conflict_sel k prio strict f)"
    by (metis filter_empty_conv)
  then show ?thesis
    using True by (auto simp: table_hash_has_conflict_def conflict_sel_def split: option.splits)
qed (simp add: table_hash_has_conflict_def hash_conflict_loop_eq hash_flows_def)

subsection \<open>Deletion and timeouts\<close>

lemma hash_inv_drop:
  assumes "hash_inv th"
  shows "hash_inv (th\<lparr>buckets := map (drop_sel P) (buckets th),
    h_n_flows := h_n_flows th - of_nat (length (filter P (hash_flows th)))\<rparr>)"
proof -
  have "h_n_flows th = of_nat (length (filter P (hash_flows th)) + length (filter (\<lambda>f. \<not> P f) (hash_flows th)))"
    using assms by (simp only: length_filter_partition hash_inv_def)
  then have "h_n_flows th - of_nat (length (filter P (hash_flows th)))
      = of_nat (length (filter (\<lambda>f. \<not> P f) (hash_flows th)))"
    by simp
  then show ?thesis
    using assms by (auto simp: hash_inv_def hash_flows_def entries_drop_sel drop_sel_def elem_set
        split: option.splits if_splits)
qed

lemma hash_delete_loop_eq:
  assumes "\<And>f. f \<in> set (entries bs) \<Longrightarrow>
    (if flow_matches_desc (key f) k strict then flow_has_out_port f port else Ok False) = Ok (P f)"
  shows "hash_delete_loop flow_end k port strict bs dp count =
    Ok (foldl (\<lambda>d f. flow_end d f OFPRR_DELETE) dp (filter P (entries bs)),
        map (drop_sel P) bs, count + of_nat (length (filter P (entries bs))))"
  using assms
proof (induction bs arbitrary: dp count)
  case (Cons b bs)
  note IH = Cons.IH [OF Cons.prems]
  show ?case
  proof (cases b)
    case None
    then show ?thesis using IH by simp
  next
    case (Some f)
    then show ?thesis using IH Cons.prems [of f] by (simp add: ac_simps)
  qed
qed simp

lemma delete_sel_wild:
  assumes "hash_inv th" "f \<in> set (hash_flows th)" "wildcards k \<noteq> 0"
  shows "(if flow_matches_desc (key f) k strict then flow_has_out_port f port else Ok False)
    = Ok (delete_sel k port prio strict f)"
  using hash_flows_ok [OF assms(1,2)] assms(3)
  by (auto simp: flow_has_out_port_ok delete_sel_def modify_sel_def flow_matches_desc_def)

lemma map_drop_only_bucket:
  assumes inv: "hash_inv th" and i: "i = find_bucket th k"
    and P: "\<And>f. f \<in> set (hash_flows th) \<Longrightarrow> P f \<Longrightarrow> kflow (key f) = kflow k"
  shows "map (drop_sel P) (buckets th) = (buckets th)[i := drop_sel P (buckets th ! i)]"
proof (rule nth_equalityI)
  fix j
  assume "j < length (map (drop_sel P) (buckets th))"
  then have j: "j < length (buckets th)" by simp
  show "map (drop_sel P) (buckets th) ! j = (buckets th)[i := drop_sel P (buckets th ! i)] ! j"
  proof (cases "j = i \<or> buckets th ! j = None")
    case True
    then show ?thesis using j by (cases "j = i") (auto simp: nth_list_update)
  next
    case False
    then obtain f where f: "buckets th ! j = Some f" and "j \<noteq> i" by auto
    then have "kflow (key f) \<noteq> kflow k"
      using hash_inv_at [OF inv j f] find_bucket_cong [of "key f" k th] i by (auto simp: hash_entry_ok_def)
    moreover have "f \<in> set (hash_flows th)"
      using j f by (auto simp: hash_flows_def set_entries)
    ultimately show ?thesis using P f j \<open>j \<noteq> i\<close> by (auto simp: nth_list_update)
  qed
qed simp

lemma hash_delete_eq:
  assumes inv: "hash_inv th" and k: "desc_ok k prio" and P_def: "P = delete_sel k port prio strict"
  shows "table_hash_delete flow_end dp th k port prio strict =
    Ok (foldl (\<lambda>d f. flow_end d f OFPRR_DELETE) dp (filter P (hash_flows th)),
        th\<lparr>buckets := map (drop_sel P) (buckets th),
           h_n_flows := h_n_flows th - of_nat (length (filter P (hash_flows th)))\<rparr>,
        of_nat (length (filter P (hash_flows th))))"
proof (cases "wildcards k = 0")
  case True
  define i where "i = find_bucket th k"
  define Q where "Q = (\<lambda>f :: sw_flow. kflow (key f) = kflow k)"
  have len: "i < length (buckets th)" using find_bucket_less [OF inv] by (simp add: i_def)
  have sel: "P f \<longleftrightarrow> Q f \<and> outputs_to port f" if "f \<in> set (hash_flows th)" for f
    using modify_sel_exact [OF inv that k True] by (simp add: P_def Q_def delete_sel_def)
  have "filter P (hash_flows th) = filter (outputs_to port) (filter Q (hash_flows th))"
    by (simp add: sel conj_commute cong: filter_cong)
  also have "filter Q (hash_flows th) = filter Q (opt_list (buckets th ! i))"
    by (rule only_bucket(1) [OF inv i_def]) (simp add: Q_def)
  finally have hits: "filter P (hash_flows th) = filter (outputs_to port) (filter Q (opt_list (buckets th ! i)))" .
  have bs: "map (drop_sel P) (buckets th) = (buckets th)[i := drop_sel P (buckets th ! i)]"
    by (rule map_drop_only_bucket [OF inv i_def]) (simp add: sel Q_def)
  show ?thesis
  proof (cases "buckets th ! i")
    case None
    then have "(buckets th)[i := None] = buckets th" by (metis list_update_id)
    then show ?thesis
      unfolding hits bs using True None by (simp add: table_hash_delete_def i_def [symmetric])
  next
    case (Some f)
    then have same: "(buckets th)[i := Some f] = buckets th" by (metis list_update_id)
    have f: "flow_has_out_port f port = Ok (outputs_to port f)" "P f \<longleftrightarrow> Q f \<and> outputs_to port f"
      using hash_inv_at [OF inv len Some] len Some sel [of f]
      by (auto simp: hash_entry_ok_def flow_has_out_port_ok hash_flows_def set_entries)
    show ?thesis
      unfolding hits bs using True Some f same
      by (cases "Q f"; cases "outputs_to port f") (simp_all add: table_hash_delete_def i_def [symmetric] Q_def)
  qed
next
  case False
  then show ?thesis
    using hash_delete_loop_eq [of "buckets th" k strict port P flow_end dp 0] delete_sel_wild [OF inv]
    by (simp add: table_hash_delete_def P_def hash_flows_def)
qed

lemma hash_delete_spec:
  assumes "hash_inv th" "desc_ok k prio"
  shows "\<exists>th'. table_hash_delete flow_end dp th k port prio strict =
    Ok (foldl (\<lambda>d f. flow_end d f OFPRR_DELETE) dp (filter (delete_sel k port prio strict) (hash_flows th)),
        th', of_nat (length (filter (delete_sel k port prio strict) (hash_flows th)))) \<and>
    hash_inv th' \<and> hash_flows th' = filter (\<lambda>f. \<not> delete_sel k port prio strict f) (hash_flows th)"
  using hash_delete_eq [OF assms refl, where flow_end = flow_end and dp = dp] hash_inv_drop [OF assms(1), of "delete_sel k port prio strict"]
  by (simp add: hash_flows_def entries_drop_sel)

lemma hash_timeout_loop_eq:
  "hash_timeout_loop now bs n =
     (map (drop_sel (expired now)) bs, n - of_nat (length (filter (expired now) (entries bs))),
      map (\<lambda>f. fst (flow_timeout now f)) (filter (expired now) (entries bs)))"
proof (induction bs arbitrary: n)
  case (Cons b bs)
  show ?case
  proof (cases b)
    case None
    then show ?thesis using Cons by simp
  next
    case (Some f)
    show ?thesis
    proof (cases "expired now f")
      case True
      then obtain f' where "flow_timeout now f = (f', True)"
        by (metis expired_def prod.collapse)
      then show ?thesis using Some True Cons [of "n - 1"] by (simp add: algebra_simps)
    next
      case False
      then have "flow_timeout now f = (f, False)"
        by (auto simp: expired_def flow_timeout_def split: if_splits)
      then show ?thesis using Some False Cons [of n] by simp
    qed
  qed
qed simp

lemma hash_timeout_spec:
  assumes "hash_inv th" "table_hash_timeout now th = (th', gone)"
  shows "hash_inv th' \<and> hash_flows th' = filter (\<lambda>f. \<not> expired now f) (hash_flows th) \<and>
    gone = map (\<lambda>f. fst (flow_timeout now f)) (filter (expired now) (hash_flows th))"
  using assms hash_inv_drop [OF assms(1), of "expired now"]
  by (auto simp: table_hash_timeout_def hash_timeout_loop_eq hash_flows_def entries_drop_sel)

interpretation hash: flow_table hash_inv hash_flows table_hash_lookup hash_flow_at hash_set_flow
  table_hash_insert table_hash_modify table_hash_has_conflict table_hash_delete table_hash_timeout
proof
  fix t :: sw_table_hash and f :: sw_flow
  assume "hash_inv t" "f \<in> set (hash_flows t)"
  then show "entry_ok f" using hash_flows_ok by blast
next
  fix t k r
  assume inv: "hash_inv t" and k: "pad (kflow k) = (0, 0, 0)" and l: "table_hash_lookup t k = Some r"
  then obtain f where f: "buckets t ! r = Some f" "kflow (key f) = kflow k" "f \<in> set (hash_flows t)"
    by (rule hash_lookup_Some)
  then show "hash_flow_at t r \<in> set (hash_flows t) \<and> flow_matches_1wild k (key (hash_flow_at t r)) \<and>
    (\<forall>f \<in> set (hash_flows t). flow_matches_1wild k (key f) \<longrightarrow> priority f \<le> priority (hash_flow_at t r))"
    using hash_matches [OF inv _ k] hash_priority [OF inv] by (simp add: hash_flow_at_def)
next
  fix t k f
  assume "hash_inv t" "pad (kflow k) = (0, 0, 0)" "table_hash_lookup t k = None" "f \<in> set (hash_flows t)"
  then show "\<not> flow_matches_1wild k (key f)"
    using hash_matches hash_lookup_None by blast
next
  fix t k r f
  assume inv: "hash_inv t" and k: "pad (kflow k) = (0, 0, 0)" and l: "table_hash_lookup t k = Some r"
    and same: "same_slot f (hash_flow_at t r)"
  from inv k l obtain g where "r < length (buckets t)" "buckets t ! r = Some g"
    by (rule hash_lookup_Some)
  then show "hash_inv (hash_set_flow t r f) \<and>
    (\<exists>xs ys. hash_flows t = xs @ hash_flow_at t r # ys \<and> hash_flows (hash_set_flow t r f) = xs @ f # ys)"
    using hash_set_flow_spec [OF inv] same by (simp add: hash_flow_at_def)
next
  fix t f t'
  assume "hash_inv t" "entry_ok f" "table_hash_insert t f = (t', True)"
  from hash_insert_True [OF this] obtain xs ys where
    "hash_inv t'" "hash_flows t' = xs @ f\<lparr>serial := serial f\<rparr> # ys"
    "hash_flows t = xs @ ys \<or> (\<exists>g. hash_flows t = xs @ g # ys \<and> same_entry g f)"
    by auto
  then show "hash_inv t' \<and> (\<exists>xs ys s. hash_flows t' = xs @ f\<lparr>serial := s\<rparr> # ys \<and>
      (hash_flows t = xs @ ys \<or> (\<exists>g. hash_flows t = xs @ g # ys \<and> same_entry g f)))"
    by blast
next
  fix t t' :: sw_table_hash and f
  assume "table_hash_insert t f = (t', False)"
  then show "t' = t" by (rule hash_insert_False)
next
  fix t t' :: sw_table_hash and alloc k prio strict acts n
  assume "hash_inv t" "desc_ok k prio" "acts_framed acts"
    "table_hash_modify alloc t k prio strict acts = (t', n)"
  then show "hash_inv t' \<and> n = of_nat (length (filter (modify_sel k prio strict) (hash_flows t))) \<and>
    hash_flows t' = map (\<lambda>f. if modify_sel k prio strict f then flow_replace_acts (alloc f) f acts else f) (hash_flows t)"
    unfolding modify_entry_def [symmetric] by (rule hash_modify_spec)
qed (rule hash_conflict_spec hash_delete_spec hash_timeout_spec; assumption)+

lemma table_hash_create_inv:
  assumes "table_hash_create alloc polynomial n = Ok (Some th)" "n \<noteq> 0"
  shows "hash_inv th" "hash_flows th = []"
proof -
  have th: "th = \<lparr>h_swt = zero_swt, crc32 = crc32_init polynomial, h_n_flows = 0,
      bucket_mask = n - 1, buckets = replicate (unat n) None\<rparr>"
    using assms(1) by (auto simp: table_hash_create_def result_simps split: if_splits)
  have none: "entries (replicate m None) = []" for m
    by (induction m) auto
  have "unat n = Suc (unat (n - 1))"
    using assms(2) by (simp add: unat_minus_one Suc_diff_1 unat_gt_0)
  then show "hash_inv th" "hash_flows th = []"
    using nth_replicate [of _ "unat n" "None :: sw_flow option"]
    by (auto simp: th hash_inv_def hash_flows_def none simp del: replicate.simps)
qed

section \<open>The double hash table satisfies the contract\<close>

definition hash2_inv :: "sw_table_hash2 \<Rightarrow> bool" where
  "hash2_inv t2 \<longleftrightarrow> hash_inv (subtable0 t2) \<and> hash_inv (subtable1 t2)"

definition hash2_flows :: "sw_table_hash2 \<Rightarrow> sw_flow list" where
  "hash2_flows t2 = hash_flows (subtable0 t2) @ hash_flows (subtable1 t2)"

definition hash2_flow_at :: "sw_table_hash2 \<Rightarrow> nat \<times> nat \<Rightarrow> sw_flow" where
  "hash2_flow_at t2 r = hash_flow_at (if fst r = 0 then subtable0 t2 else subtable1 t2) (snd r)"

definition hash2_set_flow :: "sw_table_hash2 \<Rightarrow> nat \<times> nat \<Rightarrow> sw_flow \<Rightarrow> sw_table_hash2" where
  "hash2_set_flow t2 r f =
     (if fst r = 0 then t2\<lparr>subtable0 := hash_set_flow (subtable0 t2) (snd r) f\<rparr>
      else t2\<lparr>subtable1 := hash_set_flow (subtable1 t2) (snd r) f\<rparr>)"

lemmas hash2_defs = hash2_inv_def hash2_flows_def hash2_flow_at_def hash2_set_flow_def

lemma hash2_lookup_cases:
  assumes "table_hash2_lookup t2 k = Some r"
  obtains (first) i where "r = (0, i)" "table_hash_lookup (subtable0 t2) k = Some i"
  | (second) i where "r = (1, i)" "table_hash_lookup (subtable0 t2) k = None"
      "table_hash_lookup (subtable1 t2) k = Some i"
  using assms by (auto simp: table_hash2_lookup_def split: option.splits)

lemma hash2_priority: "hash2_inv t2 \<Longrightarrow> f \<in> set (hash2_flows t2) \<Longrightarrow> priority f = 0xffff"
  using hash_priority by (auto simp: hash2_defs)

lemma hash2_lookup_Some:
  assumes inv: "hash2_inv t2" and k: "pad (kflow k) = (0, 0, 0)" and l: "table_hash2_lookup t2 k = Some r"
  shows "hash2_flow_at t2 r \<in> set (hash2_flows t2) \<and> flow_matches_1wild k (key (hash2_flow_at t2 r)) \<and>
    (\<forall>f \<in> set (hash2_flows t2). flow_matches_1wild k (key f) \<longrightarrow> priority f \<le> priority (hash2_flow_at t2 r))"
proof -
  have sub: "hash_inv (subtable0 t2)" "hash_inv (subtable1 t2)" using inv by (simp_all add: hash2_defs)
  have "hash2_flow_at t2 r \<in> set (hash2_flows t2) \<and> flow_matches_1wild k (key (hash2_flow_at t2 r))"
    using l
  proof (cases rule: hash2_lookup_cases)
    case (first i)
    then show ?thesis using hash.lookup_Some [OF sub(1) k] by (simp add: hash2_defs)
  next
    case (second i)
    then show ?thesis using hash.lookup_Some [OF sub(2) k] by (simp add: hash2_defs)
  qed
  then show ?thesis using hash2_priority [OF inv] by simp
qed

lemma hash2_set_flow_spec:
  assumes inv: "hash2_inv t2" and k: "pad (kflow k) = (0, 0, 0)" and l: "table_hash2_lookup t2 k = Some r"
    and same: "same_slot f (hash2_flow_at t2 r)"
  shows "hash2_inv (hash2_set_flow t2 r f) \<and>
    (\<exists>xs ys. hash2_flows t2 = xs @ hash2_flow_at t2 r # ys \<and> hash2_flows (hash2_set_flow t2 r f) = xs @ f # ys)"
proof -
  have sub: "hash_inv (subtable0 t2)" "hash_inv (subtable1 t2)" using inv by (simp_all add: hash2_defs)
  from l show ?thesis
  proof (cases rule: hash2_lookup_cases)
    case (first i)
    then have *: "same_slot f (hash_flow_at (subtable0 t2) i)" using same by (simp add: hash2_defs)
    from hash.set_flow [OF sub(1) k first(2) *] obtain xs ys where
      "hash_inv (hash_set_flow (subtable0 t2) i f)"
      "hash_flows (subtable0 t2) = xs @ hash_flow_at (subtable0 t2) i # ys"
      "hash_flows (hash_set_flow (subtable0 t2) i f) = xs @ f # ys" by blast
    then show ?thesis
      using first sub by (auto simp: hash2_defs)
  next
    case (second i)
    then have *: "same_slot f (hash_flow_at (subtable1 t2) i)" using same by (simp add: hash2_defs)
    from hash.set_flow [OF sub(2) k second(3) *] obtain xs ys where
      "hash_inv (hash_set_flow (subtable1 t2) i f)"
      "hash_flows (subtable1 t2) = xs @ hash_flow_at (subtable1 t2) i # ys"
      "hash_flows (hash_set_flow (subtable1 t2) i f) = xs @ f # ys" by blast
    then have "hash2_inv (hash2_set_flow t2 r f)"
      "hash2_flows t2 = (hash_flows (subtable0 t2) @ xs) @ hash2_flow_at t2 r # ys"
      "hash2_flows (hash2_set_flow t2 r f) = (hash_flows (subtable0 t2) @ xs) @ f # ys"
      using second sub by (simp_all add: hash2_defs)
    then show ?thesis by blast
  qed
qed

lemma hash2_insert_True:
  assumes inv: "hash2_inv t2" and ok: "entry_ok f" and ins: "table_hash2_insert t2 f = (t2', True)"
  shows "hash2_inv t2' \<and> (\<exists>xs ys s. hash2_flows t2' = xs @ f\<lparr>serial := s\<rparr> # ys \<and>
    (hash2_flows t2 = xs @ ys \<or> (\<exists>g. hash2_flows t2 = xs @ g # ys \<and> same_entry g f)))"
proof -
  have sub: "hash_inv (subtable0 t2)" "hash_inv (subtable1 t2)" using inv by (simp_all add: hash2_defs)
  obtain th b where h0: "table_hash_insert (subtable0 t2) f = (th, b)" by fastforce
  show ?thesis
  proof (cases b)
    case True
    with hash.insert_True [OF sub(1) ok, of th] h0 obtain xs ys s where
      "hash_inv th" "hash_flows th = xs @ f\<lparr>serial := s\<rparr> # ys"
      "hash_flows (subtable0 t2) = xs @ ys \<or> (\<exists>g. hash_flows (subtable0 t2) = xs @ g # ys \<and> same_entry g f)"
      by auto
    moreover have "t2' = t2\<lparr>subtable0 := th\<rparr>"
      using ins h0 True by (simp add: table_hash2_insert_def)
    ultimately have "hash2_inv t2'" "hash2_flows t2' = xs @ f\<lparr>serial := s\<rparr> # (ys @ hash_flows (subtable1 t2))"
      "hash2_flows t2 = xs @ (ys @ hash_flows (subtable1 t2)) \<or>
       (\<exists>g. hash2_flows t2 = xs @ g # (ys @ hash_flows (subtable1 t2)) \<and> same_entry g f)"
      using sub by (auto simp: hash2_defs)
    then show ?thesis by blast
  next
    case False
    then have th: "th = subtable0 t2" using h0 hash_insert_False [of "subtable0 t2" f th] by simp
    obtain th' where h1: "table_hash_insert (subtable1 t2) f = (th', True)" "t2' = t2\<lparr>subtable0 := th, subtable1 := th'\<rparr>"
      using ins h0 False by (auto simp: table_hash2_insert_def split: prod.splits)
    with hash.insert_True [OF sub(2) ok] obtain xs ys s where
      "hash_inv th'" "hash_flows th' = xs @ f\<lparr>serial := s\<rparr> # ys"
      "hash_flows (subtable1 t2) = xs @ ys \<or> (\<exists>g. hash_flows (subtable1 t2) = xs @ g # ys \<and> same_entry g f)"
      by blast
    then have "hash2_inv t2'" "hash2_flows t2' = (hash_flows (subtable0 t2) @ xs) @ f\<lparr>serial := s\<rparr> # ys"
      "hash2_flows t2 = (hash_flows (subtable0 t2) @ xs) @ ys \<or>
       (\<exists>g. hash2_flows t2 = (hash_flows (subtable0 t2) @ xs) @ g # ys \<and> same_entry g f)"
      using sub h1 th by (auto simp: hash2_defs)
    then show ?thesis by blast
  qed
qed

lemma hash2_insert_False:
  assumes "table_hash2_insert t2 f = (t2', False)"
  shows "t2' = t2"
proof -
  obtain th th' where *: "table_hash_insert (subtable0 t2) f = (th, False)"
    "table_hash_insert (subtable1 t2) f = (th', False)" "t2' = t2\<lparr>subtable0 := th, subtable1 := th'\<rparr>"
    using assms by (auto simp: table_hash2_insert_def split: prod.splits bool.splits)
  then show ?thesis
    using hash_insert_False [OF *(1)] hash_insert_False [OF *(2)] by simp
qed

lemma hash2_modify_spec:
  assumes inv: "hash2_inv t2" and k: "desc_ok k prio" "acts_framed acts"
    and m: "table_hash2_modify alloc t2 k prio strict acts = (t2', n)"
  shows "hash2_inv t2' \<and> n = of_nat (length (filter (modify_sel k prio strict) (hash2_flows t2))) \<and>
    hash2_flows t2' = map (modify_entry alloc k prio strict acts) (hash2_flows t2)"
proof -
  obtain th0 n0 where m0: "table_hash_modify alloc (subtable0 t2) k prio strict acts = (th0, n0)" by fastforce
  obtain th1 n1 where m1: "table_hash_modify alloc (subtable1 t2) k prio strict acts = (th1, n1)" by fastforce
  have "t2' = t2\<lparr>subtable0 := th0, subtable1 := th1\<rparr>" "n = n0 + n1"
    using m m0 m1 by (simp_all add: table_hash2_modify_def)
  then show ?thesis
    using hash_modify_spec [OF _ k m0] hash_modify_spec [OF _ k m1] inv by (simp add: hash2_defs)
qed

lemma hash2_delete_spec:
  assumes inv: "hash2_inv t2" and k: "desc_ok k prio"
  shows "\<exists>t2'. table_hash2_delete flow_end dp t2 k port prio strict =
    Ok (foldl (\<lambda>d f. flow_end d f OFPRR_DELETE) dp (filter (delete_sel k port prio strict) (hash2_flows t2)),
        t2', of_nat (length (filter (delete_sel k port prio strict) (hash2_flows t2)))) \<and>
    hash2_inv t2' \<and> hash2_flows t2' = filter (\<lambda>f. \<not> delete_sel k port prio strict f) (hash2_flows t2)"
proof -
  let ?P = "delete_sel k port prio strict" and ?e = "\<lambda>d f. flow_end d f OFPRR_DELETE"
  have sub: "hash_inv (subtable0 t2)" "hash_inv (subtable1 t2)" using inv by (simp_all add: hash2_defs)
  obtain th0 where 0: "table_hash_delete flow_end dp (subtable0 t2) k port prio strict =
      Ok (foldl ?e dp (filter ?P (hash_flows (subtable0 t2))), th0,
          of_nat (length (filter ?P (hash_flows (subtable0 t2)))))"
    "hash_inv th0" "hash_flows th0 = filter (\<lambda>f. \<not> ?P f) (hash_flows (subtable0 t2))"
    using hash_delete_spec [OF sub(1) k, where flow_end = flow_end and dp = dp] by blast
  obtain th1 where 1: "table_hash_delete flow_end (foldl ?e dp (filter ?P (hash_flows (subtable0 t2))))
        (subtable1 t2) k port prio strict =
      Ok (foldl ?e (foldl ?e dp (filter ?P (hash_flows (subtable0 t2)))) (filter ?P (hash_flows (subtable1 t2))),
          th1, of_nat (length (filter ?P (hash_flows (subtable1 t2)))))"
    "hash_inv th1" "hash_flows th1 = filter (\<lambda>f. \<not> ?P f) (hash_flows (subtable1 t2))"
    using hash_delete_spec [OF sub(2) k, where flow_end = flow_end] by blast
  show ?thesis
    using 0 1 by (simp add: table_hash2_delete_def hash2_defs)
qed

lemma hash2_timeout_spec:
  assumes inv: "hash2_inv t2" and t: "table_hash2_timeout now t2 = (t2', gone)"
  shows "hash2_inv t2' \<and> hash2_flows t2' = filter (\<lambda>f. \<not> expired now f) (hash2_flows t2) \<and>
    gone = map (\<lambda>f. fst (flow_timeout now f)) (filter (expired now) (hash2_flows t2))"
proof -
  obtain th0 g0 where 0: "table_hash_timeout now (subtable0 t2) = (th0, g0)" by fastforce
  obtain th1 g1 where 1: "table_hash_timeout now (subtable1 t2) = (th1, g1)" by fastforce
  have "t2' = t2\<lparr>subtable0 := th0, subtable1 := th1\<rparr>" "gone = g0 @ g1"
    using t 0 1 by (simp_all add: table_hash2_timeout_def)
  then show ?thesis
    using hash_timeout_spec [OF _ 0] hash_timeout_spec [OF _ 1] inv by (simp add: hash2_defs)
qed

interpretation hash2: flow_table hash2_inv hash2_flows table_hash2_lookup hash2_flow_at hash2_set_flow
  table_hash2_insert table_hash2_modify table_hash2_has_conflict table_hash2_delete table_hash2_timeout
proof
  fix t f
  assume "hash2_inv t" "f \<in> set (hash2_flows t)"
  then show "entry_ok f" using hash.flows_ok by (auto simp: hash2_defs)
next
  fix t k f
  assume "hash2_inv t" "pad (kflow k) = (0, 0, 0)" "table_hash2_lookup t k = None" "f \<in> set (hash2_flows t)"
  then show "\<not> flow_matches_1wild k (key f)"
    using hash.lookup_None by (auto simp: hash2_defs table_hash2_lookup_def split: option.splits)
next
  fix t k prio strict
  assume "hash2_inv t" "desc_ok k prio"
  then show "table_hash2_has_conflict t k prio strict \<longleftrightarrow> (\<exists>f \<in> set (hash2_flows t). conflict_sel k prio strict f)"
    using hash_conflict_spec by (auto simp: hash2_defs table_hash2_has_conflict_def)
next
  fix t t' :: sw_table_hash2 and alloc k prio strict acts n
  assume "hash2_inv t" "desc_ok k prio" "acts_framed acts"
    "table_hash2_modify alloc t k prio strict acts = (t', n)"
  then show "hash2_inv t' \<and> n = of_nat (length (filter (modify_sel k prio strict) (hash2_flows t))) \<and>
    hash2_flows t' = map (\<lambda>f. if modify_sel k prio strict f then flow_replace_acts (alloc f) f acts else f) (hash2_flows t)"
    unfolding modify_entry_def [symmetric] by (rule hash2_modify_spec)
qed (rule hash2_lookup_Some hash2_set_flow_spec hash2_insert_True hash2_insert_False hash2_delete_spec
    hash2_timeout_spec; assumption)+

end
