(* ===== verification/OF_Table_Linear.thy ===== *)
theory OF_Table_Linear
  imports OF_Table
begin

unbundle bit_operations_syntax

text \<open>
  The linear table of \<open>udatapath/table-linear.c\<close>: a list of entries in order of falling priority,
  and a second list through the same entries, newest first, that iterations follow.
\<close>

section \<open>struct sw_table_linear and its operations\<close>

text \<open>
  An entry is on both lists through its two links. Its slot number stands for its address: the
  first list holds the entries with their slots, the second the slots. A replaced entry hands its
  place on both lists to the new one, which therefore takes over the slot.
\<close>

record sw_table_linear =
  l_swt :: swt
  l_max_flows :: u32
  l_n_flows :: u32
  l_flows :: "(nat \<times> sw_flow) list"
  iter_flows :: "nat list"
  next_serial :: u64
  next_slot :: nat

primrec linear_lookup_loop :: "sw_flow_key \<Rightarrow> (nat \<times> sw_flow) list \<Rightarrow> nat option" where
  "linear_lookup_loop k [] = None"
| "linear_lookup_loop k (e # es) =
     (if flow_matches_1wild k (key (snd e)) then Some (fst e) else linear_lookup_loop k es)"

definition table_linear_lookup :: "sw_table_linear \<Rightarrow> sw_flow_key \<Rightarrow> nat option" where
  "table_linear_lookup t k = linear_lookup_loop k (l_flows t)"

text \<open>
  The search of \<open>table_linear_insert\<close>: either the list with a duplicate replaced, or the two parts
  between which the new entry goes.
\<close>

datatype insert_point =
  Replaced "(nat \<times> sw_flow) list"
| Place_between "(nat \<times> sw_flow) list" "(nat \<times> sw_flow) list"

primrec linear_insert_loop :: "sw_flow \<Rightarrow> (nat \<times> sw_flow) list \<Rightarrow> (nat \<times> sw_flow) list \<Rightarrow> insert_point" where
  "linear_insert_loop flow before [] = Place_between before []"
| "linear_insert_loop flow before (e # es) =
     (let f = snd e
      in if priority f = priority flow \<and> wildcards (key f) = wildcards (key flow)
            \<and> flow_matches_2wild (key f) (key flow)
         then Replaced (before @ (fst e, flow\<lparr>serial := serial f\<rparr>) # es)
         else if priority f < priority flow then Place_between before (e # es)
         else linear_insert_loop flow (before @ [e]) es)"

definition table_linear_insert :: "sw_table_linear \<Rightarrow> sw_flow \<Rightarrow> sw_table_linear \<times> bool" where
  "table_linear_insert t flow =
     (case linear_insert_loop flow [] (l_flows t) of
        Replaced es \<Rightarrow> (t\<lparr>l_flows := es\<rparr>, True)
      | Place_between before after \<Rightarrow>
          if l_n_flows t \<ge> l_max_flows t then (t, False)
          else
            (t\<lparr>l_n_flows := l_n_flows t + 1,
                l_flows := before @ (next_slot t, flow\<lparr>serial := next_serial t\<rparr>) # after,
                iter_flows := next_slot t # iter_flows t,
                next_serial := next_serial t + 1,
                next_slot := next_slot t + 1\<rparr>, True))"

primrec linear_modify_loop ::
  "acts_allocator \<Rightarrow> sw_flow_key \<Rightarrow> u16 \<Rightarrow> bool \<Rightarrow> bytes \<Rightarrow> (nat \<times> sw_flow) list \<Rightarrow> u32 \<Rightarrow>
   (nat \<times> sw_flow) list \<times> u32" where
  "linear_modify_loop alloc k prio strict acts [] count = ([], count)"
| "linear_modify_loop alloc k prio strict acts (e # es) count =
     (let flow = snd e
      in if flow_matches_desc (key flow) k strict \<and> (\<not> strict \<or> priority flow = prio) then
           let (es', n) = linear_modify_loop alloc k prio strict acts es (count + 1)
           in ((fst e, flow_replace_acts (alloc flow) flow acts) # es', n)
         else
           let (es', n) = linear_modify_loop alloc k prio strict acts es count in (e # es', n))"

definition table_linear_modify ::
  "acts_allocator \<Rightarrow> sw_table_linear \<Rightarrow> sw_flow_key \<Rightarrow> u16 \<Rightarrow> bool \<Rightarrow> bytes \<Rightarrow> sw_table_linear \<times> u32" where
  "table_linear_modify alloc t k prio strict acts =
     (let (es, count) = linear_modify_loop alloc k prio strict acts (l_flows t) 0
      in (t\<lparr>l_flows := es\<rparr>, count))"

primrec linear_conflict_loop :: "sw_flow_key \<Rightarrow> u16 \<Rightarrow> bool \<Rightarrow> (nat \<times> sw_flow) list \<Rightarrow> bool" where
  "linear_conflict_loop k prio strict [] = False"
| "linear_conflict_loop k prio strict (e # es) =
     (let flow = snd e
      in if flow_matches_2desc (key flow) k strict \<and> priority flow = prio then True
         else linear_conflict_loop k prio strict es)"

definition table_linear_has_conflict :: "sw_table_linear \<Rightarrow> sw_flow_key \<Rightarrow> u16 \<Rightarrow> bool \<Rightarrow> bool" where
  "table_linear_has_conflict t k prio strict = linear_conflict_loop k prio strict (l_flows t)"

text \<open>\<open>do_delete\<close> unlinks an entry from both lists; the loop returns the slots it unlinked.\<close>

definition do_delete :: "nat \<Rightarrow> nat list \<Rightarrow> nat list" where
  "do_delete slot iter = remove1 slot iter"

primrec linear_delete_loop ::
  "'d flow_end \<Rightarrow> sw_flow_key \<Rightarrow> u16 \<Rightarrow> u16 \<Rightarrow> bool \<Rightarrow> (nat \<times> sw_flow) list \<Rightarrow> 'd \<Rightarrow> nat list \<Rightarrow> u32 \<Rightarrow>
   ('d \<times> (nat \<times> sw_flow) list \<times> nat list \<times> u32) result" where
  "linear_delete_loop flow_end k port prio strict [] dp iter count = Ok (dp, [], iter, count)"
| "linear_delete_loop flow_end k port prio strict (e # es) dp iter count =
     (let flow = snd e
      in bindR (if flow_matches_desc (key flow) k strict then flow_has_out_port flow port else Ok False)
           (\<lambda>has_port.
              if has_port \<and> (\<not> strict \<or> priority flow = prio) then
                linear_delete_loop flow_end k port prio strict es (flow_end dp flow OFPRR_DELETE)
                  (do_delete (fst e) iter) (count + 1)
              else
                bindR (linear_delete_loop flow_end k port prio strict es dp iter count)
                  (\<lambda>(dp, es', iter', n). Ok (dp, e # es', iter', n))))"

definition table_linear_delete ::
  "'d flow_end \<Rightarrow> 'd \<Rightarrow> sw_table_linear \<Rightarrow> sw_flow_key \<Rightarrow> u16 \<Rightarrow> u16 \<Rightarrow> bool \<Rightarrow>
   ('d \<times> sw_table_linear \<times> u32) result" where
  "table_linear_delete flow_end dp t k out_port prio strict =
     bindR (linear_delete_loop flow_end k out_port prio strict (l_flows t) dp (iter_flows t) 0)
       (\<lambda>(dp, es, iter, count).
          Ok (dp, t\<lparr>l_flows := es, iter_flows := iter, l_n_flows := l_n_flows t - count\<rparr>, count))"

primrec linear_timeout_loop ::
  "u64 \<Rightarrow> (nat \<times> sw_flow) list \<Rightarrow> nat list \<Rightarrow> u32 \<Rightarrow>
   (nat \<times> sw_flow) list \<times> nat list \<times> u32 \<times> sw_flow list" where
  "linear_timeout_loop now [] iter n = ([], iter, n, [])"
| "linear_timeout_loop now (e # es) iter n =
     (case flow_timeout now (snd e) of
        (flow, True) \<Rightarrow>
          let (es', iter', n', deleted) = linear_timeout_loop now es (remove1 (fst e) iter) (n - 1)
          in (es', iter', n', flow # deleted)
      | (flow, False) \<Rightarrow>
          let (es', iter', n', deleted) = linear_timeout_loop now es iter n
          in ((fst e, flow) # es', iter', n', deleted))"

definition table_linear_timeout :: "u64 \<Rightarrow> sw_table_linear \<Rightarrow> sw_table_linear \<times> sw_flow list" where
  "table_linear_timeout now t =
     (let (es, iter, n, deleted) = linear_timeout_loop now (l_flows t) (iter_flows t) (l_n_flows t)
      in (t\<lparr>l_flows := es, iter_flows := iter, l_n_flows := n\<rparr>, deleted))"

definition linear_flow_at :: "sw_table_linear \<Rightarrow> nat \<Rightarrow> sw_flow" where
  "linear_flow_at t slot = the (map_of (l_flows t) slot)"

definition linear_set_flow :: "sw_table_linear \<Rightarrow> nat \<Rightarrow> sw_flow \<Rightarrow> sw_table_linear" where
  "linear_set_flow t slot f = t\<lparr>l_flows := map (\<lambda>e. if fst e = slot then (slot, f) else e) (l_flows t)\<rparr>"

primrec linear_iterate_loop ::
  "sw_flow_key \<Rightarrow> u16 \<Rightarrow> 's flow_callback \<Rightarrow> u64 \<Rightarrow> sw_flow list \<Rightarrow> 's \<Rightarrow>
   (int \<times> u64 option \<times> 's) result" where
  "linear_iterate_loop k port cb start [] s = Ok (0, None, s)"
| "linear_iterate_loop k port cb start (flow # fs) s =
     bindR (if serial flow \<le> start \<and> flow_matches_2wild k (key flow)
            then flow_has_out_port flow port else Ok False)
       (\<lambda>hit. if hit then
                let (error, s) = cb flow s
                in if error \<noteq> 0 then Ok (error, Some (NOT (serial flow - 1)), s)
                   else linear_iterate_loop k port cb start fs s
              else linear_iterate_loop k port cb start fs s)"

definition table_linear_iterate ::
  "sw_table_linear \<Rightarrow> sw_flow_key \<Rightarrow> u16 \<Rightarrow> sw_table_position \<Rightarrow> 's flow_callback \<Rightarrow> 's \<Rightarrow>
   (int \<times> sw_table_position \<times> 's) result" where
  "table_linear_iterate t k out_port position cb s =
     (let start = NOT (private0 position)
      in bindR (linear_iterate_loop k out_port cb start (map (linear_flow_at t) (iter_flows t)) s)
           (\<lambda>(error, next, s).
              Ok (error, (case next of None \<Rightarrow> position | Some p \<Rightarrow> position\<lparr>private0 := p\<rparr>), s)))"

definition table_linear_stats :: "sw_table_linear \<Rightarrow> sw_table_stats" where
  "table_linear_stats t =
     \<lparr>st_name = ''linear'', st_wildcards = OFPFW_ALL, st_n_flows = l_n_flows t,
      st_max_flows = l_max_flows t, st_n_lookup = n_lookup (l_swt t),
      st_n_matched = n_matched (l_swt t)\<rparr>"

definition table_linear_create :: "allocator \<Rightarrow> u32 \<Rightarrow> sw_table_linear option" where
  "table_linear_create alloc max_flows =
     (if \<not> alloc 0 then None
      else Some \<lparr>l_swt = zero_swt, l_max_flows = max_flows, l_n_flows = 0, l_flows = [],
                 iter_flows = [], next_serial = 0, next_slot = 0\<rparr>)"

section \<open>Contents and invariant\<close>

definition linear_flows :: "sw_table_linear \<Rightarrow> sw_flow list" where
  "linear_flows t = map snd (l_flows t)"

definition precedes :: "sw_flow \<Rightarrow> sw_flow \<Rightarrow> bool" where
  "precedes f g \<longleftrightarrow> priority g \<le> priority f \<and> \<not> same_entry f g"

definition linear_inv :: "sw_table_linear \<Rightarrow> bool" where
  "linear_inv t \<longleftrightarrow>
     sorted_wrt precedes (linear_flows t) \<and>
     (\<forall>f \<in> set (linear_flows t). entry_ok f) \<and>
     distinct (map fst (l_flows t)) \<and>
     distinct (iter_flows t) \<and> set (iter_flows t) = set (map fst (l_flows t)) \<and>
     (\<forall>i \<in> set (iter_flows t). i < next_slot t) \<and>
     l_n_flows t = of_nat (length (l_flows t)) \<and>
     length (l_flows t) \<le> unat (l_max_flows t)"

lemma linear_lookup_loop_Some:
  assumes "linear_lookup_loop k es = Some i"
  obtains xs f ys where "es = xs @ (i, f) # ys" "flow_matches_1wild k (key f)"
    "\<forall>e \<in> set xs. \<not> flow_matches_1wild k (key (snd e))"
  using assms
proof (induction es arbitrary: thesis)
  case (Cons e es)
  show ?case
  proof (cases "flow_matches_1wild k (key (snd e))")
    case True
    then show ?thesis using Cons.prems(2) by (intro Cons.prems(1) [of "[]" "snd e" es]) auto
  next
    case False
    then have "linear_lookup_loop k es = Some i" using Cons.prems(2) by simp
    then obtain xs f ys where "es = xs @ (i, f) # ys" "flow_matches_1wild k (key f)"
      "\<forall>e \<in> set xs. \<not> flow_matches_1wild k (key (snd e))"
      using Cons.IH by blast
    then show ?thesis using False by (intro Cons.prems(1) [of "e # xs" f ys]) auto
  qed
qed simp

lemma linear_lookup_loop_None:
  "linear_lookup_loop k es = None \<longleftrightarrow> (\<forall>e \<in> set es. \<not> flow_matches_1wild k (key (snd e)))"
  by (induction es) auto

lemma linear_lookup_Some:
  assumes inv: "linear_inv t" and l: "table_linear_lookup t k = Some i"
  obtains xs f ys where "l_flows t = xs @ (i, f) # ys" "linear_flow_at t i = f"
    "flow_matches_1wild k (key f)" "\<forall>e \<in> set xs. \<not> flow_matches_1wild k (key (snd e))"
    "\<forall>e \<in> set ys. priority (snd e) \<le> priority f"
    "\<forall>e \<in> set xs \<union> set ys. fst e \<noteq> i"
proof -
  obtain xs f ys where es: "l_flows t = xs @ (i, f) # ys" "flow_matches_1wild k (key f)"
    "\<forall>e \<in> set xs. \<not> flow_matches_1wild k (key (snd e))"
    using l linear_lookup_loop_Some unfolding table_linear_lookup_def by blast
  moreover have d: "distinct (map fst (l_flows t))" and
    s: "sorted_wrt precedes (map snd (l_flows t))"
    using inv by (auto simp: linear_inv_def linear_flows_def)
  moreover have "linear_flow_at t i = f"
    using d map_of_is_SomeI [of "l_flows t" i f] by (simp add: linear_flow_at_def es(1))
  moreover have "\<forall>e \<in> set ys. priority (snd e) \<le> priority f"
    using s by (simp add: es(1) sorted_wrt_append precedes_def)
  moreover have "\<forall>e \<in> set xs \<union> set ys. fst e \<noteq> i"
    using d by (auto simp: es(1))
  ultimately show ?thesis using that by blast
qed

lemma linear_set_slot:
  assumes inv: "linear_inv t" and es: "l_flows t = xs @ (i, g) # ys" and same: "same_slot f g"
  shows "linear_flow_at t i = g" "linear_inv (linear_set_flow t i f)"
    "linear_flows t = map snd xs @ g # map snd ys" "linear_flows (linear_set_flow t i f) = map snd xs @ f # map snd ys"
proof -
  have d: "distinct (map fst (l_flows t))" using inv by (simp add: linear_inv_def)
  then show "linear_flow_at t i = g"
    using map_of_is_SomeI [of "l_flows t" i g] by (simp add: linear_flow_at_def es)
  have "\<forall>e \<in> set xs \<union> set ys. fst e \<noteq> i" using d by (auto simp: es)
  then have new: "l_flows (linear_set_flow t i f) = xs @ (i, f) # ys"
    using es by (auto simp: linear_set_flow_def map_idI)
  show "linear_inv (linear_set_flow t i f)"
    using inv same entry_ok_same_slot [OF same] unfolding linear_inv_def linear_flows_def new es
    by (auto simp: linear_set_flow_def sorted_wrt_append same_slot_def precedes_def same_entry_def)
  show "linear_flows t = map snd xs @ g # map snd ys" "linear_flows (linear_set_flow t i f) = map snd xs @ f # map snd ys"
    using new es by (simp_all add: linear_flows_def)
qed

lemma linear_set_flow_spec:
  assumes inv: "linear_inv t" and l: "table_linear_lookup t k = Some i"
    and same: "same_slot f (linear_flow_at t i)"
  shows "linear_inv (linear_set_flow t i f) \<and>
    (\<exists>xs ys. linear_flows t = xs @ linear_flow_at t i # ys \<and> linear_flows (linear_set_flow t i f) = xs @ f # ys)"
proof -
  obtain xs g ys where "l_flows t = xs @ (i, g) # ys" "linear_flow_at t i = g"
    using inv l by (rule linear_lookup_Some)
  then show ?thesis using linear_set_slot [OF inv, of xs i g ys f] same by auto
qed

section \<open>Insertion\<close>

lemma same_entry_sym: "same_entry f g = same_entry g f"
  unfolding same_entry_def using flow_matches_2wild_sym by metis

lemma same_entry_trans:
  assumes "entry_ok f" "entry_ok g" "same_entry f g" "same_entry g h"
  shows "same_entry f h"
proof -
  have "flow_matches_1wild k (key f) = flow_matches_1wild k (key g)" for k
    using assms same_wildcards_overlap by (auto simp: entry_ok_def same_entry_def)
  then show ?thesis
    using assms(3,4) unfolding same_entry_def flow_matches_2wild_iff by auto
qed

lemma same_entry_serial [simp]:
  "same_entry (f\<lparr>serial := s\<rparr>) g = same_entry f g" "same_entry g (f\<lparr>serial := s\<rparr>) = same_entry g f"
  by (simp_all add: same_entry_def)

lemma linear_insert_loop_Replaced:
  "linear_insert_loop flow before es = Replaced out \<Longrightarrow>
   \<exists>xs e ys. before @ es = xs @ e # ys \<and> out = xs @ (fst e, flow\<lparr>serial := serial (snd e)\<rparr>) # ys \<and>
     same_entry (snd e) flow"
proof (induction es arbitrary: before)
  case (Cons e es)
  show ?case
  proof (cases "same_entry (snd e) flow")
    case True
    then show ?thesis using Cons.prems
      by (intro exI [of _ before] exI [of _ e] exI [of _ es]) (auto simp: same_entry_def Let_def)
  next
    case False
    then have "linear_insert_loop flow (before @ [e]) es = Replaced out"
      using Cons.prems by (auto simp: same_entry_def Let_def split: if_splits)
    then show ?thesis using Cons.IH [of "before @ [e]"] by simp
  qed
qed simp

lemma linear_insert_loop_Place:
  "linear_insert_loop flow before es = Place_between b a \<Longrightarrow>
   sorted_wrt precedes (map snd (before @ es)) \<Longrightarrow>
   \<forall>e \<in> set before. priority flow \<le> priority (snd e) \<and> \<not> same_entry (snd e) flow \<Longrightarrow>
   b @ a = before @ es \<and>
   (\<forall>e \<in> set b. priority flow \<le> priority (snd e) \<and> \<not> same_entry (snd e) flow) \<and>
   (\<forall>e \<in> set a. priority (snd e) < priority flow)"
proof (induction es arbitrary: before)
  case (Cons e es)
  have ne: "\<not> same_entry (snd e) flow"
    using Cons.prems(1) by (auto simp: same_entry_def Let_def)
  show ?case
  proof (cases "priority (snd e) < priority flow")
    case True
    then have "b = before" "a = e # es"
      using Cons.prems(1) ne by (auto simp: same_entry_def Let_def split: if_splits)
    moreover have "\<forall>x \<in> set es. priority (snd x) \<le> priority (snd e)"
      using Cons.prems(2) by (auto simp: sorted_wrt_append precedes_def)
    ultimately show ?thesis using True Cons.prems(3) by fastforce
  next
    case False
    then have "linear_insert_loop flow (before @ [e]) es = Place_between b a"
      using Cons.prems(1) ne by (auto simp: same_entry_def Let_def split: if_splits)
    then show ?thesis
      using Cons.IH [of "before @ [e]"] Cons.prems(2,3) False ne by auto
  qed
qed simp

lemma linear_insert_True:
  assumes inv: "linear_inv t" and ok: "entry_ok f" and ins: "table_linear_insert t f = (t', True)"
  shows "linear_inv t' \<and> (\<exists>xs ys s. linear_flows t' = xs @ f\<lparr>serial := s\<rparr> # ys \<and>
    (linear_flows t = xs @ ys \<or> (\<exists>g. linear_flows t = xs @ g # ys \<and> same_entry g f)))"
proof (cases "linear_insert_loop f [] (l_flows t)")
  case (Replaced out)
  then obtain xs e ys where es: "l_flows t = xs @ e # ys" "out = xs @ (fst e, f\<lparr>serial := serial (snd e)\<rparr>) # ys"
    and same: "same_entry (snd e) f"
    using linear_insert_loop_Replaced [OF Replaced] by auto
  have t': "t' = t\<lparr>l_flows := out\<rparr>" using ins Replaced by (simp add: table_linear_insert_def)
  have e: "entry_ok (snd e)" using inv by (simp add: linear_inv_def linear_flows_def es)
  have swap: "same_entry x f \<longleftrightarrow> same_entry x (snd e)" "same_entry f x \<longleftrightarrow> same_entry (snd e) x" for x
    using same_entry_trans same ok e same_entry_sym by metis+
  have "priority (snd e) = priority f" using same by (simp add: same_entry_def)
  then have "linear_inv t'"
    using inv ok unfolding linear_inv_def linear_flows_def t' es
    by (auto simp: sorted_wrt_append precedes_def swap)
  then show ?thesis
    using same by (auto simp: linear_flows_def t' es)
next
  case (Place_between b a)
  then have t': "t' = t\<lparr>l_n_flows := l_n_flows t + 1,
      l_flows := b @ (next_slot t, f\<lparr>serial := next_serial t\<rparr>) # a,
      iter_flows := next_slot t # iter_flows t, next_serial := next_serial t + 1,
      next_slot := next_slot t + 1\<rparr>" and room: "l_n_flows t < l_max_flows t"
    using ins by (auto simp: table_linear_insert_def split: if_splits)
  have sorted: "sorted_wrt precedes (map snd (l_flows t))"
    using inv by (simp add: linear_inv_def linear_flows_def)
  then have es: "l_flows t = b @ a"
    and b: "\<And>e. e \<in> set b \<Longrightarrow> priority f \<le> priority (snd e) \<and> \<not> same_entry (snd e) f"
    and a: "\<And>e. e \<in> set a \<Longrightarrow> priority (snd e) < priority f"
    using linear_insert_loop_Place [OF Place_between] by auto
  have room: "length (l_flows t) < unat (l_max_flows t)"
  proof -
    have "unat (l_max_flows t) < 2 ^ LENGTH(32)" by (rule unsigned_less)
    then have "unat (l_n_flows t) = length (l_flows t)"
      using inv by (simp add: linear_inv_def unat_of_nat_less)
    then show ?thesis using room by (simp add: word_less_nat_alt)
  qed
  let ?f = "f\<lparr>serial := next_serial t\<rparr>"
  have "precedes (snd e) ?f" if "e \<in> set b" for e
    using b [OF that] by (simp add: precedes_def)
  moreover have "precedes ?f (snd e)" if "e \<in> set a" for e
    using a [OF that] by (auto simp: precedes_def same_entry_def)
  ultimately have "sorted_wrt precedes (map snd (b @ (next_slot t, ?f) # a))"
    using sorted by (auto simp: es sorted_wrt_append)
  moreover have "next_slot t \<notin> set (map fst (l_flows t))" "next_slot t \<notin> set (iter_flows t)"
    using inv by (auto simp: linear_inv_def)
  moreover have "\<forall>i \<in> set (next_slot t # iter_flows t). i < Suc (next_slot t)"
    using inv by (auto simp: linear_inv_def less_Suc_eq)
  moreover have "set (next_slot t # iter_flows t) = set (map fst (b @ (next_slot t, ?f) # a))"
    using inv by (auto simp: linear_inv_def es)
  ultimately have "linear_inv t'"
    using inv ok room unfolding linear_inv_def linear_flows_def t'
    by (simp add: es ball_Un)
  then show ?thesis by (auto simp: linear_flows_def t' es)
qed

lemma linear_insert_False: "table_linear_insert t f = (t', False) \<Longrightarrow> t' = t"
  by (auto simp: table_linear_insert_def split: insert_point.splits if_splits)

section \<open>Modification, conflicts, deletion and timeouts\<close>

definition modify_slot ::
  "acts_allocator \<Rightarrow> sw_flow_key \<Rightarrow> u16 \<Rightarrow> bool \<Rightarrow> bytes \<Rightarrow> nat \<times> sw_flow \<Rightarrow> nat \<times> sw_flow" where
  "modify_slot alloc k prio strict acts e =
     (fst e, if modify_sel k prio strict (snd e) then flow_replace_acts (alloc (snd e)) (snd e) acts else snd e)"

lemma linear_modify_loop_eq:
  "linear_modify_loop alloc k prio strict acts es count =
     (map (modify_slot alloc k prio strict acts) es,
      count + of_nat (length (filter (modify_sel k prio strict) (map snd es))))"
  by (induction es arbitrary: count) (auto simp: modify_slot_def modify_sel_def Let_def ac_simps)

lemma precedes_replace_acts [simp]:
  "precedes (flow_replace_acts alloc f acts) g = precedes f g"
  "precedes g (flow_replace_acts alloc f acts) = precedes g f"
  by (simp_all add: precedes_def same_entry_def)

lemma precedes_if:
  "precedes (if c then flow_replace_acts alloc f acts else f) g = precedes f g"
  "precedes g (if c then flow_replace_acts alloc f acts else f) = precedes g f"
  by simp_all

lemma linear_modify_spec:
  assumes inv: "linear_inv t" and acts: "acts_framed acts"
    and m: "table_linear_modify alloc t k prio strict acts = (t', n)"
  shows "linear_inv t' \<and> n = of_nat (length (filter (modify_sel k prio strict) (linear_flows t))) \<and>
    linear_flows t' =
      map (\<lambda>f. if modify_sel k prio strict f then flow_replace_acts (alloc f) f acts else f) (linear_flows t)"
proof -
  define m where "m = modify_slot alloc k prio strict acts"
  define es where "es = map m (l_flows t)"
  have t': "t' = t\<lparr>l_flows := es\<rparr>"
    and n: "n = of_nat (length (filter (modify_sel k prio strict) (linear_flows t)))"
    using m by (simp_all add: table_linear_modify_def linear_modify_loop_eq linear_flows_def es_def m_def)
  have "map fst es = map fst (l_flows t)" "length es = length (l_flows t)"
    by (simp_all add: es_def m_def modify_slot_def)
  moreover have "sorted_wrt (\<lambda>a b. precedes (snd a) (snd b)) (l_flows t)"
    using inv by (simp add: linear_inv_def linear_flows_def sorted_wrt_map)
  then have "sorted_wrt precedes (map snd es)"
    by (simp add: es_def m_def modify_slot_def sorted_wrt_map precedes_if)
  moreover have "\<forall>f \<in> set (map snd es). entry_ok f"
    using inv acts by (auto simp: linear_inv_def linear_flows_def es_def m_def modify_slot_def entry_ok_replace_acts)
  ultimately have "linear_inv t'"
    using inv unfolding linear_inv_def linear_flows_def t' by simp
  then show ?thesis using n t' by (simp add: linear_flows_def es_def m_def modify_slot_def o_def)
qed

lemma linear_conflict_loop_eq:
  "linear_conflict_loop k prio strict es \<longleftrightarrow> (\<exists>f \<in> snd ` set es. conflict_sel k prio strict f)"
  by (induction es) (auto simp: conflict_sel_def Let_def)

text \<open>Removing the slots of the entries that satisfy \<open>P\<close> from both lists.\<close>

definition drop_slots :: "(sw_flow \<Rightarrow> bool) \<Rightarrow> (nat \<times> sw_flow) list \<Rightarrow> nat list \<Rightarrow> nat list" where
  "drop_slots P es iter = foldl (\<lambda>it e. remove1 (fst e) it) iter (filter (\<lambda>e. P (snd e)) es)"

lemma drop_slots_eq:
  "distinct iter \<Longrightarrow> drop_slots P es iter = filter (\<lambda>i. i \<notin> fst ` {e \<in> set es. P (snd e)}) iter"
proof -
  have "foldl (\<lambda>it e. remove1 (fst e) it) iter xs = filter (\<lambda>i. i \<notin> fst ` set xs) iter"
    if "distinct iter" for iter and xs :: "(nat \<times> sw_flow) list"
    using that by (induction xs arbitrary: iter) (auto simp: distinct_remove1_removeAll removeAll_filter_not_eq
        intro!: filter_cong)
  then show "distinct iter \<Longrightarrow> drop_slots P es iter = filter (\<lambda>i. i \<notin> fst ` {e \<in> set es. P (snd e)}) iter"
    by (simp add: drop_slots_def)
qed

lemma kept_slots:
  assumes "distinct (map fst es)"
  shows "fst ` set es \<inter> {i. i \<notin> fst ` {e \<in> set es. P (snd e)}} = fst ` {e \<in> set es. \<not> P (snd e)}"
proof -
  have "e = e'" if "e \<in> set es" "e' \<in> set es" "fst e = fst e'" for e e'
    using assms that by (metis eq_key_imp_eq_value prod.collapse)
  then show ?thesis by force
qed

lemma linear_inv_drop:
  assumes inv: "linear_inv t"
  shows "linear_inv (t\<lparr>l_flows := filter (\<lambda>e. \<not> P (snd e)) (l_flows t),
    iter_flows := drop_slots P (l_flows t) (iter_flows t),
    l_n_flows := l_n_flows t - of_nat (length (filter P (linear_flows t)))\<rparr>)"
proof -
  let ?es = "filter (\<lambda>e. \<not> P (snd e)) (l_flows t)" and ?it = "drop_slots P (l_flows t) (iter_flows t)"
  have it: "?it = filter (\<lambda>i. i \<notin> fst ` {e \<in> set (l_flows t). P (snd e)}) (iter_flows t)"
    using inv by (intro drop_slots_eq) (simp add: linear_inv_def)
  have "set ?it = fst ` set (l_flows t) \<inter> {i. i \<notin> fst ` {e \<in> set (l_flows t). P (snd e)}}"
    using inv by (auto simp: it linear_inv_def)
  also have "\<dots> = set (map fst ?es)"
    using inv by (subst kept_slots) (auto simp: linear_inv_def)
  finally have set_it: "set ?it = set (map fst ?es)" .
  have "length (l_flows t) = length (filter P (linear_flows t)) + length ?es"
    using length_filter_partition [of "\<lambda>e. P (snd e)" "l_flows t"]
    by (simp add: linear_flows_def filter_map o_def)
  then have n: "l_n_flows t - of_nat (length (filter P (linear_flows t))) = of_nat (length ?es)"
    and le: "length ?es \<le> unat (l_max_flows t)"
    using inv by (auto simp: linear_inv_def)
  have "sorted_wrt (\<lambda>a b. precedes (snd a) (snd b)) ?es" "distinct (map fst ?es)"
    using inv by (simp_all add: linear_inv_def linear_flows_def sorted_wrt_map sorted_wrt_filter distinct_map_filter)
  moreover have "distinct ?it" "\<forall>i \<in> set ?it. i < next_slot t"
    using inv by (auto simp: it linear_inv_def)
  ultimately show ?thesis
    using inv set_it n le by (auto simp: linear_inv_def linear_flows_def sorted_wrt_map)
qed

lemma linear_delete_loop_eq:
  assumes "\<And>e. e \<in> set es \<Longrightarrow> entry_ok (snd e)" and P: "P = delete_sel k port prio strict"
  shows "linear_delete_loop flow_end k port prio strict es dp iter count =
    Ok (foldl (\<lambda>d f. flow_end d f OFPRR_DELETE) dp (filter P (map snd es)),
        filter (\<lambda>e. \<not> P (snd e)) es, drop_slots P es iter,
        count + of_nat (length (filter P (map snd es))))"
  using assms(1)
proof (induction es arbitrary: dp iter count)
  case (Cons e es)
  have ok: "flow_has_out_port (snd e) port = Ok (outputs_to port (snd e))"
    using Cons.prems [of e] by (simp add: flow_has_out_port_ok)
  have sel: "(flow_matches_desc (key (snd e)) k strict \<and> outputs_to port (snd e)) \<and>
      (\<not> strict \<or> priority (snd e) = prio) \<longleftrightarrow> P (snd e)"
    by (auto simp: P delete_sel_def modify_sel_def)
  show ?case
    using Cons.IH Cons.prems sel
    by (cases "P (snd e)") (auto simp: Let_def ok drop_slots_def do_delete_def ac_simps)
qed (simp add: drop_slots_def)

lemma linear_delete_spec:
  assumes inv: "linear_inv t"
  shows "\<exists>t'. table_linear_delete flow_end dp t k port prio strict =
    Ok (foldl (\<lambda>d f. flow_end d f OFPRR_DELETE) dp (filter (delete_sel k port prio strict) (linear_flows t)),
        t', of_nat (length (filter (delete_sel k port prio strict) (linear_flows t)))) \<and>
    linear_inv t' \<and> linear_flows t' = filter (\<lambda>f. \<not> delete_sel k port prio strict f) (linear_flows t)"
proof -
  have "entry_ok (snd e)" if "e \<in> set (l_flows t)" for e
    using inv that by (simp add: linear_inv_def linear_flows_def)
  from linear_delete_loop_eq [OF this refl, where flow_end = flow_end and dp = dp and port = port and
      strict = strict and k = k and prio = prio]
  show ?thesis
    using linear_inv_drop [OF inv, of "delete_sel k port prio strict"]
    by (simp add: table_linear_delete_def linear_flows_def filter_map o_def)
qed

lemma linear_timeout_loop_eq:
  "linear_timeout_loop now es iter n =
     (filter (\<lambda>e. \<not> expired now (snd e)) es, drop_slots (expired now) es iter,
      n - of_nat (length (filter (expired now) (map snd es))),
      map (\<lambda>f. fst (flow_timeout now f)) (filter (expired now) (map snd es)))"
proof (induction es arbitrary: iter n)
  case (Cons e es)
  show ?case
  proof (cases "expired now (snd e)")
    case True
    then obtain f' where "flow_timeout now (snd e) = (f', True)"
      by (metis expired_def prod.collapse)
    then show ?thesis using True Cons [of "remove1 (fst e) iter" "n - 1"]
      by (simp add: diff_diff_eq drop_slots_def)
  next
    case False
    then have "flow_timeout now (snd e) = (snd e, False)"
      by (auto simp: expired_def flow_timeout_def split: if_splits)
    then show ?thesis using False Cons [of iter n] by (simp add: drop_slots_def)
  qed
qed (simp add: drop_slots_def)

lemma linear_timeout_spec:
  assumes inv: "linear_inv t" and r: "table_linear_timeout now t = (t', gone)"
  shows "linear_inv t' \<and> linear_flows t' = filter (\<lambda>f. \<not> expired now f) (linear_flows t) \<and>
    gone = map (\<lambda>f. fst (flow_timeout now f)) (filter (expired now) (linear_flows t))"
  using r linear_inv_drop [OF inv, of "expired now"]
  by (auto simp: table_linear_timeout_def linear_timeout_loop_eq linear_flows_def filter_map o_def)

lemma linear_lookup_max:
  assumes inv: "linear_inv t" and l: "table_linear_lookup t k = Some i"
  shows "linear_flow_at t i \<in> set (linear_flows t) \<and> flow_matches_1wild k (key (linear_flow_at t i)) \<and>
    (\<forall>f \<in> set (linear_flows t). flow_matches_1wild k (key f) \<longrightarrow> priority f \<le> priority (linear_flow_at t i))"
proof -
  obtain xs f ys where "l_flows t = xs @ (i, f) # ys" "linear_flow_at t i = f"
    "flow_matches_1wild k (key f)" "\<forall>e \<in> set xs. \<not> flow_matches_1wild k (key (snd e))"
    "\<forall>e \<in> set ys. priority (snd e) \<le> priority f"
    using inv l by (rule linear_lookup_Some)
  then show ?thesis by (auto simp: linear_flows_def)
qed

interpretation linear: flow_table linear_inv linear_flows table_linear_lookup linear_flow_at linear_set_flow
  table_linear_insert table_linear_modify table_linear_has_conflict table_linear_delete table_linear_timeout
proof
  fix t f
  assume "linear_inv t" "f \<in> set (linear_flows t)"
  then show "entry_ok f" by (simp add: linear_inv_def)
next
  fix t k f
  assume "linear_inv t" "table_linear_lookup t k = None" "f \<in> set (linear_flows t)"
  then show "\<not> flow_matches_1wild k (key f)"
    by (auto simp: table_linear_lookup_def linear_lookup_loop_None linear_flows_def)
next
  fix t k prio strict
  show "table_linear_has_conflict t k prio strict \<longleftrightarrow> (\<exists>f \<in> set (linear_flows t). conflict_sel k prio strict f)"
    by (simp add: table_linear_has_conflict_def linear_conflict_loop_eq linear_flows_def)
next
  fix t k r
  assume "linear_inv t" "table_linear_lookup t k = Some r"
  then show "linear_flow_at t r \<in> set (linear_flows t) \<and> flow_matches_1wild k (key (linear_flow_at t r)) \<and>
    (\<forall>f \<in> set (linear_flows t). flow_matches_1wild k (key f) \<longrightarrow> priority f \<le> priority (linear_flow_at t r))"
    by (rule linear_lookup_max)
next
  fix t t' :: sw_table_linear and alloc k prio strict acts n
  assume "linear_inv t" "acts_framed acts" "table_linear_modify alloc t k prio strict acts = (t', n)"
  then show "linear_inv t' \<and> n = of_nat (length (filter (modify_sel k prio strict) (linear_flows t))) \<and>
    linear_flows t' =
      map (\<lambda>f. if modify_sel k prio strict f then flow_replace_acts (alloc f) f acts else f) (linear_flows t)"
    by (rule linear_modify_spec)
next
  fix t t' :: sw_table_linear and f
  assume "table_linear_insert t f = (t', False)"
  then show "t' = t" by (rule linear_insert_False)
next
  fix t t' :: sw_table_linear and f
  assume "linear_inv t" "entry_ok f" "table_linear_insert t f = (t', True)"
  then show "linear_inv t' \<and> (\<exists>xs ys s. linear_flows t' = xs @ f\<lparr>serial := s\<rparr> # ys \<and>
    (linear_flows t = xs @ ys \<or> (\<exists>g. linear_flows t = xs @ g # ys \<and> same_entry g f)))"
    by (rule linear_insert_True)
qed (rule linear_set_flow_spec linear_delete_spec linear_timeout_spec; assumption)+

lemma table_linear_create_inv:
  "table_linear_create alloc n = Some t \<Longrightarrow> linear_inv t \<and> linear_flows t = []"
  by (auto simp: table_linear_create_def linear_inv_def linear_flows_def split: if_splits)

end
