(* ===== verification/OF_Chain.thy ===== *)
theory OF_Chain
  imports OF_Table_Hash OF_Table_Linear
begin

unbundle bit_operations_syntax

text \<open>
  The chain of flow tables of \<open>udatapath/chain.c\<close>: working tables from cheap to expensive and one
  emergency table. A call through the function pointers of \<open>struct sw_table\<close> is a dispatch on the
  kind of the table.
\<close>

section \<open>Tables of any kind\<close>

datatype sw_table =
  Hash_table sw_table_hash
| Hash2_table sw_table_hash2
| Linear_table sw_table_linear

type_synonym flow_ref = "nat \<times> nat"

primrec table_swt :: "sw_table \<Rightarrow> swt" where
  "table_swt (Hash_table t) = h_swt t"
| "table_swt (Hash2_table t) = h2_swt t"
| "table_swt (Linear_table t) = l_swt t"

primrec table_set_swt :: "swt \<Rightarrow> sw_table \<Rightarrow> sw_table" where
  "table_set_swt s (Hash_table t) = Hash_table (t\<lparr>h_swt := s\<rparr>)"
| "table_set_swt s (Hash2_table t) = Hash2_table (t\<lparr>h2_swt := s\<rparr>)"
| "table_set_swt s (Linear_table t) = Linear_table (t\<lparr>l_swt := s\<rparr>)"

primrec table_lookup :: "sw_table \<Rightarrow> sw_flow_key \<Rightarrow> flow_ref option" where
  "table_lookup (Hash_table t) k = map_option (Pair 0) (table_hash_lookup t k)"
| "table_lookup (Hash2_table t) k = table_hash2_lookup t k"
| "table_lookup (Linear_table t) k = map_option (Pair 0) (table_linear_lookup t k)"

primrec table_flow_at :: "sw_table \<Rightarrow> flow_ref \<Rightarrow> sw_flow" where
  "table_flow_at (Hash_table t) r = hash_flow_at t (snd r)"
| "table_flow_at (Hash2_table t) r = hash2_flow_at t r"
| "table_flow_at (Linear_table t) r = linear_flow_at t (snd r)"

primrec table_set_flow :: "sw_table \<Rightarrow> flow_ref \<Rightarrow> sw_flow \<Rightarrow> sw_table" where
  "table_set_flow (Hash_table t) r f = Hash_table (hash_set_flow t (snd r) f)"
| "table_set_flow (Hash2_table t) r f = Hash2_table (hash2_set_flow t r f)"
| "table_set_flow (Linear_table t) r f = Linear_table (linear_set_flow t (snd r) f)"

primrec table_insert :: "sw_table \<Rightarrow> sw_flow \<Rightarrow> sw_table \<times> bool" where
  "table_insert (Hash_table t) f = map_prod Hash_table id (table_hash_insert t f)"
| "table_insert (Hash2_table t) f = map_prod Hash2_table id (table_hash2_insert t f)"
| "table_insert (Linear_table t) f = map_prod Linear_table id (table_linear_insert t f)"

primrec table_modify_sw ::
  "sw_table \<Rightarrow> acts_allocator \<Rightarrow> sw_flow_key \<Rightarrow> u16 \<Rightarrow> bool \<Rightarrow> bytes \<Rightarrow> sw_table \<times> u32" where
  "table_modify_sw (Hash_table t) alloc k prio strict acts =
     map_prod Hash_table id (table_hash_modify alloc t k prio strict acts)"
| "table_modify_sw (Hash2_table t) alloc k prio strict acts =
     map_prod Hash2_table id (table_hash2_modify alloc t k prio strict acts)"
| "table_modify_sw (Linear_table t) alloc k prio strict acts =
     map_prod Linear_table id (table_linear_modify alloc t k prio strict acts)"

definition table_modify ::
  "acts_allocator \<Rightarrow> sw_table \<Rightarrow> sw_flow_key \<Rightarrow> u16 \<Rightarrow> bool \<Rightarrow> bytes \<Rightarrow> sw_table \<times> u32" where
  "table_modify alloc t k prio strict acts = table_modify_sw t alloc k prio strict acts"

primrec table_has_conflict :: "sw_table \<Rightarrow> sw_flow_key \<Rightarrow> u16 \<Rightarrow> bool \<Rightarrow> bool" where
  "table_has_conflict (Hash_table t) k prio strict = table_hash_has_conflict t k prio strict"
| "table_has_conflict (Hash2_table t) k prio strict = table_hash2_has_conflict t k prio strict"
| "table_has_conflict (Linear_table t) k prio strict = table_linear_has_conflict t k prio strict"

definition table_delete ::
  "'d flow_end \<Rightarrow> 'd \<Rightarrow> sw_table \<Rightarrow> sw_flow_key \<Rightarrow> u16 \<Rightarrow> u16 \<Rightarrow> bool \<Rightarrow> ('d \<times> sw_table \<times> u32) result" where
  "table_delete flow_end dp t k port prio strict =
     (case t of
        Hash_table t \<Rightarrow>
          mapR (map_prod id (map_prod Hash_table id)) (table_hash_delete flow_end dp t k port prio strict)
      | Hash2_table t \<Rightarrow>
          mapR (map_prod id (map_prod Hash2_table id)) (table_hash2_delete flow_end dp t k port prio strict)
      | Linear_table t \<Rightarrow>
          mapR (map_prod id (map_prod Linear_table id)) (table_linear_delete flow_end dp t k port prio strict))"

definition table_timeout :: "u64 \<Rightarrow> sw_table \<Rightarrow> sw_table \<times> sw_flow list" where
  "table_timeout now t =
     (case t of
        Hash_table t \<Rightarrow> map_prod Hash_table id (table_hash_timeout now t)
      | Hash2_table t \<Rightarrow> map_prod Hash2_table id (table_hash2_timeout now t)
      | Linear_table t \<Rightarrow> map_prod Linear_table id (table_linear_timeout now t))"

definition table_iterate ::
  "sw_table \<Rightarrow> sw_flow_key \<Rightarrow> u16 \<Rightarrow> sw_table_position \<Rightarrow> 's flow_callback \<Rightarrow> 's \<Rightarrow>
   (int \<times> sw_table_position \<times> 's) result" where
  "table_iterate t k port position cb s =
     (case t of
        Hash_table t \<Rightarrow> table_hash_iterate t k port position cb s
      | Hash2_table t \<Rightarrow> table_hash2_iterate t k port position cb s
      | Linear_table t \<Rightarrow> table_linear_iterate t k port position cb s)"

primrec table_stats :: "sw_table \<Rightarrow> sw_table_stats" where
  "table_stats (Hash_table t) = table_hash_stats t"
| "table_stats (Hash2_table t) = table_hash2_stats t"
| "table_stats (Linear_table t) = table_linear_stats t"

primrec table_inv :: "sw_table \<Rightarrow> bool" where
  "table_inv (Hash_table t) = hash_inv t"
| "table_inv (Hash2_table t) = hash2_inv t"
| "table_inv (Linear_table t) = linear_inv t"

primrec table_flows :: "sw_table \<Rightarrow> sw_flow list" where
  "table_flows (Hash_table t) = hash_flows t"
| "table_flows (Hash2_table t) = hash2_flows t"
| "table_flows (Linear_table t) = linear_flows t"

primrec exact_only :: "sw_table \<Rightarrow> bool" where
  "exact_only (Hash_table t) = True"
| "exact_only (Hash2_table t) = True"
| "exact_only (Linear_table t) = False"

text \<open>The dispatch keeps the contract.\<close>

interpretation tab: flow_table table_inv table_flows table_lookup table_flow_at table_set_flow
  table_insert table_modify table_has_conflict table_delete table_timeout
proof
  fix t f
  assume "table_inv t" "f \<in> set (table_flows t)"
  then show "entry_ok f"
    using hash.flows_ok hash2.flows_ok linear.flows_ok by (cases t) auto
next
  fix t k r
  assume "table_inv t" "pad (kflow k) = (0, 0, 0)" "table_lookup t k = Some r"
  then show "table_flow_at t r \<in> set (table_flows t) \<and> flow_matches_1wild k (key (table_flow_at t r)) \<and>
    (\<forall>f \<in> set (table_flows t). flow_matches_1wild k (key f) \<longrightarrow> priority f \<le> priority (table_flow_at t r))"
    using hash.lookup_Some hash2.lookup_Some linear.lookup_Some by (cases t) auto
next
  fix t k f
  assume "table_inv t" "pad (kflow k) = (0, 0, 0)" "table_lookup t k = None" "f \<in> set (table_flows t)"
  then show "\<not> flow_matches_1wild k (key f)"
    using hash.lookup_None hash2.lookup_None linear.lookup_None by (cases t) auto
next
  fix t k r f
  assume a: "table_inv t" "pad (kflow k) = (0, 0, 0)" "table_lookup t k = Some r" "same_slot f (table_flow_at t r)"
  show "table_inv (table_set_flow t r f) \<and>
    (\<exists>xs ys. table_flows t = xs @ table_flow_at t r # ys \<and> table_flows (table_set_flow t r f) = xs @ f # ys)"
  proof (cases t)
    case (Hash_table x)
    then show ?thesis using a hash.set_flow [of x k "snd r" f] by auto
  next
    case (Hash2_table x)
    then show ?thesis using a hash2.set_flow [of x k r f] by simp
  next
    case (Linear_table x)
    then show ?thesis using a linear.set_flow [of x k "snd r" f] by auto
  qed
next
  fix t f t'
  assume a: "table_inv t" "entry_ok f" "table_insert t f = (t', True)"
  show "table_inv t' \<and> (\<exists>xs ys s. table_flows t' = xs @ f\<lparr>serial := s\<rparr> # ys \<and>
    (table_flows t = xs @ ys \<or> (\<exists>g. table_flows t = xs @ g # ys \<and> same_entry g f)))"
  proof (cases t)
    case (Hash_table x)
    then obtain y where "table_hash_insert x f = (y, True)" "t' = Hash_table y"
      using a by (cases "table_hash_insert x f") auto
    then show ?thesis using a hash.insert_True [of x f y] Hash_table by simp
  next
    case (Hash2_table x)
    then obtain y where "table_hash2_insert x f = (y, True)" "t' = Hash2_table y"
      using a by (cases "table_hash2_insert x f") auto
    then show ?thesis using a hash2.insert_True [of x f y] Hash2_table by simp
  next
    case (Linear_table x)
    then obtain y where "table_linear_insert x f = (y, True)" "t' = Linear_table y"
      using a by (cases "table_linear_insert x f") auto
    then show ?thesis using a linear.insert_True [of x f y] Linear_table by simp
  qed
next
  fix t f t'
  assume a: "table_insert t f = (t', False)"
  show "t' = t"
  proof (cases t)
    case (Hash_table x)
    then obtain y where "table_hash_insert x f = (y, False)" "t' = Hash_table y"
      using a by (cases "table_hash_insert x f") auto
    then show ?thesis using hash.insert_False [of x f y] Hash_table by simp
  next
    case (Hash2_table x)
    then obtain y where "table_hash2_insert x f = (y, False)" "t' = Hash2_table y"
      using a by (cases "table_hash2_insert x f") auto
    then show ?thesis using hash2.insert_False [of x f y] Hash2_table by simp
  next
    case (Linear_table x)
    then obtain y where "table_linear_insert x f = (y, False)" "t' = Linear_table y"
      using a by (cases "table_linear_insert x f") auto
    then show ?thesis using linear.insert_False [of x f y] Linear_table by simp
  qed
next
  fix t t' :: sw_table and alloc k prio strict acts n
  assume a: "table_inv t" "desc_ok k prio" "acts_framed acts" "table_modify alloc t k prio strict acts = (t', n)"
  show "table_inv t' \<and> n = of_nat (length (filter (modify_sel k prio strict) (table_flows t))) \<and>
    table_flows t' =
      map (\<lambda>f. if modify_sel k prio strict f then flow_replace_acts (alloc f) f acts else f) (table_flows t)"
  proof (cases t)
    case (Hash_table x)
    then obtain y where "table_hash_modify alloc x k prio strict acts = (y, n)" "t' = Hash_table y"
      using a by (cases "table_hash_modify alloc x k prio strict acts") (auto simp: table_modify_def)
    then show ?thesis using a hash.modify_spec [of x k prio acts alloc strict y n] Hash_table by simp
  next
    case (Hash2_table x)
    then obtain y where "table_hash2_modify alloc x k prio strict acts = (y, n)" "t' = Hash2_table y"
      using a by (cases "table_hash2_modify alloc x k prio strict acts") (auto simp: table_modify_def)
    then show ?thesis using a hash2.modify_spec [of x k prio acts alloc strict y n] Hash2_table by simp
  next
    case (Linear_table x)
    then obtain y where "table_linear_modify alloc x k prio strict acts = (y, n)" "t' = Linear_table y"
      using a by (cases "table_linear_modify alloc x k prio strict acts") (auto simp: table_modify_def)
    then show ?thesis using a linear.modify_spec [of x k prio acts alloc strict y n] Linear_table by simp
  qed
next
  fix t k prio strict
  assume "table_inv t" "desc_ok k prio"
  then show "table_has_conflict t k prio strict \<longleftrightarrow> (\<exists>f \<in> set (table_flows t). conflict_sel k prio strict f)"
    using hash.has_conflict_spec hash2.has_conflict_spec linear.has_conflict_spec by (cases t) auto
next
  fix t k prio and flow_end :: "'a flow_end" and dp port strict
  assume a: "table_inv t" "desc_ok k prio"
  show "\<exists>t'. table_delete flow_end dp t k port prio strict =
    Ok (foldl (\<lambda>d f. flow_end d f OFPRR_DELETE) dp (filter (delete_sel k port prio strict) (table_flows t)),
        t', of_nat (length (filter (delete_sel k port prio strict) (table_flows t)))) \<and>
    table_inv t' \<and> table_flows t' = filter (\<lambda>f. \<not> delete_sel k port prio strict f) (table_flows t)"
  proof (cases t)
    case (Hash_table x)
    then show ?thesis
      using a hash.delete_spec [of x k prio flow_end dp port strict] by (fastforce simp: table_delete_def)
  next
    case (Hash2_table x)
    then show ?thesis
      using a hash2.delete_spec [of x k prio flow_end dp port strict] by (fastforce simp: table_delete_def)
  next
    case (Linear_table x)
    then show ?thesis
      using a linear.delete_spec [of x k prio flow_end dp port strict] by (fastforce simp: table_delete_def)
  qed
next
  fix t now t' gone
  assume a: "table_inv t" "table_timeout now t = (t', gone)"
  show "table_inv t' \<and> table_flows t' = filter (\<lambda>f. \<not> expired now f) (table_flows t) \<and>
    gone = map (\<lambda>f. fst (flow_timeout now f)) (filter (expired now) (table_flows t))"
  proof (cases t)
    case (Hash_table x)
    then obtain y where "table_hash_timeout now x = (y, gone)" "t' = Hash_table y"
      using a by (cases "table_hash_timeout now x") (auto simp: table_timeout_def)
    then show ?thesis using a hash.timeout_spec [of x now y gone] Hash_table by simp
  next
    case (Hash2_table x)
    then obtain y where "table_hash2_timeout now x = (y, gone)" "t' = Hash2_table y"
      using a by (cases "table_hash2_timeout now x") (auto simp: table_timeout_def)
    then show ?thesis using a hash2.timeout_spec [of x now y gone] Hash2_table by simp
  next
    case (Linear_table x)
    then obtain y where "table_linear_timeout now x = (y, gone)" "t' = Linear_table y"
      using a by (cases "table_linear_timeout now x") (auto simp: table_timeout_def)
    then show ?thesis using a linear.timeout_spec [of x now y gone] Linear_table by simp
  qed
qed

section \<open>struct sw_chain and its operations\<close>

text \<open>
  The array of tables with its length \<open>n_tables\<close> is a list. The emergency table is a pointer that
  is null until \<open>chain_create\<close> has set it.
\<close>

record sw_chain =
  tables :: "sw_table list"
  emerg_table :: "sw_table option"

abbreviation (input) TABLE_LINEAR_MAX_FLOWS :: u32 where "TABLE_LINEAR_MAX_FLOWS \<equiv> 100"
abbreviation (input) TABLE_HASH_MAX_FLOWS :: u32 where "TABLE_HASH_MAX_FLOWS \<equiv> 65536"
abbreviation (input) CHAIN_MAX_TABLES :: nat where "CHAIN_MAX_TABLES \<equiv> 4"

definition add_table :: "sw_chain \<Rightarrow> sw_table option \<Rightarrow> bool \<Rightarrow> sw_chain \<times> int" where
  "add_table chain table emerg =
     (case table of
        None \<Rightarrow> (chain, - ENOMEM)
      | Some t \<Rightarrow>
          if length (tables chain) \<ge> CHAIN_MAX_TABLES then (chain, - ENOBUFS)
          else if emerg then (chain\<lparr>emerg_table := Some t\<rparr>, 0)
          else (chain\<lparr>tables := tables chain @ [t]\<rparr>, 0))"

text \<open>
  \<open>chain_destroy\<close> frees every table. It calls \<open>destroy\<close> through the emergency table without a check
  of the pointer.
\<close>

definition chain_destroy :: "sw_chain \<Rightarrow> unit result" where
  "chain_destroy chain = (case emerg_table chain of None \<Rightarrow> Fail Bad_access | Some t \<Rightarrow> Ok ())"

text \<open>Each allocation step of \<open>chain_create\<close> meets the allocator in a state of its own.\<close>

definition chain_create :: "(nat \<Rightarrow> allocator) \<Rightarrow> sw_chain option result" where
  "chain_create allocs =
     (if \<not> allocs 0 0 then Ok None
      else
        let chain = \<lparr>tables = [], emerg_table = None\<rparr>;
            failed = (\<lambda>chain. bindR (chain_destroy chain) (\<lambda>_. Ok None))
        in bindR (table_hash2_create (allocs 1) 0x1EDC6F41 TABLE_HASH_MAX_FLOWS
                    0x741B8CD7 TABLE_HASH_MAX_FLOWS)
          (\<lambda>h. let (chain, error) = add_table chain (map_option Hash2_table h) False
                in if error \<noteq> 0 then failed chain
                   else
                     let l = table_linear_create (allocs 2) TABLE_LINEAR_MAX_FLOWS;
                         (chain, error) = add_table chain (map_option Linear_table l) False
                     in if error \<noteq> 0 then failed chain
                        else
                          let l = table_linear_create (allocs 3) TABLE_LINEAR_MAX_FLOWS;
                              (chain, error) = add_table chain (map_option Linear_table l) True
                          in if error \<noteq> 0 then failed chain else Ok (Some chain)))"

text \<open>A found entry is named by the table it is in and its place there.\<close>

datatype chain_ref = Working nat flow_ref | Emergency flow_ref

definition count_lookup :: "bool \<Rightarrow> sw_table \<Rightarrow> sw_table" where
  "count_lookup hit t =
     (let s = table_swt t
      in table_set_swt (s\<lparr>n_lookup := n_lookup s + 1,
                          n_matched := (if hit then n_matched s + 1 else n_matched s)\<rparr>) t)"

primrec chain_lookup_loop ::
  "sw_flow_key \<Rightarrow> nat \<Rightarrow> sw_table list \<Rightarrow> sw_table list \<times> chain_ref option" where
  "chain_lookup_loop k i [] = ([], None)"
| "chain_lookup_loop k i (t # ts) =
     (case table_lookup t k of
        Some r \<Rightarrow> (count_lookup True t # ts, Some (Working i r))
      | None \<Rightarrow> let (ts', r) = chain_lookup_loop k (i + 1) ts in (count_lookup False t # ts', r))"

definition chain_lookup :: "sw_chain \<Rightarrow> sw_flow_key \<Rightarrow> bool \<Rightarrow> (sw_chain \<times> chain_ref option) result" where
  "chain_lookup chain k emerg =
     guardR (wildcards k = 0) Assertion
       (if emerg then
          case emerg_table chain of
            None \<Rightarrow> Fail Bad_access
          | Some t \<Rightarrow>
              (case table_lookup t k of
                 Some r \<Rightarrow> Ok (chain\<lparr>emerg_table := Some (count_lookup True t)\<rparr>, Some (Emergency r))
               | None \<Rightarrow> Ok (chain\<lparr>emerg_table := Some (count_lookup False t)\<rparr>, None))
        else
          let (ts, r) = chain_lookup_loop k 0 (tables chain) in Ok (chain\<lparr>tables := ts\<rparr>, r))"

definition chain_flow_at :: "sw_chain \<Rightarrow> chain_ref \<Rightarrow> sw_flow" where
  "chain_flow_at chain r =
     (case r of
        Working i r \<Rightarrow> table_flow_at (tables chain ! i) r
      | Emergency r \<Rightarrow> table_flow_at (the (emerg_table chain)) r)"

definition chain_set_flow :: "sw_chain \<Rightarrow> chain_ref \<Rightarrow> sw_flow \<Rightarrow> sw_chain" where
  "chain_set_flow chain r f =
     (case r of
        Working i r \<Rightarrow> chain\<lparr>tables := (tables chain)[i := table_set_flow (tables chain ! i) r f]\<rparr>
      | Emergency r \<Rightarrow> chain\<lparr>emerg_table := map_option (\<lambda>t. table_set_flow t r f) (emerg_table chain)\<rparr>)"

primrec chain_insert_loop :: "sw_flow \<Rightarrow> sw_table list \<Rightarrow> sw_table list \<times> bool" where
  "chain_insert_loop flow [] = ([], False)"
| "chain_insert_loop flow (t # ts) =
     (case table_insert t flow of
        (t', True) \<Rightarrow> (t' # ts, True)
      | (t', False) \<Rightarrow> let (ts', b) = chain_insert_loop flow ts in (t' # ts', b))"

definition chain_insert :: "sw_chain \<Rightarrow> sw_flow \<Rightarrow> bool \<Rightarrow> (sw_chain \<times> int) result" where
  "chain_insert chain flow emerg =
     (if emerg then
        case emerg_table chain of
          None \<Rightarrow> Fail Bad_access
        | Some t \<Rightarrow>
            let (t', b) = table_insert t flow
            in Ok (chain\<lparr>emerg_table := Some t'\<rparr>, if b then 0 else - ENOBUFS)
      else
        let (ts, b) = chain_insert_loop flow (tables chain)
        in Ok (chain\<lparr>tables := ts\<rparr>, if b then 0 else - ENOBUFS))"

primrec chain_modify_loop ::
  "acts_allocator \<Rightarrow> sw_flow_key \<Rightarrow> u16 \<Rightarrow> bool \<Rightarrow> bytes \<Rightarrow> sw_table list \<Rightarrow> sw_table list \<times> u32" where
  "chain_modify_loop alloc k prio strict acts [] = ([], 0)"
| "chain_modify_loop alloc k prio strict acts (t # ts) =
     (let (t', n) = table_modify alloc t k prio strict acts;
          (ts', m) = chain_modify_loop alloc k prio strict acts ts
      in (t' # ts', n + m))"

definition chain_modify ::
  "acts_allocator \<Rightarrow> sw_chain \<Rightarrow> sw_flow_key \<Rightarrow> u16 \<Rightarrow> bool \<Rightarrow> bytes \<Rightarrow> bool \<Rightarrow> (sw_chain \<times> u32) result" where
  "chain_modify alloc chain k prio strict acts emerg =
     (if emerg then
        case emerg_table chain of
          None \<Rightarrow> Fail Bad_access
        | Some t \<Rightarrow>
            let (t', n) = table_modify alloc t k prio strict acts
            in Ok (chain\<lparr>emerg_table := Some t'\<rparr>, n)
      else
        let (ts, n) = chain_modify_loop alloc k prio strict acts (tables chain)
        in Ok (chain\<lparr>tables := ts\<rparr>, n))"

definition chain_has_conflict :: "sw_chain \<Rightarrow> sw_flow_key \<Rightarrow> u16 \<Rightarrow> bool \<Rightarrow> bool" where
  "chain_has_conflict chain k prio strict = list_ex (\<lambda>t. table_has_conflict t k prio strict) (tables chain)"

primrec chain_delete_loop ::
  "'d flow_end \<Rightarrow> sw_flow_key \<Rightarrow> u16 \<Rightarrow> u16 \<Rightarrow> bool \<Rightarrow> 'd \<Rightarrow> sw_table list \<Rightarrow>
   ('d \<times> sw_table list \<times> u32) result" where
  "chain_delete_loop flow_end k port prio strict dp [] = Ok (dp, [], 0)"
| "chain_delete_loop flow_end k port prio strict dp (t # ts) =
     bindR (table_delete flow_end dp t k port prio strict)
       (\<lambda>(dp, t', n).
          bindR (chain_delete_loop flow_end k port prio strict dp ts)
            (\<lambda>(dp, ts', m). Ok (dp, t' # ts', n + m)))"

definition chain_delete ::
  "'d flow_end \<Rightarrow> 'd \<Rightarrow> sw_chain \<Rightarrow> sw_flow_key \<Rightarrow> u16 \<Rightarrow> u16 \<Rightarrow> bool \<Rightarrow> bool \<Rightarrow>
   ('d \<times> sw_chain \<times> u32) result" where
  "chain_delete flow_end dp chain k port prio strict emerg =
     (if emerg then
        case emerg_table chain of
          None \<Rightarrow> Fail Bad_access
        | Some t \<Rightarrow>
            bindR (table_delete flow_end dp t k port prio strict)
              (\<lambda>(dp, t', n). Ok (dp, chain\<lparr>emerg_table := Some t'\<rparr>, n))
      else
        bindR (chain_delete_loop flow_end k port prio strict dp (tables chain))
          (\<lambda>(dp, ts, n). Ok (dp, chain\<lparr>tables := ts\<rparr>, n)))"

primrec chain_timeout_loop :: "u64 \<Rightarrow> sw_table list \<Rightarrow> sw_table list \<times> sw_flow list" where
  "chain_timeout_loop now [] = ([], [])"
| "chain_timeout_loop now (t # ts) =
     (let (t', gone) = table_timeout now t; (ts', gone') = chain_timeout_loop now ts
      in (t' # ts', gone @ gone'))"

definition chain_timeout :: "u64 \<Rightarrow> sw_chain \<Rightarrow> sw_chain \<times> sw_flow list" where
  "chain_timeout now chain =
     (let (ts, gone) = chain_timeout_loop now (tables chain) in (chain\<lparr>tables := ts\<rparr>, gone))"

section \<open>Contents and invariant of a chain\<close>

definition chain_flows :: "sw_chain \<Rightarrow> sw_flow list" where
  "chain_flows chain = concat (map table_flows (tables chain))"

definition emerg_flows :: "sw_chain \<Rightarrow> sw_flow list" where
  "emerg_flows chain = (case emerg_table chain of None \<Rightarrow> [] | Some t \<Rightarrow> table_flows t)"

text \<open>Only the last working table may hold entries with wildcards.\<close>

definition chain_inv :: "sw_chain \<Rightarrow> bool" where
  "chain_inv chain \<longleftrightarrow>
     list_all table_inv (tables chain) \<and> list_all exact_only (butlast (tables chain)) \<and>
     (case emerg_table chain of None \<Rightarrow> False | Some t \<Rightarrow> table_inv t)"

lemma hash_swt [simp]:
  "hash_flows (t\<lparr>h_swt := s\<rparr>) = hash_flows t" "hash_inv (t\<lparr>h_swt := s\<rparr>) = hash_inv t"
  "hash_flow_at (t\<lparr>h_swt := s\<rparr>) = hash_flow_at t" "table_hash_lookup (t\<lparr>h_swt := s\<rparr>) = table_hash_lookup t"
  by (simp_all add: hash_flows_def hash_inv_def hash_entry_ok_def hash_flow_at_def table_hash_lookup_def
      fun_eq_iff)

lemma hash2_swt [simp]:
  "hash2_flows (t\<lparr>h2_swt := s\<rparr>) = hash2_flows t" "hash2_inv (t\<lparr>h2_swt := s\<rparr>) = hash2_inv t"
  "hash2_flow_at (t\<lparr>h2_swt := s\<rparr>) = hash2_flow_at t" "table_hash2_lookup (t\<lparr>h2_swt := s\<rparr>) = table_hash2_lookup t"
  by (simp_all add: hash2_defs table_hash2_lookup_def fun_eq_iff split: option.split)

lemma linear_swt [simp]:
  "linear_flows (t\<lparr>l_swt := s\<rparr>) = linear_flows t" "linear_inv (t\<lparr>l_swt := s\<rparr>) = linear_inv t"
  "linear_flow_at (t\<lparr>l_swt := s\<rparr>) = linear_flow_at t"
  "table_linear_lookup (t\<lparr>l_swt := s\<rparr>) = table_linear_lookup t"
  by (simp_all add: linear_flows_def linear_inv_def linear_flow_at_def table_linear_lookup_def fun_eq_iff)

lemma table_set_swt_simps [simp]:
  "table_flows (table_set_swt s t) = table_flows t" "table_inv (table_set_swt s t) = table_inv t"
  "exact_only (table_set_swt s t) = exact_only t" "table_flow_at (table_set_swt s t) = table_flow_at t"
  "table_lookup (table_set_swt s t) = table_lookup t"
  by (cases t; simp add: fun_eq_iff)+

lemma count_lookup_simps [simp]:
  "table_flows (count_lookup b t) = table_flows t" "table_inv (count_lookup b t) = table_inv t"
  "exact_only (count_lookup b t) = exact_only t" "table_flow_at (count_lookup b t) = table_flow_at t"
  "table_lookup (count_lookup b t) = table_lookup t"
  by (simp_all add: count_lookup_def Let_def)

lemma exact_only_priority:
  "table_inv t \<Longrightarrow> exact_only t \<Longrightarrow> f \<in> set (table_flows t) \<Longrightarrow> priority f = 0xffff"
  using hash_priority hash2_priority by (cases t) auto

section \<open>Lookup returns an entry of the highest priority\<close>

text \<open>Two lists of tables that differ at most in the counters.\<close>

definition counted :: "sw_table \<Rightarrow> sw_table \<Rightarrow> bool" where
  "counted t' t \<longleftrightarrow> t' = t \<or> (\<exists>b. t' = count_lookup b t)"

lemma counted_simps:
  assumes "counted t' t"
  shows "table_flows t' = table_flows t" "table_inv t' = table_inv t" "exact_only t' = exact_only t"
    "table_flow_at t' = table_flow_at t" "table_lookup t' = table_lookup t"
  using assms by (auto simp: counted_def)

lemma all_counted:
  assumes "list_all2 counted ts' ts"
  shows "concat (map table_flows ts') = concat (map table_flows ts)"
    "list_all table_inv ts' = list_all table_inv ts"
    "list_all exact_only (butlast ts') = list_all exact_only (butlast ts)"
proof -
  have eq: "map table_flows ts' = map table_flows ts" "map table_inv ts' = map table_inv ts"
    "map exact_only ts' = map exact_only ts"
    using assms by (induction rule: list_all2_induct) (simp_all add: counted_simps)
  show "concat (map table_flows ts') = concat (map table_flows ts)"
    by (simp only: eq)
  have all: "list_all P xs = list_all id (map P xs)" for P and xs :: "sw_table list"
    by (induction xs) auto
  show "list_all table_inv ts' = list_all table_inv ts"
    by (simp only: all [of table_inv] eq)
  show "list_all exact_only (butlast ts') = list_all exact_only (butlast ts)"
    by (simp only: all [of exact_only] map_butlast eq)
qed

lemma chain_lookup_loop_counted:
  "chain_lookup_loop k i ts = (ts', r) \<Longrightarrow> list_all2 counted ts' ts"
  by (induction ts arbitrary: i ts' r)
    (auto simp: counted_def list_all2_refl split: option.splits prod.splits)

text \<open>What a lookup promises about a collection of entries.\<close>

definition best_match :: "sw_flow list \<Rightarrow> sw_flow_key \<Rightarrow> sw_flow option \<Rightarrow> bool" where
  "best_match fs k r \<longleftrightarrow>
     (case r of
        None \<Rightarrow> (\<forall>f \<in> set fs. \<not> flow_matches_1wild k (key f))
      | Some f \<Rightarrow> f \<in> set fs \<and> flow_matches_1wild k (key f) \<and>
          (\<forall>g \<in> set fs. flow_matches_1wild k (key g) \<longrightarrow> priority g \<le> priority f))"

lemma best_match_append:
  "\<forall>f \<in> set fs. \<not> flow_matches_1wild k (key f) \<Longrightarrow> best_match gs k r \<Longrightarrow> best_match (fs @ gs) k r"
  by (auto simp: best_match_def split: option.splits)

lemma table_best_match:
  assumes "table_inv t" "pad (kflow k) = (0, 0, 0)"
  shows "best_match (table_flows t) k (map_option (table_flow_at t) (table_lookup t k))"
  using tab.lookup_Some [OF assms] tab.lookup_None [OF assms]
  by (auto simp: best_match_def split: option.split)

lemma chain_lookup_loop_best:
  assumes "list_all table_inv ts" "list_all exact_only (butlast ts)" "pad (kflow k) = (0, 0, 0)"
    "chain_lookup_loop k i ts = (ts', r)"
  shows "(r = None \<longrightarrow> best_match (concat (map table_flows ts)) k None) \<and>
    (\<forall>x. r = Some x \<longrightarrow> (\<exists>j ref. x = Working (i + j) ref \<and> j < length ts \<and>
       table_lookup (ts ! j) k = Some ref \<and>
       best_match (concat (map table_flows ts)) k (Some (table_flow_at (ts ! j) ref))))"
  using assms
proof (induction ts arbitrary: i ts' r)
  case (Cons t ts)
  have inv: "table_inv t" and ex: "ts \<noteq> [] \<Longrightarrow> exact_only t"
    using Cons.prems by auto
  note best = table_best_match [OF inv Cons.prems(3)]
  show ?case
  proof (cases "table_lookup t k")
    case None
    then obtain ts'' where rest: "chain_lookup_loop k (i + 1) ts = (ts'', r)"
      using Cons.prems(4) by (auto split: prod.splits)
    have "list_all exact_only (butlast ts)"
      using Cons.prems(2) by (cases ts) auto
    note IH = Cons.IH [OF _ this Cons.prems(3) rest]
    have none: "\<forall>f \<in> set (table_flows t). \<not> flow_matches_1wild k (key f)"
      using best None by (simp add: best_match_def)
    show ?thesis
    proof (cases r)
      case None
      then show ?thesis using IH Cons.prems(1) best_match_append [OF none] by simp
    next
      case (Some x)
      then obtain j ref where "x = Working (i + 1 + j) ref" "j < length ts" "table_lookup (ts ! j) k = Some ref"
        "best_match (concat (map table_flows ts)) k (Some (table_flow_at (ts ! j) ref))"
        using IH Cons.prems(1) by auto
      then have "x = Working (i + Suc j) ref" "Suc j < length (t # ts)"
        "table_lookup ((t # ts) ! Suc j) k = Some ref"
        "best_match (concat (map table_flows (t # ts))) k (Some (table_flow_at ((t # ts) ! Suc j) ref))"
        using best_match_append [OF none] by simp_all
      then show ?thesis using Some by blast
    qed
  next
    case (Some ref)
    then have r: "r = Some (Working (i + 0) ref)" using Cons.prems(4) by auto
    have m: "best_match (table_flows t) k (Some (table_flow_at t ref))"
      using best Some by simp
    have "priority g \<le> priority (table_flow_at t ref)" if "g \<in> set (concat (map table_flows ts))" for g
    proof -
      have "ts \<noteq> []" using that by auto
      then have top: "priority (table_flow_at t ref) = 0xffff"
        using m exact_only_priority [OF inv ex] by (simp add: best_match_def)
      have max: "(0xffff :: u16) = - 1" by simp
      show ?thesis unfolding top max by (rule word_n1_ge)
    qed
    then have "best_match (concat (map table_flows (t # ts))) k (Some (table_flow_at ((t # ts) ! 0) ref))"
      using m by (auto simp: best_match_def)
    moreover have "table_lookup ((t # ts) ! 0) k = Some ref" "0 < length (t # ts)" using Some by simp_all
    ultimately show ?thesis using r by blast
  qed
qed (simp add: best_match_def)

text \<open>
  \<open>chain_lookup\<close> on the working tables: the chain only counts, and the answer is best among all
  working entries.
\<close>

lemma chain_lookup_working:
  assumes inv: "chain_inv chain" and k: "wildcards k = 0" "pad (kflow k) = (0, 0, 0)"
  shows "\<exists>chain' r. chain_lookup chain k False = Ok (chain', r) \<and> chain_inv chain' \<and>
    chain_flows chain' = chain_flows chain \<and> emerg_table chain' = emerg_table chain \<and>
    best_match (chain_flows chain) k (map_option (chain_flow_at chain') r)"
proof -
  obtain ts r where l: "chain_lookup_loop k 0 (tables chain) = (ts, r)" by fastforce
  have cnt: "list_all2 counted ts (tables chain)" by (rule chain_lookup_loop_counted [OF l])
  have best: "best_match (chain_flows chain) k (map_option (chain_flow_at (chain\<lparr>tables := ts\<rparr>)) r)"
  proof (cases r)
    case None
    then show ?thesis
      using chain_lookup_loop_best [OF _ _ k(2) l] inv by (simp add: chain_inv_def chain_flows_def)
  next
    case (Some x)
    then obtain j ref where j: "x = Working j ref" "j < length (tables chain)"
      "best_match (chain_flows chain) k (Some (table_flow_at (tables chain ! j) ref))"
      using chain_lookup_loop_best [OF _ _ k(2) l] inv by (auto simp: chain_inv_def chain_flows_def)
    moreover have "counted (ts ! j) (tables chain ! j)"
      using cnt j(2) by (simp add: list_all2_conv_all_nth)
    ultimately show ?thesis
      using Some by (simp add: chain_flow_at_def counted_simps)
  qed
  have "chain_lookup chain k False = Ok (chain\<lparr>tables := ts\<rparr>, r)"
    using k(1) l by (simp add: chain_lookup_def)
  then show ?thesis
    using best all_counted [OF cnt] inv
    by (intro exI [of _ "chain\<lparr>tables := ts\<rparr>"] exI [of _ r]) (simp add: chain_inv_def chain_flows_def)
qed

lemma chain_lookup_emerg:
  assumes inv: "chain_inv chain" and k: "wildcards k = 0" "pad (kflow k) = (0, 0, 0)"
  shows "\<exists>chain' r. chain_lookup chain k True = Ok (chain', r) \<and> chain_inv chain' \<and>
    tables chain' = tables chain \<and> emerg_flows chain' = emerg_flows chain \<and>
    best_match (emerg_flows chain) k (map_option (chain_flow_at chain') r)"
proof -
  obtain t where t: "emerg_table chain = Some t" "table_inv t"
    using inv by (auto simp: chain_inv_def split: option.splits)
  show ?thesis
    using table_best_match [OF t(2) k(2)] t inv k(1)
    by (cases "table_lookup t k")
      (auto simp: chain_lookup_def emerg_flows_def chain_inv_def chain_flow_at_def)
qed

section \<open>Insertion, modification, deletion and timeouts\<close>

text \<open>One entry more, possibly in place of an equivalent one.\<close>

definition added :: "sw_flow list \<Rightarrow> sw_flow \<Rightarrow> sw_flow list \<Rightarrow> bool" where
  "added fs f fs' \<longleftrightarrow> (\<exists>xs ys s. fs' = xs @ f\<lparr>serial := s\<rparr> # ys \<and>
     (fs = xs @ ys \<or> (\<exists>g. fs = xs @ g # ys \<and> same_entry g f)))"

lemma added_append: "added fs f fs' \<Longrightarrow> added (as @ fs @ bs) f (as @ fs' @ bs)"
  unfolding added_def
proof (elim exE conjE)
  fix xs ys s
  assume *: "fs' = xs @ f\<lparr>serial := s\<rparr> # ys" "fs = xs @ ys \<or> (\<exists>g. fs = xs @ g # ys \<and> same_entry g f)"
  show "\<exists>xs ys s. as @ fs' @ bs = xs @ f\<lparr>serial := s\<rparr> # ys \<and>
     (as @ fs @ bs = xs @ ys \<or> (\<exists>g. as @ fs @ bs = xs @ g # ys \<and> same_entry g f))"
    by (rule exI [of _ "as @ xs"], rule exI [of _ "ys @ bs"], rule exI [of _ s]) (use * in auto)
qed

lemma table_insert_added:
  "table_inv t \<Longrightarrow> entry_ok f \<Longrightarrow> table_insert t f = (t', True) \<Longrightarrow>
   table_inv t' \<and> added (table_flows t) f (table_flows t')"
  using tab.insert_True by (simp add: added_def)

lemma table_insert_kind: "table_insert t f = (t', b) \<Longrightarrow> exact_only t' = exact_only t"
  by (cases t) (auto simp: map_prod_def split: prod.splits)

lemma chain_insert_loop_spec:
  assumes "list_all table_inv ts" "entry_ok f" "chain_insert_loop f ts = (ts', b)"
  shows "list_all table_inv ts' \<and> map exact_only ts' = map exact_only ts \<and>
    (if b then added (concat (map table_flows ts)) f (concat (map table_flows ts')) else ts' = ts)"
  using assms
proof (induction ts arbitrary: ts')
  case (Cons t ts)
  obtain t' hit where t': "table_insert t f = (t', hit)" by fastforce
  show ?case
  proof (cases hit)
    case True
    then have "ts' = t' # ts" "b" using Cons.prems(3) t' by auto
    then show ?thesis
      using table_insert_added [of t f t'] t' True Cons.prems(1,2) table_insert_kind [OF t']
        added_append [of "table_flows t" f "table_flows t'" "[]"] by simp
  next
    case False
    then have "t' = t" using t' tab.insert_False [of t f t'] by simp
    moreover obtain ts'' where ts'': "chain_insert_loop f ts = (ts'', b)" "ts' = t' # ts''"
      using Cons.prems(3) t' False by (auto split: prod.splits)
    ultimately show ?thesis
      using Cons.IH [of ts''] Cons.prems(1,2)
        added_append [of "concat (map table_flows ts)" f _ "table_flows t" "[]"] by auto
  qed
qed simp

lemma exact_only_butlast:
  assumes "map exact_only ts' = map exact_only ts"
  shows "list_all exact_only (butlast ts') = list_all exact_only (butlast ts)"
proof -
  have all: "list_all exact_only xs = list_all id (map exact_only xs)" for xs
    by (induction xs) auto
  show ?thesis by (simp only: all map_butlast assms)
qed

lemma chain_insert_working:
  assumes inv: "chain_inv chain" and f: "entry_ok f"
  shows "\<exists>chain' e. chain_insert chain f False = Ok (chain', e) \<and> chain_inv chain' \<and>
    emerg_table chain' = emerg_table chain \<and>
    (e = 0 \<and> added (chain_flows chain) f (chain_flows chain') \<or> e = - ENOBUFS \<and> chain' = chain)"
proof -
  obtain ts b where l: "chain_insert_loop f (tables chain) = (ts, b)" by fastforce
  have s: "list_all table_inv ts" "map exact_only ts = map exact_only (tables chain)"
    "if b then added (chain_flows chain) f (concat (map table_flows ts)) else ts = tables chain"
    using chain_insert_loop_spec [OF _ f l] inv by (auto simp: chain_inv_def chain_flows_def)
  then show ?thesis
    using l inv exact_only_butlast [OF s(2)]
    by (cases b) (auto simp: chain_insert_def chain_inv_def chain_flows_def)
qed

lemma chain_insert_emerg:
  assumes inv: "chain_inv chain" and f: "entry_ok f"
  shows "\<exists>chain' e. chain_insert chain f True = Ok (chain', e) \<and> chain_inv chain' \<and>
    tables chain' = tables chain \<and>
    (e = 0 \<and> added (emerg_flows chain) f (emerg_flows chain') \<or> e = - ENOBUFS \<and> chain' = chain)"
proof -
  obtain t where t: "emerg_table chain = Some t" "table_inv t"
    using inv by (auto simp: chain_inv_def split: option.splits)
  obtain t' b where t': "table_insert t f = (t', b)" by fastforce
  show ?thesis
  proof (cases b)
    case True
    then show ?thesis
      using table_insert_added [OF t(2) f] t t' inv
      by (simp add: chain_insert_def emerg_flows_def chain_inv_def)
  next
    case False
    then have "t' = t" using t' tab.insert_False [of t f t'] by simp
    then have "chain_insert chain f True = Ok (chain, - ENOBUFS)"
      using t t' False by (simp add: chain_insert_def)
    then show ?thesis using inv by simp
  qed
qed

text \<open>After a successful insertion every packet the entry matches finds one of at least its priority.\<close>

lemma added_best:
  assumes "added fs f fs'" "best_match fs' k r" "flow_matches_1wild k (key f)"
  shows "\<exists>g. r = Some g \<and> priority f \<le> priority g"
proof -
  obtain s where "f\<lparr>serial := s\<rparr> \<in> set fs'"
    using assms(1) unfolding added_def by (metis in_set_conv_decomp)
  then show ?thesis
    using assms(2,3) by (cases r) (force simp: best_match_def)+
qed

definition modified ::
  "acts_allocator \<Rightarrow> sw_flow_key \<Rightarrow> u16 \<Rightarrow> bool \<Rightarrow> bytes \<Rightarrow> sw_flow list \<Rightarrow> sw_flow list" where
  "modified alloc k prio strict acts fs =
     map (\<lambda>f. if modify_sel k prio strict f then flow_replace_acts (alloc f) f acts else f) fs"

lemma table_modify_kind: "table_modify alloc t k prio strict acts = (t', n) \<Longrightarrow> exact_only t' = exact_only t"
  by (cases t) (auto simp: table_modify_def map_prod_def split: prod.splits)

lemma chain_modify_loop_spec:
  assumes "list_all table_inv ts" "desc_ok k prio" "acts_framed acts"
    "chain_modify_loop alloc k prio strict acts ts = (ts', n)"
  shows "list_all table_inv ts' \<and> map exact_only ts' = map exact_only ts \<and>
    n = of_nat (length (filter (modify_sel k prio strict) (concat (map table_flows ts)))) \<and>
    concat (map table_flows ts') = modified alloc k prio strict acts (concat (map table_flows ts))"
  using assms
proof (induction ts arbitrary: ts' n)
  case (Cons t ts)
  obtain t' m where t': "table_modify alloc t k prio strict acts = (t', m)" by fastforce
  obtain ts'' m' where ts'': "chain_modify_loop alloc k prio strict acts ts = (ts'', m')" by fastforce
  have "ts' = t' # ts''" "n = m + m'" using Cons.prems(4) t' ts'' by auto
  then show ?case
    using Cons.IH [OF _ Cons.prems(2,3) ts''] Cons.prems(1) table_modify_kind [OF t']
      tab.modify_spec [OF _ Cons.prems(2,3) t'] by (simp add: modified_def)
qed (simp add: modified_def)

lemma chain_modify_working:
  assumes inv: "chain_inv chain" and k: "desc_ok k prio" "acts_framed acts"
  shows "\<exists>chain'. chain_modify alloc chain k prio strict acts False =
      Ok (chain', of_nat (length (filter (modify_sel k prio strict) (chain_flows chain)))) \<and>
    chain_inv chain' \<and> emerg_table chain' = emerg_table chain \<and>
    chain_flows chain' = modified alloc k prio strict acts (chain_flows chain)"
proof -
  obtain ts n where l: "chain_modify_loop alloc k prio strict acts (tables chain) = (ts, n)" by fastforce
  have s: "list_all table_inv ts" "map exact_only ts = map exact_only (tables chain)"
    "n = of_nat (length (filter (modify_sel k prio strict) (chain_flows chain)))"
    "concat (map table_flows ts) = modified alloc k prio strict acts (chain_flows chain)"
    using chain_modify_loop_spec [OF _ k l] inv by (simp_all add: chain_inv_def chain_flows_def)
  then show ?thesis
    using inv l exact_only_butlast [OF s(2)]
    by (simp add: chain_modify_def chain_inv_def chain_flows_def)
qed

lemma chain_modify_emerg:
  assumes inv: "chain_inv chain" and k: "desc_ok k prio" "acts_framed acts"
  shows "\<exists>chain'. chain_modify alloc chain k prio strict acts True =
      Ok (chain', of_nat (length (filter (modify_sel k prio strict) (emerg_flows chain)))) \<and>
    chain_inv chain' \<and> tables chain' = tables chain \<and>
    emerg_flows chain' = modified alloc k prio strict acts (emerg_flows chain)"
proof -
  obtain t where t: "emerg_table chain = Some t" "table_inv t"
    using inv by (auto simp: chain_inv_def split: option.splits)
  obtain t' n where t': "table_modify alloc t k prio strict acts = (t', n)" by fastforce
  show ?thesis
    using tab.modify_spec [OF t(2) k t'] t t' inv
    by (simp add: chain_modify_def emerg_flows_def chain_inv_def modified_def)
qed

lemma chain_has_conflict_spec:
  assumes "chain_inv chain" "desc_ok k prio"
  shows "chain_has_conflict chain k prio strict \<longleftrightarrow> (\<exists>f \<in> set (chain_flows chain). conflict_sel k prio strict f)"
  using assms tab.has_conflict_spec
  by (auto simp: chain_has_conflict_def chain_inv_def chain_flows_def list_ex_iff list_all_iff)

lemma table_delete_kind:
  "table_delete flow_end dp t k port prio strict = Ok (dp', t', n) \<Longrightarrow> exact_only t' = exact_only t"
  by (cases t) (auto simp: table_delete_def mapR_def result_simps map_prod_def)

lemma chain_delete_loop_spec:
  assumes "list_all table_inv ts" "desc_ok k prio" "P = delete_sel k port prio strict"
  shows "\<exists>ts'. chain_delete_loop flow_end k port prio strict dp ts =
      Ok (foldl (\<lambda>d f. flow_end d f OFPRR_DELETE) dp (filter P (concat (map table_flows ts))), ts',
          of_nat (length (filter P (concat (map table_flows ts))))) \<and>
    list_all table_inv ts' \<and> map exact_only ts' = map exact_only ts \<and>
    concat (map table_flows ts') = filter (\<lambda>f. \<not> P f) (concat (map table_flows ts))"
  using assms(1)
proof (induction ts arbitrary: dp)
  case (Cons t ts)
  have "table_inv t" using Cons.prems by simp
  from tab.delete_spec [OF this assms(2), of flow_end dp port strict] obtain t' where
    t': "table_delete flow_end dp t k port prio strict =
      Ok (foldl (\<lambda>d f. flow_end d f OFPRR_DELETE) dp (filter P (table_flows t)), t',
          of_nat (length (filter P (table_flows t))))"
    "table_inv t'" "table_flows t' = filter (\<lambda>f. \<not> P f) (table_flows t)"
    unfolding assms(3) by blast
  show ?case
    using Cons.IH [of "foldl (\<lambda>d f. flow_end d f OFPRR_DELETE) dp (filter P (table_flows t))"]
      Cons.prems t' table_delete_kind [OF t'(1)] by auto
qed simp

lemma chain_delete_working:
  assumes inv: "chain_inv chain" and k: "desc_ok k prio" and P: "P = delete_sel k port prio strict"
  shows "\<exists>chain'. chain_delete flow_end dp chain k port prio strict False =
      Ok (foldl (\<lambda>d f. flow_end d f OFPRR_DELETE) dp (filter P (chain_flows chain)), chain',
          of_nat (length (filter P (chain_flows chain)))) \<and>
    chain_inv chain' \<and> emerg_table chain' = emerg_table chain \<and>
    chain_flows chain' = filter (\<lambda>f. \<not> P f) (chain_flows chain)"
proof -
  have "list_all table_inv (tables chain)" using inv by (simp add: chain_inv_def)
  from chain_delete_loop_spec [OF this k P, of flow_end dp] obtain ts where ts:
    "chain_delete_loop flow_end k port prio strict dp (tables chain) =
      Ok (foldl (\<lambda>d f. flow_end d f OFPRR_DELETE) dp (filter P (chain_flows chain)), ts,
          of_nat (length (filter P (chain_flows chain))))"
    "list_all table_inv ts" "map exact_only ts = map exact_only (tables chain)"
    "concat (map table_flows ts) = filter (\<lambda>f. \<not> P f) (chain_flows chain)"
    unfolding chain_flows_def by blast
  then show ?thesis
    using inv exact_only_butlast [OF ts(3)] by (simp add: chain_delete_def chain_inv_def chain_flows_def)
qed

lemma chain_delete_emerg:
  assumes inv: "chain_inv chain" and k: "desc_ok k prio" and P: "P = delete_sel k port prio strict"
  shows "\<exists>chain'. chain_delete flow_end dp chain k port prio strict True =
      Ok (foldl (\<lambda>d f. flow_end d f OFPRR_DELETE) dp (filter P (emerg_flows chain)), chain',
          of_nat (length (filter P (emerg_flows chain)))) \<and>
    chain_inv chain' \<and> tables chain' = tables chain \<and>
    emerg_flows chain' = filter (\<lambda>f. \<not> P f) (emerg_flows chain)"
proof -
  obtain t where t: "emerg_table chain = Some t" "table_inv t"
    using inv by (auto simp: chain_inv_def split: option.splits)
  from tab.delete_spec [OF t(2) k, of flow_end dp port strict] obtain t' where
    "table_delete flow_end dp t k port prio strict =
      Ok (foldl (\<lambda>d f. flow_end d f OFPRR_DELETE) dp (filter P (table_flows t)), t',
          of_nat (length (filter P (table_flows t))))"
    "table_inv t'" "table_flows t' = filter (\<lambda>f. \<not> P f) (table_flows t)"
    unfolding P by blast
  then show ?thesis
    using t inv by (simp add: chain_delete_def emerg_flows_def chain_inv_def)
qed

lemma table_timeout_kind: "table_timeout now t = (t', gone) \<Longrightarrow> exact_only t' = exact_only t"
  by (cases t) (auto simp: table_timeout_def map_prod_def split: prod.splits)

lemma chain_timeout_loop_spec:
  assumes "list_all table_inv ts" "chain_timeout_loop now ts = (ts', gone)"
  shows "list_all table_inv ts' \<and> map exact_only ts' = map exact_only ts \<and>
    concat (map table_flows ts') = filter (\<lambda>f. \<not> expired now f) (concat (map table_flows ts)) \<and>
    gone = map (\<lambda>f. fst (flow_timeout now f)) (filter (expired now) (concat (map table_flows ts)))"
  using assms
proof (induction ts arbitrary: ts' gone)
  case (Cons t ts)
  obtain t' g where t': "table_timeout now t = (t', g)" by fastforce
  obtain ts'' g' where ts'': "chain_timeout_loop now ts = (ts'', g')" by fastforce
  have "ts' = t' # ts''" "gone = g @ g'" using Cons.prems(2) t' ts'' by auto
  then show ?case
    using Cons.IH [OF _ ts''] Cons.prems(1) table_timeout_kind [OF t'] tab.timeout_spec [OF _ t'] by simp
qed simp

lemma chain_timeout_spec:
  assumes inv: "chain_inv chain" and t: "chain_timeout now chain = (chain', gone)"
  shows "chain_inv chain' \<and> emerg_table chain' = emerg_table chain \<and>
    chain_flows chain' = filter (\<lambda>f. \<not> expired now f) (chain_flows chain) \<and>
    gone = map (\<lambda>f. fst (flow_timeout now f)) (filter (expired now) (chain_flows chain))"
proof -
  obtain ts where ts: "chain_timeout_loop now (tables chain) = (ts, gone)" "chain' = chain\<lparr>tables := ts\<rparr>"
    using t by (auto simp: chain_timeout_def split: prod.splits)
  have "map exact_only ts = map exact_only (tables chain)"
    using chain_timeout_loop_spec [OF _ ts(1)] inv by (simp add: chain_inv_def)
  then show ?thesis
    using chain_timeout_loop_spec [OF _ ts(1)] inv ts(2) exact_only_butlast [of ts "tables chain"]
    by (simp add: chain_inv_def chain_flows_def)
qed

text \<open>Writing back the counters of an entry that a lookup has found.\<close>

lemma same_slot_best:
  assumes "same_slot f g" shows "key f = key g" "priority f = priority g"
  using assms by (simp_all add: same_slot_def)

lemma table_set_flow_kind: "exact_only (table_set_flow t r f) = exact_only t"
  by (cases t) auto

lemma chain_set_flow_working:
  assumes inv: "chain_inv chain" and k: "pad (kflow k) = (0, 0, 0)"
    and l: "chain_lookup chain k False = Ok (chain', Some r)" and f: "same_slot f (chain_flow_at chain' r)"
  shows "chain_inv (chain_set_flow chain' r f) \<and> emerg_table (chain_set_flow chain' r f) = emerg_table chain \<and>
    (\<exists>xs ys. chain_flows chain = xs @ chain_flow_at chain' r # ys \<and>
       chain_flows (chain_set_flow chain' r f) = xs @ f # ys)"
proof -
  obtain ts where ts: "chain_lookup_loop k 0 (tables chain) = (ts, Some r)" "chain' = chain\<lparr>tables := ts\<rparr>"
    using l by (auto simp: chain_lookup_def guardR_def split: if_splits prod.splits)
  have cnt: "list_all2 counted ts (tables chain)" by (rule chain_lookup_loop_counted [OF ts(1)])
  obtain j ref where j: "r = Working j ref" "j < length (tables chain)" "table_lookup (tables chain ! j) k = Some ref"
    using chain_lookup_loop_best [OF _ _ k ts(1)] inv by (auto simp: chain_inv_def)
  have cj: "counted (ts ! j) (tables chain ! j)" and lj: "j < length ts"
    using cnt j(2) by (simp_all add: list_all2_conv_all_nth)
  have invs: "list_all table_inv ts" "list_all exact_only (butlast ts)"
    using inv all_counted [OF cnt] by (simp_all add: chain_inv_def)
  then have tj: "table_inv (ts ! j)" using lj by (simp add: list_all_length)
  have lk: "table_lookup (ts ! j) k = Some ref" using j(3) counted_simps(5) [OF cj] by simp
  have slot: "same_slot f (table_flow_at (ts ! j) ref)" using f j(1) ts(2) by (simp add: chain_flow_at_def)
  obtain xs ys where xy: "table_inv (table_set_flow (ts ! j) ref f)"
    "table_flows (ts ! j) = xs @ table_flow_at (ts ! j) ref # ys"
    "table_flows (table_set_flow (ts ! j) ref f) = xs @ f # ys"
    using tab.set_flow [OF tj k lk slot] by blast
  let ?A = "concat (map table_flows (take j ts))" and ?B = "concat (map table_flows (drop (Suc j) ts))"
  have "concat (map table_flows ts) = (?A @ xs) @ table_flow_at (ts ! j) ref # (ys @ ?B)"
    by (subst id_take_nth_drop [OF lj]) (simp add: xy(2))
  moreover have "concat (map table_flows (ts[j := table_set_flow (ts ! j) ref f])) = (?A @ xs) @ f # (ys @ ?B)"
    by (simp add: upd_conv_take_nth_drop [OF lj] xy(3))
  moreover have "map exact_only (ts[j := table_set_flow (ts ! j) ref f]) = map exact_only ts"
    by (simp add: map_update table_set_flow_kind) (metis list_update_id map_update)
  moreover have "list_all table_inv (ts[j := table_set_flow (ts ! j) ref f])"
    using invs(1) xy(1) lj by (auto simp: list_all_length nth_list_update)
  moreover have "chain_set_flow chain' r f = chain\<lparr>tables := ts[j := table_set_flow (ts ! j) ref f]\<rparr>"
    "chain_flow_at chain' r = table_flow_at (ts ! j) ref"
    using ts(2) j(1) by (simp_all add: chain_set_flow_def chain_flow_at_def)
  ultimately have "chain_inv (chain_set_flow chain' r f)"
    "emerg_table (chain_set_flow chain' r f) = emerg_table chain"
    "chain_flows chain = (?A @ xs) @ chain_flow_at chain' r # (ys @ ?B)"
    "chain_flows (chain_set_flow chain' r f) = (?A @ xs) @ f # (ys @ ?B)"
    using inv invs exact_only_butlast [of "ts[j := table_set_flow (ts ! j) ref f]" ts] all_counted(1) [OF cnt]
    by (simp_all add: chain_inv_def chain_flows_def)
  then show ?thesis by blast
qed

section \<open>Creation\<close>

lemma table_hash_create_cases:
  "table_hash_create alloc p TABLE_HASH_MAX_FLOWS = Ok None \<or>
   (\<exists>th. table_hash_create alloc p TABLE_HASH_MAX_FLOWS = Ok (Some th) \<and> hash_inv th \<and> hash_flows th = [])"
  using table_hash_create_inv [of alloc p TABLE_HASH_MAX_FLOWS]
  by (auto simp: table_hash_create_def)

lemma table_hash2_create_cases:
  "table_hash2_create alloc p TABLE_HASH_MAX_FLOWS q TABLE_HASH_MAX_FLOWS = Ok None \<or>
   (\<exists>t. table_hash2_create alloc p TABLE_HASH_MAX_FLOWS q TABLE_HASH_MAX_FLOWS = Ok (Some t) \<and>
      hash2_inv t \<and> hash2_flows t = [])"
  using table_hash_create_cases [of alloc p] table_hash_create_cases [of alloc q]
  by (auto simp: table_hash2_create_def hash2_defs)

lemma chain_create_cases:
  "chain_create allocs = Ok None \<or> chain_create allocs = Fail Bad_access \<or>
   (\<exists>chain. chain_create allocs = Ok (Some chain) \<and> chain_inv chain \<and>
      chain_flows chain = [] \<and> emerg_flows chain = [])"
proof (cases "allocs 0 0")
  case True
  show ?thesis
    using table_hash2_create_cases [of "allocs 1" "0x1EDC6F41" "0x741B8CD7"]
      table_linear_create_inv [of "allocs 2" TABLE_LINEAR_MAX_FLOWS]
      table_linear_create_inv [of "allocs 3" TABLE_LINEAR_MAX_FLOWS] True
    by (cases "table_linear_create (allocs 2) TABLE_LINEAR_MAX_FLOWS";
        cases "table_linear_create (allocs 3) TABLE_LINEAR_MAX_FLOWS")
      (auto simp: chain_create_def add_table_def chain_destroy_def chain_inv_def chain_flows_def emerg_flows_def Let_def)
qed (simp add: chain_create_def)

end
