(* ===== verification/OF_Chain_Props.thy ===== *)
theory OF_Chain_Props
  imports OF_Chain
begin

unbundle bit_operations_syntax

text \<open>
  Properties of the flow tables and of the chain, with a small chain at which they are applied:
  one entry without wildcards in a double hash table of one bucket per subtable, one entry that
  matches everything in the linear table, and one entry in the emergency table.
\<close>

section \<open>A small chain\<close>

definition output_action :: "u16 \<Rightarrow> bytes" where
  "output_action port =
     le_bytes 2 (htons OFPAT_OUTPUT) @ le_bytes 2 (htons 8) @ le_bytes 2 (htons port) @ [0, 0]"

definition sample_match :: ofp_match where
  "sample_match = \<lparr>m_wildcards = 0, m_in_port = htons 1, m_dl_src = EA 2 0 0 0 0 1,
     m_dl_dst = EA 2 0 0 0 0 2, m_dl_vlan = 0xffff, m_dl_vlan_pcp = 0, m_dl_type = htons ETH_TYPE_IP,
     m_nw_tos = 0, m_nw_proto = IP_TYPE_TCP, m_nw_src = 0x0100000a, m_nw_dst = 0x0200000a,
     m_tp_src = htons 1000, m_tp_dst = htons 80\<rparr>"

definition sample_key :: sw_flow_key where
  "sample_key = flow_extract_match sample_match"

definition any_key :: sw_flow_key where
  "any_key = flow_extract_match (sample_match\<lparr>m_wildcards := htonl OFPFW_ALL\<rparr>)"

definition sample_flow :: "sw_flow_key \<Rightarrow> u16 \<Rightarrow> u16 \<Rightarrow> sw_flow" where
  "sample_flow k prio port = \<lparr>key = k, cookie = 0, priority = prio, idle_timeout = 10, hard_timeout = 0,
     used = 0, created = 0, packet_count = 0, byte_count = 0, reason = 0, send_flow_rem = 1,
     emerg_flow = 0, sf_acts = output_action port, serial = 0\<rparr>"

definition sample_hash :: "sw_flow option \<Rightarrow> sw_table_hash" where
  "sample_hash b = \<lparr>h_swt = zero_swt, crc32 = [], h_n_flows = (case b of None \<Rightarrow> 0 | Some _ \<Rightarrow> 1),
     bucket_mask = 0, buckets = [b]\<rparr>"

definition sample_linear :: "sw_flow list \<Rightarrow> sw_table_linear" where
  "sample_linear fs = \<lparr>l_swt = zero_swt, l_max_flows = 100, l_n_flows = of_nat (length fs),
     l_flows = enumerate 0 fs, iter_flows = rev [0..<length fs], next_serial = of_nat (length fs),
     next_slot = length fs\<rparr>"

definition sample_chain :: sw_chain where
  "sample_chain = \<lparr>tables =
       [Hash2_table \<lparr>h2_swt = zero_swt, subtable0 = sample_hash (Some (sample_flow sample_key 0xffff 2)),
                     subtable1 = sample_hash None\<rparr>,
        Linear_table (sample_linear [sample_flow any_key 10 3])],
     emerg_table = Some (Linear_table (sample_linear [sample_flow any_key 10 4]))\<rparr>"

lemma find_bucket_0 [simp]: "bucket_mask th = 0 \<Longrightarrow> find_bucket th k = 0"
  by (simp add: find_bucket_def)

lemma sample_key_ok [simp]: "key_ok sample_key" "key_ok any_key"
  by (simp_all add: sample_key_def any_key_def)

lemma sample_wildcards [simp]: "wildcards sample_key = 0" "wildcards any_key = OFPFW_ALL"
  "pad (kflow sample_key) = (0, 0, 0)"
  by code_simp+

lemma output_action_framed [simp]: "acts_framed (output_action port)"
proof -
  have "ld16 (output_action port) 2 = htons 8" "length (output_action port) = 8"
    by (simp_all add: output_action_def ld_append_ge ld_le_bytes del: le_bytes.simps)
  then show ?thesis by (subst acts_framed.simps) simp
qed

lemma sample_flow_simps [simp]:
  "key (sample_flow k prio port) = k" "priority (sample_flow k prio port) = prio"
  "sf_acts (sample_flow k prio port) = output_action port" "serial (sample_flow k prio port) = 0"
  by (simp_all add: sample_flow_def)

lemma any_key_masks: "nw_src_mask any_key = 0" "nw_dst_mask any_key = 0"
  by code_simp+

lemma any_key_matches: "flow_matches_1wild k any_key"
  by (simp add: match_defs any_key_masks)

lemma sample_entries [simp]: "entry_ok (sample_flow sample_key 0xffff port)" "entry_ok (sample_flow any_key prio port)"
  by (simp_all add: entry_ok_def)

lemma sample_hash_inv [simp]:
  "hash_inv (sample_hash None)" "hash_inv (sample_hash (Some (sample_flow sample_key 0xffff port)))"
  by (simp_all add: sample_hash_def hash_inv_def hash_flows_def hash_entry_ok_def)

lemma sample_linear_inv [simp]:
  "linear_inv (sample_linear [])" "linear_inv (sample_linear [sample_flow any_key prio port])"
  by (simp_all add: sample_linear_def linear_inv_def linear_flows_def)

lemma sample_chain_inv [simp]: "chain_inv sample_chain"
  by (simp add: chain_inv_def sample_chain_def hash2_inv_def)

lemma sample_chain_flows:
  "chain_flows sample_chain = [sample_flow sample_key 0xffff 2, sample_flow any_key 10 3]"
  "emerg_flows sample_chain = [sample_flow any_key 10 4]"
  by (simp_all add: chain_flows_def emerg_flows_def sample_chain_def hash2_flows_def hash_flows_def
      sample_hash_def linear_flows_def sample_linear_def)

section \<open>Lookup\<close>

text \<open>C1: A lookup in the working tables always returns and changes nothing but the counters. The
  entry it returns is one of the working entries, matches the packet and has the highest priority
  of all entries that match; when it returns no entry, no working entry matches.\<close>

theorem chain_lookup_best_match:
  assumes "chain_inv chain" "wildcards k = 0" "pad (kflow k) = (0, 0, 0)"
  shows "\<exists>chain' r. chain_lookup chain k False = Ok (chain', r) \<and> chain_inv chain' \<and>
    chain_flows chain' = chain_flows chain \<and> emerg_table chain' = emerg_table chain \<and>
    best_match (chain_flows chain) k (map_option (chain_flow_at chain') r)"
  by (rule chain_lookup_working [OF assms])

theorem chain_lookup_best_match_witness:
  "\<exists>chain' r. chain_lookup sample_chain sample_key False = Ok (chain', r) \<and>
    best_match (chain_flows sample_chain) sample_key (map_option (chain_flow_at chain') r)"
  using chain_lookup_best_match [of sample_chain sample_key] by auto

section \<open>Insertion\<close>

text \<open>C2: Inserting an entry into the working tables always returns. On success the entry is in the
  chain, at most an entry with the same match and priority is gone, and every packet the entry
  matches now finds an entry of at least its priority; otherwise the result is the error
  \<open>-ENOBUFS\<close> and the chain is unchanged. The emergency table is untouched.\<close>

theorem chain_insert_in_force:
  assumes "chain_inv chain" "entry_ok f"
  shows "\<exists>chain' e. chain_insert chain f False = Ok (chain', e) \<and> chain_inv chain' \<and>
    emerg_table chain' = emerg_table chain \<and>
    (e = - ENOBUFS \<and> chain' = chain \<or>
     e = 0 \<and> added (chain_flows chain) f (chain_flows chain') \<and>
     (\<forall>k. wildcards k = 0 \<and> pad (kflow k) = (0, 0, 0) \<and> flow_matches_1wild k (key f) \<longrightarrow>
        (\<exists>chain'' r. chain_lookup chain' k False = Ok (chain'', Some r) \<and>
           priority f \<le> priority (chain_flow_at chain'' r))))"
proof -
  obtain chain' e where ins: "chain_insert chain f False = Ok (chain', e)" "chain_inv chain'"
    "emerg_table chain' = emerg_table chain"
    "e = 0 \<and> added (chain_flows chain) f (chain_flows chain') \<or> e = - ENOBUFS \<and> chain' = chain"
    using chain_insert_working [OF assms] by blast
  have "\<exists>chain'' r. chain_lookup chain' k False = Ok (chain'', Some r) \<and>
      priority f \<le> priority (chain_flow_at chain'' r)"
    if add: "added (chain_flows chain) f (chain_flows chain')"
      and k: "wildcards k = 0" "pad (kflow k) = (0, 0, 0)" and m: "flow_matches_1wild k (key f)" for k
  proof -
    obtain chain'' r where l: "chain_lookup chain' k False = Ok (chain'', r)"
      "best_match (chain_flows chain') k (map_option (chain_flow_at chain'') r)"
      using chain_lookup_working [OF ins(2) k] by blast
    then show ?thesis using added_best [OF add l(2) m] by auto
  qed
  then have "e = - ENOBUFS \<and> chain' = chain \<or>
     e = 0 \<and> added (chain_flows chain) f (chain_flows chain') \<and>
     (\<forall>k. wildcards k = 0 \<and> pad (kflow k) = (0, 0, 0) \<and> flow_matches_1wild k (key f) \<longrightarrow>
        (\<exists>chain'' r. chain_lookup chain' k False = Ok (chain'', Some r) \<and>
           priority f \<le> priority (chain_flow_at chain'' r)))"
    using ins(4) by metis
  with ins(1-3) show ?thesis by blast
qed

theorem chain_insert_in_force_witness:
  "\<exists>chain' e. chain_insert sample_chain (sample_flow any_key 20 5) False = Ok (chain', e) \<and>
    chain_inv chain' \<and> (e = 0 \<or> e = - ENOBUFS)"
  using chain_insert_in_force [of sample_chain "sample_flow any_key 20 5"] by auto

section \<open>Deletion, modification and timeouts\<close>

text \<open>The entries an operation is about, by its emergency flag, and those it leaves alone.\<close>

definition flows_of :: "bool \<Rightarrow> sw_chain \<Rightarrow> sw_flow list" where
  "flows_of emerg chain = (if emerg then emerg_flows chain else chain_flows chain)"

text \<open>C3: A deletion always returns. It removes exactly the entries that the description selects,
  non-strictly or strictly, and that output to the given port, reports each of them once, in table
  order, with reason \<open>OFPRR_DELETE\<close>, and returns their number; the other side of the chain is
  unchanged.\<close>

theorem chain_delete_exact:
  fixes flow_end :: "'d flow_end"
  assumes "chain_inv chain" "desc_ok k prio"
  shows "\<exists>chain'. chain_delete flow_end dp chain k port prio strict emerg =
      Ok (foldl (\<lambda>d f. flow_end d f OFPRR_DELETE) dp
            (filter (delete_sel k port prio strict) (flows_of emerg chain)), chain',
          of_nat (length (filter (delete_sel k port prio strict) (flows_of emerg chain)))) \<and>
    chain_inv chain' \<and>
    flows_of emerg chain' = filter (\<lambda>f. \<not> delete_sel k port prio strict f) (flows_of emerg chain) \<and>
    flows_of (\<not> emerg) chain' = flows_of (\<not> emerg) chain"
proof (cases emerg)
  case True
  then show ?thesis
    using chain_delete_emerg [OF assms refl, of flow_end dp port strict]
    by (auto simp: flows_of_def chain_flows_def)
next
  case False
  then show ?thesis
    using chain_delete_working [OF assms refl, of flow_end dp port strict]
    by (auto simp: flows_of_def emerg_flows_def)
qed

theorem chain_delete_exact_witness:
  "\<exists>chain'. chain_delete (\<lambda>d f r. d @ [r]) [] sample_chain any_key (htons OFPP_NONE) 10 False False =
      Ok (foldl (\<lambda>d f. d @ [OFPRR_DELETE]) []
            (filter (delete_sel any_key (htons OFPP_NONE) 10 False) (flows_of False sample_chain)), chain',
          of_nat (length (filter (delete_sel any_key (htons OFPP_NONE) 10 False) (flows_of False sample_chain))))"
  using chain_delete_exact [of sample_chain any_key 10 "\<lambda>d f r. d @ [r]" "[]" "htons OFPP_NONE" False False]
  by (auto simp: desc_ok_def)

text \<open>C4: A modification always returns. Of exactly the entries that the description selects, each one
  for which memory for the new actions can be had gets them in place of its old ones, and one for
  which it cannot be had keeps its old ones without notice. Every other field and entry and the
  order stay, and so does the other side of the chain. The number returned is the number of
  selected entries, those that kept their actions included.\<close>

theorem chain_modify_exact:
  assumes "chain_inv chain" "desc_ok k prio" "acts_framed acts"
  shows "\<exists>chain'. chain_modify alloc chain k prio strict acts emerg =
      Ok (chain', of_nat (length (filter (modify_sel k prio strict) (flows_of emerg chain)))) \<and>
    chain_inv chain' \<and>
    flows_of emerg chain' =
      map (\<lambda>f. if modify_sel k prio strict f \<and> alloc f (length acts) then f\<lparr>sf_acts := acts\<rparr> else f)
        (flows_of emerg chain) \<and>
    flows_of (\<not> emerg) chain' = flows_of (\<not> emerg) chain"
proof -
  have upd: "modified alloc k prio strict acts fs =
      map (\<lambda>f. if modify_sel k prio strict f \<and> alloc f (length acts) then f\<lparr>sf_acts := acts\<rparr> else f) fs" for fs
    by (simp add: modified_def flow_replace_acts_def)
  show ?thesis
    using chain_modify_emerg [OF assms, of alloc strict] chain_modify_working [OF assms, of alloc strict]
    by (cases emerg) (auto simp: flows_of_def upd chain_flows_def emerg_flows_def)
qed

text \<open>At a chain of two entries, both selected, of which the allocator fails for the second.\<close>

theorem chain_modify_exact_witness:
  "\<exists>chain'. chain_modify (\<lambda>f _. priority f = 0xffff) sample_chain any_key 10 False (output_action 7) False = Ok (chain', 2) \<and>
    map sf_acts (chain_flows chain') = map (\<lambda>f. if priority f = 0xffff then output_action 7 else sf_acts f) (chain_flows sample_chain)"
proof -
  have "modify_sel any_key 10 False f" if "f \<in> set (chain_flows sample_chain)" for f
    using that by (auto simp: sample_chain_flows modify_sel_def flow_matches_desc_def any_key_matches)
  then show ?thesis
    using chain_modify_exact [of sample_chain any_key 10 "output_action 7" "\<lambda>f _. priority f = 0xffff" False False]
    by (auto simp: desc_ok_def flows_of_def sample_chain_flows(1) cong: map_cong)
qed

text \<open>When an entry has outlived its timeouts, in milliseconds and seconds as plain numbers.\<close>

definition idle_passed :: "u64 \<Rightarrow> sw_flow \<Rightarrow> bool" where
  "idle_passed now f \<longleftrightarrow> idle_timeout f \<noteq> 0 \<and> unat (used f) + 1000 * unat (idle_timeout f) < unat now"

definition hard_passed :: "u64 \<Rightarrow> sw_flow \<Rightarrow> bool" where
  "hard_passed now f \<longleftrightarrow> hard_timeout f \<noteq> 0 \<and> unat (created f) + 1000 * unat (hard_timeout f) < unat now"

lemma timeout_no_wrap:
  fixes t :: u64 and s :: u16
  assumes "unat t < 2 ^ 63"
  shows "t + ucast s * 1000 < now \<longleftrightarrow> unat t + 1000 * unat s < unat now"
proof -
  have s: "unat s < 65536" using unsigned_less [of s] by simp
  have u: "unat (ucast s * 1000 :: u64) = unat s * 1000"
    using s by (simp add: unat_mult_lem [THEN iffD1] unat_word_ariths take_bit_nat_eq_self unsigned_ucast_eq)
  have "unat (t + ucast s * 1000) = unat t + unat s * 1000"
    using assms s u by (simp add: unat_add_lem [THEN iffD1])
  then show ?thesis by (simp add: word_less_nat_alt mult.commute)
qed

lemma flow_timeout_passed:
  assumes "unat (used f) < 2 ^ 63" "unat (created f) < 2 ^ 63"
  shows "expired now f \<longleftrightarrow> idle_passed now f \<or> hard_passed now f"
    "expired now f \<Longrightarrow> fst (flow_timeout now f) =
      f\<lparr>reason := if idle_passed now f then OFPRR_IDLE_TIMEOUT else OFPRR_HARD_TIMEOUT\<rparr>"
  using timeout_no_wrap [OF assms(1), of "idle_timeout f" now] timeout_no_wrap [OF assms(2), of "hard_timeout f" now]
  by (auto simp: expired_def flow_timeout_def idle_passed_def hard_passed_def split: if_splits)

text \<open>C29: Timeout processing, with times of use and creation below \<open>2 ^ 63\<close> milliseconds, removes exactly the
  working entries that were last used more than their idle timeout ago or were created more than
  their hard timeout ago, where a timeout of zero never passes. It returns each of them once, in
  table order, with the reason recorded in it: the idle timeout when that one has passed, else the
  hard timeout. The emergency table is kept.\<close>

theorem chain_timeout_exact:
  assumes "chain_inv chain" "chain_timeout now chain = (chain', gone)"
    and "\<forall>f \<in> set (chain_flows chain). unat (used f) < 2 ^ 63 \<and> unat (created f) < 2 ^ 63"
  shows "chain_inv chain' \<and> emerg_table chain' = emerg_table chain \<and>
    chain_flows chain' = filter (\<lambda>f. \<not> (idle_passed now f \<or> hard_passed now f)) (chain_flows chain) \<and>
    gone = map (\<lambda>f. f\<lparr>reason := if idle_passed now f then OFPRR_IDLE_TIMEOUT else OFPRR_HARD_TIMEOUT\<rparr>)
      (filter (\<lambda>f. idle_passed now f \<or> hard_passed now f) (chain_flows chain))"
proof -
  have sel: "expired now f \<longleftrightarrow> idle_passed now f \<or> hard_passed now f" if "f \<in> set (chain_flows chain)" for f
    using flow_timeout_passed(1) assms(3) that by blast
  have "map (\<lambda>f. fst (flow_timeout now f)) (filter (expired now) (chain_flows chain)) =
      map (\<lambda>f. f\<lparr>reason := if idle_passed now f then OFPRR_IDLE_TIMEOUT else OFPRR_HARD_TIMEOUT\<rparr>)
        (filter (expired now) (chain_flows chain))"
    using flow_timeout_passed(2) assms(3) by (intro map_cong refl) auto
  then show ?thesis
    using chain_timeout_spec [OF assms(1,2)] sel by (auto cong: filter_cong)
qed

theorem chain_timeout_exact_witness:
  "chain_flows (fst (chain_timeout 10001 sample_chain)) = [] \<and>
   map reason (snd (chain_timeout 10001 sample_chain)) = [OFPRR_IDLE_TIMEOUT, OFPRR_IDLE_TIMEOUT] \<and>
   length (chain_flows (fst (chain_timeout 10000 sample_chain))) = 2"
proof -
  have "idle_passed 10001 (sample_flow k prio port)" "\<not> idle_passed 10000 (sample_flow k prio port)"
    "\<not> hard_passed 10000 (sample_flow k prio port)"
    "unat (used (sample_flow k prio port)) = 0" "unat (created (sample_flow k prio port)) = 0" for k prio port
    by (simp_all add: idle_passed_def hard_passed_def sample_flow_def)
  then show ?thesis
    using chain_timeout_exact [OF sample_chain_inv prod.collapse [symmetric], of 10001]
      chain_timeout_exact [OF sample_chain_inv prod.collapse [symmetric], of 10000]
    by (auto simp: sample_chain_flows)
qed

section \<open>Creation and duplicates\<close>

lemma table_hash_create_None:
  "table_hash_create alloc p TABLE_HASH_MAX_FLOWS = Ok None \<longleftrightarrow> \<not> (alloc 0 \<and> alloc 65536)"
  by (auto simp: table_hash_create_def simp del: replicate.simps)

lemma table_hash2_create_None:
  "table_hash2_create alloc p TABLE_HASH_MAX_FLOWS q TABLE_HASH_MAX_FLOWS = Ok None \<longleftrightarrow>
   \<not> (alloc 0 \<and> alloc 65536)"
  using table_hash_create_None [of alloc p] table_hash_create_None [of alloc q]
    table_hash_create_cases [of alloc p] table_hash_create_cases [of alloc q]
  by (auto simp: table_hash2_create_def)

text \<open>C30: Creating the chain succeeds, with empty tables that satisfy the invariant, when every
  allocation succeeds, and returns null when the chain itself cannot be allocated. When the chain
  is allocated but one of its tables is not, the clean-up calls through the null pointer to the
  emergency table.\<close>

theorem chain_create_outcomes:
  "case chain_create allocs of
     Ok None \<Rightarrow> \<not> allocs 0 0
   | Ok (Some chain) \<Rightarrow> allocs 0 0 \<and> (allocs 1 0 \<and> allocs 1 65536 \<and> allocs 2 0 \<and> allocs 3 0) \<and>
       chain_inv chain \<and> chain_flows chain = [] \<and> emerg_flows chain = []
   | Fail e \<Rightarrow> e = Bad_access \<and> allocs 0 0 \<and> \<not> (allocs 1 0 \<and> allocs 1 65536 \<and> allocs 2 0 \<and> allocs 3 0)"
proof -
  obtain h where h: "table_hash2_create (allocs 1) 0x1EDC6F41 TABLE_HASH_MAX_FLOWS
      0x741B8CD7 TABLE_HASH_MAX_FLOWS = Ok h" "h = None \<longleftrightarrow> \<not> (allocs 1 0 \<and> allocs 1 65536)"
    using table_hash2_create_cases [of "allocs 1" "0x1EDC6F41" "0x741B8CD7"]
      table_hash2_create_None [of "allocs 1" "0x1EDC6F41" "0x741B8CD7"] by auto
  have "case chain_create allocs of
      Ok None \<Rightarrow> \<not> allocs 0 0
    | Ok (Some chain) \<Rightarrow> allocs 0 0 \<and> (allocs 1 0 \<and> allocs 1 65536 \<and> allocs 2 0 \<and> allocs 3 0)
    | Fail e \<Rightarrow> e = Bad_access \<and> allocs 0 0 \<and> \<not> (allocs 1 0 \<and> allocs 1 65536 \<and> allocs 2 0 \<and> allocs 3 0)"
    using h(2) unfolding chain_create_def h(1)
    by (cases h) (auto simp: add_table_def chain_destroy_def table_linear_create_def Let_def)
  then show ?thesis using chain_create_cases [of allocs] by (elim disjE exE conjE) simp_all
qed

text \<open>C31: The double hash table can hold two entries for one key: when the key is in the second
  subtable and its bucket in the first one has become free, an insertion adds a second entry
  instead of replacing the first, although \<open>insert\<close> is to replace any duplicate.\<close>

theorem hash2_insert_duplicate:
  fixes t2 :: sw_table_hash2
  assumes "hash2_inv t2" "entry_ok f" "wildcards (key f) = 0"
    and "buckets (subtable0 t2) ! find_bucket (subtable0 t2) (key f) = None"
    and "g \<in> set (hash_flows (subtable1 t2))" "key g = key f"
  shows "\<exists>t2'. table_hash2_insert t2 f = (t2', True) \<and> f \<in> set (hash_flows (subtable0 t2')) \<and>
    g \<in> set (hash_flows (subtable1 t2')) \<and> length (hash2_flows t2') = length (hash2_flows t2) + 1"
proof -
  let ?th = "subtable0 t2" and ?i = "find_bucket (subtable0 t2) (key f)"
  have i: "?i < length (buckets ?th)"
    using assms(1) find_bucket_less by (simp add: hash2_inv_def)
  have "table_hash2_insert t2 f =
      (t2\<lparr>subtable0 := ?th\<lparr>h_n_flows := h_n_flows ?th + 1, buckets := (buckets ?th)[?i := Some f]\<rparr>\<rparr>, True)"
    using assms(3,4) by (simp add: table_hash2_insert_def table_hash_insert_def)
  then show ?thesis
    using assms(4,5) entries_split [OF i] by (simp add: hash2_flows_def hash_flows_def)
qed

theorem hash2_insert_duplicate_witness:
  "\<exists>t2'. table_hash2_insert \<lparr>h2_swt = zero_swt, subtable0 = sample_hash None,
       subtable1 = sample_hash (Some (sample_flow sample_key 0xffff 2))\<rparr> (sample_flow sample_key 0xffff 3) = (t2', True) \<and>
     length (hash2_flows t2') = 2"
proof -
  let ?g = "sample_flow sample_key 0xffff 2"
  have inv: "hash2_inv \<lparr>h2_swt = zero_swt, subtable0 = sample_hash None, subtable1 = sample_hash (Some ?g)\<rparr>"
    by (simp add: hash2_inv_def)
  show ?thesis
    using hash2_insert_duplicate [OF inv, of "sample_flow sample_key 0xffff 3" ?g]
    by (auto simp: hash2_flows_def hash_flows_def sample_hash_def numeral_2_eq_2)
qed

end
