(* ===== verification/OF_Csum.thy ===== *)
theory OF_Csum
  imports OF_Prelude
begin

unbundle bit_operations_syntax

text \<open>
  The Internet checksum of \<open>lib/csum.c\<close>: the running 32-bit sum, its folding into 16 bits and
  the incremental update of RFC 1624 that the packet-rewriting actions use. The lemmas relate
  each function to arithmetic modulo 65535 and say exactly when folding loses a carry.
\<close>

section \<open>lib/csum.c\<close>

definition csum_add16 :: "u32 \<Rightarrow> u16 \<Rightarrow> u32" where
  "csum_add16 partial new = partial + ucast new"

definition csum_add32 :: "u32 \<Rightarrow> u32 \<Rightarrow> u32" where
  "csum_add32 partial new = partial + drop_bit 16 new + (new AND 0xffff)"

fun csum_continue :: "u32 \<Rightarrow> bytes \<Rightarrow> u32" where
  "csum_continue partial [] = partial"
| "csum_continue partial [b] = partial + ucast b"
| "csum_continue partial (b0 # b1 # data) =
     csum_continue (csum_add16 partial (le_word [b0, b1])) data"

definition csum_finish :: "u32 \<Rightarrow> u16" where
  "csum_finish partial = ucast (NOT ((partial AND 0xffff) + drop_bit 16 partial))"

definition csum :: "bytes \<Rightarrow> u16" where
  "csum data = csum_finish (csum_continue 0 data)"

definition recalc_sum :: "u16 \<Rightarrow> u16 \<Rightarrow> u16 \<Rightarrow> u32" where
  "recalc_sum old_csum old_u16 new_u16 =
     ucast (NOT old_csum) + ucast (NOT old_u16) + ucast new_u16"

definition recalc_csum16 :: "u16 \<Rightarrow> u16 \<Rightarrow> u16 \<Rightarrow> u16" where
  "recalc_csum16 old_csum old_u16 new_u16 =
     (let sum = recalc_sum old_csum old_u16 new_u16;
          hc_prime_complement = (ucast (sum + drop_bit 16 sum) :: u16)
      in NOT hc_prime_complement)"

definition recalc_csum32 :: "u16 \<Rightarrow> u32 \<Rightarrow> u32 \<Rightarrow> u16" where
  "recalc_csum32 old_csum old_u32 new_u32 =
     recalc_csum16 (recalc_csum16 old_csum (ucast old_u32) (ucast new_u32))
       (ucast (drop_bit 16 old_u32)) (ucast (drop_bit 16 new_u32))"

section \<open>Ones-complement arithmetic\<close>

text \<open>
  \<open>wsum\<close> is the unbounded sum of the 16-bit words of a byte string, as the code reads them.
  A header that carries its checksum is valid when its sum is a multiple of 65535.
\<close>

fun wsum :: "bytes \<Rightarrow> nat" where
  "wsum [] = 0"
| "wsum [b] = unat b"
| "wsum (b0 # b1 # data) = unat (le_word [b0, b1] :: u16) + wsum data"

definition csum_valid :: "bytes \<Rightarrow> bool" where
  "csum_valid header \<longleftrightarrow> wsum header mod 65535 = 0"

lemma mod_add_right_cancel:
  "((a::nat) + c) mod m = (b + c) mod m \<longleftrightarrow> a mod m = b mod m"
proof
  assume "(a + c) mod m = (b + c) mod m"
  then have "int ((a + c) mod m) = int ((b + c) mod m)" by simp
  then have "(int a + int c) mod int m = (int b + int c) mod int m"
    by (simp add: zmod_int)
  then have "(int a + int c - int c) mod int m = (int b + int c - int c) mod int m"
    by (metis mod_diff_left_eq)
  then show "a mod m = b mod m" by (simp flip: zmod_int)
qed (metis mod_add_left_eq)

lemma unat_u16_bound: "unat (x :: u16) \<le> 65535"
proof -
  have "unat x < 2 ^ LENGTH(16)" by (rule unsigned_less)
  then show ?thesis by simp
qed

lemma unat_NOT_u16: "unat (NOT x :: u16) = 65535 - unat x"
proof -
  have "NOT x = - 1 - x" by (simp add: not_eq_complement)
  moreover have "unat (- 1 - x) = unat (- 1 :: u16) - unat x"
    by (rule unat_sub) simp
  ultimately show ?thesis by (simp add: unsigned_minus_1_eq_mask mask_eq_exp_minus_1)
qed

lemma unat_u32_sum:
  "unat (x :: u32) + unat y < 2 ^ 32 \<Longrightarrow> unat (x + y) = unat x + unat y"
  by (simp add: unat_word_ariths)

lemma unat_ucast_u32 [simp]: "unat (ucast (x :: u16) :: u32) = unat x"
  using unat_u16_bound [of x] by (simp add: unsigned_ucast_eq take_bit_nat_eq_self)

lemma unat_ucast_u16: "unat (ucast (x :: u32) :: u16) = unat x mod 65536"
  by (simp add: unsigned_ucast_eq take_bit_eq_mod)

lemma unat_drop16: "unat (drop_bit 16 (x :: u32)) = unat x div 65536"
  by (simp only: unat_drop_bit_eq) (simp add: drop_bit_eq_div)

lemma unat_recalc_sum:
  "unat (recalc_sum c o16 n16) = (65535 - unat c) + (65535 - unat o16) + unat n16"
proof -
  let ?a = "ucast (NOT c) :: u32" and ?b = "ucast (NOT o16) :: u32" and ?n = "ucast n16 :: u32"
  have b: "unat ?a \<le> 65535" "unat ?b \<le> 65535" "unat ?n \<le> 65535"
    by (simp_all add: unat_u16_bound)
  then have "unat (?a + ?b) = unat ?a + unat ?b" by (intro unat_u32_sum) simp
  moreover from this b have "unat (?a + ?b + ?n) = unat (?a + ?b) + unat ?n"
    by (intro unat_u32_sum) simp
  ultimately show ?thesis by (simp add: recalc_sum_def unat_NOT_u16)
qed

lemma unat_recalc_csum16:
  "unat (recalc_csum16 c o16 n16) =
     65535 - (let s = unat (recalc_sum c o16 n16) in (s + s div 65536) mod 65536)"
proof -
  let ?s = "recalc_sum c o16 n16"
  have "unat ?s \<le> 3 * 65535"
    using unat_u16_bound [of n16] by (simp add: unat_recalc_sum)
  then have "unat (?s + drop_bit 16 ?s) = unat ?s + unat ?s div 65536"
    by (subst unat_u32_sum) (auto simp: unat_drop16)
  then show ?thesis
    by (simp add: recalc_csum16_def Let_def unat_NOT_u16 unat_ucast_u16)
qed

text \<open>Folding once keeps the value modulo 65535 exactly when the fold does not carry again.\<close>

lemma fold_once:
  fixes s :: nat
  assumes "s < 3 * 65536"
  shows "(s + s div 65536) mod 65536 mod 65535 = s mod 65535 \<longleftrightarrow>
         s mod 65536 + s div 65536 < 65536"
proof -
  define q r where "q = s div 65536" and "r = s mod 65536"
  have s: "s = q * 65536 + r" "r < 65536" "q < 3"
    using assms by (auto simp: q_def r_def)
  have "s = (q + r) + q * 65535" using s(1) by simp
  then have m: "s mod 65535 = (q + r) mod 65535" by (simp only: mod_mult_self1)
  have "s + q = (r + q) + q * 65536" using s(1) by linarith
  then have f: "(s + q) mod 65536 = (r + q) mod 65536" by (simp only: mod_mult_self1)
  show ?thesis
  proof (cases "r + q < 65536")
    case True
    then show ?thesis
      unfolding q_def [symmetric] r_def [symmetric] f m by (simp add: add.commute)
  next
    case False
    then have "(r + q) mod 65536 = r + q - 65536" "r + q - 65536 < 2"
      "(q + r) mod 65535 = r + q - 65535"
      using s by (auto simp: mod_if)
    with False show ?thesis
      unfolding q_def [symmetric] r_def [symmetric] f m by auto
  qed
qed

lemma fold_carry:
  fixes s :: nat
  assumes "s \<le> 3 * 65535"
  shows "s mod 65536 + s div 65536 < 65536 \<longleftrightarrow> s \<noteq> 0x1ffff"
proof -
  define q r where "q = s div 65536" and "r = s mod 65536"
  have s: "s = q * 65536 + r" "r < 65536"
    by (auto simp: q_def r_def)
  then consider "q = 0" | "q = 1" | "q = 2" using assms by linarith
  then show ?thesis
    unfolding q_def [symmetric] r_def [symmetric] using s assms by cases auto
qed

text \<open>
  The incremental update of one 16-bit field is right modulo 65535 if and only if the
  intermediate sum is not \<open>0x1ffff\<close>: that is the one value whose single fold carries again.
\<close>

lemma recalc_csum16_congruence:
  "(65535 - unat (recalc_csum16 c o16 n16) + unat o16) mod 65535 =
     (65535 - unat c + unat n16) mod 65535
   \<longleftrightarrow> unat (recalc_sum c o16 n16) \<noteq> 0x1ffff"
proof -
  define s where "s = unat (recalc_sum c o16 n16)"
  define h where "h = (s + s div 65536) mod 65536"
  have s: "s = (65535 - unat c) + (65535 - unat o16) + unat n16"
    by (simp add: s_def unat_recalc_sum)
  have le: "unat c \<le> 65535" "unat o16 \<le> 65535" "unat n16 \<le> 65535"
    by (simp_all add: unat_u16_bound)
  have r: "65535 - unat (recalc_csum16 c o16 n16) = h"
    by (simp add: unat_recalc_csum16 Let_def s_def h_def)
  have "s + unat o16 = 65535 + (65535 - unat c + unat n16)"
    using s le by linarith
  then have t: "(65535 - unat c + unat n16) mod 65535 = (s + unat o16) mod 65535"
    by simp
  have "(h + unat o16) mod 65535 = (s + unat o16) mod 65535 \<longleftrightarrow> h mod 65535 = s mod 65535"
    by (rule mod_add_right_cancel)
  moreover have "h mod 65535 = s mod 65535 \<longleftrightarrow> s mod 65536 + s div 65536 < 65536"
    unfolding h_def using s le by (intro fold_once) linarith
  moreover have "s mod 65536 + s div 65536 < 65536 \<longleftrightarrow> s \<noteq> 0x1ffff"
    using s le by (intro fold_carry) linarith
  ultimately show ?thesis
    by (simp add: r t s_def)
qed

section \<open>Rewriting a field of a checksummed header\<close>

lemma wsum_append: "even (length xs) \<Longrightarrow> wsum (xs @ ys) = wsum xs + wsum ys"
  by (induction xs rule: wsum.induct) auto

lemma even_split:
  assumes "even i" and "i + 2 \<le> length m"
  obtains xs b0 b1 ys where "m = xs @ b0 # b1 # ys" and "length xs = i"
proof -
  have "drop i m = m ! i # m ! Suc i # drop (i + 2) m"
    using assms(2) by (simp add: Cons_nth_drop_Suc Suc_le_eq)
  then have "m = take i m @ m ! i # m ! Suc i # drop (i + 2) m"
    by (metis append_take_drop_id)
  then show ?thesis using that assms(2) by (metis length_take min.absorb2 le_add1 le_trans)
qed

lemma wsum_st16:
  assumes "even i" and "i + 2 \<le> length m"
  shows "wsum (st16 m i x) + unat (ld16 m i) = wsum m + unat x"
proof -
  obtain xs b0 b1 ys where m: "m = xs @ b0 # b1 # ys" and i: "length xs = i"
    using even_split [OF assms] .
  have "st16 m i x = xs @ le_bytes 2 x @ ys"
    using i by (simp add: st16_def overwrite_def m del: le_bytes.simps)
  moreover obtain c0 c1 where c: "le_bytes 2 x = [c0, c1]"
    by (simp add: numeral_2_eq_2)
  moreover have "le_word [c0, c1] = x"
    using le_word_full [of 2 x] c by simp
  moreover have "ld16 m i = le_word [b0, b1]"
    using i by (simp add: ld16_def m)
  ultimately show ?thesis
    using assms(1) i by (simp add: m wsum_append del: le_word.simps)
qed

text \<open>
  Changing one aligned field and updating the checksum field with \<open>recalc_csum16\<close> keeps a
  valid header valid, unless the intermediate sum is \<open>0x1ffff\<close>.
\<close>

lemma csum_valid_recalc16:
  assumes "even ci" "even fi" "ci \<noteq> fi" "ci + 2 \<le> length m" "fi + 2 \<le> length m"
    and valid: "csum_valid m"
    and carry: "unat (recalc_sum (ld16 m ci) (ld16 m fi) n) \<noteq> 0x1ffff"
  shows "csum_valid (st16 (st16 m ci (recalc_csum16 (ld16 m ci) (ld16 m fi) n)) fi n)"
proof -
  let ?c = "ld16 m ci" and ?o = "ld16 m fi"
  let ?c' = "recalc_csum16 ?c ?o n"
  let ?m1 = "st16 m ci ?c'"
  have disj: "fi + 2 \<le> ci \<or> ci + 2 \<le> fi"
    using assms(1-3) by presburger
  have o1: "ld16 ?m1 fi = ?o"
    using overwrite_other [of ci "le_bytes 2 ?c'" m fi 2] disj assms(4)
    by (simp add: ld16_def st16_def del: le_bytes.simps)
  have w1: "wsum ?m1 + unat ?c = wsum m + unat ?c'"
    by (rule wsum_st16) (use assms in auto)
  have w2: "wsum (st16 ?m1 fi n) + unat ?o = wsum ?m1 + unat n"
    using wsum_st16 [of fi ?m1 n] assms o1 by simp
  have le: "unat ?c \<le> 65535" "unat ?c' \<le> 65535" by (rule unat_u16_bound)+
  have "(65535 - unat ?c' + unat ?o) mod 65535 = (65535 - unat ?c + unat n) mod 65535"
    using carry by (simp add: recalc_csum16_congruence)
  then have cong: "(65535 - unat ?c' + unat ?o + (unat ?c + unat ?c')) mod 65535 =
      (65535 - unat ?c + unat n + (unat ?c + unat ?c')) mod 65535"
    by (simp only: mod_add_right_cancel)
  have "65535 - unat ?c' + unat ?o + (unat ?c + unat ?c') = (unat ?o + unat ?c) + 1 * 65535"
    "65535 - unat ?c + unat n + (unat ?c + unat ?c') = (unat n + unat ?c') + 1 * 65535"
    using le by linarith+
  with cong have "(unat ?o + unat ?c) mod 65535 = (unat n + unat ?c') mod 65535"
    by (simp only: mod_mult_self1)
  moreover have "wsum (st16 ?m1 fi n) + (unat ?o + unat ?c) = wsum m + (unat n + unat ?c')"
    using w1 w2 by linarith
  ultimately have "wsum (st16 ?m1 fi n) mod 65535 = wsum m mod 65535"
    by (metis mod_add_right_cancel mod_add_right_eq)
  with valid show ?thesis by (simp add: csum_valid_def)
qed

section \<open>The checksum of a whole byte string\<close>

lemma unat_csum_continue:
  "unat p + wsum data < 2 ^ 32 \<Longrightarrow> unat (csum_continue p data) = unat p + wsum data"
proof (induction p data rule: csum_continue.induct)
  case (1 p)
  then show ?case by simp
next
  case (2 p b)
  have "unat b < 2 ^ LENGTH(8)" by (rule unsigned_less)
  then have "unat (ucast b :: u32) = unat b"
    by (simp add: unsigned_ucast_eq take_bit_nat_eq_self)
  with 2 show ?case by (simp add: unat_u32_sum)
next
  case (3 p b0 b1 data)
  let ?w = "le_word [b0, b1] :: u16"
  from 3(2) have "unat (csum_add16 p ?w) = unat p + unat ?w"
    unfolding csum_add16_def by (subst unat_u32_sum) (simp_all del: le_word.simps)
  with 3 show ?case by (simp del: le_word.simps)
qed

lemma unat_and_ffff: "unat ((x :: u32) AND 0xffff) = unat x mod 65536"
proof -
  have "x AND 0xffff = take_bit 16 x"
    by (simp add: take_bit_eq_mask mask_eq_exp_minus_1)
  then show ?thesis
    by (simp only: unsigned_take_bit_eq) (simp add: take_bit_eq_mod)
qed

lemma fold_u32:
  fixes s :: nat
  assumes "s < 2 ^ 32"
  shows "(s mod 65536 + s div 65536) mod 65536 mod 65535 = s mod 65535 \<longleftrightarrow>
         s mod 65536 + s div 65536 < 65536"
proof -
  define q r where "q = s div 65536" and "r = s mod 65536"
  have s: "s = q * 65536 + r" "r < 65536" "q < 65536"
    using assms by (auto simp: q_def r_def)
  have "s = (r + q) + q * 65535" using s(1) by simp
  then have m: "s mod 65535 = (r + q) mod 65535" by (simp only: mod_mult_self1)
  show ?thesis
  proof (cases "r + q < 65536")
    case True
    then show ?thesis
      unfolding q_def [symmetric] r_def [symmetric] m by simp
  next
    case False
    then have "(r + q) mod 65536 = r + q - 65536" "r + q - 65536 < 65535"
      using s by (auto simp: mod_if)
    moreover have "(r + q) mod 65535 = (if r + q = 131070 then 0 else r + q - 65535)"
      using False s by (auto simp: mod_if)
    ultimately show ?thesis
      using False unfolding q_def [symmetric] r_def [symmetric] m by auto
  qed
qed

lemma unat_csum_finish:
  "unat (csum_finish p) = 65535 - (unat p mod 65536 + unat p div 65536) mod 65536"
proof -
  let ?s = "(p AND 0xffff) + drop_bit 16 p"
  have "unat p < 2 ^ LENGTH(32)" by (rule unsigned_less)
  then have "unat p div 65536 < 65536" by simp
  then have "unat ?s = unat p mod 65536 + unat p div 65536"
    by (subst unat_u32_sum) (auto simp: unat_and_ffff unat_drop16)
  moreover have "csum_finish p = NOT (ucast ?s :: u16)"
    unfolding csum_finish_def by (rule bit_word_eqI) (auto simp: bit_simps)
  ultimately show ?thesis by (simp add: unat_NOT_u16 unat_ucast_u16)
qed

end
