(* ===== verification/OF_Act.thy ===== *)
theory OF_Act
  imports OF_Switch_Flow OF_Csum
begin

unbundle bit_operations_syntax

text \<open>
  Actions, \<open>udatapath/dp_act.c\<close>: validation of an action block, the set-field actions on a packet
  and its key, and the execution of a block. What an output does is left to the datapath: the
  execution is parametrised by it.
\<close>

section \<open>Access to headers\<close>

text \<open>The \<open>n\<close> bytes at offset \<open>off\<close> of the header that \<open>p\<close> points to, as an index into the data.\<close>

definition field_at :: "ofpbuf \<Rightarrow> nat option \<Rightarrow> nat \<Rightarrow> nat \<Rightarrow> nat result" where
  "field_at b p off n = deref b (map_option (\<lambda>q. q + off) p) n"

text \<open>Reading the first \<open>n\<close> bytes of an action.\<close>

definition act_has :: "bytes \<Rightarrow> nat \<Rightarrow> 'a result \<Rightarrow> 'a result" where
  "act_has ah n m = guardR (n \<le> length ah) Bad_access m"

section \<open>Set-field actions\<close>

definition tci_key :: "sw_flow_key \<Rightarrow> u16 \<Rightarrow> sw_flow_key" where
  "tci_key k veth_tci =
     k\<lparr>kflow := (kflow k)\<lparr>dl_vlan := veth_tci AND htons VLAN_VID_MASK,
                          dl_vlan_pcp := ucast (drop_bit VLAN_PCP_SHIFT (ntohs veth_tci) AND VLAN_PCP_BITMASK)\<rparr>\<rparr>"

definition modify_vlan_tci ::
  "ofpbuf \<Rightarrow> sw_flow_key \<Rightarrow> u16 \<Rightarrow> u16 \<Rightarrow> (ofpbuf \<times> sw_flow_key) result" where
  "modify_vlan_tci buffer k tci mask_bits =
     (if dl_vlan (kflow k) \<noteq> htons OFP_VLAN_NONE then
        bindR (field_at buffer (l2 buffer) 14 2)
          (\<lambda>i. let veth_tci = (ld16 (data buffer) i AND NOT (htons mask_bits)) OR htons tci
                in Ok (buffer\<lparr>data := st16 (data buffer) i veth_tci\<rparr>, tci_key k veth_tci))
      else
        bindR (field_at buffer (l2 buffer) 0 ETH_HEADER_LEN)
          (\<lambda>i. let tmp = take 12 (drop i (data buffer)) @ le_bytes 2 (htons ETH_TYPE_VLAN) @
                          le_bytes 2 (htons tci) @ le_bytes 2 (ld16 (data buffer) (i + 12))
                in bindR (ofpbuf_push_uninit buffer VLAN_HEADER_LEN)
                     (\<lambda>b. Ok (b\<lparr>data := overwrite (data b) 0 tmp,
                                 l2 := map_option (\<lambda>q. q - VLAN_HEADER_LEN) (l2 b)\<rparr>,
                              tci_key k (htons tci)))))"

definition vlan_pull_tag :: "ofpbuf \<Rightarrow> ofpbuf result" where
  "vlan_pull_tag buffer =
     bindR (field_at buffer (l2 buffer) 12 2)
       (\<lambda>i. if ld16 (data buffer) i = htons ETH_TYPE_VLAN then
               bindR (field_at buffer (l2 buffer) 0 VLAN_ETH_HEADER_LEN)
                 (\<lambda>j. let tmp = take 12 (drop j (data buffer)) @ le_bytes 2 (ld16 (data buffer) (j + 16))
                       in Ok (buffer\<lparr>headroom := headroom buffer + VLAN_HEADER_LEN,
                                     data := overwrite (drop VLAN_HEADER_LEN (data buffer)) 0 tmp,
                                     l2 := map_option (\<lambda>q. q + VLAN_HEADER_LEN) (l2 buffer)\<rparr>))
             else Ok buffer)"

definition set_vlan_vid :: "ofpbuf \<Rightarrow> sw_flow_key \<Rightarrow> bytes \<Rightarrow> (ofpbuf \<times> sw_flow_key) result" where
  "set_vlan_vid buffer k ah =
     act_has ah 6 (modify_vlan_tci buffer k (ntohs (ld16 ah 4)) VLAN_VID_MASK)"

definition set_vlan_pcp :: "ofpbuf \<Rightarrow> sw_flow_key \<Rightarrow> bytes \<Rightarrow> (ofpbuf \<times> sw_flow_key) result" where
  "set_vlan_pcp buffer k ah =
     act_has ah 5 (modify_vlan_tci buffer k (push_bit 13 (ucast (ld8 ah 4))) VLAN_PCP_MASK)"

definition strip_vlan :: "ofpbuf \<Rightarrow> sw_flow_key \<Rightarrow> bytes \<Rightarrow> (ofpbuf \<times> sw_flow_key) result" where
  "strip_vlan buffer k ah =
     bindR (vlan_pull_tag buffer)
       (\<lambda>b. Ok (b, k\<lparr>kflow := (kflow k)\<lparr>dl_vlan := htons OFP_VLAN_NONE\<rparr>\<rparr>))"

definition set_dl_addr :: "ofpbuf \<Rightarrow> sw_flow_key \<Rightarrow> bytes \<Rightarrow> (ofpbuf \<times> sw_flow_key) result" where
  "set_dl_addr buffer k ah =
     act_has ah 10
       (bindR (field_at buffer (l2 buffer) (if ld16 ah 0 = htons OFPAT_SET_DL_SRC then 6 else 0) 6)
          (\<lambda>i. Ok (buffer\<lparr>data := overwrite (data buffer) i (take 6 (drop 4 ah))\<rparr>, k)))"

text \<open>Offsets of the fields that the network and transport actions touch.\<close>

abbreviation (input) IP_CSUM_OFF :: nat where "IP_CSUM_OFF \<equiv> 10"
abbreviation (input) TCP_CSUM_OFF :: nat where "TCP_CSUM_OFF \<equiv> 16"
abbreviation (input) UDP_CSUM_OFF :: nat where "UDP_CSUM_OFF \<equiv> 6"

definition nw_field_off :: "bytes \<Rightarrow> nat" where
  "nw_field_off ah = (if ld16 ah 0 = htons OFPAT_SET_NW_SRC then 12 else 16)"

definition tp_field_off :: "bytes \<Rightarrow> nat" where
  "tp_field_off ah = (if ld16 ah 0 = htons OFPAT_SET_TP_SRC then 0 else 2)"

text \<open>The transport checksum covers the addresses through the pseudo-header.\<close>

definition set_nw_l4_csum :: "ofpbuf \<Rightarrow> sw_flow_key \<Rightarrow> nat \<Rightarrow> u32 \<Rightarrow> ofpbuf result" where
  "set_nw_l4_csum buffer k off new =
     (if nw_proto (kflow k) = IP_TYPE_TCP then
        bindR (field_at buffer (l4 buffer) TCP_CSUM_OFF 2)
          (\<lambda>c. bindR (field_at buffer (l3 buffer) off 4)
             (\<lambda>f. let d = data buffer
                   in Ok (buffer\<lparr>data := st16 d c (recalc_csum32 (ld16 d c) (ld32 d f) new)\<rparr>)))
      else if nw_proto (kflow k) = IP_TYPE_UDP then
        bindR (field_at buffer (l4 buffer) UDP_CSUM_OFF 2)
          (\<lambda>c. let d = data buffer
                in if ld16 d c \<noteq> 0 then
                     bindR (field_at buffer (l3 buffer) off 4)
                       (\<lambda>f. let s = recalc_csum32 (ld16 d c) (ld32 d f) new
                             in Ok (buffer\<lparr>data := st16 d c (if s = 0 then 0xffff else s)\<rparr>))
                   else Ok buffer)
      else Ok buffer)"

definition set_nw_addr :: "ofpbuf \<Rightarrow> sw_flow_key \<Rightarrow> bytes \<Rightarrow> (ofpbuf \<times> sw_flow_key) result" where
  "set_nw_addr buffer k ah =
     act_has ah 8
       (if ntohs (dl_type (kflow k)) = ETH_TYPE_IP then
          let new = ld32 ah 4; off = nw_field_off ah
          in bindR (set_nw_l4_csum buffer k off new)
               (\<lambda>b. bindR (field_at b (l3 b) IP_CSUM_OFF 2)
                  (\<lambda>c. bindR (field_at b (l3 b) off 4)
                     (\<lambda>f. let d = st16 (data b) c (recalc_csum32 (ld16 (data b) c) (ld32 (data b) f) new)
                           in Ok (b\<lparr>data := st32 d f new\<rparr>, k))))
        else Ok (buffer, k))"

definition set_nw_tos :: "ofpbuf \<Rightarrow> sw_flow_key \<Rightarrow> bytes \<Rightarrow> (ofpbuf \<times> sw_flow_key) result" where
  "set_nw_tos buffer k ah =
     act_has ah 5
       (if ntohs (dl_type (kflow k)) = ETH_TYPE_IP then
          bindR (field_at buffer (l3 buffer) 1 1)
            (\<lambda>f. let d = data buffer; old = ld8 d f; new = (ld8 ah 4 AND 0xfc) OR (old AND 0x03)
                  in bindR (field_at buffer (l3 buffer) IP_CSUM_OFF 2)
                       (\<lambda>c. let d = st16 d c (recalc_csum32 (ld16 d c) (ucast (htons (ucast old)))
                                                (ucast (htons (ucast new))))
                             in Ok (buffer\<lparr>data := st8 d f new\<rparr>, k)))
        else Ok (buffer, k))"

definition set_tp_field :: "ofpbuf \<Rightarrow> nat \<Rightarrow> nat \<Rightarrow> u16 \<Rightarrow> ofpbuf result" where
  "set_tp_field buffer csum_off off new =
     bindR (field_at buffer (l4 buffer) csum_off 2)
       (\<lambda>c. bindR (field_at buffer (l4 buffer) off 2)
          (\<lambda>f. let d = st16 (data buffer) c (recalc_csum16 (ld16 (data buffer) c) (ld16 (data buffer) f) new)
                in Ok (buffer\<lparr>data := st16 d f new\<rparr>)))"

definition set_tp_port :: "ofpbuf \<Rightarrow> sw_flow_key \<Rightarrow> bytes \<Rightarrow> (ofpbuf \<times> sw_flow_key) result" where
  "set_tp_port buffer k ah =
     act_has ah 6
       (if ntohs (dl_type (kflow k)) = ETH_TYPE_IP then
          let new = ld16 ah 4; off = tp_field_off ah
          in if nw_proto (kflow k) = IP_TYPE_TCP then
               bindR (set_tp_field buffer TCP_CSUM_OFF off new) (\<lambda>b. Ok (b, k))
             else if nw_proto (kflow k) = IP_TYPE_UDP then
               bindR (set_tp_field buffer UDP_CSUM_OFF off new) (\<lambda>b. Ok (b, k))
             else Ok (buffer, k)
        else Ok (buffer, k))"

section \<open>The action table and validation\<close>

abbreviation (input) ACT_VALIDATION_OK :: u16 where "ACT_VALIDATION_OK \<equiv> 0xffff"
abbreviation (input) N_OF_ACTIONS :: u16 where "N_OF_ACTIONS \<equiv> 12"

text \<open>\<open>of_actions[type]\<close>: the size, which is both the least and the greatest one allowed.\<close>

definition of_action_size :: "u16 \<Rightarrow> nat" where
  "of_action_size type =
     (if type = OFPAT_ENQUEUE \<or> type = OFPAT_SET_DL_SRC \<or> type = OFPAT_SET_DL_DST then 16 else 8)"

definition validate_output :: "sw_flow_key \<Rightarrow> bytes \<Rightarrow> u16" where
  "validate_output k ah =
     (let port = ld16 ah 4
      in if port = htons OFPP_NONE \<or> (\<not> wild (wildcards k) OFPFW_IN_PORT \<and> port = in_port (kflow k))
         then OFPBAC_BAD_OUT_PORT else ACT_VALIDATION_OK)"

definition validate_queue :: "bytes \<Rightarrow> u16" where
  "validate_queue ah =
     (let port = ntohs (ld16 ah 4)
      in if port > OFPP_MAX \<and> port \<noteq> OFPP_IN_PORT then OFPBAC_BAD_OUT_PORT else ACT_VALIDATION_OK)"

definition validate_ofpat :: "sw_flow_key \<Rightarrow> bytes \<Rightarrow> u16 \<Rightarrow> nat \<Rightarrow> u16" where
  "validate_ofpat k ah type len =
     (if len < of_action_size type \<or> len > of_action_size type then OFPBAC_BAD_LEN
      else if type = OFPAT_OUTPUT then validate_output k ah
      else if type = OFPAT_ENQUEUE then validate_queue ah
      else ACT_VALIDATION_OK)"

definition validate_vendor :: "bytes \<Rightarrow> nat \<Rightarrow> u16" where
  "validate_vendor ah len = (if len < 8 then OFPBAC_BAD_LEN else OFPBAC_BAD_VENDOR)"

definition validate_act :: "sw_flow_key \<Rightarrow> bytes \<Rightarrow> u16 \<Rightarrow> nat \<Rightarrow> u16" where
  "validate_act k ah type len =
     (if type < N_OF_ACTIONS then validate_ofpat k ah type len
      else if type = OFPAT_VENDOR then validate_vendor ah len
      else OFPBAC_BAD_TYPE)"

lemma validate_act_len: "validate_act k ah type len = ACT_VALIDATION_OK \<Longrightarrow> 8 \<le> len"
  by (auto simp: validate_act_def validate_ofpat_def validate_vendor_def of_action_size_def
      split: if_splits)

text \<open>The loop of \<open>validate_actions\<close>; it ends because a valid action is at least eight bytes long.\<close>

function validate_actions :: "sw_flow_key \<Rightarrow> bytes \<Rightarrow> u16" where
  "validate_actions k p =
     (if length p < 8 then if p \<noteq> [] then OFPBAC_BAD_LEN else ACT_VALIDATION_OK
      else
        let len = unat (ntohs (ld16 p 2))
        in if length p < len \<or> len mod 8 \<noteq> 0 then OFPBAC_BAD_LEN
           else
             let err = validate_act k p (ntohs (ld16 p 0)) len
             in if err \<noteq> ACT_VALIDATION_OK then err else validate_actions k (drop len p))"
  by pat_completeness auto
termination
proof (relation "measure (\<lambda>(_, p). length p)", goal_cases)
  case (2 k p len err)
  then have "8 \<le> len" using validate_act_len [of k p "ntohs (ld16 p 0)" len] by simp
  moreover have "8 \<le> length p" using 2(1) by simp
  ultimately show ?case by simp
qed simp

declare validate_actions.simps [simp del]

section \<open>Execution\<close>

definition execute_ofpat :: "ofpbuf \<Rightarrow> sw_flow_key \<Rightarrow> bytes \<Rightarrow> u16 \<Rightarrow> (ofpbuf \<times> sw_flow_key) result" where
  "execute_ofpat buffer k ah type =
     (if type = OFPAT_SET_VLAN_VID then set_vlan_vid buffer k ah
      else if type = OFPAT_SET_VLAN_PCP then set_vlan_pcp buffer k ah
      else if type = OFPAT_STRIP_VLAN then strip_vlan buffer k ah
      else if type = OFPAT_SET_DL_SRC \<or> type = OFPAT_SET_DL_DST then set_dl_addr buffer k ah
      else if type = OFPAT_SET_NW_SRC \<or> type = OFPAT_SET_NW_DST then set_nw_addr buffer k ah
      else if type = OFPAT_SET_NW_TOS then set_nw_tos buffer k ah
      else if type = OFPAT_SET_TP_SRC \<or> type = OFPAT_SET_TP_DST then set_tp_port buffer k ah
      else Ok (buffer, k))"

text \<open>\<open>execute_vendor\<close> only logs, and so does nothing here.\<close>

definition execute_other :: "ofpbuf \<Rightarrow> sw_flow_key \<Rightarrow> bytes \<Rightarrow> (ofpbuf \<times> sw_flow_key) result" where
  "execute_other buffer k ah =
     (let type = ntohs (ld16 ah 0)
      in if type < N_OF_ACTIONS then execute_ofpat buffer k ah type else Ok (buffer, k))"

text \<open>
  An output: what the datapath does with a packet, given the input port, the limit on what goes to
  the controller, the port, the queue and whether \<open>OFPPC_NO_FWD\<close> is ignored.
\<close>

type_synonym 'd output_fun = "'d \<Rightarrow> ofpbuf \<Rightarrow> u16 \<Rightarrow> nat \<Rightarrow> u16 \<Rightarrow> u32 \<Rightarrow> bool \<Rightarrow> 'd result"

definition flush_prev ::
  "'d output_fun \<Rightarrow> 'd \<Rightarrow> ofpbuf \<Rightarrow> u16 \<Rightarrow> nat \<Rightarrow> (u16 \<times> u32) option \<Rightarrow> bool \<Rightarrow> 'd result" where
  "flush_prev out dp buffer in_prt max_len prev ignore =
     (case prev of
        None \<Rightarrow> Ok dp
      | Some (port, queue) \<Rightarrow> out dp buffer in_prt max_len port queue ignore)"

text \<open>
  The loop of \<open>execute_actions\<close>. \<open>prev\<close> is the pair of \<open>prev_port\<close> and \<open>prev_queue\<close>, none for the
  port \<open>-1\<close>: an output is done when the next action is reached, on a clone of the packet.
\<close>

function execute_loop ::
  "'d output_fun \<Rightarrow> u16 \<Rightarrow> bool \<Rightarrow> bytes \<Rightarrow> 'd \<Rightarrow> ofpbuf \<Rightarrow> sw_flow_key \<Rightarrow> (u16 \<times> u32) option \<Rightarrow> nat \<Rightarrow>
   ('d \<times> ofpbuf \<times> (u16 \<times> u32) option \<times> nat) result" where
  "execute_loop out in_prt ignore p dp buffer k prev max_len =
     (if p = [] then Ok (dp, buffer, prev, max_len)
      else if length p < 4 then Fail Bad_access
      else
        let len = unat (htons (ld16 p 2))
        in bindR (flush_prev out dp (ofpbuf_clone buffer) in_prt max_len prev ignore)
             (\<lambda>dp.
                bindR
                  (if ld16 p 0 = htons OFPAT_OUTPUT then
                     act_has p 8 (Ok (buffer, k, Some (ntohs (ld16 p 4), 0), unat (ntohs (ld16 p 6))))
                   else if ld16 p 0 = htons OFPAT_ENQUEUE then
                     act_has p 16 (Ok (buffer, k, Some (ntohs (ld16 p 4), ntohl (ld32 p 12)), 0))
                   else
                     bindR (execute_other buffer k p) (\<lambda>(b, k). Ok (b, k, None, max_len)))
                  (\<lambda>(buffer, k, prev, max_len).
                     if len = 0 then Fail No_return
                     else if length p < len then Fail Bad_access
                     else execute_loop out in_prt ignore (drop len p) dp buffer k prev max_len)))"
  by pat_completeness auto
termination
  by (relation "measure (\<lambda>(_, _, _, p, _). length p)") auto

declare execute_loop.simps [simp del]

definition execute_actions ::
  "'d output_fun \<Rightarrow> 'd \<Rightarrow> ofpbuf \<Rightarrow> sw_flow_key \<Rightarrow> bytes \<Rightarrow> bool \<Rightarrow> 'd result" where
  "execute_actions out dp buffer k acts ignore =
     (let in_prt = ntohs (in_port (kflow k))
      in bindR (execute_loop out in_prt ignore acts dp buffer k None 0xffff)
           (\<lambda>(dp, buffer, prev, max_len). flush_prev out dp buffer in_prt max_len prev ignore))"

section \<open>What validation establishes\<close>

lemma validate_actions_step:
  assumes "validate_actions k p = ACT_VALIDATION_OK" "p \<noteq> []"
  defines "len \<equiv> unat (ntohs (ld16 p 2))"
  shows "8 \<le> length p" "8 \<le> len" "len \<le> length p" "len mod 8 = 0"
    "validate_act k p (ntohs (ld16 p 0)) len = ACT_VALIDATION_OK"
    "validate_actions k (drop len p) = ACT_VALIDATION_OK"
proof -
  have *: "\<not> length p < 8" "\<not> (length p < len \<or> len mod 8 \<noteq> 0)"
    "validate_act k p (ntohs (ld16 p 0)) len = ACT_VALIDATION_OK"
    "validate_actions k (drop len p) = ACT_VALIDATION_OK"
    using assms(1,2) by (subst (asm) validate_actions.simps; simp add: len_def Let_def split: if_splits)+
  then show "8 \<le> length p" "len \<le> length p" "len mod 8 = 0"
    "validate_act k p (ntohs (ld16 p 0)) len = ACT_VALIDATION_OK"
    "validate_actions k (drop len p) = ACT_VALIDATION_OK" by auto
  show "8 \<le> len" using * validate_act_len by blast
qed

lemma validate_actions_framed: "validate_actions k p = ACT_VALIDATION_OK \<Longrightarrow> acts_framed p"
proof (induction "length p" arbitrary: p rule: less_induct)
  case less
  show ?case
  proof (cases "p = []")
    case False
    note step = validate_actions_step [OF less.prems False]
    have "acts_framed (drop (unat (ntohs (ld16 p 2))) p)"
      using step by (intro less.hyps) auto
    then show ?thesis
      using step False by (subst acts_framed.simps) simp
  qed simp
qed

text \<open>What is known of every action of a validated block.\<close>

definition act_ok :: "sw_flow_key \<Rightarrow> bytes \<Rightarrow> bool" where
  "act_ok k a \<longleftrightarrow>
     ntohs (ld16 a 0) < N_OF_ACTIONS \<and> length a = of_action_size (ntohs (ld16 a 0)) \<and>
     (ntohs (ld16 a 0) = OFPAT_OUTPUT \<longrightarrow> ld16 a 4 \<noteq> htons OFPP_NONE \<and>
        (wild (wildcards k) OFPFW_IN_PORT \<or> ld16 a 4 \<noteq> in_port (kflow k))) \<and>
     (ntohs (ld16 a 0) = OFPAT_ENQUEUE \<longrightarrow> ntohs (ld16 a 4) \<le> OFPP_MAX \<or> ntohs (ld16 a 4) = OFPP_IN_PORT)"

lemma validate_act_ok:
  assumes "validate_act k p (ntohs (ld16 p 0)) len = ACT_VALIDATION_OK" "len \<le> length p"
  shows "act_ok k (take len p)"
proof -
  have "8 \<le> len" using assms(1) by (rule validate_act_len)
  then have "ld16 (take len p) 0 = ld16 p 0" "ld16 (take len p) 4 = ld16 p 4"
    by (simp_all add: ld16_take)
  then show ?thesis
    using assms
    by (auto simp: act_ok_def validate_act_def validate_ofpat_def validate_vendor_def validate_output_def
        validate_queue_def Let_def min_absorb2 split: if_splits)
qed

lemma validate_actions_act_ok:
  "validate_actions k p = ACT_VALIDATION_OK \<Longrightarrow> a \<in> set (act_list p) \<Longrightarrow> act_ok k a"
proof (induction "length p" arbitrary: p rule: less_induct)
  case less
  have "p \<noteq> []" using less.prems(2) by auto
  note step = validate_actions_step [OF less.prems(1) this]
  let ?len = "unat (ntohs (ld16 p 2))"
  have "act_list p = take ?len p # act_list (drop ?len p)"
    using step by (subst act_list.simps) simp
  then consider "a = take ?len p" | "a \<in> set (act_list (drop ?len p))"
    using less.prems(2) by auto
  then show ?case
  proof cases
    case 1
    then show ?thesis using validate_act_ok [OF step(5,3)] by simp
  next
    case 2
    have "length (drop ?len p) < length p" using step by simp
    from less.hyps [OF this step(6) 2] show ?thesis .
  qed
qed

section \<open>Execution equals a direct interpretation\<close>

text \<open>
  The reference: each action is interpreted in turn on the list of actions. An output is done at
  once, on a clone of the packet unless it is the last action.
\<close>

definition output_of :: "bytes \<Rightarrow> (u16 \<times> u32 \<times> nat) option" where
  "output_of a =
     (if ld16 a 0 = htons OFPAT_OUTPUT then Some (ntohs (ld16 a 4), 0, unat (ntohs (ld16 a 6)))
      else if ld16 a 0 = htons OFPAT_ENQUEUE then Some (ntohs (ld16 a 4), ntohl (ld32 a 12), 0)
      else None)"

fun run_actions :: "'d output_fun \<Rightarrow> u16 \<Rightarrow> bool \<Rightarrow> 'd \<Rightarrow> ofpbuf \<Rightarrow> sw_flow_key \<Rightarrow> bytes list \<Rightarrow> 'd result" where
  "run_actions out in_prt ignore dp buffer k [] = Ok dp"
| "run_actions out in_prt ignore dp buffer k (a # as) =
     (case output_of a of
        Some (port, queue, max_len) \<Rightarrow>
          bindR (out dp (if as = [] then buffer else ofpbuf_clone buffer) in_prt max_len port queue ignore)
            (\<lambda>dp. run_actions out in_prt ignore dp buffer k as)
      | None \<Rightarrow>
          bindR (execute_other buffer k a) (\<lambda>(b, k). run_actions out in_prt ignore dp b k as))"

lemma ld_take:
  "i + 1 \<le> n \<Longrightarrow> ld8 (take n p) i = ld8 p i" "i + 2 \<le> n \<Longrightarrow> ld16 (take n p) i = ld16 p i"
  "i + 4 \<le> n \<Longrightarrow> ld32 (take n p) i = ld32 p i"
  by (simp_all add: load_defs drop_take)

lemma act_has_take: "n \<le> len \<Longrightarrow> len \<le> length p \<Longrightarrow> act_has (take len p) n m = act_has p n m"
  by (simp add: act_has_def)

text \<open>An action only looks at its own bytes.\<close>

lemma execute_other_take:
  assumes "len = of_action_size (ntohs (ld16 p 0))" "len \<le> length p"
  shows "execute_other buffer k (take len p) = execute_other buffer k p"
proof -
  have 8: "8 \<le> len" using assms(1) by (simp add: of_action_size_def)
  have 16: "len = 16" if "ntohs (ld16 p 0) = OFPAT_SET_DL_SRC \<or> ntohs (ld16 p 0) = OFPAT_SET_DL_DST"
    using that assms(1) by (auto simp: of_action_size_def)
  have "set_vlan_vid buffer k (take len p) = set_vlan_vid buffer k p"
    "set_vlan_pcp buffer k (take len p) = set_vlan_pcp buffer k p"
    "strip_vlan buffer k (take len p) = strip_vlan buffer k p"
    "set_nw_addr buffer k (take len p) = set_nw_addr buffer k p"
    "set_nw_tos buffer k (take len p) = set_nw_tos buffer k p"
    "set_tp_port buffer k (take len p) = set_tp_port buffer k p"
    using 8 assms(2)
    by (simp_all add: set_vlan_vid_def set_vlan_pcp_def strip_vlan_def set_nw_addr_def set_nw_tos_def
        set_tp_port_def nw_field_off_def tp_field_off_def act_has_take ld_take)
  moreover have "set_dl_addr buffer k (take len p) = set_dl_addr buffer k p" if "len = 16"
    using that assms(2) by (simp add: set_dl_addr_def act_has_take ld_take drop_take)
  ultimately show ?thesis
    using 8 16 by (auto simp: execute_other_def execute_ofpat_def ld_take Let_def)
qed

lemma output_of_take:
  assumes "len = of_action_size (ntohs (ld16 p 0))" "len \<le> length p"
  shows "output_of (take len p) = output_of p"
proof -
  have "8 \<le> len" using assms(1) by (simp add: of_action_size_def)
  moreover have "len = 16" if "ntohs (ld16 p 0) = OFPAT_ENQUEUE"
    using that assms(1) by (simp add: of_action_size_def)
  ultimately show ?thesis by (auto simp: output_of_def ld_take eq_htons_iff)
qed

lemma act_list_empty: "acts_framed p \<Longrightarrow> act_list p = [] \<longleftrightarrow> p = []"
  by (subst (asm) acts_framed.simps, subst act_list.simps) (auto split: if_splits)

lemma validate_act_size:
  "validate_act k p type len = ACT_VALIDATION_OK \<Longrightarrow> len = of_action_size type"
  by (auto simp: validate_act_def validate_ofpat_def validate_vendor_def split: if_splits)

lemma execute_loop_run:
  assumes "validate_actions k0 p = ACT_VALIDATION_OK"
  shows "bindR (execute_loop out in_prt ignore p dp buffer k prev max_len)
      (\<lambda>(dp, b, prev, ml). flush_prev out dp b in_prt ml prev ignore) =
    bindR (flush_prev out dp (if p = [] then buffer else ofpbuf_clone buffer) in_prt max_len prev ignore)
      (\<lambda>dp. run_actions out in_prt ignore dp buffer k (act_list p))"
  using assms
proof (induction "length p" arbitrary: p dp buffer k prev max_len rule: less_induct)
  case less
  show ?case
  proof (cases "p = []")
    case True
    then show ?thesis by (simp add: execute_loop.simps)
  next
    case False
    define len where "len = unat (ntohs (ld16 p 2))"
    note step = validate_actions_step [OF less.prems False, folded len_def]
    have size: "len = of_action_size (ntohs (ld16 p 0))" using validate_act_size [OF step(5)] .
    define rest where "rest = drop len p"
    have shorter: "length rest < length p" using step by (simp add: rest_def)
    note IH = less.hyps [OF shorter step(6) [folded rest_def]]
    have rest_empty: "act_list rest = [] \<longleftrightarrow> rest = []"
      using act_list_empty validate_actions_framed [OF step(6)] by (simp add: rest_def)
    have acts: "act_list p = take len p # act_list rest"
      using step by (subst act_list.simps) (simp add: len_def [symmetric] rest_def)
    let ?fin = "\<lambda>(dp, b, prev, ml). flush_prev out dp b in_prt ml prev ignore"
    have unfold: "bindR (execute_loop out in_prt ignore p dp buffer k prev max_len) ?fin =
        bindR (flush_prev out dp (ofpbuf_clone buffer) in_prt max_len prev ignore)
          (\<lambda>dp. case output_of p of
             Some (port, queue, ml) \<Rightarrow>
               bindR (execute_loop out in_prt ignore rest dp buffer k (Some (port, queue)) ml) ?fin
           | None \<Rightarrow>
               bindR (execute_other buffer k p)
                 (\<lambda>(b, k). bindR (execute_loop out in_prt ignore rest dp b k None max_len) ?fin))"
    proof -
      have len': "unat (htons (ld16 p 2)) = len" by (simp add: len_def htons_eq_ntohs)
      have 16: "16 \<le> length p" if "ld16 p 0 = htons OFPAT_ENQUEUE"
        using that size step(3) by (simp add: of_action_size_def eq_htons_iff)
      have ok: "len \<noteq> 0" "\<not> length p < len" "\<not> length p < 4" using step by auto
      show ?thesis
        using False ok step(1) 16
        by (subst execute_loop.simps)
          (simp add: len' Let_def output_of_def act_has_def rest_def bindR_assoc case_prod_unfold)
    qed
    show ?thesis
      unfolding unfold acts IH run_actions.simps rest_empty
        output_of_take [OF size step(3)] execute_other_take [OF size step(3)]
      using False by (cases "output_of p") (auto simp: flush_prev_def)
  qed
qed

lemma execute_actions_run:
  "validate_actions k0 acts = ACT_VALIDATION_OK \<Longrightarrow>
   execute_actions out dp buffer k acts ignore =
     run_actions out (ntohs (in_port (kflow k))) ignore dp buffer k (act_list acts)"
  using execute_loop_run [where prev = None and max_len = "0xffff"]
  by (simp add: execute_actions_def Let_def flush_prev_def)

section \<open>VLAN tags\<close>

text \<open>A packet whose link header is at the start of its data.\<close>

definition at_start :: "ofpbuf \<Rightarrow> bool" where
  "at_start b \<longleftrightarrow> l2 b = Some (headroom b)"

lemma field_at_start:
  "at_start b \<Longrightarrow> off + n \<le> size_of b \<Longrightarrow> field_at b (l2 b) off n = Ok off"
  by (simp add: at_start_def field_at_def deref_def in_data_def)

lemma overwrite_0: "overwrite m 0 v = v @ drop (length v) m"
  by (simp add: overwrite_def)

lemma push_tag:
  assumes b: "at_start b" "ETH_HEADER_LEN \<le> size_of b" "VLAN_HEADER_LEN \<le> headroom b"
    and k: "dl_vlan (kflow k) = htons OFP_VLAN_NONE"
  shows "modify_vlan_tci b k tci m =
    Ok (b\<lparr>headroom := headroom b - 4,
          data := take 12 (data b) @ le_bytes 2 (htons ETH_TYPE_VLAN) @ le_bytes 2 (htons tci) @ drop 12 (data b),
          l2 := Some (headroom b - 4)\<rparr>, tci_key k (htons tci))"
proof -
  have "take 2 (drop 12 (data b)) = le_bytes 2 (ld16 (data b) 12)"
    using le_bytes_le_word [of "take 2 (drop 12 (data b))", where 'a = 16] b(2)
    by (simp add: ld16_def size_of_def)
  then have "drop 12 (data b) = le_bytes 2 (ld16 (data b) 12) @ drop 14 (data b)"
    using append_take_drop_id [of 2 "drop 12 (data b)"] by simp
  moreover have "length (take 12 (data b)) = 12" using b(2) by (simp add: size_of_def)
  moreover have "field_at b (l2 b) 0 ETH_HEADER_LEN = Ok 0" using b by (simp add: field_at_start)
  ultimately show ?thesis
    using b k
    by (simp add: modify_vlan_tci_def push_uninit_Ok Let_def overwrite_0 at_start_def
        size_of_def del: le_bytes.simps)
qed

lemma pull_tag:
  assumes "at_start b" "data b = A @ le_bytes 2 (htons ETH_TYPE_VLAN) @ le_bytes 2 tci @ R"
    and "length A = 12" "2 \<le> length R"
  shows "vlan_pull_tag b = Ok (b\<lparr>headroom := headroom b + 4, data := A @ R, l2 := Some (headroom b + 4)\<rparr>)"
proof -
  have R: "R = le_bytes 2 (ld16 R 0) @ drop 2 R"
    using le_bytes_le_word [of "take 2 R", where 'a = 16] assms(4) append_take_drop_id [of 2 R]
    by (simp add: ld16_def)
  have "ld16 (data b) 12 = htons ETH_TYPE_VLAN" "ld16 (data b) 16 = ld16 R 0" "size_of b \<ge> 18"
    using assms(3,4) by (simp_all add: assms(2) ld_append_ge ld_le_bytes size_of_def del: le_bytes.simps)
  moreover have "take 12 (data b) = A" "drop 4 (data b) = drop 4 A @ le_bytes 2 (htons ETH_TYPE_VLAN) @ le_bytes 2 tci @ R"
    using assms(3) by (simp_all add: assms(2))
  moreover have "field_at b (l2 b) 12 2 = Ok 12" "field_at b (l2 b) 0 VLAN_ETH_HEADER_LEN = Ok 0"
    using assms(1) \<open>size_of b \<ge> 18\<close> by (simp_all add: field_at_start)
  ultimately show ?thesis
    using assms(1,3) R
    by (simp add: size_of_def min_absorb2 vlan_pull_tag_def Let_def overwrite_0 at_start_def del: le_bytes.simps)
qed

end
