(* ===== verification/OF_Packet_Props.thy ===== *)
theory OF_Packet_Props
  imports OF_Act OF_Crc32 OF_Chain_Props
begin

unbundle bit_operations_syntax

text \<open>
  Properties of checksums, packet parsing, match descriptions and actions.
\<close>

section \<open>Checksums and hashes\<close>

lemma csum_valid_recalc16_iff:
  assumes "even ci" "even fi" "ci \<noteq> fi" "ci + 2 \<le> length m" "fi + 2 \<le> length m" and valid: "csum_valid m"
  shows "csum_valid (st16 (st16 m ci (recalc_csum16 (ld16 m ci) (ld16 m fi) n)) fi n) \<longleftrightarrow>
    unat (recalc_sum (ld16 m ci) (ld16 m fi) n) \<noteq> 0x1ffff"
proof -
  define c o' c' where "c = unat (ld16 m ci)" and "o' = unat (ld16 m fi)"
    and "c' = unat (recalc_csum16 (ld16 m ci) (ld16 m fi) n)"
  let ?m1 = "st16 m ci (recalc_csum16 (ld16 m ci) (ld16 m fi) n)"
  let ?m2 = "st16 ?m1 fi n"
  have le: "c \<le> 65535" "o' \<le> 65535" "c' \<le> 65535" "unat n \<le> 65535"
    by (simp_all add: c_def o'_def c'_def unat_u16_bound)
  have disj: "fi + 2 \<le> ci \<or> ci + 2 \<le> fi" using assms(1-3) by presburger
  have "ld16 ?m1 fi = ld16 m fi"
    using overwrite_other [of ci "le_bytes 2 (recalc_csum16 (ld16 m ci) (ld16 m fi) n)" m fi 2] disj assms(4)
    by (simp add: ld16_def st16_def del: le_bytes.simps)
  then have "wsum ?m2 + o' = wsum ?m1 + unat n"
    using wsum_st16 [OF assms(2), of ?m1 n] assms(4,5) by (simp add: o'_def)
  moreover have "wsum ?m1 + c = wsum m + c'"
    using wsum_st16 [OF assms(1,4)] by (simp add: c_def c'_def)
  ultimately have sum: "wsum ?m2 + (o' + c) = wsum m + (c' + unat n)" by linarith
  have "csum_valid ?m2 \<longleftrightarrow> (wsum ?m2 + (o' + c)) mod 65535 = (0 + (o' + c)) mod 65535"
    unfolding csum_valid_def mod_add_right_cancel by simp
  also have "\<dots> \<longleftrightarrow> (c' + unat n) mod 65535 = (o' + c) mod 65535"
    using valid mod_add_left_eq [of "wsum m" 65535 "c' + unat n"] unfolding sum csum_valid_def by simp
  also have "\<dots> \<longleftrightarrow> (65535 - c' + o') mod 65535 = (65535 - c + unat n) mod 65535"
  proof -
    have e: "(65535 - c' + o') + (c' + c) = 65535 + (o' + c)" "(65535 - c + unat n) + (c' + c) = 65535 + (c' + unat n)"
      using le by linarith+
    have "(65535 - c' + o') mod 65535 = (65535 - c + unat n) mod 65535 \<longleftrightarrow>
        ((65535 - c' + o') + (c' + c)) mod 65535 = ((65535 - c + unat n) + (c' + c)) mod 65535"
      by (rule mod_add_right_cancel [symmetric])
    also have "\<dots> \<longleftrightarrow> (o' + c) mod 65535 = (c' + unat n) mod 65535"
      unfolding e by simp
    finally show ?thesis by auto
  qed
  finally show ?thesis
    unfolding recalc_csum16_congruence [symmetric] by (simp add: c_def o'_def c'_def)
qed

text \<open>C39: Updating a 16-bit field of a header with a valid checksum through \<open>recalc_csum16\<close> leaves
  the checksum valid in every case but one: exactly when the 32-bit sum formed from the complements
  of the old checksum and field and the new field is \<open>0x1ffff\<close>, its single folding loses a carry
  and the resulting checksum is wrong.\<close>

theorem recalc_csum16_valid_iff:
  assumes "even ci" "even fi" "ci \<noteq> fi" "ci + 2 \<le> length m" "fi + 2 \<le> length m" "csum_valid m"
  shows "csum_valid (st16 (st16 m ci (recalc_csum16 (ld16 m ci) (ld16 m fi) n)) fi n) \<longleftrightarrow>
    unat (recalc_sum (ld16 m ci) (ld16 m fi) n) \<noteq> 0x1ffff"
  by (rule csum_valid_recalc16_iff [OF assms])

theorem recalc_csum16_valid_iff_witness:
  "csum_valid (st16 (st16 [0, 0, 0, 0] 0 (recalc_csum16 0 0 2)) 2 2) \<and>
   \<not> csum_valid (st16 (st16 [0, 0, 0, 0] 0 (recalc_csum16 0 0 1)) 2 1)"
proof -
  have m: "csum_valid [0, 0, 0, 0]" "ld16 [0, 0, 0, 0] 0 = 0" "ld16 [0, 0, 0, 0] 2 = 0"
    by (simp_all add: csum_valid_def ld16_def)
  have "unat (recalc_sum 0 0 2) \<noteq> 0x1ffff" "unat (recalc_sum 0 0 1) = 0x1ffff"
    by (simp_all add: unat_recalc_sum)
  then show ?thesis
    using recalc_csum16_valid_iff [of 0 2 "[0, 0, 0, 0]" 2] recalc_csum16_valid_iff [of 0 2 "[0, 0, 0, 0]" 1] m
    by simp
qed

text \<open>C40: The table-driven CRC that picks a bucket equals bit-by-bit division by the polynomial, for
  every polynomial and every input.\<close>

theorem crc32_equals_division: "crc32_calculate (crc32_init polynomial) bs = crc32_ref polynomial bs"
  by (rule crc32_calculate_eq)

section \<open>Packets and match descriptions\<close>

text \<open>C35: Parsing a packet, for any bytes, gives a flow that survives the translation into an exact
  match description and back: the key obtained is without wildcards, has the parsed flow and
  matches a key exactly when their fields agree.\<close>

theorem flow_extract_exact_key:
  assumes "flow_extract packet port = (r, f, p)"
  shows "flow_extract_match (flow_fill_match f 0) =
      \<lparr>kflow = f, wildcards = 0, nw_src_mask = 0xffffffff, nw_dst_mask = 0xffffffff\<rparr> \<and>
    (\<forall>k. pad (kflow k) = (0, 0, 0) \<longrightarrow>
       (flow_matches_1wild k (flow_extract_match (flow_fill_match f 0)) \<longleftrightarrow> kflow k = f))"
proof -
  have f: "flow_extract_match (flow_fill_match f 0) =
      \<lparr>kflow = f, wildcards = 0, nw_src_mask = 0xffffffff, nw_dst_mask = 0xffffffff\<rparr>"
    by (rule extract_fill_exact [OF flow_extract_canonical [OF assms]])
  moreover have "pad f = (0, 0, 0)"
    using flow_extract_canonical [OF assms] by (simp add: canonical_flow_def)
  ultimately show ?thesis by (simp add: exact_key_matches exact_key_def)
qed

text \<open>An Ethernet frame with an IP packet that carries a UDP datagram, with 128 bytes of headroom.\<close>

definition sample_frame :: bytes where
  "sample_frame = [2, 0, 0, 0, 0, 2, 2, 0, 0, 0, 0, 1, 8, 0,
     0x45, 0, 0, 28, 0, 0, 0, 0, 64, 17, 0, 0, 10, 0, 0, 1, 10, 0, 0, 2,
     3, 0xe8, 0, 80, 0, 8, 0, 0]"

definition sample_packet :: ofpbuf where
  "sample_packet = \<lparr>headroom = 128, data = sample_frame, allocated = 256, l2 = None, l3 = None,
     l4 = None, l7 = None\<rparr>"

theorem flow_extract_exact_key_witness:
  "flow_extract_match (flow_fill_match (fst (snd (flow_extract sample_packet 1))) 0) =
     \<lparr>kflow = fst (snd (flow_extract sample_packet 1)), wildcards = 0,
      nw_src_mask = 0xffffffff, nw_dst_mask = 0xffffffff\<rparr>"
  using flow_extract_exact_key [of sample_packet 1 "fst (flow_extract sample_packet 1)"
      "fst (snd (flow_extract sample_packet 1))" "snd (snd (flow_extract sample_packet 1))"]
  by simp

text \<open>C34: Parsing leaves the bytes of the packet alone, and the layer pointers it sets are safe. They
  point into the packet or to its end. A transport pointer stands exactly behind an IP header of at
  least 20 bytes, at the length that header gives. A payload pointer is set exactly for an
  unfragmented IP packet whose flow has the protocol TCP, UDP or ICMP, and then the whole transport
  header is inside the packet and the payload pointer stands exactly behind it: at the length the
  data offset of a TCP header gives, at least 20 bytes, or behind 8 bytes of UDP or 4 of ICMP.\<close>

theorem flow_extract_pointers:
  assumes "flow_extract packet port = (r, f, p)"
  shows "data p = data packet \<and> headroom p = headroom packet \<and> in_port f = htons port \<and>
    l2 p = Some (headroom p) \<and>
    (\<forall>q. l3 p = Some q \<longrightarrow> headroom p \<le> q \<and> q \<le> headroom p + length (data p)) \<and>
    (\<forall>q. l4 p = Some q \<longrightarrow> q \<le> headroom p + length (data p) \<and>
       (\<exists>i. l3 p = Some i \<and> 20 \<le> ip_len_at p i \<and> q = i + ip_len_at p i)) \<and>
    (l7 p \<noteq> None \<longleftrightarrow> r = 0 \<and> dl_type f = htons ETH_TYPE_IP \<and> nw_proto f \<in> {IP_TYPE_TCP, IP_TYPE_UDP, IP_TYPE_ICMP}) \<and>
    (\<forall>q. l7 p = Some q \<longrightarrow> q \<le> headroom p + length (data p) \<and> (\<exists>i. l4 p = Some i \<and> q = i + l4_len f p i)) \<and>
    (\<forall>q. l7 p = Some q \<and> nw_proto f = IP_TYPE_TCP \<longrightarrow> (\<exists>i. l4 p = Some i \<and> 20 \<le> tcp_len_at p i \<and> q = i + tcp_len_at p i))"
proof -
  have "layers_ok r f p" "same_data packet p" "in_port f = htons port" using flow_extract_layers [OF assms] by simp_all
  then show ?thesis
    unfolding layers_ok_def same_data_def in_data_def size_of_def by (force simp: l4_len_def)
qed

theorem flow_extract_pointers_witness:
  "l7 (snd (snd (flow_extract sample_packet 1))) \<noteq> None \<and>
   (\<exists>q i. l7 (snd (snd (flow_extract sample_packet 1))) = Some q \<and> l4 (snd (snd (flow_extract sample_packet 1))) = Some i \<and>
      q = i + 8 \<and> q \<le> 128 + 42)"
proof -
  define r f p where "r = fst (flow_extract sample_packet 1)" and "f = fst (snd (flow_extract sample_packet 1))"
    and "p = snd (snd (flow_extract sample_packet 1))"
  have e: "flow_extract sample_packet 1 = (r, f, p)" by (simp add: r_def f_def p_def)
  have "r = 0" "dl_type f = htons ETH_TYPE_IP" "nw_proto f = IP_TYPE_UDP"
    unfolding r_def f_def by code_simp+
  moreover have "headroom sample_packet = 128" "length (data sample_packet) = 42"
    by (simp_all add: sample_packet_def sample_frame_def)
  ultimately show ?thesis
    unfolding p_def [symmetric] using flow_extract_pointers [OF e] by (auto simp: l4_len_def)
qed

text \<open>C36: Two match descriptions are reported as overlapping exactly when some assignment of values to
  the header fields satisfies both. So a packet whose parsed fields match both is always noticed. The
  converse is about values of the fields, not about packets: a description may ask for values, such
  as a VLAN identifier above 4095 other than the one for none, that no packet is parsed to.\<close>

theorem overlap_iff_common_fields:
  "(flow_matches_2wild a b \<longleftrightarrow>
     (\<exists>k. exact_key k \<and> flow_matches_1wild k a \<and> flow_matches_1wild k b)) \<and>
   (\<forall>packet port r f p k. flow_extract packet port = (r, f, p) \<and> kflow k = f \<and>
      flow_matches_1wild k a \<and> flow_matches_1wild k b \<longrightarrow> flow_matches_2wild a b)"
proof -
  have "\<exists>k. exact_key k \<and> flow_matches_1wild k a \<and> flow_matches_1wild k b" if "flow_matches_2wild a b"
  proof -
    let ?k = "\<lparr>kflow = common_flow a b, wildcards = 0, nw_src_mask = 0xffffffff, nw_dst_mask = 0xffffffff\<rparr>"
    have "exact_key ?k" by (simp add: exact_key_def)
    then show ?thesis using common_flow_matches [OF that, of ?k] by auto
  qed
  then show ?thesis using matches_both_2wild by blast
qed

theorem overlap_iff_common_fields_witness:
  "flow_matches_2wild any_key (\<lparr>kflow = fst (snd (flow_extract sample_packet 1)), wildcards = 0,
     nw_src_mask = 0xffffffff, nw_dst_mask = 0xffffffff\<rparr>)"
proof -
  let ?k = "\<lparr>kflow = fst (snd (flow_extract sample_packet 1)), wildcards = 0, nw_src_mask = 0xffffffff, nw_dst_mask = 0xffffffff\<rparr>"
  have "flow_extract sample_packet 1 = (fst (flow_extract sample_packet 1), kflow ?k, snd (snd (flow_extract sample_packet 1)))" by simp
  moreover have "flow_matches_1wild ?k any_key" by (rule any_key_matches)
  moreover have "flow_matches_1wild ?k ?k" by simp
  ultimately show ?thesis using overlap_iff_common_fields [of any_key ?k] by blast
qed

text \<open>C37: The key of a flow entry survives being written out as a match description, as in a
  statistics reply, and read back, as in a later request about the entry.\<close>

theorem match_description_round_trip:
  "flow_extract_match (flow_fill_match (kflow (flow_extract_match m)) (wildcards (flow_extract_match m))) =
   flow_extract_match m \<and>
   ofp_match_at (ofp_match_bytes m @ rest) 0 = m"
  by (simp add: extract_fill_extract ofp_match_at_bytes)

section \<open>Actions\<close>

text \<open>C33: Validation of an action block always ends. A block that passes is a sequence of complete
  actions of the sizes the action table demands, so that the later walks over it stay inside it;
  no output goes to \<open>OFPP_NONE\<close> or back to a fixed input port, and queues are only on physical
  ports or the input port.\<close>

theorem validate_actions_sound:
  assumes "validate_actions k acts = ACT_VALIDATION_OK"
  shows "acts_framed acts \<and> (\<forall>a \<in> set (act_list acts). act_ok k a) \<and>
    (\<forall>flow port. sf_acts flow = acts \<longrightarrow>
       flow_has_out_port flow port =
         Ok (port = htons OFPP_NONE \<or> (\<exists>a \<in> set (act_list acts). act_outputs a port)))"
  using validate_actions_framed [OF assms] validate_actions_act_ok [OF assms] flow_has_out_port_framed
  by auto

lemma output_action_valid:
  "validate_actions any_key (output_action 7) = ACT_VALIDATION_OK"
  by code_simp

theorem validate_actions_sound_witness:
  "acts_framed (output_action 7) \<and> list_all (act_ok any_key) (act_list (output_action 7))"
  using validate_actions_sound [OF output_action_valid] by (simp add: list_all_iff)

text \<open>C32: Executing a validated action block, with outputs deferred by one action so that the last
  one can use the packet itself, equals interpreting the actions one by one: every output sees
  exactly the set-field actions before it, and the outputs are done in order, whatever an output
  does.\<close>

theorem execute_actions_reference:
  fixes out :: "'d output_fun"
  assumes "validate_actions k0 acts = ACT_VALIDATION_OK"
  shows "execute_actions out dp buffer k acts ignore =
    run_actions out (ntohs (in_port (kflow k))) ignore dp buffer k (act_list acts)"
  by (rule execute_actions_run [OF assms])

theorem execute_actions_reference_witness:
  "execute_actions (\<lambda>d b i m p q g. Ok (d @ [p])) [] sample_packet sample_key (output_action 7) False =
   run_actions (\<lambda>d b i m p q g. Ok (d @ [p])) (ntohs (in_port (kflow sample_key))) False [] sample_packet
     sample_key (act_list (output_action 7))"
  by (rule execute_actions_reference [OF output_action_valid])

text \<open>C38: Adding a VLAN tag to an untagged packet with room in front of it puts the tag behind the
  addresses and records it in the key; stripping the tag again gives back the packet, byte for
  byte and at the same place.\<close>

theorem vlan_push_strip_round_trip:
  assumes "l2 b = Some (headroom b)" "14 \<le> length (data b)" "4 \<le> headroom b"
    and "dl_vlan (kflow k) = htons OFP_VLAN_NONE" "6 \<le> length ah"
  shows "\<exists>b' k'. set_vlan_vid b k ah = Ok (b', k') \<and>
    data b' = take 12 (data b) @ le_bytes 2 (htons ETH_TYPE_VLAN) @ le_bytes 2 (ld16 ah 4) @ drop 12 (data b) \<and>
    dl_vlan (kflow k') = ld16 ah 4 AND htons VLAN_VID_MASK \<and>
    (\<exists>k''. strip_vlan b' k' ah' = Ok (b, k'') \<and> dl_vlan (kflow k'') = htons OFP_VLAN_NONE)"
proof -
  have start: "at_start b" using assms(1) by (simp add: at_start_def)
  define b' where "b' = b\<lparr>headroom := headroom b - 4,
      data := take 12 (data b) @ le_bytes 2 (htons ETH_TYPE_VLAN) @ le_bytes 2 (ld16 ah 4) @ drop 12 (data b),
      l2 := Some (headroom b - 4)\<rparr>"
  have push: "set_vlan_vid b k ah = Ok (b', tci_key k (ld16 ah 4))"
    using push_tag [OF start, of k "ntohs (ld16 ah 4)"] assms(2-5)
    by (simp add: set_vlan_vid_def act_has_def b'_def size_of_def)
  have "at_start b'" by (simp add: at_start_def b'_def)
  then have "vlan_pull_tag b' = Ok (b'\<lparr>headroom := headroom b' + 4, data := take 12 (data b) @ drop 12 (data b),
      l2 := Some (headroom b' + 4)\<rparr>)"
    using assms(2) by (intro pull_tag) (simp_all add: b'_def)
  also have "b'\<lparr>headroom := headroom b' + 4, data := take 12 (data b) @ drop 12 (data b),
      l2 := Some (headroom b' + 4)\<rparr> = b"
    using assms(1,3) by (simp add: b'_def)
  finally show ?thesis
    using push by (simp add: strip_vlan_def b'_def tci_key_def)
qed

theorem vlan_push_strip_round_trip_witness:
  "\<exists>b' k'. set_vlan_vid (sample_packet\<lparr>l2 := Some 128\<rparr>) (sample_key\<lparr>kflow := (kflow sample_key)\<lparr>dl_vlan := 0xffff\<rparr>\<rparr>)
      [0, 1, 0, 8, 0, 5, 0, 0] = Ok (b', k')"
proof -
  have "htons OFP_VLAN_NONE = 0xffff" by code_simp
  then show ?thesis
    using vlan_push_strip_round_trip [of "sample_packet\<lparr>l2 := Some 128\<rparr>"
        "sample_key\<lparr>kflow := (kflow sample_key)\<lparr>dl_vlan := 0xffff\<rparr>\<rparr>" "[0, 1, 0, 8, 0, 5, 0, 0]" "[]"]
    by (auto simp: sample_packet_def sample_frame_def)
qed

end
