(* ===== verification/OF_Pkt_Buffer.thy ===== *)
theory OF_Pkt_Buffer
  imports OF_Buf OF_Proto
begin

unbundle bit_operations_syntax

text \<open>
  The packets a switch keeps while the controller decides on them, the end of
  \<open>udatapath/datapath.c\<close>: the static array \<open>buffers\<close> with its index \<open>buffer_idx\<close>, and
  \<open>save_buffer\<close>, \<open>retrieve_buffer\<close> and \<open>discard_buffer\<close>. An identifier has the number of a buffer
  in its low bits and the cookie of the buffer in the others. The abstract view is a partial
  function from identifiers to packets, and the locale \<open>packet_store\<close> is the contract.
\<close>

abbreviation (input) PKT_BUFFER_BITS :: nat where "PKT_BUFFER_BITS \<equiv> 8"
abbreviation (input) N_PKT_BUFFERS :: nat where "N_PKT_BUFFERS \<equiv> 256"
abbreviation (input) PKT_BUFFER_MASK :: u32 where "PKT_BUFFER_MASK \<equiv> 255"
abbreviation (input) MAX_COOKIE :: u32 where "MAX_COOKIE \<equiv> 0xffffff"
abbreviation (input) OVERWRITE_SECS :: int where "OVERWRITE_SECS \<equiv> 1"
abbreviation (input) UINT32_MAX :: u32 where "UINT32_MAX \<equiv> 0xffffffff"

record packet_buffer =
  pb_buffer :: "ofpbuf option"
  pb_cookie :: u32
  pb_timeout :: int

record pkt_buffers =
  buffers :: "packet_buffer list"
  buffer_idx :: u32

text \<open>Static storage starts as zero.\<close>

definition no_buffers :: pkt_buffers where
  "no_buffers = \<lparr>buffers = replicate N_PKT_BUFFERS \<lparr>pb_buffer = None, pb_cookie = 0, pb_timeout = 0\<rparr>,
                 buffer_idx = 0\<rparr>"

definition next_cookie :: "u32 \<Rightarrow> u32" where
  "next_cookie c = (if c + 1 \<ge> MAX_COOKIE then 0 else c + 1)"

definition save_buffer :: "int \<Rightarrow> ofpbuf \<Rightarrow> pkt_buffers \<Rightarrow> pkt_buffers \<times> u32" where
  "save_buffer now buffer s =
     (let idx = (buffer_idx s + 1) AND PKT_BUFFER_MASK;
          s = s\<lparr>buffer_idx := idx\<rparr>;
          p = buffers s ! unat idx
      in if pb_buffer p \<noteq> None \<and> now < pb_timeout p then (s, UINT32_MAX)
         else
           let c = next_cookie (pb_cookie p);
               p' = \<lparr>pb_buffer = Some (ofpbuf_clone buffer), pb_cookie = c,
                     pb_timeout = now + OVERWRITE_SECS\<rparr>
           in (s\<lparr>buffers := (buffers s)[unat idx := p']\<rparr>, idx OR push_bit PKT_BUFFER_BITS c))"

definition retrieve_buffer :: "u32 \<Rightarrow> pkt_buffers \<Rightarrow> pkt_buffers \<times> ofpbuf option" where
  "retrieve_buffer i s =
     (let n = unat (i AND PKT_BUFFER_MASK); p = buffers s ! n
      in if pb_cookie p = drop_bit PKT_BUFFER_BITS i
         then (s\<lparr>buffers := (buffers s)[n := p\<lparr>pb_buffer := None\<rparr>]\<rparr>, pb_buffer p)
         else (s, None))"

definition discard_buffer :: "u32 \<Rightarrow> pkt_buffers \<Rightarrow> pkt_buffers" where
  "discard_buffer i s =
     (let n = unat (i AND PKT_BUFFER_MASK); p = buffers s ! n
      in if pb_cookie p = drop_bit PKT_BUFFER_BITS i
         then s\<lparr>buffers := (buffers s)[n := p\<lparr>pb_buffer := None\<rparr>]\<rparr>
         else s)"

section \<open>The contract of a packet store\<close>

text \<open>
  \<open>held s\<close> is the packet each identifier stands for. Saving a packet either refuses, with the
  identifier that means none, or makes a new identifier stand for a copy of the packet and gives
  up at most the identifiers of one buffer; taking or discarding a packet releases exactly its
  identifier.
\<close>

locale packet_store =
  fixes inv :: "'s \<Rightarrow> bool" and held :: "'s \<Rightarrow> u32 \<Rightarrow> ofpbuf option"
    and save :: "int \<Rightarrow> ofpbuf \<Rightarrow> 's \<Rightarrow> 's \<times> u32"
    and take_out :: "u32 \<Rightarrow> 's \<Rightarrow> 's \<times> ofpbuf option" and drop_out :: "u32 \<Rightarrow> 's \<Rightarrow> 's"
    and slot :: "u32 \<Rightarrow> u32"
  assumes save_inv: "inv s \<Longrightarrow> save now b s = (s', i) \<Longrightarrow> inv s'"
    and save_refused: "inv s \<Longrightarrow> save now b s = (s', UINT32_MAX) \<Longrightarrow> held s' = held s"
    and save_held: "inv s \<Longrightarrow> save now b s = (s', i) \<Longrightarrow> i \<noteq> UINT32_MAX \<Longrightarrow>
      held s' = (\<lambda>j. if j = i then Some (ofpbuf_clone b) else if slot j = slot i then None else held s j)"
    and save_fresh: "inv s \<Longrightarrow> save now b s = (s', i) \<Longrightarrow> i \<noteq> UINT32_MAX \<Longrightarrow> held s i = None"
    and none_held: "inv s \<Longrightarrow> held s UINT32_MAX = None"
    and take_inv: "inv s \<Longrightarrow> take_out i s = (s', r) \<Longrightarrow> inv s'"
    and take_spec: "inv s \<Longrightarrow> take_out i s = (s', r) \<Longrightarrow> r = held s i \<and> held s' = (held s)(i := None)"
    and drop_inv: "inv s \<Longrightarrow> inv (drop_out i s)"
    and drop_spec: "inv s \<Longrightarrow> held (drop_out i s) = (held s)(i := None)"
begin

lemma save_then_take:
  assumes "inv s" "save now b s = (s1, i)" "i \<noteq> UINT32_MAX"
  shows "snd (take_out i s1) = Some (ofpbuf_clone b)"
    and "snd (take_out i (fst (take_out i s1))) = None"
proof -
  obtain s2 r where t: "take_out i s1 = (s2, r)" by fastforce
  obtain s3 r' where t': "take_out i s2 = (s3, r')" by fastforce
  have i1: "inv s1" using save_inv assms by blast
  have h: "held s1 i = Some (ofpbuf_clone b)" using save_held [OF assms] by simp
  have r: "r = held s1 i" "held s2 = (held s1)(i := None)" using take_spec [OF i1 t] by auto
  show "snd (take_out i s1) = Some (ofpbuf_clone b)" using t r h by simp
  have "r' = held s2 i" using take_spec [OF take_inv [OF i1 t] t'] by simp
  then show "snd (take_out i (fst (take_out i s1))) = None" using t t' r by simp
qed

lemma take_after_drop: "inv s \<Longrightarrow> snd (take_out i (drop_out i s)) = None"
  using take_spec [OF drop_inv, of s i i] drop_spec by (metis fun_upd_same prod.collapse)

lemma other_save_keeps:
  assumes "inv s" "save now b s = (s', i)" "held s j = Some p" "i = UINT32_MAX \<or> slot j \<noteq> slot i"
  shows "held s' j = Some p"
proof (cases "i = UINT32_MAX")
  case True
  then show ?thesis using save_refused assms by metis
next
  case False
  then show ?thesis using save_held [OF assms(1,2) False] assms(3,4) by auto
qed

end

section \<open>The buffers are a packet store\<close>

definition held :: "pkt_buffers \<Rightarrow> u32 \<Rightarrow> ofpbuf option" where
  "held s i =
     (let p = buffers s ! unat (i AND PKT_BUFFER_MASK)
      in if pb_cookie p = drop_bit PKT_BUFFER_BITS i then pb_buffer p else None)"

definition buffer_slot :: "u32 \<Rightarrow> u32" where
  "buffer_slot i = i AND PKT_BUFFER_MASK"

text \<open>There are 256 buffers and no cookie has the value that the identifier for none would need.\<close>

definition buffers_inv :: "pkt_buffers \<Rightarrow> bool" where
  "buffers_inv s \<longleftrightarrow> length (buffers s) = N_PKT_BUFFERS \<and>
     list_all (\<lambda>p. pb_cookie p < MAX_COOKIE) (buffers s)"

lemma mask_less: "unat (x AND PKT_BUFFER_MASK) < N_PKT_BUFFERS"
proof -
  have "x AND 255 \<le> (255::u32)" by (rule word_and_le1)
  then show ?thesis by (simp add: word_le_nat_alt)
qed

lemma next_cookie_less: "c < MAX_COOKIE \<Longrightarrow> next_cookie c < MAX_COOKIE"
  by (auto simp: next_cookie_def not_le)

lemma next_cookie_neq: "c < MAX_COOKIE \<Longrightarrow> next_cookie c \<noteq> c"
  by (auto simp: next_cookie_def word_le_nat_alt)

lemma id_split:
  fixes idx c :: u32
  assumes "idx AND PKT_BUFFER_MASK = idx" "c < MAX_COOKIE"
  shows "(idx OR push_bit 8 c) AND PKT_BUFFER_MASK = idx" "drop_bit 8 (idx OR push_bit 8 c) = c"
proof -
  have m: "(255::u32) = mask 8" by (simp add: mask_eq_exp_minus_1)
  have i: "take_bit 8 idx = idx" using assms(1) by (simp add: m take_bit_eq_mask)
  have c: "take_bit 24 c = c"
    using assms(2) by (simp add: word_unat_eq_iff unsigned_take_bit_eq word_less_nat_alt take_bit_nat_eq_self_iff)
  show "(idx OR push_bit 8 c) AND PKT_BUFFER_MASK = idx"
    unfolding m by (subst i [symmetric], rule bit_word_eqI, subst (2) i [symmetric]) (auto simp: bit_simps)
  show "drop_bit 8 (idx OR push_bit 8 c) = c"
    by (rule bit_word_eqI, subst i [symmetric], subst (1 2) c [symmetric]) (auto simp: bit_simps)
qed

lemma id_not_none:
  fixes idx c :: u32
  assumes "idx AND PKT_BUFFER_MASK = idx" "c < MAX_COOKIE"
  shows "idx OR push_bit 8 c \<noteq> UINT32_MAX"
proof
  assume "idx OR push_bit 8 c = UINT32_MAX"
  then have "c = drop_bit 8 UINT32_MAX" using id_split(2) [OF assms] by simp
  then show False using assms(2) by simp
qed

lemma id_eqI:
  fixes i j :: u32
  assumes "i AND PKT_BUFFER_MASK = j AND PKT_BUFFER_MASK" "drop_bit 8 i = drop_bit 8 j"
  shows "i = j"
proof -
  have m: "(255::u32) = mask 8" by (simp add: mask_eq_exp_minus_1)
  show ?thesis
    using assms unfolding m take_bit_eq_mask [symmetric]
    by (metis bits_ident)
qed

lemma save_buffer_cases:
  assumes "buffers_inv s" "save_buffer now b s = (s', i)"
  obtains "i = UINT32_MAX" "buffers s' = buffers s"
  | n where "n AND PKT_BUFFER_MASK = n" "i AND PKT_BUFFER_MASK = n" "i \<noteq> UINT32_MAX"
      "drop_bit 8 i = next_cookie (pb_cookie (buffers s ! unat n))"
      "buffers s' = (buffers s)[unat n := \<lparr>pb_buffer = Some (ofpbuf_clone b),
         pb_cookie = next_cookie (pb_cookie (buffers s ! unat n)), pb_timeout = now + OVERWRITE_SECS\<rparr>]"
proof -
  define n where "n = (buffer_idx s + 1) AND PKT_BUFFER_MASK"
  define p where "p = buffers s ! unat n"
  have n: "n AND PKT_BUFFER_MASK = n" by (simp add: n_def and.assoc)
  have "unat n < length (buffers s)"
    using assms(1) mask_less [of "buffer_idx s + 1"] by (simp add: n_def buffers_inv_def)
  then have c: "next_cookie (pb_cookie p) < MAX_COOKIE"
    using assms(1) next_cookie_less by (simp add: buffers_inv_def list_all_length p_def)
  show thesis
  proof (cases "pb_buffer p \<noteq> None \<and> now < pb_timeout p")
    case True
    then have "i = UINT32_MAX" "buffers s' = buffers s"
      using assms(2) by (auto simp: save_buffer_def Let_def n_def p_def)
    then show thesis by (rule that(1))
  next
    case False
    then have e: "i = n OR push_bit 8 (next_cookie (pb_cookie p))"
      "buffers s' = (buffers s)[unat n := \<lparr>pb_buffer = Some (ofpbuf_clone b),
         pb_cookie = next_cookie (pb_cookie p), pb_timeout = now + OVERWRITE_SECS\<rparr>]"
      using assms(2) by (auto simp: save_buffer_def Let_def n_def p_def)
    have i: "i AND PKT_BUFFER_MASK = n" "i \<noteq> UINT32_MAX" "drop_bit 8 i = next_cookie (pb_cookie p)"
      unfolding e(1) by (fact id_split(1) [OF n c] id_not_none [OF n c] id_split(2) [OF n c])+
    show thesis
      by (rule that(2) [OF n i(1,2) i(3) [unfolded p_def] e(2) [unfolded p_def]])
  qed
qed

lemma buffers_inv_update:
  "buffers_inv s \<Longrightarrow> buffers s' = (buffers s)[n := p] \<Longrightarrow> pb_cookie p < MAX_COOKIE \<Longrightarrow> buffers_inv s'"
  unfolding buffers_inv_def list_all_iff using set_update_subset_insert [of "buffers s" n p] by auto

lemma cookie_less:
  "buffers_inv s \<Longrightarrow> pb_cookie (buffers s ! unat (i AND PKT_BUFFER_MASK)) < MAX_COOKIE"
  using mask_less [of i] by (simp add: buffers_inv_def list_all_length)

lemma none_not_held: "buffers_inv s \<Longrightarrow> held s UINT32_MAX = None"
  using cookie_less [of s UINT32_MAX] by (auto simp: held_def Let_def)

lemma held_update:
  assumes "buffers_inv s" "n AND PKT_BUFFER_MASK = n" "buffers s' = (buffers s)[unat n := p]"
  shows "held s' j =
    (if buffer_slot j = n then if pb_cookie p = drop_bit 8 j then pb_buffer p else None else held s j)"
proof -
  have "unat n < length (buffers s)" using assms(1,2) mask_less [of n] by (simp add: buffers_inv_def)
  then show ?thesis
    using assms(3) by (auto simp: held_def Let_def buffer_slot_def nth_list_update word_unat_eq_iff)
qed

lemma release_held:
  assumes "buffers_inv s" "n = i AND PKT_BUFFER_MASK" "pb_cookie (buffers s ! unat n) = drop_bit 8 i"
    "buffers s' = (buffers s)[unat n := (buffers s ! unat n)\<lparr>pb_buffer := None\<rparr>]"
  shows "held s' = (held s)(i := None)"
proof
  fix j
  have n: "n AND PKT_BUFFER_MASK = n" using assms(2) by (simp add: and.assoc)
  have u: "held s' j = (if buffer_slot j = n then None else held s j)"
    using held_update [OF assms(1) n assms(4), of j] by simp
  have "j = i" if "buffer_slot j = n" "held s j \<noteq> None"
  proof -
    have "pb_cookie (buffers s ! unat n) = drop_bit 8 j"
      using that by (auto simp: held_def Let_def buffer_slot_def split: if_splits)
    then show ?thesis
      using id_eqI [of j i] that(1) assms(2,3) unfolding buffer_slot_def by metis
  qed
  moreover have "buffer_slot i = n" by (simp add: buffer_slot_def assms(2))
  ultimately show "held s' j = ((held s)(i := None)) j"
    using u by (metis fun_upd_apply)
qed

interpretation pkts: packet_store buffers_inv held save_buffer retrieve_buffer discard_buffer buffer_slot
proof unfold_locales
  fix s s' :: pkt_buffers and now b i r
  assume inv: "buffers_inv s"
  show "buffers_inv s'" if "save_buffer now b s = (s', i)"
  proof (rule save_buffer_cases [OF inv that])
    assume "buffers s' = buffers s"
    then show ?thesis using inv by (simp add: buffers_inv_def)
  next
    fix n
    assume "n AND PKT_BUFFER_MASK = n" "buffers s' = (buffers s)[unat n := \<lparr>pb_buffer = Some (ofpbuf_clone b),
         pb_cookie = next_cookie (pb_cookie (buffers s ! unat n)), pb_timeout = now + OVERWRITE_SECS\<rparr>]"
    then show ?thesis
      using buffers_inv_update [OF inv] next_cookie_less [OF cookie_less [OF inv, of n]] by simp
  qed
  show "held s' = held s" if "save_buffer now b s = (s', UINT32_MAX)"
    using save_buffer_cases [OF inv that] by (metis held_def ext)
  show "held s' = (\<lambda>j. if j = i then Some (ofpbuf_clone b) else if buffer_slot j = buffer_slot i then None
      else held s j)" if sv: "save_buffer now b s = (s', i)" and i: "i \<noteq> UINT32_MAX"
  proof (rule save_buffer_cases [OF inv sv])
    assume "i = UINT32_MAX"
    then show ?thesis using i by simp
  next
    fix n
    assume n: "n AND PKT_BUFFER_MASK = n" "i AND PKT_BUFFER_MASK = n"
      "drop_bit 8 i = next_cookie (pb_cookie (buffers s ! unat n))"
      and s': "buffers s' = (buffers s)[unat n := \<lparr>pb_buffer = Some (ofpbuf_clone b),
         pb_cookie = next_cookie (pb_cookie (buffers s ! unat n)), pb_timeout = now + OVERWRITE_SECS\<rparr>]"
    show ?thesis
    proof
      fix j
      show "held s' j = (if j = i then Some (ofpbuf_clone b) else if buffer_slot j = buffer_slot i then None
        else held s j)"
      proof (cases "buffer_slot j = n")
        case True
        then have "j = i \<longleftrightarrow> next_cookie (pb_cookie (buffers s ! unat n)) = drop_bit 8 j"
          using id_eqI [of j i] n(2,3) unfolding buffer_slot_def by metis
        then show ?thesis
          using held_update [OF inv n(1) s', of j] True n(2) by (simp add: buffer_slot_def)
      next
        case False
        then show ?thesis
          using held_update [OF inv n(1) s', of j] n(2) by (auto simp: buffer_slot_def)
      qed
    qed
  qed
  show "held s i = None" if sv: "save_buffer now b s = (s', i)" and i: "i \<noteq> UINT32_MAX"
    using save_buffer_cases [OF inv sv] i next_cookie_neq [OF cookie_less [OF inv, of i]]
    unfolding held_def Let_def by metis
  show "held s UINT32_MAX = None" using none_not_held [OF inv] .
  show "buffers_inv s'" if "retrieve_buffer i s = (s', r)"
    using that inv buffers_inv_update [OF inv, of s' "unat (i AND PKT_BUFFER_MASK)"] cookie_less [OF inv, of i]
    by (auto simp: retrieve_buffer_def Let_def split: if_splits)
  have keep: "(held s)(i := None) = held s"
    if "pb_cookie (buffers s ! unat (i AND PKT_BUFFER_MASK)) \<noteq> drop_bit 8 i"
    using that by (simp add: fun_eq_iff held_def)
  show "r = held s i \<and> held s' = (held s)(i := None)" if t: "retrieve_buffer i s = (s', r)"
  proof (cases "pb_cookie (buffers s ! unat (i AND PKT_BUFFER_MASK)) = drop_bit 8 i")
    case True
    then show ?thesis
      using t release_held [OF inv refl True, of s'] by (auto simp: retrieve_buffer_def Let_def held_def)
  next
    case False
    then show ?thesis
      using t keep [OF False] by (simp add: retrieve_buffer_def held_def)
  qed
  show "buffers_inv (discard_buffer i s)"
    using inv buffers_inv_update [OF inv, of "discard_buffer i s" "unat (i AND PKT_BUFFER_MASK)"]
      cookie_less [OF inv, of i]
    by (auto simp: discard_buffer_def Let_def split: if_splits)
  show "held (discard_buffer i s) = (held s)(i := None)"
  proof (cases "pb_cookie (buffers s ! unat (i AND PKT_BUFFER_MASK)) = drop_bit 8 i")
    case True
    then show ?thesis
      using release_held [OF inv refl True, of "discard_buffer i s"]
      by (simp add: discard_buffer_def Let_def)
  next
    case False
    then show ?thesis
      using keep [OF False] by (simp add: discard_buffer_def)
  qed
qed

lemma no_buffers_inv: "buffers_inv no_buffers" "held no_buffers = (\<lambda>_. None)"
  using mask_less by (auto simp: buffers_inv_def no_buffers_def held_def Let_def list_all_iff fun_eq_iff)

end
