(* ===== verification/OF_Datapath.thy ===== *)
theory OF_Datapath
  imports OF_Chain OF_Act OF_Pkt_Buffer
begin

unbundle bit_operations_syntax

text \<open>
  The state of the datapath, \<open>udatapath/datapath.h\<close> and \<open>udatapath/datapath.c\<close>: ports and queues,
  connections to controllers with the part of \<open>lib/rconn.c\<close> that queues a message, and the
  functions that build and send the messages of the switch.

  What the operating system decides is an argument: the record \<open>env\<close> has the cached clock, the
  allocator, the outcome of each transmission and of each device operation, and the values that
  uninitialised automatic variables happen to have. Transmitted frames are appended to \<open>wire\<close>.
  A \<open>struct sw_port *\<close> is a \<open>port_ref\<close>, a \<open>struct remote *\<close> a position in the list of remotes.
\<close>

section \<open>Constants\<close>

abbreviation (input) OFPPR_ADD :: u8 where "OFPPR_ADD \<equiv> 0"
abbreviation (input) OFPST_DESC :: u16 where "OFPST_DESC \<equiv> 0"
abbreviation (input) OFPST_FLOW :: u16 where "OFPST_FLOW \<equiv> 1"
abbreviation (input) OFPST_AGGREGATE :: u16 where "OFPST_AGGREGATE \<equiv> 2"
abbreviation (input) OFPST_TABLE :: u16 where "OFPST_TABLE \<equiv> 3"
abbreviation (input) OFPST_PORT :: u16 where "OFPST_PORT \<equiv> 4"
abbreviation (input) OFPST_QUEUE :: u16 where "OFPST_QUEUE \<equiv> 5"
abbreviation (input) OFPST_VENDOR :: u16 where "OFPST_VENDOR \<equiv> 0xffff"
abbreviation (input) OFPSF_REPLY_MORE :: u16 where "OFPSF_REPLY_MORE \<equiv> 1"
abbreviation (input) OFPQ_ALL :: u32 where "OFPQ_ALL \<equiv> 0xffffffff"
abbreviation (input) OFPQT_MIN_RATE :: u16 where "OFPQT_MIN_RATE \<equiv> 1"
abbreviation (input) DESC_STR_LEN :: nat where "DESC_STR_LEN \<equiv> 256"
abbreviation (input) SERIAL_NUM_LEN :: nat where "SERIAL_NUM_LEN \<equiv> 32"
abbreviation (input) OFP_MAX_TABLE_NAME_LEN :: nat where "OFP_MAX_TABLE_NAME_LEN \<equiv> 32"
abbreviation (input) OFP_MAX_PORT_NAME_LEN :: nat where "OFP_MAX_PORT_NAME_LEN \<equiv> 16"
abbreviation (input) DP_MAX_PORTS :: nat where "DP_MAX_PORTS \<equiv> 255"
abbreviation (input) NETDEV_MAX_QUEUES :: nat where "NETDEV_MAX_QUEUES \<equiv> 8"
abbreviation (input) SWP_USED :: u32 where "SWP_USED \<equiv> 1"
abbreviation (input) TXQ_LIMIT :: int where "TXQ_LIMIT \<equiv> 128"

text \<open>Flow, table, port and queue statistics and matching of ARP addresses.\<close>

abbreviation (input) OFP_SUPPORTED_CAPABILITIES :: u32 where "OFP_SUPPORTED_CAPABILITIES \<equiv> 0xc7"

text \<open>Every action but \<open>SET_NW_TOS\<close>.\<close>

abbreviation (input) OFP_SUPPORTED_ACTIONS :: u32 where "OFP_SUPPORTED_ACTIONS \<equiv> 0xeff"

section \<open>Ports and queues\<close>

text \<open>A network device as \<open>lib/netdev.c\<close> presents it.\<close>

record netdev =
  nd_name :: bytes
  nd_etheraddr :: eth_addr
  nd_mtu :: nat
  nd_curr :: u32
  nd_supported :: u32
  nd_advertised :: u32
  nd_peer :: u32

text \<open>The back pointer \<open>port\<close> of a queue is null or points to the port the queue is in.\<close>

record sw_queue =
  q_tx_packets :: u64
  q_tx_bytes :: u64
  q_tx_errors :: u64
  queue_id :: u32
  class_id :: u16
  q_port :: bool
  q_property :: u16
  min_rate :: u16

text \<open>
  A port that has never been opened is all zeros. In particular the links of its \<open>queue_list\<close> are
  null pointers, not an empty list, so that walking the list is an access through a null pointer.
\<close>

record sw_port =
  config :: u32
  port_state :: u32
  port_flags :: u32
  netdev :: "netdev option"
  rx_packets :: u64
  tx_packets :: u64
  rx_bytes :: u64
  tx_bytes :: u64
  tx_dropped :: u64
  port_no :: u16
  num_queues :: u16
  queues :: "sw_queue list"
  queue_list :: "nat list option"

definition zero_queue :: sw_queue where
  "zero_queue = \<lparr>q_tx_packets = 0, q_tx_bytes = 0, q_tx_errors = 0, queue_id = 0, class_id = 0,
     q_port = False, q_property = 0, min_rate = 0\<rparr>"

definition zero_port :: sw_port where
  "zero_port = \<lparr>config = 0, port_state = 0, port_flags = 0, netdev = None, rx_packets = 0, tx_packets = 0,
     rx_bytes = 0, tx_bytes = 0, tx_dropped = 0, port_no = 0, num_queues = 0,
     queues = replicate NETDEV_MAX_QUEUES zero_queue, queue_list = None\<rparr>"

definition PORT_IN_USE :: "sw_port \<Rightarrow> bool" where
  "PORT_IN_USE p \<longleftrightarrow> port_flags p AND SWP_USED \<noteq> 0"

datatype port_ref = Phys nat | Local

section \<open>Connections\<close>

record sender =
  s_remote :: nat
  s_xid :: u32

text \<open>What a statistics request in progress remembers; see \<open>OF_Stats\<close>.\<close>

datatype stats_state =
    No_state
  | Flow_state int sw_table_position bytes
  | Aggregate_state bytes
  | Port_state int int
  | Queue_state u16 u32

record stats_dump_cb =
  cb_done :: bool
  cb_sender :: sender
  cb_type :: u16
  cb_state :: stats_state

text \<open>
  A \<open>struct remote\<close> and its connection, with the part of \<open>struct rconn\<close> that \<open>datapath.c\<close> relies on: the queue of
  messages and whether the connection is up. \<open>OF_Rconn\<close> has the whole of it. \<open>txq\<close> has the messages accepted but not yet handed to the
  vconn, \<open>sent\<close> those handed over, \<open>rxq\<close> those that \<open>rconn_recv\<close> will return. \<open>vconn_ready\<close>
  says whether \<open>vconn_send\<close> takes a message now or returns \<open>EAGAIN\<close>.
\<close>

record remote =
  connected :: bool
  alive :: bool
  vconn_ready :: bool
  n_txq :: int
  txq :: "bytes list"
  sent :: "bytes list"
  rxq :: "bytes list"
  cb_dump :: "stats_dump_cb option"

definition try_send :: "remote \<Rightarrow> remote" where
  "try_send r =
     (case txq r of
        [] \<Rightarrow> r
      | m # ms \<Rightarrow>
          if vconn_ready r then r\<lparr>n_txq := n_txq r - 1, txq := ms, sent := sent r @ [m]\<rparr> else r)"

definition rconn_send :: "remote \<Rightarrow> bytes \<Rightarrow> remote \<times> int" where
  "rconn_send r b =
     (if connected r then
        let r = r\<lparr>n_txq := n_txq r + 1, txq := txq r @ [b]\<rparr>
        in (if length (txq r) = 1 then try_send r else r, 0)
      else (r, ENOTCONN))"

definition rconn_send_with_limit :: "remote \<Rightarrow> bytes \<Rightarrow> int \<Rightarrow> remote \<times> int" where
  "rconn_send_with_limit r b queue_limit =
     (if n_txq r \<ge> queue_limit then (r, EAGAIN) else rconn_send r b)"

section \<open>The datapath\<close>

record datapath =
  remotes :: "remote list"
  listeners :: "nat list"
  last_timeout :: int
  dp_id :: u64
  dp_desc :: bytes
  chain :: sw_chain
  dp_flags :: u16
  miss_send_len :: u16
  ports :: "sw_port list"
  local_port :: "sw_port option"
  port_list :: "port_ref list"
  pkts :: pkt_buffers
  wire :: "(netdev \<times> bytes \<times> u16 \<times> bool) list"

text \<open>
  \<open>send_ok n\<close> is the outcome of transmission number \<open>n\<close>. Device operations give an error number,
  zero for success.
\<close>

record env =
  time_now :: int
  time_msec :: u64
  alloc :: allocator
  acts_alloc :: acts_allocator
  send_ok :: "nat \<Rightarrow> bool"
  uninit_key :: sw_flow_key
  open_dev :: "bytes \<Rightarrow> int + netdev"
  set_etheraddr_error :: "netdev \<Rightarrow> int"
  set_flags_error :: "netdev \<Rightarrow> int"
  slicing_error :: "netdev \<Rightarrow> u16 \<Rightarrow> int"
  setup_class_error :: "netdev \<Rightarrow> u16 \<Rightarrow> u16 \<Rightarrow> int"
  change_class_error :: "netdev \<Rightarrow> u16 \<Rightarrow> u16 \<Rightarrow> int"
  mfr_desc :: bytes
  hw_desc :: bytes
  sw_desc :: bytes
  serial_num :: bytes

definition dp_lookup_port :: "datapath \<Rightarrow> u16 \<Rightarrow> port_ref option" where
  "dp_lookup_port dp n =
     (if unat n < DP_MAX_PORTS then Some (Phys (unat n))
      else if n = OFPP_LOCAL then map_option (\<lambda>_. Local) (local_port dp)
      else None)"

definition port_at :: "datapath \<Rightarrow> port_ref \<Rightarrow> sw_port" where
  "port_at dp r =
     (case r of
        Phys i \<Rightarrow> ports dp ! i
      | Local \<Rightarrow> (case local_port dp of Some p \<Rightarrow> p | None \<Rightarrow> zero_port))"

definition set_port :: "datapath \<Rightarrow> port_ref \<Rightarrow> sw_port \<Rightarrow> datapath" where
  "set_port dp r p =
     (case r of
        Phys i \<Rightarrow> dp\<lparr>ports := (ports dp)[i := p]\<rparr>
      | Local \<Rightarrow> dp\<lparr>local_port := Some p\<rparr>)"

text \<open>A queue is its position in the array \<open>queues\<close> of its port.\<close>

definition port_queues :: "sw_port \<Rightarrow> nat list result" where
  "port_queues p = (case queue_list p of Some qs \<Rightarrow> Ok qs | None \<Rightarrow> Fail Bad_access)"

definition dp_lookup_queue :: "sw_port \<Rightarrow> u32 \<Rightarrow> nat option result" where
  "dp_lookup_queue p n = mapR (find (\<lambda>i. queue_id (queues p ! i) = n)) (port_queues p)"

section \<open>Building and sending messages\<close>

definition put_openflow_xid :: "nat \<Rightarrow> u8 \<Rightarrow> u32 \<Rightarrow> bytes \<Rightarrow> bytes result" where
  "put_openflow_xid openflow_len type xid buffer =
     guardR (openflow_len \<ge> 8 \<and> openflow_len \<le> 0xffff) Assertion
       (Ok (buffer @ [OFP_VERSION, type] @ le_bytes 2 (htons (of_nat openflow_len)) @ le_bytes 4 xid @
            replicate (openflow_len - 8) 0))"

definition make_openflow_xid :: "nat \<Rightarrow> u8 \<Rightarrow> u32 \<Rightarrow> bytes result" where
  "make_openflow_xid openflow_len type xid = put_openflow_xid openflow_len type xid []"

definition update_openflow_length :: "bytes \<Rightarrow> bytes result" where
  "update_openflow_length buffer =
     guardR (length buffer \<ge> 8) Assertion (Ok (st16 buffer 2 (htons (of_nat (length buffer)))))"

definition make_openflow_reply :: "nat \<Rightarrow> u8 \<Rightarrow> sender option \<Rightarrow> bytes result" where
  "make_openflow_reply openflow_len type sender =
     make_openflow_xid openflow_len type (case sender of Some s \<Rightarrow> s_xid s | None \<Rightarrow> 0)"

definition send_openflow_buffer_to_remote :: "datapath \<Rightarrow> bytes \<Rightarrow> nat \<Rightarrow> datapath \<times> int" where
  "send_openflow_buffer_to_remote dp buffer i =
     (let (r, retval) = rconn_send_with_limit (remotes dp ! i) buffer TXQ_LIMIT
      in (dp\<lparr>remotes := (remotes dp)[i := r]\<rparr>, retval))"

definition send_openflow_buffer :: "datapath \<Rightarrow> bytes \<Rightarrow> sender option \<Rightarrow> (datapath \<times> int) result" where
  "send_openflow_buffer dp buffer sender =
     bindR (update_openflow_length buffer)
       (\<lambda>buffer.
          case sender of
            Some s \<Rightarrow> Ok (send_openflow_buffer_to_remote dp buffer (s_remote s))
          | None \<Rightarrow>
              Ok (fold (\<lambda>i dp. fst (send_openflow_buffer_to_remote dp buffer i))
                    [0..<length (remotes dp)] dp, 0))"

definition packet_in_header :: "nat \<Rightarrow> u32 \<Rightarrow> nat \<Rightarrow> u16 \<Rightarrow> u8 \<Rightarrow> bytes" where
  "packet_in_header msg_len buffer_id total_len in_prt rsn =
     [OFP_VERSION, OFPT_PACKET_IN] @ le_bytes 2 (htons (of_nat msg_len)) @ le_bytes 4 (htonl 0) @
     le_bytes 4 (htonl buffer_id) @ le_bytes 2 (htons (of_nat total_len)) @ le_bytes 2 (htons in_prt) @
     [rsn, 0]"

definition dp_output_control ::
  "env \<Rightarrow> datapath \<Rightarrow> ofpbuf \<Rightarrow> u16 \<Rightarrow> nat \<Rightarrow> u8 \<Rightarrow> datapath result" where
  "dp_output_control env dp buffer in_prt max_len rsn =
     (let (pk, buffer_id) = save_buffer (time_now env) buffer (pkts dp);
          dp = dp\<lparr>pkts := pk\<rparr>;
          total_len = size_of buffer;
          buffer = (if buffer_id \<noteq> UINT32_MAX \<and> size_of buffer > max_len
                    then buffer\<lparr>data := take max_len (data buffer)\<rparr> else buffer)
      in bindR (ofpbuf_push_uninit buffer 18)
           (\<lambda>buffer.
              let opi = packet_in_header (size_of buffer) buffer_id total_len in_prt rsn
              in mapR fst (send_openflow_buffer dp (overwrite (data buffer) 0 opi) None)))"

definition dp_send_error_msg ::
  "datapath \<Rightarrow> sender option \<Rightarrow> u16 \<Rightarrow> u16 \<Rightarrow> bytes \<Rightarrow> datapath result" where
  "dp_send_error_msg dp sender type code d =
     bindR (make_openflow_reply (12 + length d) OFPT_ERROR sender)
       (\<lambda>oem.
          let oem = st16 (st16 oem 8 (htons type)) 10 (htons code)
          in mapR fst (send_openflow_buffer dp (overwrite oem 12 d) sender))"

text \<open>The seconds and nanoseconds of a duration in milliseconds; both computed in unsigned arithmetic.\<close>

definition duration_sec :: "u64 \<Rightarrow> u32" where
  "duration_sec tdiff = ucast (tdiff div 1000)"

definition duration_nsec :: "u64 \<Rightarrow> u32" where
  "duration_nsec tdiff = ucast ((tdiff - ucast (duration_sec tdiff * 1000)) * 1000000)"

definition flow_removed_body :: "sw_flow \<Rightarrow> u8 \<Rightarrow> u64 \<Rightarrow> bytes" where
  "flow_removed_body flow rsn tdiff =
     ofp_match_bytes (flow_fill_match (kflow (key flow)) (wildcards (key flow))) @
     le_bytes 8 (htonll (cookie flow)) @ le_bytes 2 (htons (priority flow)) @ [rsn, 0] @
     le_bytes 4 (htonl (duration_sec tdiff)) @ le_bytes 4 (htonl (duration_nsec tdiff)) @
     le_bytes 2 (htons (idle_timeout flow)) @ [0, 0] @
     le_bytes 8 (htonll (packet_count flow)) @ le_bytes 8 (htonll (byte_count flow))"

definition dp_send_flow_end_result :: "env \<Rightarrow> datapath \<Rightarrow> sw_flow \<Rightarrow> u8 \<Rightarrow> datapath result" where
  "dp_send_flow_end_result env dp flow rsn =
     (let tdiff = time_msec env - created flow
      in if send_flow_rem flow = 0 then Ok dp
         else if emerg_flow flow \<noteq> 0 then Ok dp
         else
           bindR (make_openflow_xid 88 OFPT_FLOW_REMOVED 0)
             (\<lambda>ofr. mapR fst (send_openflow_buffer dp
                       (overwrite ofr 8 (flow_removed_body flow rsn tdiff)) None)))"

text \<open>The message has a fixed size, so sending it cannot fail; see \<open>dp_send_flow_end_Ok\<close>.\<close>

definition dp_send_flow_end :: "env \<Rightarrow> datapath flow_end" where
  "dp_send_flow_end env dp flow rsn =
     (case dp_send_flow_end_result env dp flow rsn of Ok dp' \<Rightarrow> dp' | Fail _ \<Rightarrow> dp)"

text \<open>\<open>strncpy\<close> of a string into a field of \<open>n\<close> bytes: the string up to its terminator, then zeros.\<close>

definition strncpy :: "nat \<Rightarrow> bytes \<Rightarrow> bytes" where
  "strncpy n src = (let t = take n (takeWhile (\<lambda>c. c \<noteq> 0) src) in t @ replicate (n - length t) 0)"

text \<open>A field that is cut off by a terminator in its last byte.\<close>

definition terminated :: "bytes \<Rightarrow> bytes" where
  "terminated s = butlast s @ [0]"

definition fill_port_desc :: "sw_port \<Rightarrow> bytes" where
  "fill_port_desc p =
     le_bytes 2 (htons (port_no p)) @
     (case netdev p of
        Some nd \<Rightarrow> ea_bytes (nd_etheraddr nd) @ terminated (strncpy OFP_MAX_PORT_NAME_LEN (nd_name nd))
      | None \<Rightarrow> replicate 22 0) @
     le_bytes 4 (htonl (config p)) @ le_bytes 4 (htonl (port_state p)) @
     (case netdev p of
        Some nd \<Rightarrow> le_bytes 4 (htonl (nd_curr nd)) @ le_bytes 4 (htonl (nd_advertised nd)) @
                   le_bytes 4 (htonl (nd_supported nd)) @ le_bytes 4 (htonl (nd_peer nd))
      | None \<Rightarrow> replicate 16 0)"

definition send_port_status :: "datapath \<Rightarrow> sw_port \<Rightarrow> u8 \<Rightarrow> datapath result" where
  "send_port_status dp p status =
     bindR (make_openflow_xid 64 OFPT_PORT_STATUS 0)
       (\<lambda>ops. mapR fst (send_openflow_buffer dp
                 (overwrite (st8 ops 8 status) 16 (fill_port_desc p)) None))"

section \<open>Setting up a datapath\<close>

text \<open>
  \<open>random_id\<close> is the result of \<open>gen_datapath_id\<close>, \<open>desc\<close> the description from the command line
  or, when that is empty, from the host name.
\<close>

definition gen_datapath_id :: "eth_addr \<Rightarrow> u64" where
  "gen_datapath_id ea =
     (case ea of EA a b c d e f \<Rightarrow> eth_addr_to_uint64 (EA 0x00 0x23 0x20 d e f))"

definition dp_new ::
  "env \<Rightarrow> (nat \<Rightarrow> allocator) \<Rightarrow> eth_addr \<Rightarrow> bytes \<Rightarrow> u64 \<Rightarrow> pkt_buffers \<Rightarrow> (datapath option \<times> int) result" where
  "dp_new env allocs random_ea desc dpid pk =
     bindR (chain_create allocs)
       (\<lambda>c. case c of
          None \<Rightarrow> Ok (None, ENOMEM)
        | Some ch \<Rightarrow>
            Ok (Some \<lparr>remotes = [], listeners = [], last_timeout = time_now env,
                  dp_id = (if dpid \<le> 0xffffffffffff then dpid else gen_datapath_id random_ea),
                  dp_desc = strncpy DESC_STR_LEN desc, chain = ch, dp_flags = 0,
                  miss_send_len = OFP_DEFAULT_MISS_SEND_LEN,
                  ports = replicate DP_MAX_PORTS zero_port, local_port = None, port_list = [],
                  pkts = pk, wire = []\<rparr>, 0))"

text \<open>
  Opens a device for the port \<open>r\<close>. An address that cannot be set is only logged. The port is
  announced to every connection.
\<close>

definition new_port ::
  "env \<Rightarrow> datapath \<Rightarrow> port_ref \<Rightarrow> u16 \<Rightarrow> bytes \<Rightarrow> eth_addr option \<Rightarrow> u16 \<Rightarrow> (datapath \<times> int) result" where
  "new_port env dp r no netdev_name new_mac n_queues =
     (case open_dev env netdev_name of
        Inl err \<Rightarrow> Ok (dp, err)
      | Inr nd \<Rightarrow>
          let nd = (case new_mac of
                      Some ea \<Rightarrow> if \<not> eth_addr_equals (nd_etheraddr nd) ea \<and> set_etheraddr_error env nd = 0
                                  then nd\<lparr>nd_etheraddr := ea\<rparr> else nd
                    | None \<Rightarrow> nd)
          in if set_flags_error env nd \<noteq> 0 then Ok (dp, set_flags_error env nd)
             else if n_queues > 0 \<and> slicing_error env nd n_queues \<noteq> 0
                  then Ok (dp, slicing_error env nd n_queues)
             else
               let p = zero_port\<lparr>port_flags := SWP_USED, netdev := Some nd, port_no := no,
                                  num_queues := n_queues, queue_list := Some []\<rparr>;
                   dp = (set_port dp r p)\<lparr>port_list := port_list dp @ [r]\<rparr>
               in bindR (send_port_status dp p OFPPR_ADD) (\<lambda>dp. Ok (dp, 0)))"

text \<open>The first port from number 1 on that has no device.\<close>

definition dp_add_port :: "env \<Rightarrow> datapath \<Rightarrow> bytes \<Rightarrow> u16 \<Rightarrow> (datapath \<times> int) result" where
  "dp_add_port env dp netdev_name n_queues =
     (case find (\<lambda>i. netdev (ports dp ! i) = None) [1..<DP_MAX_PORTS] of
        Some i \<Rightarrow> new_port env dp (Phys i) (of_nat i) netdev_name None n_queues
      | None \<Rightarrow> Ok (dp, EXFULL))"

definition dp_add_local_port :: "env \<Rightarrow> datapath \<Rightarrow> bytes \<Rightarrow> u16 \<Rightarrow> (datapath \<times> int) result" where
  "dp_add_local_port env dp netdev_name n_queues =
     (if local_port dp = None then
        new_port env dp Local OFPP_LOCAL netdev_name (Some (eth_addr_from_uint64 (dp_id dp))) n_queues
      else Ok (dp, EXFULL))"

definition dp_add_pvconn :: "datapath \<Rightarrow> nat \<Rightarrow> datapath" where
  "dp_add_pvconn dp pvconn = dp\<lparr>listeners := listeners dp @ [pvconn]\<rparr>"

definition remote_create :: "datapath \<Rightarrow> remote \<Rightarrow> datapath" where
  "remote_create dp rconn = dp\<lparr>remotes := remotes dp @ [rconn\<lparr>cb_dump := None, n_txq := 0\<rparr>]\<rparr>"

definition remote_destroy :: "datapath \<Rightarrow> nat \<Rightarrow> datapath" where
  "remote_destroy dp i = dp\<lparr>remotes := take i (remotes dp) @ drop (Suc i) (remotes dp)\<rparr>"

definition remote_start_dump :: "datapath \<Rightarrow> nat \<Rightarrow> stats_dump_cb \<Rightarrow> datapath result" where
  "remote_start_dump dp i cb =
     guardR (cb_dump (remotes dp ! i) = None) Assertion
       (Ok (dp\<lparr>remotes := (remotes dp)[i := (remotes dp ! i)\<lparr>cb_dump := Some cb\<rparr>]\<rparr>))"

end
