(* ===== verification/OF_Forward.thy ===== *)
theory OF_Forward
  imports OF_Datapath
begin

unbundle bit_operations_syntax

text \<open>
  Forwarding in \<open>udatapath/datapath.c\<close>: sending a packet to a port, to all ports, to the controller
  or back through the flow tables, and the path of a received packet. \<open>dp_output_port\<close>,
  \<open>output_all\<close>, \<open>run_flow_through_tables\<close> and \<open>execute_actions\<close> call each other; the depth of
  that recursion is bounded by a fuel argument, and running out of it is the failure \<open>No_return\<close>.
\<close>

text \<open>The class of the device to send to, and the queue if it is not the default one; none drops the packet.\<close>

definition packet_class :: "sw_port \<Rightarrow> u32 \<Rightarrow> (u16 \<times> nat option) option result" where
  "packet_class p q_id =
     (if q_id = 0 then Ok (Some (0, None))
      else mapR (map_option (\<lambda>i. (class_id (queues p ! i), Some i))) (dp_lookup_queue p q_id))"

text \<open>\<open>netdev_send\<close> and the counters that depend on its outcome.\<close>

definition count_sent :: "sw_port \<Rightarrow> nat option \<Rightarrow> u64 \<Rightarrow> sw_port" where
  "count_sent p q n =
     p\<lparr>tx_packets := tx_packets p + 1, tx_bytes := tx_bytes p + n,
       queues := (case q of
          None \<Rightarrow> queues p
        | Some i \<Rightarrow> (queues p)[i := (queues p ! i)\<lparr>q_tx_packets := q_tx_packets (queues p ! i) + 1,
                                                    q_tx_bytes := q_tx_bytes (queues p ! i) + n\<rparr>])\<rparr>"

definition transmit :: "env \<Rightarrow> datapath \<Rightarrow> ofpbuf \<Rightarrow> port_ref \<Rightarrow> netdev \<Rightarrow> u16 \<Rightarrow> nat option \<Rightarrow> datapath" where
  "transmit env dp buffer r nd cls q =
     (let p = port_at dp r;
          ok = send_ok env (length (wire dp))
      in set_port (dp\<lparr>wire := wire dp @ [(nd, data buffer, cls, ok)]\<rparr>) r
           (if ok then count_sent p q (of_nat (size_of buffer)) else p\<lparr>tx_dropped := tx_dropped p + 1\<rparr>))"

definition output_packet :: "env \<Rightarrow> datapath \<Rightarrow> ofpbuf \<Rightarrow> u16 \<Rightarrow> u32 \<Rightarrow> datapath result" where
  "output_packet env dp buffer out_port q_id =
     (case dp_lookup_port dp out_port of
        None \<Rightarrow> Ok dp
      | Some r \<Rightarrow>
          (case netdev (port_at dp r) of
             None \<Rightarrow> Ok dp
           | Some nd \<Rightarrow>
               if config (port_at dp r) AND OFPPC_PORT_DOWN \<noteq> 0 then Ok dp
               else
                 bindR (packet_class (port_at dp r) q_id)
                   (\<lambda>cq. case cq of
                      None \<Rightarrow> Ok dp
                    | Some (cls, q) \<Rightarrow>
                        guardR (unat cls \<le> NETDEV_MAX_QUEUES) Assertion
                          (Ok (transmit env dp buffer r nd cls q)))))"

text \<open>
  The loop over the ports of \<open>output_all\<close>. The packet for a port is sent, as a clone, when the
  next port to use is known, so that the last one gets the packet itself. \<open>out\<close> is
  \<open>dp_output_port\<close>.
\<close>

type_synonym port_output = "datapath \<Rightarrow> ofpbuf \<Rightarrow> u16 \<Rightarrow> u16 \<Rightarrow> u32 \<Rightarrow> bool \<Rightarrow> datapath result"

definition floods_to :: "sw_port \<Rightarrow> u16 \<Rightarrow> bool \<Rightarrow> bool" where
  "floods_to p in_prt flood \<longleftrightarrow>
     \<not> port_no p = in_prt \<and> \<not> (flood \<and> config p AND OFPPC_NO_FLOOD \<noteq> 0)"

primrec output_all_loop ::
  "port_output \<Rightarrow> ofpbuf \<Rightarrow> u16 \<Rightarrow> bool \<Rightarrow> port_ref list \<Rightarrow> datapath \<Rightarrow> u16 option \<Rightarrow>
   (datapath \<times> u16 option) result" where
  "output_all_loop out buffer in_prt flood [] dp prev = Ok (dp, prev)"
| "output_all_loop out buffer in_prt flood (r # rs) dp prev =
     (let p = port_at dp r
      in if floods_to p in_prt flood then
           bindR (case prev of
                    Some port \<Rightarrow> out dp (ofpbuf_clone buffer) in_prt port 0 False
                  | None \<Rightarrow> Ok dp)
             (\<lambda>dp. output_all_loop out buffer in_prt flood rs dp (Some (port_no p)))
         else output_all_loop out buffer in_prt flood rs dp prev)"

definition output_all :: "port_output \<Rightarrow> datapath \<Rightarrow> ofpbuf \<Rightarrow> u16 \<Rightarrow> bool \<Rightarrow> datapath result" where
  "output_all out dp buffer in_prt flood =
     bindR (output_all_loop out buffer in_prt flood (port_list dp) dp None)
       (\<lambda>(dp, prev).
          case prev of
            Some port \<Rightarrow> out dp buffer in_prt port 0 False
          | None \<Rightarrow> Ok dp)"

text \<open>\<open>do_output\<close> of \<open>udatapath/dp_act.c\<close>: what \<open>execute_actions\<close> calls for an output.\<close>

definition do_output :: "env \<Rightarrow> port_output \<Rightarrow> datapath output_fun" where
  "do_output env out dp buffer in_prt max_len out_port q_id ignore =
     (if out_port \<noteq> OFPP_CONTROLLER then out dp buffer in_prt out_port q_id ignore
      else dp_output_control env dp buffer in_prt max_len OFPR_ACTION)"

text \<open>
  The key of a received packet; the components of \<open>key\<close> that are not assigned keep what the stack
  held. A packet is dropped when it is a fragment and fragments are to be dropped, or when its
  port does not accept it.
\<close>

definition packet_key :: "env \<Rightarrow> flow \<Rightarrow> sw_flow_key" where
  "packet_key env fl = (uninit_key env)\<lparr>kflow := fl, wildcards := 0\<rparr>"

definition drop_fragment :: "datapath \<Rightarrow> int \<Rightarrow> bool" where
  "drop_fragment dp frag \<longleftrightarrow> frag \<noteq> 0 \<and> dp_flags dp AND OFPC_FRAG_MASK = OFPC_FRAG_DROP"

definition refuses :: "sw_port option \<Rightarrow> flow \<Rightarrow> bool" where
  "refuses p fl =
     (case p of
        None \<Rightarrow> False
      | Some p \<Rightarrow>
          config p AND (OFPPC_NO_RECV OR OFPPC_NO_RECV_STP) \<noteq> 0 \<and>
          config p AND (if \<not> eth_addr_equals (dl_dst fl) stp_eth_addr then OFPPC_NO_RECV
                        else OFPPC_NO_RECV_STP) \<noteq> 0)"

definition use_match :: "u64 \<Rightarrow> sw_chain \<Rightarrow> chain_ref \<Rightarrow> ofpbuf \<Rightarrow> sw_chain" where
  "use_match now ch r b = chain_set_flow ch r (flow_used now (chain_flow_at ch r) b)"

text \<open>Looking up a packet, counting it for the entry found and executing the actions of the entry.\<close>

definition apply_tables ::
  "env \<Rightarrow> port_output \<Rightarrow> datapath \<Rightarrow> ofpbuf \<Rightarrow> sw_flow_key \<Rightarrow> (datapath \<times> int) result" where
  "apply_tables env out dp buffer k =
     bindR (chain_lookup (chain dp) k False)
       (\<lambda>(ch, fr).
          case fr of
            Some fr \<Rightarrow>
              let ch = use_match (time_msec env) ch fr buffer
              in bindR (execute_actions (do_output env out) (dp\<lparr>chain := ch\<rparr>) buffer k
                          (sf_acts (chain_flow_at ch fr)) False)
                   (\<lambda>dp. Ok (dp, 0))
          | None \<Rightarrow> Ok (dp\<lparr>chain := ch\<rparr>, - ESRCH))"

text \<open>The result is the return value and the packet, whose layer pointers have been set.\<close>

definition run_flow_through_tables ::
  "env \<Rightarrow> port_output \<Rightarrow> datapath \<Rightarrow> ofpbuf \<Rightarrow> port_ref option \<Rightarrow> (datapath \<times> ofpbuf \<times> int) result" where
  "run_flow_through_tables env out dp buffer r =
     (let p = map_option (port_at dp) r;
          (frag, fl, buffer) = flow_extract buffer (case p of Some p \<Rightarrow> port_no p | None \<Rightarrow> OFPP_NONE)
      in if drop_fragment dp frag then Ok (dp, buffer, 0)
         else if refuses p fl then Ok (dp, buffer, 0)
         else mapR (\<lambda>(dp, e). (dp, buffer, e)) (apply_tables env out dp buffer (packet_key env fl)))"

primrec dp_output_port :: "env \<Rightarrow> nat \<Rightarrow> port_output" where
  "dp_output_port env 0 dp buffer in_prt out_port q_id ignore = Fail No_return"
| "dp_output_port env (Suc fuel) dp buffer in_prt out_port q_id ignore =
     (if out_port = OFPP_IN_PORT then output_packet env dp buffer in_prt q_id
      else if out_port = OFPP_TABLE then
        mapR fst (run_flow_through_tables env (dp_output_port env fuel) dp buffer (dp_lookup_port dp in_prt))
      else if out_port = OFPP_FLOOD then output_all (dp_output_port env fuel) dp buffer in_prt True
      else if out_port = OFPP_ALL then output_all (dp_output_port env fuel) dp buffer in_prt False
      else if out_port = OFPP_CONTROLLER then
        dp_output_control env dp buffer in_prt 0xffff OFPR_ACTION
      else if in_prt = out_port then Ok dp
      else output_packet env dp buffer out_port q_id)"

text \<open>A packet received on a port; no matching flow sends it to the controller.\<close>

definition fwd_port_input :: "env \<Rightarrow> nat \<Rightarrow> datapath \<Rightarrow> ofpbuf \<Rightarrow> port_ref \<Rightarrow> datapath result" where
  "fwd_port_input env fuel dp buffer r =
     bindR (run_flow_through_tables env (dp_output_port env fuel) dp buffer (Some r))
       (\<lambda>(dp, buffer, retval).
          if retval \<noteq> 0 then
            dp_output_control env dp buffer (port_no (port_at dp r)) (unat (miss_send_len dp)) OFPR_NO_MATCH
          else Ok dp)"

end
