(* ===== verification/OF_Control.thy ===== *)
theory OF_Control
  imports OF_Forward
begin

unbundle bit_operations_syntax

text \<open>
  The handlers of \<open>udatapath/datapath.c\<close> for the messages of a controller, apart from statistics
  and vendor messages. A message is the bytes of the received buffer. A handler takes the length
  of the message from its header, so each access is checked against the bytes that are there.
\<close>

section \<open>Reading a message\<close>

definition msg_length :: "bytes \<Rightarrow> nat" where
  "msg_length msg = unat (ntohs (ld16 msg 2))"

text \<open>The first \<open>ntohs(header.length)\<close> bytes, which an error message returns to the sender.\<close>

definition msg_bytes :: "bytes \<Rightarrow> bytes" where
  "msg_bytes msg = take (msg_length msg) msg"

text \<open>
  What follows the first \<open>off\<close> bytes. The subtraction \<open>ntohs(header.length) - off\<close> is unsigned: a
  header that claims less than \<open>off\<close> bytes gives a length no object has.
\<close>

definition msg_tail :: "bytes \<Rightarrow> nat \<Rightarrow> bytes result" where
  "msg_tail msg off =
     guardR (off \<le> msg_length msg \<and> msg_length msg \<le> length msg) Bad_access
       (Ok (drop off (msg_bytes msg)))"

section \<open>Configuration, features, barrier and echo\<close>

definition recv_copy :: "u8 \<Rightarrow> bytes \<Rightarrow> bytes result" where
  "recv_copy type msg =
     guardR (2 \<le> msg_length msg \<and> msg_length msg \<le> length msg) Bad_access (Ok (st8 (msg_bytes msg) 1 type))"

definition make_barrier_reply :: "bytes \<Rightarrow> bytes result" where
  "make_barrier_reply msg = recv_copy OFPT_BARRIER_REPLY msg"

definition recv_barrier_request :: "datapath \<Rightarrow> sender \<Rightarrow> bytes \<Rightarrow> (datapath \<times> int) result" where
  "recv_barrier_request dp sender msg =
     bindR (make_barrier_reply msg) (\<lambda>b. send_openflow_buffer dp b (Some sender))"

definition make_echo_reply :: "bytes \<Rightarrow> bytes result" where
  "make_echo_reply msg = recv_copy OFPT_ECHO_REPLY msg"

definition recv_echo_request :: "datapath \<Rightarrow> sender \<Rightarrow> bytes \<Rightarrow> (datapath \<times> int) result" where
  "recv_echo_request dp sender msg =
     bindR (make_echo_reply msg) (\<lambda>b. send_openflow_buffer dp b (Some sender))"

definition recv_echo_reply :: "datapath \<Rightarrow> sender \<Rightarrow> bytes \<Rightarrow> (datapath \<times> int) result" where
  "recv_echo_reply dp sender msg = Ok (dp, 0)"

definition dp_send_features_reply :: "datapath \<Rightarrow> sender \<Rightarrow> datapath result" where
  "dp_send_features_reply dp sender =
     bindR (make_openflow_reply 32 OFPT_FEATURES_REPLY (Some sender))
       (\<lambda>ofr.
          let body = le_bytes 8 (htonll (dp_id dp)) @ le_bytes 4 (htonl (of_nat N_PKT_BUFFERS)) @
                     [of_nat (length (tables (chain dp))), 0, 0, 0] @
                     le_bytes 4 (htonl OFP_SUPPORTED_CAPABILITIES) @
                     le_bytes 4 (htonl OFP_SUPPORTED_ACTIONS)
          in mapR fst (send_openflow_buffer dp
               (overwrite ofr 8 body @ concat (map (\<lambda>r. fill_port_desc (port_at dp r)) (port_list dp)))
               (Some sender)))"

definition recv_features_request :: "datapath \<Rightarrow> sender \<Rightarrow> bytes \<Rightarrow> (datapath \<times> int) result" where
  "recv_features_request dp sender msg = mapR (\<lambda>dp. (dp, 0)) (dp_send_features_reply dp sender)"

definition recv_get_config_request :: "datapath \<Rightarrow> sender \<Rightarrow> bytes \<Rightarrow> (datapath \<times> int) result" where
  "recv_get_config_request dp sender msg =
     bindR (make_openflow_reply 12 OFPT_GET_CONFIG_REPLY (Some sender))
       (\<lambda>osc. send_openflow_buffer dp
          (st16 (st16 osc 8 (htons (dp_flags dp))) 10 (htons (miss_send_len dp))) (Some sender))"

definition recv_set_config :: "datapath \<Rightarrow> sender \<Rightarrow> bytes \<Rightarrow> (datapath \<times> int) result" where
  "recv_set_config dp sender msg =
     guardR (12 \<le> length msg) Bad_access
       (let flgs = ntohs (ld16 msg 8) AND OFPC_FRAG_MASK;
            flgs = (if flgs AND OFPC_FRAG_MASK \<noteq> OFPC_FRAG_NORMAL \<and> flgs AND OFPC_FRAG_MASK \<noteq> OFPC_FRAG_DROP
                    then (flgs AND NOT OFPC_FRAG_MASK) OR OFPC_FRAG_DROP else flgs)
        in Ok (dp\<lparr>dp_flags := flgs, miss_send_len := ntohs (ld16 msg 10)\<rparr>, 0))"

section \<open>Ports\<close>

text \<open>The device of the port is read before it is known that the port has one.\<close>

definition update_port_flags :: "datapath \<Rightarrow> bytes \<Rightarrow> datapath result" where
  "update_port_flags dp opm =
     (case dp_lookup_port dp (ntohs (ld16 opm 8)) of
        None \<Rightarrow> Ok dp
      | Some r \<Rightarrow>
          let p = port_at dp r
          in case netdev p of
               None \<Rightarrow> Fail Bad_access
             | Some nd \<Rightarrow>
                 if ea_at opm 10 \<noteq> nd_etheraddr nd then Ok dp
                 else if ld32 opm 20 \<noteq> 0 then
                   let config_mask = ntohl (ld32 opm 20);
                       c = config p AND NOT config_mask
                   in Ok (set_port dp r (p\<lparr>config := c OR (ntohl (ld32 opm 16) AND config_mask)\<rparr>))
                 else Ok dp)"

definition recv_port_mod :: "datapath \<Rightarrow> sender \<Rightarrow> bytes \<Rightarrow> (datapath \<times> int) result" where
  "recv_port_mod dp sender msg =
     guardR (32 \<le> length msg) Bad_access (mapR (\<lambda>dp. (dp, 0)) (update_port_flags dp msg))"

section \<open>Packet out\<close>

definition recv_packet_out ::
  "env \<Rightarrow> nat \<Rightarrow> datapath \<Rightarrow> sender \<Rightarrow> bytes \<Rightarrow> (datapath \<times> int) result" where
  "recv_packet_out env fuel dp sender msg =
     bindR (msg_tail msg 16)
       (\<lambda>tl.
          let actions_len = unat (ntohs (ld16 msg 14));
              buffer_id = ntohl (ld32 msg 8)
          in if actions_len > length tl then Ok (dp, - EINVAL)
             else
               let acts = take actions_len tl;
                   (pk, buffer) =
                     (if buffer_id = UINT32_MAX
                      then (pkts dp, Some (ofpbuf_put (ofpbuf_new (length tl - actions_len)) (drop actions_len tl)))
                      else retrieve_buffer buffer_id (pkts dp));
                   dp = dp\<lparr>pkts := pk\<rparr>
               in case buffer of
                    None \<Rightarrow> Ok (dp, - ESRCH)
                  | Some buffer \<Rightarrow>
                      let (_, fl, buffer) = flow_extract buffer (ntohs (ld16 msg 12));
                          k = (uninit_key env)\<lparr>kflow := fl\<rparr>;
                          v_code = validate_actions k acts
                      in if v_code \<noteq> ACT_VALIDATION_OK then
                           bindR (dp_send_error_msg dp (Some sender) OFPET_BAD_ACTION v_code (msg_bytes msg))
                             (\<lambda>dp. Ok (dp, - EINVAL))
                         else
                           bindR (execute_actions (do_output env (dp_output_port env fuel)) dp buffer k acts True)
                             (\<lambda>dp. Ok (dp, 0)))"

section \<open>Flow modification\<close>

text \<open>
  After a successful insertion the C code goes on using its pointer to the new entry. The entry
  it points to is the first one, in the order the tables are tried, that an insertion of the
  same entry would replace; see \<open>chain_insert_entry\<close>.
\<close>

primrec table_entry :: "sw_table \<Rightarrow> sw_flow \<Rightarrow> flow_ref option" where
  "table_entry (Hash_table t) f =
     (if wildcards (key f) \<noteq> 0 then None else map_option (Pair 0) (table_hash_lookup t (key f)))"
| "table_entry (Hash2_table t) f =
     (if wildcards (key f) \<noteq> 0 then None else table_hash2_lookup t (key f))"
| "table_entry (Linear_table t) f =
     map_option (\<lambda>e. (0, fst e)) (find (\<lambda>e. same_entry (snd e) f) (l_flows t))"

primrec tables_entry :: "nat \<Rightarrow> sw_table list \<Rightarrow> sw_flow \<Rightarrow> chain_ref option" where
  "tables_entry i [] f = None"
| "tables_entry i (t # ts) f =
     (case table_entry t f of Some r \<Rightarrow> Some (Working i r) | None \<Rightarrow> tables_entry (i + 1) ts f)"

definition chain_entry :: "sw_chain \<Rightarrow> sw_flow \<Rightarrow> bool \<Rightarrow> chain_ref option" where
  "chain_entry ch f emerg =
     (if emerg then
        (case emerg_table ch of
           Some t \<Rightarrow> map_option Emergency (table_entry t f)
         | None \<Rightarrow> None)
      else tables_entry 0 (tables ch) f)"

definition chain_use_entry :: "u64 \<Rightarrow> sw_chain \<Rightarrow> sw_flow \<Rightarrow> bool \<Rightarrow> ofpbuf \<Rightarrow> sw_chain" where
  "chain_use_entry now ch f emerg buffer =
     (case chain_entry ch f emerg of
        Some r \<Rightarrow> chain_set_flow ch r (flow_used now (chain_flow_at ch r) buffer)
      | None \<Rightarrow> ch)"

text \<open>Fields of a \<open>struct ofp_flow_mod\<close>.\<close>

abbreviation (input) ofm_flags :: "bytes \<Rightarrow> u16" where "ofm_flags msg \<equiv> ntohs (ld16 msg 70)"
abbreviation (input) ofm_buffer_id :: "bytes \<Rightarrow> u32" where "ofm_buffer_id msg \<equiv> ntohl (ld32 msg 64)"
abbreviation (input) ofm_emerg :: "bytes \<Rightarrow> bool" where "ofm_emerg msg \<equiv> ofm_flags msg AND OFPFF_EMERG \<noteq> 0"
abbreviation (input) ofm_key :: "bytes \<Rightarrow> sw_flow_key" where
  "ofm_key msg \<equiv> flow_extract_match (ofp_match_at msg 8)"

definition ofm_priority :: "bytes \<Rightarrow> u16" where
  "ofm_priority msg = (if wildcards (ofm_key msg) \<noteq> 0 then ntohs (ld16 msg 62) else - 1)"

text \<open>The labels \<open>error_free_flow\<close> and \<open>error\<close>.\<close>

definition flow_mod_error :: "datapath \<Rightarrow> bytes \<Rightarrow> int \<Rightarrow> (datapath \<times> int) result" where
  "flow_mod_error dp msg err =
     Ok (if ofm_buffer_id msg \<noteq> UINT32_MAX then dp\<lparr>pkts := discard_buffer (ofm_buffer_id msg) (pkts dp)\<rparr>
         else dp, err)"

definition flow_mod_refuse ::
  "datapath \<Rightarrow> sender \<Rightarrow> bytes \<Rightarrow> u16 \<Rightarrow> u16 \<Rightarrow> int \<Rightarrow> (datapath \<times> int) result" where
  "flow_mod_refuse dp sender msg type code err =
     bindR (dp_send_error_msg dp (Some sender) type code (msg_bytes msg)) (\<lambda>dp. flow_mod_error dp msg err)"

text \<open>Filling out a flow from the message.\<close>

definition fill_out_flow :: "env \<Rightarrow> sw_flow \<Rightarrow> bytes \<Rightarrow> bytes \<Rightarrow> sw_flow result" where
  "fill_out_flow env flow msg acts =
     flow_setup_actions
       (flow\<lparr>cookie := ntohll (ld64 msg 48), idle_timeout := ntohs (ld16 msg 58),
             hard_timeout := ntohs (ld16 msg 60),
             send_flow_rem := (if ofm_flags msg AND OFPFF_SEND_FLOW_REM \<noteq> 0 then 1 else 0),
             emerg_flow := (if ofm_emerg msg then 1 else 0)\<rparr>)
       acts (time_msec env)"

text \<open>
  The buffered packet of a flow modification, processed with the actions of the message. \<open>used\<close>
  is the entry that \<open>add_flow\<close> counts the packet for.
\<close>

definition flow_mod_packet ::
  "env \<Rightarrow> nat \<Rightarrow> datapath \<Rightarrow> bytes \<Rightarrow> bytes \<Rightarrow> sw_flow option \<Rightarrow> (datapath \<times> int) result" where
  "flow_mod_packet env fuel dp msg acts usd =
     (if ofm_buffer_id msg \<noteq> UINT32_MAX then
        let (pk, buffer) = retrieve_buffer (ofm_buffer_id msg) (pkts dp);
            dp = dp\<lparr>pkts := pk\<rparr>
        in case buffer of
             Some buffer \<Rightarrow>
               let (_, fl, buffer) = flow_extract buffer (ntohs (ld16 msg 12));
                   k = (uninit_key env)\<lparr>kflow := fl\<rparr>;
                   dp = (case usd of
                           Some f \<Rightarrow> dp\<lparr>chain := chain_use_entry (time_msec env) (chain dp) f (ofm_emerg msg) buffer\<rparr>
                         | None \<Rightarrow> dp)
               in bindR (execute_actions (do_output env (dp_output_port env fuel)) dp buffer k acts False)
                    (\<lambda>dp. Ok (dp, 0))
           | None \<Rightarrow> Ok (dp, - ESRCH)
      else Ok (dp, 0))"

definition add_flow ::
  "env \<Rightarrow> nat \<Rightarrow> datapath \<Rightarrow> sender \<Rightarrow> bytes \<Rightarrow> (datapath \<times> int) result" where
  "add_flow env fuel dp sender msg =
     bindR (msg_tail msg 72)
       (\<lambda>acts.
          case flow_alloc (alloc env) (length acts) of
            None \<Rightarrow> flow_mod_error dp msg (- ENOMEM)
          | Some flow \<Rightarrow>
              let flow = flow\<lparr>key := ofm_key msg\<rparr>;
                  v_code = validate_actions (key flow) acts
              in if v_code \<noteq> ACT_VALIDATION_OK then
                   flow_mod_refuse dp sender msg OFPET_BAD_ACTION v_code (- ENOMEM)
                 else
                   let flow = flow\<lparr>priority := ofm_priority msg\<rparr>
                   in if ofm_flags msg AND OFPFF_CHECK_OVERLAP \<noteq> 0 \<and>
                         chain_has_conflict (chain dp) (key flow) (priority flow) False then
                        flow_mod_refuse dp sender msg OFPET_FLOW_MOD_FAILED OFPFMFC_OVERLAP (- ENOMEM)
                      else if ofm_emerg msg \<and>
                           (ntohs (ld16 msg 58) \<noteq> OFP_FLOW_PERMANENT \<or> ntohs (ld16 msg 60) \<noteq> OFP_FLOW_PERMANENT) then
                        flow_mod_refuse dp sender msg OFPET_FLOW_MOD_FAILED OFPFMFC_BAD_EMERG_TIMEOUT (- ENOMEM)
                      else
                        bindR (fill_out_flow env flow msg acts)
                          (\<lambda>flow.
                             bindR (chain_insert (chain dp) flow (ofm_emerg msg))
                               (\<lambda>(ch, err).
                                  let dp = dp\<lparr>chain := ch\<rparr>
                                  in if err = - ENOBUFS then
                                       flow_mod_refuse dp sender msg OFPET_FLOW_MOD_FAILED
                                         OFPFMFC_ALL_TABLES_FULL err
                                     else if err \<noteq> 0 then flow_mod_error dp msg err
                                     else flow_mod_packet env fuel dp msg acts (Some flow))))"

definition mod_flow ::
  "env \<Rightarrow> nat \<Rightarrow> datapath \<Rightarrow> sender \<Rightarrow> bytes \<Rightarrow> (datapath \<times> int) result" where
  "mod_flow env fuel dp sender msg =
     bindR (msg_tail msg 72)
       (\<lambda>acts.
          case flow_alloc (alloc env) (length acts) of
            None \<Rightarrow> flow_mod_error dp msg (- ENOMEM)
          | Some flow \<Rightarrow>
              let flow = flow\<lparr>key := ofm_key msg\<rparr>;
                  v_code = validate_actions (key flow) acts
              in if v_code \<noteq> ACT_VALIDATION_OK then
                   flow_mod_refuse dp sender msg OFPET_BAD_ACTION v_code (- ENOMEM)
                 else
                   let flow = flow\<lparr>priority := ofm_priority msg\<rparr>;
                       strict = (ld16 msg 56 = htons OFPFC_MODIFY_STRICT)
                   in bindR (chain_modify (acts_alloc env) (chain dp) (key flow) (priority flow) strict acts (ofm_emerg msg))
                        (\<lambda>(ch, n).
                           let dp = dp\<lparr>chain := ch\<rparr>
                           in if n = 0 then
                                bindR (fill_out_flow env flow msg acts)
                                  (\<lambda>flow.
                                     bindR (chain_insert (chain dp) flow (ofm_emerg msg))
                                       (\<lambda>(ch, err).
                                          let dp = dp\<lparr>chain := ch\<rparr>
                                          in if err = - ENOBUFS then
                                               flow_mod_refuse dp sender msg OFPET_FLOW_MOD_FAILED
                                                 OFPFMFC_ALL_TABLES_FULL err
                                             else if err \<noteq> 0 then flow_mod_error dp msg err
                                             else flow_mod_packet env fuel dp msg acts None))
                              else flow_mod_packet env fuel dp msg acts None))"

definition del_flow :: "env \<Rightarrow> datapath \<Rightarrow> bytes \<Rightarrow> u16 \<Rightarrow> bool \<Rightarrow> (datapath \<times> int) result" where
  "del_flow env dp msg prio strict =
     bindR (chain_delete (dp_send_flow_end env) dp (chain dp) (ofm_key msg) (ld16 msg 68) prio strict (ofm_emerg msg))
       (\<lambda>(dp, ch, n). Ok (dp\<lparr>chain := ch\<rparr>, if n \<noteq> 0 then 0 else - ESRCH))"

definition recv_flow :: "env \<Rightarrow> nat \<Rightarrow> datapath \<Rightarrow> sender \<Rightarrow> bytes \<Rightarrow> (datapath \<times> int) result" where
  "recv_flow env fuel dp sender msg =
     guardR (72 \<le> length msg) Bad_access
       (let command = ntohs (ld16 msg 56)
        in if command = OFPFC_ADD then add_flow env fuel dp sender msg
           else if command = OFPFC_MODIFY \<or> command = OFPFC_MODIFY_STRICT then mod_flow env fuel dp sender msg
           else if command = OFPFC_DELETE then del_flow env dp msg 0 False
           else if command = OFPFC_DELETE_STRICT then del_flow env dp msg (ofm_priority msg) True
           else Ok (dp, - ENODEV))"

section \<open>Queue configuration\<close>

definition fill_queue_desc :: "sw_queue \<Rightarrow> bytes" where
  "fill_queue_desc q =
     le_bytes 4 (htonl (queue_id q)) @ le_bytes 2 (htons 24) @ [0, 0] @
     le_bytes 2 (htons OFPQT_MIN_RATE) @ le_bytes 2 (htons 16) @ replicate 4 0 @
     le_bytes 2 (htons (min_rate q)) @ replicate 6 0"

text \<open>Only the length of a bare header is checked before the port number is read.\<close>

definition recv_queue_get_config_request :: "datapath \<Rightarrow> sender \<Rightarrow> bytes \<Rightarrow> (datapath \<times> int) result" where
  "recv_queue_get_config_request dp sender msg =
     guardR (10 \<le> length msg) Bad_access
       (let no = ntohs (ld16 msg 8);
            bad_port = mapR (\<lambda>dp. (dp, 0))
              (dp_send_error_msg dp (Some sender) OFPET_QUEUE_OP_FAILED OFPQOFC_BAD_PORT (msg_bytes msg))
        in if no < OFPP_MAX then
             case dp_lookup_port dp no of
               None \<Rightarrow> bad_port
             | Some r \<Rightarrow>
                 let p = port_at dp r
                 in if port_no p \<noteq> no then bad_port
                    else
                      bindR (make_openflow_reply 16 OFPT_QUEUE_GET_CONFIG_REPLY (Some sender))
                        (\<lambda>b. bindR (port_queues p)
                          (\<lambda>qs. bindR (send_openflow_buffer dp
                                   (st16 b 8 (htons no) @ concat (map (\<lambda>i. fill_queue_desc (queues p ! i)) qs))
                                   (Some sender))
                            (\<lambda>(dp, _). Ok (dp, 0))))
           else bad_port)"

end
