(* ===== verification/OF_Stats.thy ===== *)
theory OF_Stats
  imports OF_Control
begin

unbundle bit_operations_syntax

text \<open>
  Statistics requests in \<open>udatapath/datapath.c\<close>. A request leaves a \<open>struct stats_dump_cb\<close> with the
  connection; \<open>stats_dump\<close> is called while the connection has room and sends one reply each time
  until its \<open>dump\<close> function reports the end. Bytes of a reply that the code leaves uninitialised
  are zero here.
\<close>

section \<open>Description, tables\<close>

definition desc_stats_dump :: "env \<Rightarrow> datapath \<Rightarrow> bytes \<Rightarrow> bytes" where
  "desc_stats_dump env dp buffer =
     buffer @ strncpy DESC_STR_LEN (mfr_desc env) @ strncpy DESC_STR_LEN (hw_desc env) @
     strncpy DESC_STR_LEN (sw_desc env) @ strncpy SERIAL_NUM_LEN (serial_num env) @
     strncpy DESC_STR_LEN (dp_desc dp)"

definition string_bytes :: "string \<Rightarrow> bytes" where
  "string_bytes s = map (\<lambda>c. of_nat (of_char c)) s"

definition table_stats_entry :: "nat \<Rightarrow> sw_table_stats \<Rightarrow> bytes" where
  "table_stats_entry i st =
     [of_nat i, 0, 0, 0] @ strncpy OFP_MAX_TABLE_NAME_LEN (string_bytes (st_name st)) @
     le_bytes 4 (htonl (st_wildcards st)) @ le_bytes 4 (htonl (st_max_flows st)) @
     le_bytes 4 (htonl (st_n_flows st)) @ le_bytes 8 (htonll (st_n_lookup st)) @
     le_bytes 8 (htonll (st_n_matched st))"

definition table_stats_dump :: "datapath \<Rightarrow> bytes \<Rightarrow> bytes" where
  "table_stats_dump dp buffer =
     (let ts = tables (chain dp)
      in buffer @ concat (map (\<lambda>i. table_stats_entry i (table_stats (ts ! i))) [0..<length ts]))"

section \<open>Flows\<close>

abbreviation (input) MAX_FLOW_STATS_BYTES :: nat where "MAX_FLOW_STATS_BYTES \<equiv> 4096"
abbreviation (input) EMERG_TABLE_ID_FOR_STATS :: u8 where "EMERG_TABLE_ID_FOR_STATS \<equiv> 0xfe"

text \<open>Fields of a \<open>struct ofp_flow_stats_request\<close> and of a \<open>struct ofp_aggregate_stats_request\<close>.\<close>

abbreviation (input) rq_key :: "bytes \<Rightarrow> sw_flow_key" where "rq_key rq \<equiv> flow_extract_match (ofp_match_at rq 0)"
abbreviation (input) rq_table_id :: "bytes \<Rightarrow> u8" where "rq_table_id rq \<equiv> ld8 rq 40"
abbreviation (input) rq_out_port :: "bytes \<Rightarrow> u16" where "rq_out_port rq \<equiv> ld16 rq 42"

definition rq_table_idx :: "bytes \<Rightarrow> int" where
  "rq_table_idx rq = (if rq_table_id rq = 0xff then 0 else uint (rq_table_id rq))"

definition fill_flow_stats :: "bytes \<Rightarrow> sw_flow \<Rightarrow> int \<Rightarrow> u64 \<Rightarrow> bytes" where
  "fill_flow_stats buffer flow table_idx now =
     (let len = 88 + length (sf_acts flow); tdiff = now - created flow
      in buffer @ le_bytes 2 (htons (of_nat len)) @ [of_int table_idx, 0] @
         ofp_match_bytes (flow_fill_match (kflow (key flow)) (wildcards (key flow))) @
         le_bytes 4 (htonl (duration_sec tdiff)) @ le_bytes 4 (htonl (duration_nsec tdiff)) @
         le_bytes 2 (htons (priority flow)) @ le_bytes 2 (htons (idle_timeout flow)) @
         le_bytes 2 (htons (hard_timeout flow)) @ replicate 6 0 @
         le_bytes 8 (htonll (cookie flow)) @ le_bytes 8 (htonll (packet_count flow)) @
         le_bytes 8 (htonll (byte_count flow)) @ sf_acts flow)"

definition flow_stats_dump_callback :: "int \<Rightarrow> u64 \<Rightarrow> bytes flow_callback" where
  "flow_stats_dump_callback table_idx now flow buffer =
     (let buffer = fill_flow_stats buffer flow table_idx now
      in (if length buffer \<ge> MAX_FLOW_STATS_BYTES then 1 else 0, buffer))"

definition flow_stats_init :: "bytes \<Rightarrow> stats_state" where
  "flow_stats_init body = Flow_state (rq_table_idx body) start_position body"

text \<open>The loop over the remaining tables: \<open>ts\<close> are the tables from \<open>table_idx\<close> on.\<close>

primrec flow_stats_loop ::
  "bytes \<Rightarrow> u64 \<Rightarrow> sw_table list \<Rightarrow> int \<Rightarrow> sw_table_position \<Rightarrow> bytes \<Rightarrow>
   (int \<times> sw_table_position \<times> bytes) result" where
  "flow_stats_loop rq now [] table_idx position buffer = Ok (table_idx, position, buffer)"
| "flow_stats_loop rq now (t # ts) table_idx position buffer =
     (if rq_table_id rq = 0xff \<or> uint (rq_table_id rq) = table_idx then
        bindR (table_iterate t (rq_key rq) (rq_out_port rq) position
                 (flow_stats_dump_callback table_idx now) buffer)
          (\<lambda>(error, position, buffer).
             if error \<noteq> 0 then Ok (table_idx, position, buffer)
             else flow_stats_loop rq now ts (table_idx + 1) start_position buffer)
      else Ok (table_idx, position, buffer))"

definition flow_stats_dump ::
  "env \<Rightarrow> datapath \<Rightarrow> int \<Rightarrow> sw_table_position \<Rightarrow> bytes \<Rightarrow> bytes \<Rightarrow> (stats_state \<times> bytes \<times> int) result" where
  "flow_stats_dump env dp table_idx position rq buffer =
     bindR
       (if rq_table_id rq = EMERG_TABLE_ID_FOR_STATS then
          case emerg_table (chain dp) of
            None \<Rightarrow> Fail Bad_access
          | Some t \<Rightarrow>
              bindR (table_iterate t (rq_key rq) (rq_out_port rq) position
                       (flow_stats_dump_callback table_idx (time_msec env)) buffer)
                (\<lambda>(_, position, buffer). Ok (table_idx, position, buffer))
        else flow_stats_loop rq (time_msec env) (drop (nat table_idx) (tables (chain dp))) table_idx position buffer)
       (\<lambda>(table_idx, position, buffer).
          Ok (Flow_state table_idx position rq, buffer,
              if length buffer \<ge> MAX_FLOW_STATS_BYTES then 1 else 0))"

section \<open>Aggregates\<close>

text \<open>The counters of a \<open>struct ofp_aggregate_stats_reply\<close>.\<close>

type_synonym aggregate = "u64 \<times> u64 \<times> u32"

definition aggregate_stats_dump_callback :: "aggregate flow_callback" where
  "aggregate_stats_dump_callback flow rpy =
     (case rpy of (packets, byts, flows) \<Rightarrow>
        (0, (packets + packet_count flow, byts + byte_count flow, flows + 1)))"

primrec aggregate_loop :: "bytes \<Rightarrow> sw_table list \<Rightarrow> int \<Rightarrow> aggregate \<Rightarrow> (int \<times> aggregate) result" where
  "aggregate_loop rq [] table_idx rpy = Ok (0, rpy)"
| "aggregate_loop rq (t # ts) table_idx rpy =
     (if rq_table_id rq = 0xff \<or> uint (rq_table_id rq) = table_idx then
        bindR (table_iterate t (rq_key rq) (rq_out_port rq) start_position aggregate_stats_dump_callback rpy)
          (\<lambda>(error, _, rpy).
             if error \<noteq> 0 then Ok (error, rpy) else aggregate_loop rq ts (table_idx + 1) rpy)
      else Ok (0, rpy))"

definition aggregate_stats_dump :: "datapath \<Rightarrow> bytes \<Rightarrow> bytes \<Rightarrow> (bytes \<times> int) result" where
  "aggregate_stats_dump dp rq buffer =
     bindR
       (if rq_table_id rq = EMERG_TABLE_ID_FOR_STATS then
          case emerg_table (chain dp) of
            None \<Rightarrow> Fail Bad_access
          | Some t \<Rightarrow>
              bindR (table_iterate t (rq_key rq) (rq_out_port rq) start_position
                       aggregate_stats_dump_callback (0, 0, 0))
                (\<lambda>(error, _, rpy). Ok (error, rpy))
        else aggregate_loop rq (drop (nat (rq_table_idx rq)) (tables (chain dp))) (rq_table_idx rq) (0, 0, 0))
       (\<lambda>(error, packets, byts, flows).
          if error \<noteq> 0 then
            Ok (buffer @ le_bytes 8 packets @ le_bytes 8 byts @ le_bytes 4 flows @ replicate 4 0, error)
          else
            Ok (buffer @ le_bytes 8 (htonll packets) @ le_bytes 8 (htonll byts) @ le_bytes 4 (htonl flows) @
                replicate 4 0, 0))"

section \<open>Ports and queues\<close>

definition port_stats_init :: "bytes \<Rightarrow> stats_state" where
  "port_stats_init body = Port_state 1 (uint (ntohs (ld16 body 0)))"

definition dump_port_stats :: "sw_port \<Rightarrow> bytes" where
  "dump_port_stats p =
     le_bytes 2 (htons (port_no p)) @ replicate 6 0 @ le_bytes 8 (htonll (rx_packets p)) @
     le_bytes 8 (htonll (tx_packets p)) @ le_bytes 8 (htonll (rx_bytes p)) @
     le_bytes 8 (htonll (tx_bytes p)) @ le_bytes 8 (htonll (- 1)) @ le_bytes 8 (htonll (tx_dropped p)) @
     le_bytes 8 (htonll (- 1)) @ le_bytes 8 (htonll (- 1)) @ le_bytes 8 (htonll (- 1)) @
     le_bytes 8 (htonll (- 1)) @ le_bytes 8 (htonll (- 1)) @ le_bytes 8 (htonll (- 1))"

definition port_stats_dump :: "datapath \<Rightarrow> int \<Rightarrow> int \<Rightarrow> bytes \<Rightarrow> bytes" where
  "port_stats_dump dp start no buffer =
     (let one = (\<lambda>r. case r of
            Some r \<Rightarrow> if PORT_IN_USE (port_at dp r) then dump_port_stats (port_at dp r) else []
          | None \<Rightarrow> [])
      in if no = uint OFPP_NONE then
           buffer @ concat (map (\<lambda>i. one (dp_lookup_port dp (of_nat i))) [nat start..<DP_MAX_PORTS]) @
           (case local_port dp of Some p \<Rightarrow> dump_port_stats p | None \<Rightarrow> [])
         else buffer @ one (dp_lookup_port dp (of_int no)))"

definition queue_stats_init :: "bytes \<Rightarrow> stats_state" where
  "queue_stats_init body = Queue_state (ntohs (ld16 body 0)) (ntohl (ld32 body 4))"

definition dump_queue_stats :: "sw_port \<Rightarrow> sw_queue \<Rightarrow> bytes" where
  "dump_queue_stats p q =
     le_bytes 2 (htons (port_no p)) @ [0, 0] @ le_bytes 4 (htonl (queue_id q)) @
     le_bytes 8 (htonll (q_tx_bytes q)) @ le_bytes 8 (htonll (q_tx_packets q)) @
     le_bytes 8 (htonll (q_tx_errors q))"

definition port_queue_stats :: "sw_port \<Rightarrow> u32 \<Rightarrow> bytes result" where
  "port_queue_stats p q_id =
     (if q_id = OFPQ_ALL then
        mapR (\<lambda>qs. concat (map (\<lambda>i. dump_queue_stats p (queues p ! i)) qs)) (port_queues p)
      else
        mapR (\<lambda>q. case q of Some i \<Rightarrow> dump_queue_stats p (queues p ! i) | None \<Rightarrow> []) (dp_lookup_queue p q_id))"

primrec all_queue_stats :: "datapath \<Rightarrow> u32 \<Rightarrow> port_ref list \<Rightarrow> bytes result" where
  "all_queue_stats dp q_id [] = Ok []"
| "all_queue_stats dp q_id (r # rs) =
     bindR (if port_no (port_at dp r) < OFPP_MAX then port_queue_stats (port_at dp r) q_id else Ok [])
       (\<lambda>b. mapR (append b) (all_queue_stats dp q_id rs))"

text \<open>For a single port there is no check that the port has been opened.\<close>

definition queue_stats_dump :: "datapath \<Rightarrow> u16 \<Rightarrow> u32 \<Rightarrow> bytes \<Rightarrow> bytes result" where
  "queue_stats_dump dp port q_id buffer =
     mapR (append buffer)
       (if port = OFPP_ALL then all_queue_stats dp q_id (port_list dp)
        else case dp_lookup_port dp port of
               Some r \<Rightarrow> port_queue_stats (port_at dp r) q_id
             | None \<Rightarrow> Ok [])"

section \<open>Requests and replies\<close>

text \<open>The array \<open>stats\<close>: type, smallest and largest body.\<close>

definition stats_types :: "(u16 \<times> nat \<times> nat) list" where
  "stats_types = [(OFPST_DESC, 0, 0), (OFPST_FLOW, 44, 44), (OFPST_AGGREGATE, 44, 44), (OFPST_TABLE, 0, 0),
     (OFPST_PORT, 8, 8), (OFPST_QUEUE, 8, 8), (OFPST_VENDOR, 8, 32)]"

text \<open>The member \<open>init\<close>; vendor statistics are refused for every vendor.\<close>

definition stats_init :: "u16 \<Rightarrow> bytes \<Rightarrow> int + stats_state" where
  "stats_init type body =
     (if type = OFPST_FLOW then Inr (flow_stats_init body)
      else if type = OFPST_AGGREGATE then Inr (Aggregate_state body)
      else if type = OFPST_PORT then Inr (port_stats_init body)
      else if type = OFPST_QUEUE then Inr (queue_stats_init body)
      else if type = OFPST_VENDOR then Inl (- EINVAL)
      else Inr No_state)"

text \<open>
  The member \<open>dump\<close>. The state is the one \<open>init\<close> made for the same type, which tells the
  functions apart; no state is that of the two types without \<open>init\<close>.
\<close>

definition stats_type_dump ::
  "env \<Rightarrow> datapath \<Rightarrow> u16 \<Rightarrow> stats_state \<Rightarrow> bytes \<Rightarrow> (stats_state \<times> bytes \<times> int) result" where
  "stats_type_dump env dp type state buffer =
     (case state of
        No_state \<Rightarrow>
          Ok (No_state, if type = OFPST_DESC then desc_stats_dump env dp buffer else table_stats_dump dp buffer, 0)
      | Flow_state table_idx position rq \<Rightarrow> flow_stats_dump env dp table_idx position rq buffer
      | Aggregate_state rq \<Rightarrow> mapR (\<lambda>(buffer, err). (state, buffer, err)) (aggregate_stats_dump dp rq buffer)
      | Port_state start no \<Rightarrow> Ok (state, port_stats_dump dp start no buffer, 0)
      | Queue_state port q_id \<Rightarrow> mapR (\<lambda>buffer. (state, buffer, 0)) (queue_stats_dump dp port q_id buffer))"

definition set_cb :: "datapath \<Rightarrow> nat \<Rightarrow> stats_dump_cb option \<Rightarrow> datapath" where
  "set_cb dp i cb = dp\<lparr>remotes := (remotes dp)[i := (remotes dp ! i)\<lparr>cb_dump := cb\<rparr>]\<rparr>"

text \<open>\<open>cb\<close> is the request that remote \<open>i\<close> has in progress.\<close>

definition stats_dump :: "env \<Rightarrow> datapath \<Rightarrow> nat \<Rightarrow> stats_dump_cb \<Rightarrow> (datapath \<times> int) result" where
  "stats_dump env dp i cb =
     (if cb_done cb then Ok (dp, 0)
      else
        bindR (make_openflow_reply 12 OFPT_STATS_REPLY (Some (cb_sender cb)))
          (\<lambda>osr.
             bindR (stats_type_dump env dp (cb_type cb) (cb_state cb) (st16 osr 8 (htons (cb_type cb))))
               (\<lambda>(state, buffer, err).
                  let cb = cb\<lparr>cb_state := state\<rparr>
                  in if err \<ge> 0 then
                       let cb = (if err = 0 then cb\<lparr>cb_done := True\<rparr> else cb);
                           buffer = (if err = 0 then buffer else st16 buffer 10 (ntohs OFPSF_REPLY_MORE))
                       in bindR (send_openflow_buffer (set_cb dp i (Some cb)) buffer (Some (cb_sender cb)))
                            (\<lambda>(dp, err2). Ok (dp, if err2 \<noteq> 0 then err2 else err))
                     else Ok (set_cb dp i (Some cb), err))))"

definition recv_stats_request :: "datapath \<Rightarrow> sender \<Rightarrow> bytes \<Rightarrow> (datapath \<times> int) result" where
  "recv_stats_request dp sender msg =
     guardR (12 \<le> length msg \<and> msg_length msg \<le> length msg) Bad_access
       (let type = ntohs (ld16 msg 8)
        in case find (\<lambda>st. fst st = type) stats_types of
             None \<Rightarrow> Ok (dp, - EINVAL)
           | Some (_, min_body, max_body) \<Rightarrow>
               let body = drop 12 (msg_bytes msg)
               in if msg_length msg < 12 \<or> length body < min_body \<or> length body > max_body then Ok (dp, - EINVAL)
                  else
                    case stats_init type body of
                      Inl err \<Rightarrow> Ok (dp, err)
                    | Inr state \<Rightarrow>
                        mapR (\<lambda>dp. (dp, 0))
                          (remote_start_dump dp (s_remote sender)
                             \<lparr>cb_done = False, cb_sender = sender, cb_type = type, cb_state = state\<rparr>))"

end
