(* ===== verification/OF_Ext_Msg.thy ===== *)
theory OF_Ext_Msg
  imports OF_Control
begin

unbundle bit_operations_syntax

text \<open>
  Vendor messages: the queue and description commands of \<open>udatapath/of_ext_msg.c\<close> and the emergency
  flow commands of \<open>udatapath/private-msg.c\<close>. The caller has only checked that the message has a
  vendor header, so the fields after it are read unchecked.
\<close>

abbreviation (input) PRIVATE_VENDOR_ID :: u32 where "PRIVATE_VENDOR_ID \<equiv> 0x00acde48"
abbreviation (input) OPENFLOW_VENDOR_ID :: u32 where "OPENFLOW_VENDOR_ID \<equiv> 0x000026e1"
abbreviation (input) OFP_EXT_QUEUE_MODIFY :: u32 where "OFP_EXT_QUEUE_MODIFY \<equiv> 0"
abbreviation (input) OFP_EXT_QUEUE_DELETE :: u32 where "OFP_EXT_QUEUE_DELETE \<equiv> 1"
abbreviation (input) OFP_EXT_SET_DESC :: u32 where "OFP_EXT_SET_DESC \<equiv> 2"
abbreviation (input) OFQ_ERR_DISCIPLINE :: u16 where "OFQ_ERR_DISCIPLINE \<equiv> 3"
abbreviation (input) PRIVATEOPT_PROTOCOL_STATS_REQUEST :: u16 where "PRIVATEOPT_PROTOCOL_STATS_REQUEST \<equiv> 1"
abbreviation (input) PRIVATEOPT_PROTOCOL_STATS_REPLY :: u16 where "PRIVATEOPT_PROTOCOL_STATS_REPLY \<equiv> 2"
abbreviation (input) PRIVATEOPT_EMERG_FLOW_PROTECTION :: u16 where "PRIVATEOPT_EMERG_FLOW_PROTECTION \<equiv> 3"
abbreviation (input) PRIVATEOPT_EMERG_FLOW_RESTORATION :: u16 where "PRIVATEOPT_EMERG_FLOW_RESTORATION \<equiv> 4"

section \<open>Queues\<close>

definition new_queue :: "sw_port \<Rightarrow> nat \<Rightarrow> u32 \<Rightarrow> u16 \<Rightarrow> u16 \<Rightarrow> u16 \<Rightarrow> sw_port result" where
  "new_queue p i q_id class property rate =
     bindR (port_queues p)
       (\<lambda>qs. Ok (p\<lparr>queues := (queues p)[i := zero_queue\<lparr>q_port := True, queue_id := q_id, class_id := class,
                                         q_property := property, min_rate := rate\<rparr>],
                   queue_list := Some (qs @ [i])\<rparr>))"

text \<open>The first free queue from number 1 on; the array of queues has a fixed size.\<close>

definition port_add_queue :: "sw_port \<Rightarrow> u32 \<Rightarrow> u16 \<Rightarrow> u16 \<Rightarrow> (sw_port \<times> int) result" where
  "port_add_queue p q_id property rate =
     (case find (\<lambda>i. i \<ge> NETDEV_MAX_QUEUES \<or> \<not> q_port (queues p ! i)) [1..<unat (num_queues p)] of
        None \<Rightarrow> Ok (p, EXFULL)
      | Some i \<Rightarrow>
          guardR (i < NETDEV_MAX_QUEUES) Bad_access
            (mapR (\<lambda>p. (p, 0)) (new_queue p i q_id (of_nat i) property rate)))"

definition port_delete_queue :: "sw_port \<Rightarrow> nat \<Rightarrow> sw_port" where
  "port_delete_queue p i =
     p\<lparr>queues := (queues p)[i := zero_queue], queue_list := map_option (removeAll i) (queue_list p)\<rparr>"

definition queue_error :: "datapath \<Rightarrow> sender \<Rightarrow> bytes \<Rightarrow> u16 \<Rightarrow> datapath result" where
  "queue_error dp sender msg code =
     dp_send_error_msg dp (Some sender) OFPET_QUEUE_OP_FAILED code (msg_bytes msg)"

definition recv_of_exp_queue_delete :: "datapath \<Rightarrow> sender \<Rightarrow> bytes \<Rightarrow> datapath result" where
  "recv_of_exp_queue_delete dp sender msg =
     guardR (28 \<le> length msg) Bad_access
       (case dp_lookup_port dp (ntohs (ld16 msg 16)) of
          None \<Rightarrow> Fail Bad_access
        | Some r \<Rightarrow>
            let p = port_at dp r
            in if netdev p \<noteq> None then
                 bindR (dp_lookup_queue p (ntohl (ld32 msg 24)))
                   (\<lambda>q. case q of
                      Some i \<Rightarrow> Ok (set_port dp r (port_delete_queue p i))
                    | None \<Rightarrow> queue_error dp sender msg OFPQOFC_BAD_PORT)
               else queue_error dp sender msg OFPQOFC_BAD_PORT)"

definition recv_of_exp_queue_modify :: "env \<Rightarrow> datapath \<Rightarrow> sender \<Rightarrow> bytes \<Rightarrow> datapath result" where
  "recv_of_exp_queue_modify env dp sender msg =
     guardR (42 \<le> length msg) Bad_access
       (let property = ntohs (ld16 msg 32);
            rate = ntohs (ld16 msg 40);
            q_id = ntohl (ld32 msg 24)
        in if ntohs (ld16 msg 28) \<noteq> 24 \<or> property \<noteq> OFPQT_MIN_RATE then
             queue_error dp sender msg OFQ_ERR_DISCIPLINE
           else
             case dp_lookup_port dp (ntohs (ld16 msg 16)) of
               None \<Rightarrow> queue_error dp sender msg OFPQOFC_BAD_PORT
             | Some r \<Rightarrow>
                 let p = port_at dp r
                 in if \<not> PORT_IN_USE p then queue_error dp sender msg OFPQOFC_BAD_PORT
                    else
                      case netdev p of
                        None \<Rightarrow> Fail Bad_access
                      | Some nd \<Rightarrow>
                          bindR (dp_lookup_queue p q_id)
                            (\<lambda>q. case q of
                               Some i \<Rightarrow>
                                 let q = queues p ! i
                                 in if change_class_error env nd (class_id q) rate \<noteq> 0 then
                                      queue_error dp sender msg OFPQOFC_EPERM
                                    else
                                      Ok (set_port dp r (p\<lparr>queues := (queues p)
                                            [i := q\<lparr>q_property := property, min_rate := rate\<rparr>]\<rparr>))
                             | None \<Rightarrow>
                                 bindR (port_add_queue p q_id property rate)
                                   (\<lambda>(p, err).
                                      if err = EXFULL then queue_error dp sender msg OFPQOFC_EPERM
                                      else
                                        let dp = set_port dp r p
                                        in bindR (dp_lookup_queue p q_id)
                                             (\<lambda>q. case q of
                                                None \<Rightarrow> Fail Bad_access
                                              | Some i \<Rightarrow>
                                                  if setup_class_error env nd (class_id (queues p ! i)) rate \<noteq> 0 then
                                                    queue_error dp sender msg OFPQOFC_BAD_QUEUE
                                                  else Ok dp))))"

section \<open>Description\<close>

text \<open>\<open>strncpy\<close> reads up to a terminator or to the end of the field.\<close>

definition recv_of_set_dp_desc :: "datapath \<Rightarrow> bytes \<Rightarrow> datapath result" where
  "recv_of_set_dp_desc dp msg =
     guardR (272 \<le> length msg \<or> 0 \<in> set (drop 16 msg)) Bad_access
       (Ok (dp\<lparr>dp_desc := terminated (strncpy DESC_STR_LEN (drop 16 msg))\<rparr>))"

definition of_ext_recv_msg :: "env \<Rightarrow> datapath \<Rightarrow> sender \<Rightarrow> bytes \<Rightarrow> (datapath \<times> int) result" where
  "of_ext_recv_msg env dp sender msg =
     guardR (16 \<le> length msg) Bad_access
       (let subtype = ntohl (ld32 msg 12); done = mapR (\<lambda>dp. (dp, 0))
        in if subtype = OFP_EXT_QUEUE_MODIFY then done (recv_of_exp_queue_modify env dp sender msg)
           else if subtype = OFP_EXT_QUEUE_DELETE then done (recv_of_exp_queue_delete dp sender msg)
           else if subtype = OFP_EXT_SET_DESC then done (recv_of_set_dp_desc dp msg)
           else Ok (dp, - EINVAL))"

section \<open>Emergency flows\<close>

definition any_key_all :: sw_flow_key where
  "any_key_all = zero_key\<lparr>wildcards := OFPFW_ALL\<rparr>"

definition flush_working :: "env \<Rightarrow> datapath \<Rightarrow> datapath result" where
  "flush_working env dp =
     mapR (\<lambda>(dp, ch, _). dp\<lparr>chain := ch\<rparr>)
       (chain_delete (dp_send_flow_end env) dp (chain dp) any_key_all OFPP_NONE 0 False False)"

text \<open>
  The callback copies an emergency entry into the working tables. The state it updates is the
  chain; a failure is kept as the state and ends the iteration.
\<close>

definition protection_callback :: "env \<Rightarrow> sw_chain result flow_callback" where
  "protection_callback env flow s =
     (case flow_alloc (alloc env) (length (sf_acts flow)) of
        None \<Rightarrow> (- ENOBUFS, s)
      | Some tgtflow \<Rightarrow>
          let match = flow_fill_match (kflow (key flow)) (wildcards (key flow));
              tgtflow = tgtflow\<lparr>key := flow_extract_match match, priority := priority flow,
                          idle_timeout := OFP_FLOW_PERMANENT, hard_timeout := OFP_FLOW_PERMANENT,
                          send_flow_rem := send_flow_rem flow, emerg_flow := 0\<rparr>;
              r = bindR s
                    (\<lambda>ch. bindR (flow_setup_actions tgtflow (sf_acts flow) (time_msec env))
                      (\<lambda>tgtflow. chain_insert ch tgtflow False))
          in case r of
               Ok (ch, err) \<Rightarrow> (err, Ok ch)
             | Fail e \<Rightarrow> (1, Fail e))"

definition do_protection :: "env \<Rightarrow> datapath \<Rightarrow> datapath result" where
  "do_protection env dp =
     (case emerg_table (chain dp) of
        None \<Rightarrow> Fail Bad_access
      | Some t \<Rightarrow>
          bindR (table_iterate t any_key_all OFPP_NONE start_position (protection_callback env) (Ok (chain dp)))
            (\<lambda>(_, _, s). mapR (\<lambda>ch. dp\<lparr>chain := ch\<rparr>) s))"

definition private_recv_msg :: "env \<Rightarrow> datapath \<Rightarrow> bytes \<Rightarrow> (datapath \<times> int) result" where
  "private_recv_msg env dp msg =
     guardR (14 \<le> length msg) Bad_access
       (let pvo_type = ntohs (ld16 msg 12)
        in if pvo_type = PRIVATEOPT_PROTOCOL_STATS_REQUEST \<or> pvo_type = PRIVATEOPT_PROTOCOL_STATS_REPLY then Ok (dp, 0)
           else if pvo_type = PRIVATEOPT_EMERG_FLOW_PROTECTION then
             bindR (flush_working env dp) (\<lambda>dp. mapR (\<lambda>dp. (dp, 0)) (do_protection env dp))
           else if pvo_type = PRIVATEOPT_EMERG_FLOW_RESTORATION then Ok (dp, 0)
           else Ok (dp, - EINVAL))"

definition recv_vendor :: "env \<Rightarrow> datapath \<Rightarrow> sender \<Rightarrow> bytes \<Rightarrow> (datapath \<times> int) result" where
  "recv_vendor env dp sender msg =
     guardR (12 \<le> length msg) Bad_access
       (let vendor = ntohl (ld32 msg 8)
        in if vendor = PRIVATE_VENDOR_ID then private_recv_msg env dp msg
           else if vendor = OPENFLOW_VENDOR_ID then of_ext_recv_msg env dp sender msg
           else
             bindR (dp_send_error_msg dp (Some sender) OFPET_BAD_REQUEST OFPBRC_BAD_VENDOR (msg_bytes msg))
               (\<lambda>dp. Ok (dp, - EINVAL)))"

end
