(* ===== verification/OF_Dp_Run.thy ===== *)
theory OF_Dp_Run
  imports OF_Stats OF_Ext_Msg
begin

unbundle bit_operations_syntax

text \<open>
  The dispatch of controller messages and one round of the datapath, \<open>fwd_control_input\<close>,
  \<open>remote_run\<close> and \<open>dp_run\<close> of \<open>udatapath/datapath.c\<close>, with \<open>netdev_recv\<close> of \<open>lib/netdev.c\<close>. What
  the devices and the listening sockets have to offer in a round is an argument.
\<close>

section \<open>Messages from a controller\<close>

definition fwd_control_input ::
  "env \<Rightarrow> nat \<Rightarrow> datapath \<Rightarrow> sender \<Rightarrow> bytes \<Rightarrow> (datapath \<times> int) result" where
  "fwd_control_input env fuel dp sender msg =
     guardR (8 \<le> length msg) Bad_access
       (if msg_length msg > length msg then Ok (dp, - EINVAL)
        else
          guardR (ld8 msg 0 = OFP_VERSION) Assertion
            (let type = ld8 msg 1;
                 sized = (\<lambda>min_size handler. if length msg < min_size then Ok (dp, - EFAULT) else handler)
             in if type = OFPT_BARRIER_REQUEST then sized 8 (recv_barrier_request dp sender msg)
                else if type = OFPT_FEATURES_REQUEST then sized 8 (recv_features_request dp sender msg)
                else if type = OFPT_GET_CONFIG_REQUEST then sized 8 (recv_get_config_request dp sender msg)
                else if type = OFPT_SET_CONFIG then sized 12 (recv_set_config dp sender msg)
                else if type = OFPT_PACKET_OUT then sized 16 (recv_packet_out env fuel dp sender msg)
                else if type = OFPT_FLOW_MOD then sized 72 (recv_flow env fuel dp sender msg)
                else if type = OFPT_PORT_MOD then sized 32 (recv_port_mod dp sender msg)
                else if type = OFPT_STATS_REQUEST then sized 12 (recv_stats_request dp sender msg)
                else if type = OFPT_ECHO_REQUEST then sized 8 (recv_echo_request dp sender msg)
                else if type = OFPT_ECHO_REPLY then sized 8 (recv_echo_reply dp sender msg)
                else if type = OFPT_QUEUE_GET_CONFIG_REQUEST then sized 8 (recv_queue_get_config_request dp sender msg)
                else if type = OFPT_VENDOR then sized 12 (recv_vendor env dp sender msg)
                else
                  bindR (dp_send_error_msg dp (Some sender) OFPET_BAD_REQUEST OFPBRC_BAD_TYPE msg)
                    (\<lambda>dp. Ok (dp, - EINVAL))))"

section \<open>One connection\<close>

text \<open>
  One turn of the loop of \<open>remote_run\<close>; the second component says whether the loop goes on. The
  return value of \<open>fwd_control_input\<close> is not used.
\<close>

definition remote_turn :: "env \<Rightarrow> nat \<Rightarrow> datapath \<Rightarrow> nat \<Rightarrow> (datapath \<times> bool) result" where
  "remote_turn env fuel dp i =
     (let r = remotes dp ! i
      in case cb_dump r of
           None \<Rightarrow>
             (case rxq r of
                [] \<Rightarrow> Ok (dp, False)
              | msg # msgs \<Rightarrow>
                  let dp = dp\<lparr>remotes := (remotes dp)[i := r\<lparr>rxq := msgs\<rparr>]\<rparr>
                  in if length msg \<ge> 8 then
                       bindR (fwd_control_input env fuel dp \<lparr>s_remote = i, s_xid = ld32 msg 4\<rparr> msg)
                         (\<lambda>(dp, _). Ok (dp, True))
                     else Ok (dp, True))
         | Some cb \<Rightarrow>
             if n_txq r < TXQ_LIMIT then
               bindR (stats_dump env dp i cb)
                 (\<lambda>(dp, error). Ok (if error \<le> 0 then set_cb dp i None else dp, True))
             else Ok (dp, False))"

primrec remote_loop :: "env \<Rightarrow> nat \<Rightarrow> nat \<Rightarrow> datapath \<Rightarrow> nat \<Rightarrow> datapath result" where
  "remote_loop env fuel i dp 0 = Ok dp"
| "remote_loop env fuel i dp (Suc n) =
     bindR (remote_turn env fuel dp i)
       (\<lambda>(dp, go_on). if go_on then remote_loop env fuel i dp n else Ok dp)"

definition remote_run :: "env \<Rightarrow> nat \<Rightarrow> datapath \<Rightarrow> nat \<Rightarrow> datapath result" where
  "remote_run env fuel dp i =
     bindR (remote_loop env fuel i dp 50)
       (\<lambda>dp. Ok (if alive (remotes dp ! i) then dp else remote_destroy dp i))"

text \<open>
  The remotes are visited in order. One that is destroyed leaves the list, so the next one then
  has its position.
\<close>

primrec remotes_run :: "env \<Rightarrow> nat \<Rightarrow> nat \<Rightarrow> datapath \<Rightarrow> nat \<Rightarrow> datapath result" where
  "remotes_run env fuel 0 dp i = Ok dp"
| "remotes_run env fuel (Suc n) dp i =
     bindR (remote_run env fuel dp i)
       (\<lambda>dp'. remotes_run env fuel n dp' (if length (remotes dp') < length (remotes dp) then i else i + 1))"

section \<open>Receiving\<close>

abbreviation (input) ETH_TOTAL_MIN :: nat where "ETH_TOTAL_MIN \<equiv> 60"

definition pad_to_minimum_length :: "ofpbuf \<Rightarrow> ofpbuf" where
  "pad_to_minimum_length b =
     (if size_of b < ETH_TOTAL_MIN then ofpbuf_put_zeros b (ETH_TOTAL_MIN - size_of b) else b)"

text \<open>The socket delivers an error or a frame, of which as much is read as fits into the buffer.\<close>

definition netdev_recv :: "int + bytes \<Rightarrow> ofpbuf \<Rightarrow> (ofpbuf \<times> int) result" where
  "netdev_recv incoming b =
     guardR (size_of b = 0 \<and> ofpbuf_tailroom b \<ge> ETH_TOTAL_MIN) Assertion
       (case incoming of
          Inl err \<Rightarrow> Ok (b, err)
        | Inr frame \<Rightarrow> Ok (pad_to_minimum_length (ofpbuf_put b (take (ofpbuf_tailroom b) frame)), 0))"

text \<open>A fresh receive buffer for a device: room for headers in front, then the largest frame.\<close>

definition recv_buffer :: "nat \<Rightarrow> ofpbuf" where
  "recv_buffer mtu = (ofpbuf_new (130 + VLAN_ETH_HEADER_LEN + mtu))\<lparr>headroom := 130\<rparr>"

primrec recv_loop ::
  "env \<Rightarrow> nat \<Rightarrow> (port_ref \<Rightarrow> int + bytes) \<Rightarrow> port_ref list \<Rightarrow> datapath \<Rightarrow> ofpbuf option \<Rightarrow> datapath result" where
  "recv_loop env fuel incoming [] dp buffer = Ok dp"
| "recv_loop env fuel incoming (r # rs) dp buffer =
     (case netdev (port_at dp r) of
        None \<Rightarrow> Fail Bad_access
      | Some nd \<Rightarrow>
          bindR (netdev_recv (incoming r) (case buffer of Some b \<Rightarrow> b | None \<Rightarrow> recv_buffer (nd_mtu nd)))
            (\<lambda>(b, error).
               if error = 0 then
                 let p = port_at dp r;
                     dp = set_port dp r (p\<lparr>rx_packets := rx_packets p + 1,
                                            rx_bytes := rx_bytes p + of_nat (size_of b)\<rparr>)
                 in bindR (fwd_port_input env fuel dp b r) (\<lambda>dp. recv_loop env fuel incoming rs dp None)
               else recv_loop env fuel incoming rs dp (Some b)))"

section \<open>One round of the datapath\<close>

text \<open>
  \<open>accept\<close> is the outcome of \<open>pvconn_accept\<close> on a listener: an error number or a connection. A
  listener that fails is replaced by the last one, which is then tried at the same position.
\<close>

function accept_loop :: "(nat \<Rightarrow> int + remote) \<Rightarrow> datapath \<Rightarrow> nat \<Rightarrow> datapath" where
  "accept_loop accept dp i =
     (if i < length (listeners dp) then
        case accept (listeners dp ! i) of
          Inr rconn \<Rightarrow> accept_loop accept (remote_create dp rconn) (i + 1)
        | Inl retval \<Rightarrow>
            if retval \<noteq> EAGAIN then
              accept_loop accept (dp\<lparr>listeners := butlast ((listeners dp)[i := last (listeners dp)])\<rparr>) i
            else accept_loop accept dp (i + 1)
      else dp)"
  by pat_completeness auto

termination
  by (relation "measure (\<lambda>(accept, dp, i). length (listeners dp) - i)") (auto simp: remote_create_def)

declare accept_loop.simps [simp del]

definition dp_timeout :: "env \<Rightarrow> datapath \<Rightarrow> datapath" where
  "dp_timeout env dp =
     (if time_now env \<noteq> last_timeout dp then
        let (ch, deleted) = chain_timeout (time_msec env) (chain dp);
            dp = foldl (\<lambda>dp f. dp_send_flow_end env dp f (reason f)) (dp\<lparr>chain := ch\<rparr>) deleted
        in dp\<lparr>last_timeout := time_now env\<rparr>
      else dp)"

definition dp_run ::
  "env \<Rightarrow> nat \<Rightarrow> (port_ref \<Rightarrow> int + bytes) \<Rightarrow> (nat \<Rightarrow> int + remote) \<Rightarrow> datapath \<Rightarrow> datapath result" where
  "dp_run env fuel incoming accept dp =
     (let dp = dp_timeout env dp
      in bindR (recv_loop env fuel incoming (port_list dp) dp None)
           (\<lambda>dp. bindR (remotes_run env fuel (length (remotes dp)) dp 0)
             (\<lambda>dp. Ok (accept_loop accept dp 0))))"

end
