(* ===== verification/OF_Dp_Inv.thy ===== *)
theory OF_Dp_Inv
  imports OF_Dp_Run
begin

unbundle bit_operations_syntax

text \<open>
  The invariant of a datapath and its preservation by every operation: the flow tables keep their
  own invariant and hold only actions that have passed validation, the packet buffers keep
  theirs, the list of ports is the list of the ports in use, each with its own number, queues are
  where their port says, and no connection has more than \<open>TXQ_LIMIT\<close> messages waiting.
\<close>

section \<open>The invariant\<close>

definition remote_inv :: "remote \<Rightarrow> bool" where
  "remote_inv r \<longleftrightarrow> n_txq r = int (length (txq r)) \<and> n_txq r \<le> TXQ_LIMIT"

definition queues_inv :: "sw_port \<Rightarrow> bool" where
  "queues_inv p \<longleftrightarrow> length (queues p) = NETDEV_MAX_QUEUES \<and>
     (case queue_list p of
        None \<Rightarrow> True
      | Some qs \<Rightarrow> distinct qs \<and> (\<forall>i \<in> set qs. 0 < i \<and> i < NETDEV_MAX_QUEUES \<and> class_id (queues p ! i) = of_nat i) \<and>
          (\<forall>i < NETDEV_MAX_QUEUES. q_port (queues p ! i) \<longleftrightarrow> i \<in> set qs))"

definition port_inv :: "sw_port \<Rightarrow> bool" where
  "port_inv p \<longleftrightarrow> queues_inv p \<and> (PORT_IN_USE p \<longleftrightarrow> netdev p \<noteq> None) \<and>
     (queue_list p \<noteq> None \<longleftrightarrow> netdev p \<noteq> None)"

definition ref_no :: "port_ref \<Rightarrow> u16" where
  "ref_no r = (case r of Phys i \<Rightarrow> of_nat i | Local \<Rightarrow> OFPP_LOCAL)"

definition ref_ok :: "datapath \<Rightarrow> port_ref \<Rightarrow> bool" where
  "ref_ok dp r = (case r of Phys i \<Rightarrow> 0 < i \<and> i < DP_MAX_PORTS | Local \<Rightarrow> local_port dp \<noteq> None)"

definition ports_inv :: "datapath \<Rightarrow> bool" where
  "ports_inv dp \<longleftrightarrow> length (ports dp) = DP_MAX_PORTS \<and> list_all port_inv (ports dp) \<and>
     netdev (ports dp ! 0) = None \<and>
     (\<forall>p. local_port dp = Some p \<longrightarrow> port_inv p \<and> netdev p \<noteq> None) \<and>
     distinct (port_list dp) \<and>
     (\<forall>r. r \<in> set (port_list dp) \<longleftrightarrow> ref_ok dp r \<and> netdev (port_at dp r) \<noteq> None) \<and>
     (\<forall>r \<in> set (port_list dp). port_no (port_at dp r) = ref_no r)"

definition acts_valid :: "sw_flow \<Rightarrow> bool" where
  "acts_valid f \<longleftrightarrow> (\<exists>k. validate_actions k (sf_acts f) = ACT_VALIDATION_OK)"

definition chain_ok :: "sw_chain \<Rightarrow> bool" where
  "chain_ok ch \<longleftrightarrow> chain_inv ch \<and> (\<forall>f \<in> set (chain_flows ch) \<union> set (emerg_flows ch). acts_valid f)"

definition dp_inv :: "datapath \<Rightarrow> bool" where
  "dp_inv dp \<longleftrightarrow> chain_ok (chain dp) \<and> buffers_inv (pkts dp) \<and> ports_inv dp \<and>
     list_all remote_inv (remotes dp)"

section \<open>Sending messages\<close>

text \<open>What an operation that only sends messages does to the datapath.\<close>

definition sends :: "datapath \<Rightarrow> datapath \<Rightarrow> bool" where
  "sends dp dp' \<longleftrightarrow> (\<exists>rs. dp' = dp\<lparr>remotes := rs\<rparr> \<and> length rs = length (remotes dp) \<and>
     (list_all remote_inv (remotes dp) \<longrightarrow> list_all remote_inv rs))"

lemma sends_refl [simp]: "sends dp dp"
  unfolding sends_def by (rule exI [of _ "remotes dp"]) simp

lemma sends_trans [trans]: "sends a b \<Longrightarrow> sends b c \<Longrightarrow> sends a c"
  by (fastforce simp: sends_def)

lemma sends_fields:
  assumes "sends dp dp'"
  shows "chain dp' = chain dp" "pkts dp' = pkts dp" "ports dp' = ports dp" "local_port dp' = local_port dp"
    "port_list dp' = port_list dp" "wire dp' = wire dp" "dp_flags dp' = dp_flags dp"
    "miss_send_len dp' = miss_send_len dp" "length (remotes dp') = length (remotes dp)"
    "port_at dp' = port_at dp" "dp_lookup_port dp' = dp_lookup_port dp"
  using assms by (auto simp: sends_def port_at_def dp_lookup_port_def fun_eq_iff split: port_ref.splits)

lemma ports_inv_cong:
  assumes "ports dp' = ports dp" "local_port dp' = local_port dp" "port_list dp' = port_list dp"
  shows "ports_inv dp' = ports_inv dp"
proof -
  have "port_at dp' = port_at dp" "ref_ok dp' = ref_ok dp"
    using assms by (simp_all add: port_at_def ref_ok_def fun_eq_iff split: port_ref.splits)
  then show ?thesis using assms by (simp add: ports_inv_def)
qed

lemma sends_inv: "sends dp dp' \<Longrightarrow> dp_inv dp \<Longrightarrow> dp_inv dp'"
  by (auto simp: dp_inv_def sends_def ports_inv_cong [of "dp\<lparr>remotes := rs\<rparr>" dp for rs])

lemma rconn_send_inv:
  "remote_inv r \<Longrightarrow> rconn_send_with_limit r b TXQ_LIMIT = (r', e) \<Longrightarrow> remote_inv r'"
  by (auto simp: rconn_send_with_limit_def rconn_send_def Let_def remote_inv_def try_send_def
      split: if_splits list.splits)

lemma send_to_remote_sends:
  assumes "send_openflow_buffer_to_remote dp b i = (dp', e)"
  shows "sends dp dp'"
proof (cases "i < length (remotes dp)")
  case True
  obtain r' where r': "rconn_send_with_limit (remotes dp ! i) b TXQ_LIMIT = (r', e)"
    and dp': "dp' = dp\<lparr>remotes := (remotes dp)[i := r']\<rparr>"
    using assms by (auto simp: send_openflow_buffer_to_remote_def split: prod.splits)
  have "list_all remote_inv ((remotes dp)[i := r'])" if "list_all remote_inv (remotes dp)"
    using that rconn_send_inv [OF _ r'] True set_update_subset_insert [of "remotes dp" i r']
    by (auto simp: list_all_iff)
  then show ?thesis unfolding sends_def using dp' by auto
next
  case False
  then show ?thesis
    using assms by (auto simp: send_openflow_buffer_to_remote_def list_update_beyond split: prod.splits)
qed

lemma broadcast_sends:
  "sends dp (fold (\<lambda>i dp. fst (send_openflow_buffer_to_remote dp b i)) is dp)"
proof (induction "is" arbitrary: dp)
  case Nil
  then show ?case by simp
next
  case (Cons i "is")
  have "sends dp (fst (send_openflow_buffer_to_remote dp b i))"
    using send_to_remote_sends [of dp b i] by (metis prod.collapse)
  then show ?case using Cons sends_trans by simp
qed

lemma send_openflow_buffer_sends:
  "send_openflow_buffer dp b s = Ok (dp', e) \<Longrightarrow> sends dp dp'"
  using broadcast_sends send_to_remote_sends
  by (auto simp: send_openflow_buffer_def result_simps split: option.splits)

lemma send_openflow_buffer_Ok: "8 \<le> length b \<Longrightarrow> \<exists>dp' e. send_openflow_buffer dp b s = Ok (dp', e)"
  by (auto simp: send_openflow_buffer_def update_openflow_length_def split: option.splits)

lemma make_openflow_xid_Ok:
  "make_openflow_xid n t x = Ok b \<Longrightarrow> length b = n \<and> 8 \<le> n \<and> n \<le> 0xffff"
  by (auto simp: make_openflow_xid_def put_openflow_xid_def result_simps)

lemma dp_send_error_msg_sends: "dp_send_error_msg dp s t c d = Ok dp' \<Longrightarrow> sends dp dp'"
  using send_openflow_buffer_sends
  by (auto simp: dp_send_error_msg_def mapR_def Let_def result_simps)

lemma length_flow_removed_body [simp]: "length (flow_removed_body f r t) = 80"
  by (simp add: flow_removed_body_def)

text \<open>A notification about a removed flow can always be built and handed to the connections.\<close>

lemma dp_send_flow_end_Ok: "\<exists>dp'. dp_send_flow_end_result env dp f r = Ok dp' \<and> sends dp dp'"
proof (cases "send_flow_rem f = 0 \<or> emerg_flow f \<noteq> 0")
  case True
  then show ?thesis by (auto simp: dp_send_flow_end_result_def)
next
  case False
  obtain ofr where ofr: "make_openflow_xid 88 OFPT_FLOW_REMOVED 0 = Ok ofr"
    by (simp add: make_openflow_xid_def put_openflow_xid_def)
  let ?b = "overwrite ofr 8 (flow_removed_body f r (time_msec env - created f))"
  have "length ?b = 88" using make_openflow_xid_Ok [OF ofr] by simp
  then obtain dp' e where "send_openflow_buffer dp ?b None = Ok (dp', e)"
    using send_openflow_buffer_Ok [of ?b dp None] by auto
  then show ?thesis
    using False ofr send_openflow_buffer_sends by (auto simp: dp_send_flow_end_result_def Let_def)
qed

lemma dp_send_flow_end_sends: "sends dp (dp_send_flow_end env dp f r)"
  using dp_send_flow_end_Ok [of env dp f r] by (auto simp: dp_send_flow_end_def)

lemma flow_end_foldl_sends: "sends dp (foldl (\<lambda>d f. dp_send_flow_end env d f (rs f)) dp fs)"
proof (induction fs arbitrary: dp)
  case Nil
  then show ?case by simp
next
  case (Cons f fs)
  show ?case using sends_trans [OF dp_send_flow_end_sends Cons.IH] by simp
qed

section \<open>Ports\<close>

definition valid_ref :: "datapath \<Rightarrow> port_ref \<Rightarrow> bool" where
  "valid_ref dp r = (case r of Phys i \<Rightarrow> i < DP_MAX_PORTS | Local \<Rightarrow> local_port dp \<noteq> None)"

lemma lookup_valid: "dp_lookup_port dp n = Some r \<Longrightarrow> valid_ref dp r"
  by (auto simp: dp_lookup_port_def valid_ref_def split: if_splits)

lemma ref_ok_valid: "ref_ok dp r \<Longrightarrow> valid_ref dp r"
  by (auto simp: ref_ok_def valid_ref_def split: port_ref.splits)

lemma port_at_set_port:
  assumes "ports_inv dp" "valid_ref dp r"
  shows "port_at (set_port dp r p) s = (if s = r then p else port_at dp s)"
  using assms by (auto simp: port_at_def set_port_def valid_ref_def ports_inv_def split: port_ref.splits)

lemma set_port_frame [simp]:
  "chain (set_port dp r p) = chain dp" "pkts (set_port dp r p) = pkts dp" "remotes (set_port dp r p) = remotes dp"
  "port_list (set_port dp r p) = port_list dp" "wire (set_port dp r p) = wire dp"
  "dp_flags (set_port dp r p) = dp_flags dp" "miss_send_len (set_port dp r p) = miss_send_len dp"
  "last_timeout (set_port dp r p) = last_timeout dp" "listeners (set_port dp r p) = listeners dp"
  by (simp_all add: set_port_def split: port_ref.splits)

lemma port_at_inv: "ports_inv dp \<Longrightarrow> valid_ref dp r \<Longrightarrow> port_inv (port_at dp r)"
  by (auto simp: ports_inv_def valid_ref_def port_at_def list_all_length split: port_ref.splits)

lemma ref_ok_set_port: "valid_ref dp r \<Longrightarrow> ref_ok (set_port dp r p) = ref_ok dp"
  by (auto simp: ref_ok_def set_port_def valid_ref_def fun_eq_iff split: port_ref.splits)

lemma set_port_inv:
  assumes inv: "ports_inv dp" and r: "valid_ref dp r" and p: "port_inv p"
    and same: "netdev p = netdev (port_at dp r)" "port_no p = port_no (port_at dp r)"
  shows "ports_inv (set_port dp r p)"
proof -
  let ?d = "set_port dp r p"
  have len: "length (ports ?d) = DP_MAX_PORTS"
    using inv by (simp add: ports_inv_def set_port_def split: port_ref.splits)
  have all: "list_all port_inv (ports ?d)"
    using inv p set_update_subset_insert [of "ports dp"]
    by (force simp: ports_inv_def set_port_def list_all_iff split: port_ref.splits)
  have zero: "netdev (ports ?d ! 0) = None"
  proof (cases "r = Phys 0")
    case True
    then show ?thesis using inv same(1) by (simp add: ports_inv_def set_port_def port_at_def)
  next
    case False
    then have "ports ?d ! 0 = ports dp ! 0" by (cases r) (simp_all add: set_port_def)
    then show ?thesis using inv by (simp add: ports_inv_def)
  qed
  have loc: "\<forall>q. local_port ?d = Some q \<longrightarrow> port_inv q \<and> netdev q \<noteq> None"
    using inv p same(1) r by (cases r) (auto simp: ports_inv_def set_port_def port_at_def valid_ref_def)
  show ?thesis
    unfolding ports_inv_def
    using inv len all zero loc same port_at_set_port [OF inv r] ref_ok_set_port [OF r]
    by (simp add: ports_inv_def)
qed

lemma port_inv_queue_update:
  assumes "port_inv p" "class_id q = class_id (queues p ! i)" "q_port q = q_port (queues p ! i)"
  shows "port_inv (p\<lparr>queues := (queues p)[i := q]\<rparr>)"
proof -
  have "class_id ((queues p)[i := q] ! j) = class_id (queues p ! j)"
    "q_port ((queues p)[i := q] ! j) = q_port (queues p ! j)" for j
    using assms(2,3) by (cases "i < length (queues p)"; cases "i = j"; simp add: list_update_beyond)+
  then show ?thesis
    using assms(1) by (cases "queue_list p") (simp_all add: port_inv_def queues_inv_def PORT_IN_USE_def)
qed

section \<open>Output to a port and to the controller\<close>

lemma wire_inv [simp]: "ports_inv (dp\<lparr>wire := w\<rparr>) = ports_inv dp" "ports_inv (dp\<lparr>chain := c\<rparr>) = ports_inv dp"
  "ports_inv (dp\<lparr>pkts := pk\<rparr>) = ports_inv dp" "ports_inv (dp\<lparr>remotes := rs\<rparr>) = ports_inv dp"
  "ports_inv (dp\<lparr>last_timeout := t\<rparr>) = ports_inv dp" "ports_inv (dp\<lparr>listeners := ls\<rparr>) = ports_inv dp"
  by (rule ports_inv_cong; simp)+

lemma port_at_fields [simp]:
  "port_at (dp\<lparr>wire := w\<rparr>) = port_at dp" "port_at (dp\<lparr>chain := c\<rparr>) = port_at dp"
  "port_at (dp\<lparr>pkts := pk\<rparr>) = port_at dp" "port_at (dp\<lparr>remotes := rs\<rparr>) = port_at dp"
  "valid_ref (dp\<lparr>wire := w\<rparr>) = valid_ref dp" "valid_ref (dp\<lparr>chain := c\<rparr>) = valid_ref dp"
  "valid_ref (dp\<lparr>pkts := pk\<rparr>) = valid_ref dp" "valid_ref (dp\<lparr>remotes := rs\<rparr>) = valid_ref dp"
  by (simp_all add: port_at_def valid_ref_def fun_eq_iff split: port_ref.splits)

lemma port_inv_sent: "port_inv p \<Longrightarrow> port_inv (count_sent p q n)"
proof -
  assume p: "port_inv p"
  show ?thesis
  proof (cases q)
    case None
    then show ?thesis
      using p by (simp add: count_sent_def port_inv_def queues_inv_def PORT_IN_USE_def split: option.splits)
  next
    case (Some i)
    let ?p = "p\<lparr>tx_packets := tx_packets p + 1, tx_bytes := tx_bytes p + n\<rparr>"
    let ?q = "(queues p ! i)\<lparr>q_tx_packets := q_tx_packets (queues p ! i) + 1, q_tx_bytes := q_tx_bytes (queues p ! i) + n\<rparr>"
    have "port_inv ?p"
      using p by (simp add: port_inv_def queues_inv_def PORT_IN_USE_def split: option.splits)
    then have "port_inv (?p\<lparr>queues := (queues ?p)[i := ?q]\<rparr>)"
      by (rule port_inv_queue_update) simp_all
    then show ?thesis using Some by (simp add: count_sent_def)
  qed
qed

lemma count_sent_fields [simp]:
  "netdev (count_sent p q n) = netdev p" "port_no (count_sent p q n) = port_no p" "config (count_sent p q n) = config p"
  by (simp_all add: count_sent_def)

lemma port_inv_dropped: "port_inv p \<Longrightarrow> port_inv (p\<lparr>tx_dropped := c\<rparr>)"
  by (simp add: port_inv_def queues_inv_def PORT_IN_USE_def split: option.splits)

text \<open>The only parts of a datapath that sending a packet changes are its log and the counters of the port.\<close>

lemma output_packet_cases:
  assumes "output_packet env dp b no q_id = Ok dp'"
  obtains (dropped) "dp' = dp"
  | (sent) r nd cls q where "dp_lookup_port dp no = Some r" "netdev (port_at dp r) = Some nd"
      "config (port_at dp r) AND OFPPC_PORT_DOWN = 0" "dp' = transmit env dp b r nd cls q"
proof (cases "dp_lookup_port dp no")
  case None
  then show thesis using assms dropped by (simp add: output_packet_def)
next
  case r: (Some r)
  show thesis
  proof (cases "netdev (port_at dp r)")
    case None
    then show thesis using assms dropped r by (simp add: output_packet_def)
  next
    case nd: (Some nd)
    show thesis
    proof (cases "config (port_at dp r) AND OFPPC_PORT_DOWN = 0")
      case False
      then show thesis using assms dropped r nd by (simp add: output_packet_def)
    next
      case up: True
      then obtain cq where cq: "packet_class (port_at dp r) q_id = Ok cq"
        using assms r nd by (auto simp: output_packet_def bindR_eq_Ok)
      show thesis
      proof (cases cq)
        case None
        then show thesis using assms dropped r nd up cq by (simp add: output_packet_def)
      next
        case (Some x)
        then show thesis
          using assms r nd up cq sent [OF r nd up, of "fst x" "snd x"]
          by (cases x) (simp add: output_packet_def guardR_eq_Ok)
      qed
    qed
  qed
qed

lemma transmit_frame [simp]:
  "chain (transmit env dp b r nd cls q) = chain dp" "pkts (transmit env dp b r nd cls q) = pkts dp"
  "remotes (transmit env dp b r nd cls q) = remotes dp" "port_list (transmit env dp b r nd cls q) = port_list dp"
  "wire (transmit env dp b r nd cls q) = wire dp @ [(nd, data b, cls, send_ok env (length (wire dp)))]"
  "dp_flags (transmit env dp b r nd cls q) = dp_flags dp"
  by (simp_all add: transmit_def Let_def)

lemma transmit_port:
  assumes "ports_inv dp" "valid_ref dp r"
  shows "netdev (port_at (transmit env dp b r nd cls q) s) = netdev (port_at dp s)"
    "port_no (port_at (transmit env dp b r nd cls q) s) = port_no (port_at dp s)"
    "config (port_at (transmit env dp b r nd cls q) s) = config (port_at dp s)"
  using assms port_at_set_port [of "dp\<lparr>wire := w\<rparr>" r p s for w p]
  by (simp_all add: transmit_def Let_def)

lemma transmit_inv:
  assumes "ports_inv dp" "valid_ref dp r"
  shows "ports_inv (transmit env dp b r nd cls q)"
  unfolding transmit_def Let_def
  using assms port_at_inv [OF assms] port_inv_sent port_inv_dropped
  by (intro set_port_inv) auto

lemma output_packet_inv:
  assumes "dp_inv dp" "output_packet env dp b no q_id = Ok dp'"
  shows "dp_inv dp'"
  using assms(2)
proof (cases rule: output_packet_cases)
  case dropped
  then show ?thesis using assms(1) by simp
next
  case (sent r nd cls q)
  then show ?thesis
    using assms(1) transmit_inv [OF _ lookup_valid [OF sent(1)]] by (simp add: dp_inv_def)
qed

lemma dp_output_control_sends:
  assumes "dp_output_control env dp b no n rs = Ok dp'"
  shows "sends (dp\<lparr>pkts := fst (save_buffer (time_now env) b (pkts dp))\<rparr>) dp'"
  using assms send_openflow_buffer_sends
  by (auto simp: dp_output_control_def Let_def mapR_def result_simps split: prod.splits)

lemma dp_output_control_inv:
  assumes "dp_inv dp" "dp_output_control env dp b no n rs = Ok dp'"
  shows "dp_inv dp'"
proof (rule sends_inv [OF dp_output_control_sends [OF assms(2)]])
  have "buffers_inv (fst (save_buffer (time_now env) b (pkts dp)))"
    using assms(1) pkts.save_inv [of "pkts dp" "time_now env" b] by (metis dp_inv_def prod.collapse)
  then show "dp_inv (dp\<lparr>pkts := fst (save_buffer (time_now env) b (pkts dp))\<rparr>)"
    using assms(1) by (simp add: dp_inv_def)
qed

end
