(* ===== verification/OF_Fwd_Inv.thy ===== *)
theory OF_Fwd_Inv
  imports OF_Dp_Inv
begin

unbundle bit_operations_syntax

text \<open>
  Forwarding keeps invariants and comes to an end. The locale \<open>forwarding\<close> lists what a property
  of a datapath needs to survive the elementary steps of forwarding; its lemmas carry the property
  through the mutually recursive functions. \<open>loop_free_forwarding\<close> adds that no entry sends a
  packet back to the tables, and bounds the recursion.
\<close>

section \<open>Outcomes\<close>

text \<open>A call that returns leaves \<open>I\<close> true, and one that does not return fails in a way that \<open>E\<close> allows.\<close>

definition outcome :: "('a \<Rightarrow> bool) \<Rightarrow> (failure \<Rightarrow> bool) \<Rightarrow> 'a result \<Rightarrow> bool" where
  "outcome I E r = (case r of Ok x \<Rightarrow> I x | Fail e \<Rightarrow> E e)"

lemma outcome_simps [simp]: "outcome I E (Ok x) = I x" "outcome I E (Fail e) = E e"
  by (simp_all add: outcome_def)

lemma outcome_bindR:
  "outcome J E m \<Longrightarrow> (\<And>x. m = Ok x \<Longrightarrow> J x \<Longrightarrow> outcome I E (f x)) \<Longrightarrow> outcome I E (bindR m f)"
  by (cases m) auto

lemma outcome_mapR: "outcome I E (mapR f m) = outcome (\<lambda>x. I (f x)) E m"
  by (cases m) auto

lemma bindR_Pair: "bindR m (\<lambda>x. Ok (x, c)) = mapR (\<lambda>x. (x, c)) m"
  by (simp add: mapR_def)

lemma outcome_mono:
  "outcome I E m \<Longrightarrow> (\<And>x. I x \<Longrightarrow> J x) \<Longrightarrow> (\<And>e. E e \<Longrightarrow> F e) \<Longrightarrow> outcome J F m"
  by (cases m) auto

lemma outcome_OkD: "outcome I E m \<Longrightarrow> m = Ok x \<Longrightarrow> I x"
  by simp

lemma outcome_TrueI: "(\<And>x. m = Ok x \<Longrightarrow> I x) \<Longrightarrow> outcome I (\<lambda>_. True) m"
  by (cases m) auto

lemma run_actions_outcome:
  assumes "I dp" and "\<And>b k a e. execute_other b k a = Fail e \<Longrightarrow> E e"
    and "\<And>dp b a port q ml. I dp \<Longrightarrow> a \<in> set as \<Longrightarrow> output_of a = Some (port, q, ml) \<Longrightarrow>
      outcome I E (out dp b in_prt ml port q ignore)"
  shows "outcome I E (run_actions out in_prt ignore dp buffer k as)"
  using assms(1,3)
proof (induction "as" arbitrary: dp buffer k)
  case Nil
  then show ?case by simp
next
  case (Cons a "as")
  have IH: "outcome I E (run_actions out in_prt ignore dp' b' k' as)" if "I dp'" for dp' b' k'
    by (rule Cons.IH [OF that]) (rule Cons.prems(2), auto)
  show ?case
  proof (cases "output_of a")
    case None
    show ?thesis
    proof (cases "execute_other buffer k a")
      case (Ok x)
      then show ?thesis
        using None IH [OF Cons.prems(1)] by (simp add: case_prod_unfold)
    next
      case (Fail e)
      then show ?thesis using None assms(2) by simp
    qed
  next
    case (Some x)
    then obtain port q ml where x: "output_of a = Some (port, q, ml)" by (cases x) auto
    have "outcome I E (out dp b in_prt ml port q ignore)" for b
      by (rule Cons.prems(2) [OF Cons.prems(1) _ x]) simp
    from outcome_bindR [OF this IH] show ?thesis
      using x by simp
  qed
qed

text \<open>No set-field action loops.\<close>

lemma field_at_returns [simp]: "field_at b p off n \<noteq> Fail No_return"
  by (auto simp: field_at_def deref_def split: option.splits)

lemma push_uninit_returns [simp]: "ofpbuf_push_uninit b n \<noteq> Fail No_return"
  by (simp add: buf_defs guardR_def)

lemma set_field_returns [simp]:
  "set_vlan_vid b k a \<noteq> Fail No_return" "set_vlan_pcp b k a \<noteq> Fail No_return"
  "strip_vlan b k a \<noteq> Fail No_return" "set_dl_addr b k a \<noteq> Fail No_return"
  by (auto simp: set_vlan_vid_def set_vlan_pcp_def modify_vlan_tci_def strip_vlan_def vlan_pull_tag_def
      set_dl_addr_def act_has_def guardR_def bindR_eq_Fail Let_def split: if_splits)

lemma set_nw_l4_csum_returns [simp]: "set_nw_l4_csum b k off new \<noteq> Fail No_return"
  by (auto simp: set_nw_l4_csum_def bindR_eq_Fail Let_def split: if_splits)

lemma set_tp_field_returns [simp]: "set_tp_field b c off new \<noteq> Fail No_return"
  by (auto simp: set_tp_field_def bindR_eq_Fail Let_def)

lemma set_nw_field_returns [simp]:
  "set_nw_addr b k a \<noteq> Fail No_return" "set_nw_tos b k a \<noteq> Fail No_return" "set_tp_port b k a \<noteq> Fail No_return"
  by (auto simp: set_nw_addr_def set_nw_tos_def set_tp_port_def act_has_def guardR_def bindR_eq_Fail Let_def
      split: if_splits)

lemma execute_other_returns [simp]: "execute_other b k a \<noteq> Fail No_return"
  by (simp add: execute_other_def execute_ofpat_def Let_def)

section \<open>Looking up a packet\<close>

lemma same_slot_used [simp]: "same_slot (flow_used now f b) f"
  by (simp add: same_slot_def flow_used_def)

lemma packet_key_simps [simp]: "wildcards (packet_key env fl) = 0" "kflow (packet_key env fl) = fl"
  by (simp_all add: packet_key_def)

text \<open>Only counters of the working tables change.\<close>

lemma lookup_miss:
  assumes "chain_inv ch" "pad fl = (0, 0, 0)" "chain_lookup ch (packet_key env fl) False = Ok (ch', None)"
  shows "chain_inv ch'" "chain_flows ch' = chain_flows ch" "emerg_table ch' = emerg_table ch"
  using chain_lookup_working [OF assms(1), of "packet_key env fl"] assms(2,3) by auto

lemma lookup_match:
  assumes "chain_inv ch" "pad fl = (0, 0, 0)" "chain_lookup ch (packet_key env fl) False = Ok (ch', Some r)"
  shows "chain_inv (use_match now ch' r b)" "emerg_table (use_match now ch' r b) = emerg_table ch"
    "\<exists>xs ys. chain_flows ch = xs @ chain_flow_at ch' r # ys \<and>
       chain_flows (use_match now ch' r b) = xs @ flow_used now (chain_flow_at ch' r) b # ys"
    "best_match (chain_flows ch) (packet_key env fl) (Some (chain_flow_at ch' r))"
  using chain_set_flow_working [OF assms(1) _ assms(3), of "flow_used now (chain_flow_at ch' r) b"]
    chain_lookup_working [OF assms(1), of "packet_key env fl"] assms(2,3)
  by (auto simp: use_match_def)

lemma flow_extract_pad: "flow_extract b n = (frag, fl, b') \<Longrightarrow> pad fl = (0, 0, 0)"
  using flow_extract_canonical [of b n frag fl b'] by (simp add: canonical_flow_def)

section \<open>Invariants of forwarding\<close>

definition keeps :: "(datapath \<Rightarrow> bool) \<Rightarrow> port_output \<Rightarrow> bool" where
  "keeps I out \<longleftrightarrow> (\<forall>dp b ip p q ig. I dp \<longrightarrow> outcome I (\<lambda>_. True) (out dp b ip p q ig))"

lemma keepsD: "keeps I out \<Longrightarrow> I dp \<Longrightarrow> outcome I (\<lambda>_. True) (out dp b ip p q ig)"
  by (simp add: keeps_def)

locale forwarding =
  fixes env :: env and I :: "datapath \<Rightarrow> bool"
  assumes packet: "I dp \<Longrightarrow> output_packet env dp b no q = Ok dp' \<Longrightarrow> I dp'"
    and control: "I dp \<Longrightarrow> dp_output_control env dp b no n rs = Ok dp' \<Longrightarrow> I dp'"
    and miss: "I dp \<Longrightarrow> pad fl = (0, 0, 0) \<Longrightarrow>
      chain_lookup (chain dp) (packet_key env fl) False = Ok (ch, None) \<Longrightarrow> I (dp\<lparr>chain := ch\<rparr>)"
    and match: "I dp \<Longrightarrow> pad fl = (0, 0, 0) \<Longrightarrow>
      chain_lookup (chain dp) (packet_key env fl) False = Ok (ch, Some r) \<Longrightarrow>
      I (dp\<lparr>chain := use_match (time_msec env) ch r b\<rparr>) \<and>
      acts_valid (chain_flow_at (use_match (time_msec env) ch r b) r)"
begin

lemma do_output_inv:
  assumes "keeps I out" "I dp"
  shows "outcome I (\<lambda>_. True) (do_output env out dp b ip ml p q ig)"
proof -
  have "outcome I (\<lambda>_. True) (dp_output_control env dp b ip ml OFPR_ACTION)"
    by (rule outcome_TrueI) (rule control [OF assms(2)])
  then show ?thesis using keepsD [OF assms] by (simp add: do_output_def)
qed

lemma execute_inv:
  assumes "keeps I out" "I dp" "validate_actions k0 acts = ACT_VALIDATION_OK"
    and "execute_actions (do_output env out) dp b k acts ig = Ok dp'"
  shows "I dp'"
proof -
  have "outcome I (\<lambda>_. True) (run_actions (do_output env out) (ntohs (in_port (kflow k))) ig dp b k (act_list acts))"
    by (rule run_actions_outcome [where I = I]) (simp_all add: assms(2) do_output_inv [OF assms(1)])
  moreover have "run_actions (do_output env out) (ntohs (in_port (kflow k))) ig dp b k (act_list acts) = Ok dp'"
    using assms(4) execute_actions_run [OF assms(3), of "do_output env out" dp b k ig] by simp
  ultimately show ?thesis by simp
qed

lemma output_all_inv:
  assumes "keeps I out" "I dp" "output_all out dp b ip flood = Ok dp'"
  shows "I dp'"
proof -
  have loop: "I dp \<Longrightarrow> outcome (\<lambda>x. I (fst x)) (\<lambda>_. True) (output_all_loop out b ip flood rs dp prev)"
    for rs dp prev
  proof (induction rs arbitrary: dp prev)
    case Nil
    then show ?case by simp
  next
    case (Cons r rs)
    have o: "outcome I (\<lambda>_. True) (case prev of Some port \<Rightarrow> out dp (ofpbuf_clone b) ip port 0 False | None \<Rightarrow> Ok dp)"
      using Cons.prems keepsD [OF assms(1) Cons.prems] by (cases prev) simp_all
    show ?case
      using Cons.IH [OF Cons.prems] outcome_bindR [OF o Cons.IH] by (simp add: Let_def)
  qed
  obtain d prev where d: "output_all_loop out b ip flood (port_list dp) dp None = Ok (d, prev)"
    "(case prev of Some port \<Rightarrow> out d b ip port 0 False | None \<Rightarrow> Ok d) = Ok dp'"
    using assms(3) by (auto simp: output_all_def bindR_eq_Ok)
  then have "I d" using loop [OF assms(2), of "port_list dp" None] by simp
  then show ?thesis
    using d(2) keepsD [OF assms(1), of d b ip "the prev" 0 False] by (cases prev) simp_all
qed

lemma apply_tables_inv:
  assumes "keeps I out" "I dp" "pad fl = (0, 0, 0)" "apply_tables env out dp b (packet_key env fl) = Ok (dp', e)"
  shows "I dp'"
proof -
  obtain ch fr where l: "chain_lookup (chain dp) (packet_key env fl) False = Ok (ch, fr)"
    using assms(4) by (auto simp: apply_tables_def bindR_eq_Ok)
  show ?thesis
  proof (cases fr)
    case None
    then show ?thesis using assms(4) miss [OF assms(2,3)] l by (simp add: apply_tables_def)
  next
    case (Some x)
    let ?ch = "use_match (time_msec env) ch x b"
    have m: "I (dp\<lparr>chain := ?ch\<rparr>)" "acts_valid (chain_flow_at ?ch x)"
      using match [OF assms(2,3)] l Some by auto
    then obtain k0 where k0: "validate_actions k0 (sf_acts (chain_flow_at ?ch x)) = ACT_VALIDATION_OK"
      by (auto simp: acts_valid_def)
    show ?thesis
      by (rule execute_inv [OF assms(1) m(1) k0]) (use assms(4) l Some in \<open>auto simp: apply_tables_def Let_def bindR_eq_Ok\<close>)
  qed
qed

lemma run_flow_inv:
  assumes "keeps I out" "I dp" "run_flow_through_tables env out dp b r = Ok (dp', b', e)"
  shows "I dp'"
proof -
  obtain frag fl b1 where fe: "flow_extract b (case map_option (port_at dp) r of Some p \<Rightarrow> port_no p | None \<Rightarrow> OFPP_NONE)
      = (frag, fl, b1)" by (metis prod_cases3)
  show ?thesis
    using assms(2,3) fe apply_tables_inv [OF assms(1,2) flow_extract_pad [OF fe], of b1 dp']
    by (auto simp: run_flow_through_tables_def mapR_def bindR_eq_Ok split: if_splits)
qed

lemma dp_output_port_inv: "keeps I (dp_output_port env n)"
proof (induction n)
  case 0
  then show ?case by (simp add: keeps_def)
next
  case (Suc n)
  have run: "outcome I (\<lambda>_. True) (mapR fst (run_flow_through_tables env (dp_output_port env n) dp b r))"
    if "I dp" for dp b r
    using run_flow_inv [OF Suc.IH that] by (auto intro!: outcome_TrueI simp: mapR_def bindR_eq_Ok)
  have all: "outcome I (\<lambda>_. True) (output_all (dp_output_port env n) dp b ip f)" if "I dp" for dp b ip f
    by (rule outcome_TrueI) (rule output_all_inv [OF Suc.IH that])
  have "outcome I (\<lambda>_. True) (output_packet env dp b no q)"
    "outcome I (\<lambda>_. True) (dp_output_control env dp b no k rs)" if "I dp" for dp b no q k rs
    by (auto intro: outcome_TrueI packet [OF that] control [OF that])
  then show ?case
    unfolding keeps_def using run all by simp
qed

lemmas fwd_execute_inv = execute_inv [OF dp_output_port_inv]

lemma fwd_port_input_inv:
  assumes "I dp" "fwd_port_input env n dp b r = Ok dp'"
  shows "I dp'"
proof -
  obtain d b' e where d: "run_flow_through_tables env (dp_output_port env n) dp b (Some r) = Ok (d, b', e)"
    "(if e \<noteq> 0 then dp_output_control env d b' (port_no (port_at d r)) (unat (miss_send_len d)) OFPR_NO_MATCH
      else Ok d) = Ok dp'"
    using assms(2) by (auto simp: fwd_port_input_def bindR_eq_Ok)
  have "I d" by (rule run_flow_inv [OF dp_output_port_inv assms(1) d(1)])
  then show ?thesis using d(2) control by (auto split: if_splits)
qed

end

section \<open>The entry found after its counters changed\<close>

lemma hash_set_flow_at:
  assumes "hash_inv t" "pad (kflow k) = (0, 0, 0)" "table_hash_lookup t k = Some i"
  shows "hash_flow_at (hash_set_flow t i f) i = f"
  using assms by (rule hash_lookup_Some) (simp add: hash_flow_at_def hash_set_flow_def)

lemma linear_set_flow_at:
  assumes "linear_inv t" "table_linear_lookup t k = Some i"
  shows "linear_flow_at (linear_set_flow t i f) i = f"
proof -
  obtain xs g ys where es: "l_flows t = xs @ (i, g) # ys" "\<forall>e \<in> set xs \<union> set ys. fst e \<noteq> i"
    using assms by (rule linear_lookup_Some)
  then have "map_of xs i = None" by (auto simp: map_of_eq_None_iff)
  moreover have "l_flows (linear_set_flow t i f) = xs @ (i, f) # ys"
    using es by (auto simp: linear_set_flow_def map_idI)
  ultimately show ?thesis by (simp add: linear_flow_at_def map_add_def)
qed

lemma table_set_flow_at:
  assumes "table_inv t" "pad (kflow k) = (0, 0, 0)" "table_lookup t k = Some r"
  shows "table_flow_at (table_set_flow t r f) r = f"
proof (cases t)
  case (Hash_table h)
  then show ?thesis using assms hash_set_flow_at by auto
next
  case (Hash2_table h)
  then have l: "table_hash2_lookup h k = Some r" "hash_inv (subtable0 h)" "hash_inv (subtable1 h)"
    using assms by (simp_all add: hash2_inv_def)
  from l(1) show ?thesis
    by (cases rule: hash2_lookup_cases)
      (auto simp: Hash2_table hash2_flow_at_def hash2_set_flow_def hash_set_flow_at [OF l(2) assms(2)]
        hash_set_flow_at [OF l(3) assms(2)])
next
  case (Linear_table h)
  then show ?thesis using assms linear_set_flow_at by auto
qed

lemma chain_set_flow_at:
  assumes inv: "chain_inv ch" and k: "pad (kflow k) = (0, 0, 0)" and l: "chain_lookup ch k False = Ok (ch', Some r)"
  shows "chain_flow_at (chain_set_flow ch' r f) r = f"
proof -
  obtain ts where ts: "chain_lookup_loop k 0 (tables ch) = (ts, Some r)" "ch' = ch\<lparr>tables := ts\<rparr>"
    using l by (auto simp: chain_lookup_def guardR_def split: if_splits prod.splits)
  have cnt: "list_all2 counted ts (tables ch)" by (rule chain_lookup_loop_counted [OF ts(1)])
  obtain j ref where j: "r = Working j ref" "j < length (tables ch)" "table_lookup (tables ch ! j) k = Some ref"
    using chain_lookup_loop_best [OF _ _ k ts(1)] inv by (auto simp: chain_inv_def)
  have cj: "counted (ts ! j) (tables ch ! j)" and lj: "j < length ts"
    using cnt j(2) by (simp_all add: list_all2_conv_all_nth)
  have "table_inv (ts ! j)" using inv all_counted [OF cnt] lj by (simp add: chain_inv_def list_all_length)
  moreover have "table_lookup (ts ! j) k = Some ref" using j(3) counted_simps(5) [OF cj] by simp
  ultimately show ?thesis
    using table_set_flow_at [OF _ k] lj by (simp add: chain_flow_at_def chain_set_flow_def j(1) ts(2))
qed

lemma use_match_acts:
  assumes "chain_inv ch" "pad fl = (0, 0, 0)" "chain_lookup ch (packet_key env fl) False = Ok (ch', Some r)"
  shows "sf_acts (chain_flow_at (use_match now ch' r b) r) = sf_acts (chain_flow_at ch' r)"
  using chain_set_flow_at [OF assms(1) _ assms(3)] assms(2) by (simp add: use_match_def flow_used_def)

lemma chain_ok_lookup:
  assumes ok: "chain_ok ch" and pad: "pad fl = (0, 0, 0)"
    and l: "chain_lookup ch (packet_key env fl) False = Ok (ch', Some r)"
  shows "chain_ok (use_match now ch' r b)"
    and "\<exists>f \<in> set (chain_flows ch). sf_acts (chain_flow_at (use_match now ch' r b) r) = sf_acts f"
proof -
  have inv: "chain_inv ch" using ok by (simp add: chain_ok_def)
  note m = lookup_match(1-3) [OF inv pad l, of now b]
  obtain xs ys where xy: "chain_flows ch = xs @ chain_flow_at ch' r # ys"
    "chain_flows (use_match now ch' r b) = xs @ flow_used now (chain_flow_at ch' r) b # ys"
    using m(3) by blast
  show "\<exists>f \<in> set (chain_flows ch). sf_acts (chain_flow_at (use_match now ch' r b) r) = sf_acts f"
    using xy(1) use_match_acts [OF inv pad l] by auto
  show "chain_ok (use_match now ch' r b)"
    using ok m(1,2) by (simp add: chain_ok_def xy emerg_flows_def acts_valid_def flow_used_def)
qed

lemma output_packet_frame:
  assumes "output_packet env dp b no q = Ok dp'"
  shows "chain dp' = chain dp" "port_list dp' = port_list dp" "remotes dp' = remotes dp" "pkts dp' = pkts dp"
  using assms by (cases rule: output_packet_cases; simp)+

lemma dp_output_control_frame:
  assumes "dp_output_control env dp b no n rs = Ok dp'"
  shows "chain dp' = chain dp" "port_list dp' = port_list dp" "wire dp' = wire dp" "ports dp' = ports dp"
    "local_port dp' = local_port dp"
  using sends_fields [OF dp_output_control_sends [OF assms]] by simp_all

interpretation fwd: forwarding env dp_inv for env
proof unfold_locales
  fix env dp b no q n rs dp' ch r and fl :: flow
  assume inv: "dp_inv dp"
  show "dp_inv dp'" if "output_packet env dp b no q = Ok dp'"
    by (rule output_packet_inv [OF inv that])
  show "dp_inv dp'" if "dp_output_control env dp b no n rs = Ok dp'"
    by (rule dp_output_control_inv [OF inv that])
  have ok: "chain_ok (chain dp)" using inv by (simp add: dp_inv_def)
  assume pad: "pad fl = (0, 0, 0)"
  show "dp_inv (dp\<lparr>chain := ch\<rparr>)" if "chain_lookup (chain dp) (packet_key env fl) False = Ok (ch, None)"
    using lookup_miss [OF _ pad that] inv by (simp add: dp_inv_def chain_ok_def emerg_flows_def)
  show "dp_inv (dp\<lparr>chain := use_match (time_msec env) ch r b\<rparr>) \<and>
      acts_valid (chain_flow_at (use_match (time_msec env) ch r b) r)"
    if "chain_lookup (chain dp) (packet_key env fl) False = Ok (ch, Some r)"
    using chain_ok_lookup [OF ok pad that, of "time_msec env" b] inv ok
    by (auto simp: dp_inv_def chain_ok_def acts_valid_def)
qed

section \<open>Forwarding ends\<close>

lemma output_packet_returns: "output_packet env dp b no q \<noteq> Fail No_return"
  by (auto simp: output_packet_def packet_class_def dp_lookup_queue_def port_queues_def guardR_def mapR_def bindR_eq_Fail
      case_prod_unfold split: option.splits if_splits)

lemma dp_output_control_returns: "dp_output_control env dp b no n rs \<noteq> Fail No_return"
  by (auto simp: dp_output_control_def send_openflow_buffer_def update_openflow_length_def Let_def mapR_def
      guardR_def bindR_eq_Fail case_prod_unfold split: option.splits if_splits)

locale loop_free_forwarding = forwarding +
  fixes pl :: "port_ref list"
  assumes known_ports: "I dp \<Longrightarrow> port_list dp = pl"
      "I dp \<Longrightarrow> r \<in> set pl \<Longrightarrow> port_no (port_at dp r) \<notin> {OFPP_TABLE, OFPP_FLOOD, OFPP_ALL}"
    and no_table: "I dp \<Longrightarrow> pad fl = (0, 0, 0) \<Longrightarrow>
      chain_lookup (chain dp) (packet_key env fl) False = Ok (ch, Some r') \<Longrightarrow>
      a \<in> set (act_list (sf_acts (chain_flow_at (use_match (time_msec env) ch r' b) r'))) \<Longrightarrow>
      output_of a = Some (port, q, ml) \<Longrightarrow> port \<noteq> OFPP_TABLE"
begin

abbreviation returns :: "datapath result \<Rightarrow> bool" where
  "returns \<equiv> outcome I (\<lambda>e. e \<noteq> No_return)"

lemma packet_returns: "I dp \<Longrightarrow> returns (output_packet env dp b no q)"
  using packet [of dp b no q] output_packet_returns [of env dp b no q]
  by (cases "output_packet env dp b no q") auto

lemma control_returns: "I dp \<Longrightarrow> returns (dp_output_control env dp b no n rs)"
  using control [of dp b no n rs] dp_output_control_returns [of env dp b no n rs]
  by (cases "dp_output_control env dp b no n rs") auto

text \<open>One level for a port, two for all ports.\<close>

lemma port_returns:
  "I dp \<Longrightarrow> p \<notin> {OFPP_TABLE, OFPP_FLOOD, OFPP_ALL} \<Longrightarrow> returns (dp_output_port env (Suc n) dp b ip p q ig)"
  by (simp add: packet_returns control_returns)

lemma output_all_returns:
  assumes "I dp"
  shows "returns (output_all (dp_output_port env (Suc n)) dp b ip flood)"
proof -
  define out where "out = dp_output_port env (Suc n)"
  define good where "good = (\<lambda>prev. \<forall>p. prev = Some p \<longrightarrow> p \<notin> {OFPP_TABLE, OFPP_FLOOD, OFPP_ALL})"
  have send: "returns (case prev of Some port \<Rightarrow> out dp b' ip port 0 False | None \<Rightarrow> Ok dp)"
    if "I dp" "good prev" for dp b' prev
    using that port_returns unfolding good_def out_def by (cases prev) (simp_all del: dp_output_port.simps)
  have loop: "outcome (\<lambda>x. I (fst x) \<and> good (snd x)) (\<lambda>e. e \<noteq> No_return) (output_all_loop out b ip flood rs dp prev)"
    if "I dp" "good prev" "set rs \<subseteq> set pl" for rs dp prev
    using that
  proof (induction rs arbitrary: dp prev)
    case Nil
    then show ?case by simp
  next
    case (Cons r rs)
    have "good (Some (port_no (port_at dp r)))"
      using known_ports(2) [OF Cons.prems(1)] Cons.prems(3) by (auto simp: good_def)
    then show ?case
      using Cons.IH [of dp prev] Cons.prems outcome_bindR [OF send [OF Cons.prems(1,2)] Cons.IH] by (simp add: Let_def)
  qed
  have "good None" by (simp add: good_def)
  then have "outcome (\<lambda>x. I (fst x) \<and> good (snd x)) (\<lambda>e. e \<noteq> No_return)
      (output_all_loop out b ip flood (port_list dp) dp None)"
    using loop [OF assms, of None pl] known_ports(1) [OF assms] by simp
  then show ?thesis
    unfolding output_all_def out_def [symmetric] by (rule outcome_bindR) (auto intro: send)
qed

lemma no_table_returns:
  "I dp \<Longrightarrow> p \<noteq> OFPP_TABLE \<Longrightarrow> returns (dp_output_port env (Suc (Suc n)) dp b ip p q ig)"
  using output_all_returns [of dp n b ip] by (simp add: packet_returns control_returns del: dp_output_port.simps(2)
      add: dp_output_port.simps(2) [of env "Suc n"])

lemma apply_tables_returns:
  assumes "I dp" "pad fl = (0, 0, 0)"
  shows "outcome (\<lambda>x. I (fst x)) (\<lambda>e. e \<noteq> No_return)
    (apply_tables env (dp_output_port env (Suc (Suc n))) dp b (packet_key env fl))"
proof (cases "chain_lookup (chain dp) (packet_key env fl) False")
  case (Fail e)
  then show ?thesis by (simp add: apply_tables_def chain_lookup_def guardR_def split: if_splits prod.splits)
next
  case (Ok x)
  obtain ch fr where x: "x = (ch, fr)" by (cases x)
  show ?thesis
  proof (cases fr)
    case None
    then show ?thesis using miss [OF assms] Ok x by (simp add: apply_tables_def)
  next
    case (Some r)
    let ?ch = "use_match (time_msec env) ch r b"
    let ?acts = "sf_acts (chain_flow_at ?ch r)"
    have l: "chain_lookup (chain dp) (packet_key env fl) False = Ok (ch, Some r)" using Ok x Some by simp
    have m: "I (dp\<lparr>chain := ?ch\<rparr>)" "acts_valid (chain_flow_at ?ch r)" using match [OF assms l] by auto
    then obtain k0 where k0: "validate_actions k0 ?acts = ACT_VALIDATION_OK" by (auto simp: acts_valid_def)
    have out: "returns (do_output env (dp_output_port env (Suc (Suc n))) d b' ip ml p q ig)"
      if "I d" "a \<in> set (act_list ?acts)" "output_of a = Some (p, q, ml)" for d b' ip ml p q ig a
      using no_table [OF assms l that(2,3)] control_returns [OF that(1)] no_table_returns [OF that(1)]
      by (simp add: do_output_def del: dp_output_port.simps)
    have "returns (run_actions (do_output env (dp_output_port env (Suc (Suc n)))) ip ig (dp\<lparr>chain := ?ch\<rparr>) b k (act_list ?acts))"
      for ip ig k
      by (rule run_actions_outcome [where I = I and E = "\<lambda>e. e \<noteq> No_return"])
        (use m(1) execute_other_returns in \<open>auto simp del: execute_other_returns dp_output_port.simps intro!: out\<close>)
    then show ?thesis
      using l by (simp add: apply_tables_def Let_def bindR_Pair outcome_mapR execute_actions_run [OF k0]
          del: dp_output_port.simps)
  qed
qed

lemma run_flow_returns:
  assumes "I dp"
  shows "outcome (\<lambda>x. I (fst x)) (\<lambda>e. e \<noteq> No_return)
    (run_flow_through_tables env (dp_output_port env (Suc (Suc n))) dp b r)"
proof -
  obtain frag fl b1 where fe: "flow_extract b (case map_option (port_at dp) r of Some p \<Rightarrow> port_no p | None \<Rightarrow> OFPP_NONE)
      = (frag, fl, b1)" by (metis prod_cases3)
  have "outcome (\<lambda>x. I (fst (case x of (dp, e) \<Rightarrow> (dp, b1, e)))) (\<lambda>e. e \<noteq> No_return)
    (apply_tables env (dp_output_port env (Suc (Suc n))) dp b1 (packet_key env fl))"
    using apply_tables_returns [OF assms flow_extract_pad [OF fe]] by (simp add: case_prod_unfold)
  then show ?thesis
    using assms fe by (simp add: run_flow_through_tables_def outcome_mapR del: dp_output_port.simps)
qed

theorem dp_output_port_returns:
  assumes "I dp"
  shows "returns (dp_output_port env (Suc (Suc (Suc n))) dp b ip p q ig)"
proof (cases "p = OFPP_TABLE")
  case True
  then show ?thesis
    using run_flow_returns [OF assms, of n b "dp_lookup_port dp ip"]
    by (simp add: outcome_mapR del: dp_output_port.simps add: dp_output_port.simps(2) [of env "Suc (Suc n)"])
next
  case False
  then show ?thesis by (rule no_table_returns [OF assms])
qed

theorem fwd_port_input_returns:
  assumes "I dp"
  shows "returns (fwd_port_input env (Suc (Suc n)) dp b r)"
  unfolding fwd_port_input_def
  by (rule outcome_bindR [OF run_flow_returns [OF assms]]) (auto simp: control_returns)

end

text \<open>No entry in force outputs to \<open>OFPP_TABLE\<close>.\<close>

definition acts_table_free :: "bytes \<Rightarrow> bool" where
  "acts_table_free acts \<longleftrightarrow> (\<forall>a \<in> set (act_list acts). map_option fst (output_of a) \<noteq> Some OFPP_TABLE)"

definition table_free :: "sw_chain \<Rightarrow> bool" where
  "table_free ch \<longleftrightarrow> (\<forall>f \<in> set (chain_flows ch). acts_table_free (sf_acts f))"

lemma table_free_lookup:
  assumes "chain_inv ch" "pad fl = (0, 0, 0)" "chain_lookup ch (packet_key env fl) False = Ok (ch', fr)"
  shows "table_free ch' = table_free ch"
    and "fr = Some r \<Longrightarrow> table_free (use_match now ch' r b) = table_free ch"
proof -
  show "table_free ch' = table_free ch"
    using chain_lookup_working [OF assms(1), of "packet_key env fl"] assms(2,3) by (auto simp: table_free_def)
  assume "fr = Some r"
  then show "table_free (use_match now ch' r b) = table_free ch"
    using lookup_match(3) [OF assms(1,2), of env ch' r now b] assms(3) by (auto simp: table_free_def flow_used_def)
qed

text \<open>The reserved port numbers above \<open>OFPP_MAX\<close> are not those of ports, \<open>OFPP_LOCAL\<close> apart.\<close>

lemma listed_port_no:
  assumes "ports_inv dp" "r \<in> set (port_list dp)"
  shows "port_no (port_at dp r) \<notin> {OFPP_TABLE, OFPP_FLOOD, OFPP_ALL, OFPP_IN_PORT, OFPP_CONTROLLER, OFPP_NONE}"
proof -
  have "port_no (port_at dp r) = ref_no r" "ref_ok dp r" using assms by (auto simp: ports_inv_def)
  moreover have "unat (of_nat i :: u16) = i" if "i < 256" for i
    using that by (simp add: unat_of_nat take_bit_nat_eq_self)
  ultimately show ?thesis
    by (cases r) (auto simp: ref_no_def ref_ok_def dest!: arg_cong [where f = unat])
qed

definition loop_free :: "port_ref list \<Rightarrow> datapath \<Rightarrow> bool" where
  "loop_free pl dp \<longleftrightarrow> dp_inv dp \<and> table_free (chain dp) \<and> port_list dp = pl"

interpretation lf: loop_free_forwarding env "loop_free pl" pl for env pl
proof unfold_locales
  fix env pl dp b no q n rs dp' ch r port ml a and fl :: flow
  assume I: "loop_free pl dp"
  then have inv: "dp_inv dp" "chain_inv (chain dp)" "chain_ok (chain dp)" "table_free (chain dp)" "port_list dp = pl"
    by (auto simp: loop_free_def dp_inv_def chain_ok_def)
  show "loop_free pl dp'" if "output_packet env dp b no q = Ok dp'"
    using fwd.packet [OF inv(1) that] output_packet_frame [OF that] inv by (simp add: loop_free_def)
  show "loop_free pl dp'" if "dp_output_control env dp b no n rs = Ok dp'"
    using fwd.control [OF inv(1) that] dp_output_control_frame [OF that] inv by (simp add: loop_free_def)
  show "port_list dp = pl" by fact
  show "port_no (port_at dp r') \<notin> {OFPP_TABLE, OFPP_FLOOD, OFPP_ALL}" if "r' \<in> set pl" for r'
    using inv(1,5) that listed_port_no [of dp r'] by (simp add: dp_inv_def)
  assume pad: "pad fl = (0, 0, 0)"
  show "loop_free pl (dp\<lparr>chain := ch\<rparr>)" if "chain_lookup (chain dp) (packet_key env fl) False = Ok (ch, None)"
    using fwd.miss [OF inv(1) pad that] table_free_lookup(1) [OF inv(2) pad that] inv by (simp add: loop_free_def)
  assume l: "chain_lookup (chain dp) (packet_key env fl) False = Ok (ch, Some r)"
  show "loop_free pl (dp\<lparr>chain := use_match (time_msec env) ch r b\<rparr>) \<and>
      acts_valid (chain_flow_at (use_match (time_msec env) ch r b) r)"
    using fwd.match [OF inv(1) pad l] table_free_lookup(2) [OF inv(2) pad l] inv by (simp add: loop_free_def)
  show "port \<noteq> OFPP_TABLE"
    if "a \<in> set (act_list (sf_acts (chain_flow_at (use_match (time_msec env) ch r b) r)))"
      "output_of a = Some (port, q, ml)"
    using chain_ok_lookup(2) [OF inv(3) pad l, of "time_msec env" b] inv(4) that
    by (force simp: table_free_def acts_table_free_def)
qed

end
