(* ===== verification/OF_Entry.thy ===== *)
theory OF_Entry
  imports OF_Fwd_Inv
begin

unbundle bit_operations_syntax

text \<open>
  The entry that an insertion put into a table. The C code keeps a pointer to it and counts the
  packet of the message for it; in the model it is found again by \<open>chain_entry\<close>.
\<close>

section \<open>One table\<close>

lemma hash_insert_entry:
  assumes inv: "hash_inv t" and ins: "table_hash_insert t f = (t', b)"
  shows "b \<Longrightarrow> \<exists>i. table_hash_lookup t' (key f) = Some i \<and> hash_flow_at t' i = f"
    and "\<not> b \<Longrightarrow> wildcards (key f) \<noteq> 0 \<or> table_hash_lookup t' (key f) = None"
proof -
  define i where "i = find_bucket t (key f)"
  have i: "i < length (buckets t)" using find_bucket_less [OF inv] by (simp add: i_def)
  note defs = table_hash_insert_def table_hash_lookup_def hash_flow_at_def Let_def i_def [symmetric]
  show "\<exists>j. table_hash_lookup t' (key f) = Some j \<and> hash_flow_at t' j = f" if b
  proof -
    from ins that consider n where "t' = t\<lparr>h_n_flows := n, buckets := (buckets t)[i := Some f]\<rparr>"
      | "t' = t\<lparr>buckets := (buckets t)[i := Some f]\<rparr>"
      by (auto simp: defs split: if_splits option.splits)
    then have "buckets t' ! i = Some f" "find_bucket t' (key f) = i" using i by (cases; simp add: i_def)+
    then show ?thesis by (simp add: defs)
  qed
  show "wildcards (key f) \<noteq> 0 \<or> table_hash_lookup t' (key f) = None" if "\<not> b"
    using ins that i_def by (auto simp: table_hash_insert_def table_hash_lookup_def Let_def split: if_splits option.splits)
qed

lemma linear_insert_loop_found:
  "linear_insert_loop flow before es = Replaced out \<Longrightarrow>
   \<forall>e \<in> set before. \<not> same_entry (snd e) flow \<Longrightarrow>
   \<exists>xs i s ys. out = xs @ (i, flow\<lparr>serial := s\<rparr>) # ys \<and> (\<forall>e \<in> set xs. \<not> same_entry (snd e) flow)"
proof (induction es arbitrary: before)
  case (Cons e es)
  show ?case
  proof (cases "same_entry (snd e) flow")
    case True
    then have "out = before @ (fst e, flow\<lparr>serial := serial (snd e)\<rparr>) # es"
      using Cons.prems(1) by (auto simp: same_entry_def Let_def)
    then show ?thesis using Cons.prems(2) by blast
  next
    case False
    then have "linear_insert_loop flow (before @ [e]) es = Replaced out"
      using Cons.prems by (auto simp: same_entry_def Let_def split: if_splits)
    then show ?thesis using Cons.IH [of "before @ [e]"] Cons.prems(2) False by simp
  qed
qed simp

lemma find_append_Cons: "\<forall>x \<in> set xs. \<not> P x \<Longrightarrow> P y \<Longrightarrow> find P (xs @ y # ys) = Some y"
  by (induction xs) auto

lemma same_entry_refl [simp]: "same_entry f f"
  by (simp add: same_entry_def)

lemma linear_insert_entry:
  assumes inv: "linear_inv t" and ins: "table_linear_insert t f = (t', True)"
  shows "\<exists>xs i s ys. l_flows t' = xs @ (i, f\<lparr>serial := s\<rparr>) # ys \<and> (\<forall>e \<in> set xs. \<not> same_entry (snd e) f)"
proof (cases "linear_insert_loop f [] (l_flows t)")
  case (Replaced out)
  then have "l_flows t' = out" using ins by (auto simp: table_linear_insert_def)
  then show ?thesis using linear_insert_loop_found [OF Replaced] by simp
next
  case (Place_between b a)
  have "sorted_wrt precedes (map snd (l_flows t))" using inv by (simp add: linear_inv_def linear_flows_def)
  then show ?thesis
    using ins Place_between linear_insert_loop_Place [OF Place_between]
    by (fastforce simp: table_linear_insert_def split: if_splits)
qed

lemma table_insert_entry:
  assumes inv: "table_inv t" and ok: "entry_ok f" and ins: "table_insert t f = (t', True)"
  shows "\<exists>r s. table_entry t' f = Some r \<and> table_flow_at t' r = f\<lparr>serial := s\<rparr>"
proof (cases t)
  case (Hash_table h)
  then obtain h' where h': "table_hash_insert h f = (h', True)" "t' = Hash_table h'"
    using ins by (cases "table_hash_insert h f") auto
  moreover have "wildcards (key f) = 0" using h' by (auto simp: table_hash_insert_def split: if_splits)
  moreover obtain i where "table_hash_lookup h' (key f) = Some i" "hash_flow_at h' i = f"
    using hash_insert_entry(1) [OF _ h'(1)] inv Hash_table by auto
  ultimately show ?thesis by (auto intro: exI [of _ "serial f"])
next
  case (Hash2_table h)
  then obtain h' where h': "table_hash2_insert h f = (h', True)" "t' = Hash2_table h'"
    using ins by (cases "table_hash2_insert h f") auto
  have sub: "hash_inv (subtable0 h)" "hash_inv (subtable1 h)" using inv Hash2_table by (simp_all add: hash2_inv_def)
  obtain a x where a: "table_hash_insert (subtable0 h) f = (a, x)" by (cases "table_hash_insert (subtable0 h) f")
  obtain c y where c: "table_hash_insert (subtable1 h) f = (c, y)" by (cases "table_hash_insert (subtable1 h) f")
  have w: "wildcards (key f) = 0"
    using h' a c by (auto simp: table_hash2_insert_def table_hash_insert_def split: if_splits bool.splits)
  obtain i where "table_hash2_lookup h' (key f) = Some i" "hash2_flow_at h' i = f"
    using h'(1) a c hash_insert_entry [OF sub(1) a] hash_insert_entry [OF sub(2) c] w
    by (cases x) (auto simp: table_hash2_insert_def table_hash2_lookup_def hash2_flow_at_def)
  then show ?thesis using h'(2) w by (auto intro: exI [of _ "serial f"])
next
  case (Linear_table h)
  then obtain h' where h': "table_linear_insert h f = (h', True)" "t' = Linear_table h'"
    using ins by (cases "table_linear_insert h f") auto
  have inv': "linear_inv h'" using linear_insert_True [OF _ ok h'(1)] inv Linear_table by simp
  obtain xs i s ys where es: "l_flows h' = xs @ (i, f\<lparr>serial := s\<rparr>) # ys" "\<forall>e \<in> set xs. \<not> same_entry (snd e) f"
    using linear_insert_entry [OF _ h'(1)] inv Linear_table by auto
  then have "find (\<lambda>e. same_entry (snd e) f) (l_flows h') = Some (i, f\<lparr>serial := s\<rparr>)"
    unfolding es(1) by (intro find_append_Cons) auto
  moreover have "linear_flow_at h' i = f\<lparr>serial := s\<rparr>"
    using linear_set_slot(1) [OF inv' es(1), of "f\<lparr>serial := s\<rparr>"] by simp
  ultimately show ?thesis using h'(2) by auto
qed

lemma table_entry_refused:
  assumes inv: "table_inv t" and ex: "exact_only t" and ins: "table_insert t f = (t', False)"
  shows "table_entry t' f = None"
proof (cases t)
  case (Hash_table h)
  then obtain h' where h': "table_hash_insert h f = (h', False)" "t' = Hash_table h'"
    using ins by (cases "table_hash_insert h f") auto
  then show ?thesis using hash_insert_entry(2) [OF _ h'(1)] inv Hash_table by auto
next
  case (Hash2_table h)
  then obtain h' where h': "table_hash2_insert h f = (h', False)" "t' = Hash2_table h'"
    using ins by (cases "table_hash2_insert h f") auto
  have sub: "hash_inv (subtable0 h)" "hash_inv (subtable1 h)" using inv Hash2_table by (simp_all add: hash2_inv_def)
  obtain a x where a: "table_hash_insert (subtable0 h) f = (a, x)" by (cases "table_hash_insert (subtable0 h) f")
  obtain c y where c: "table_hash_insert (subtable1 h) f = (c, y)" by (cases "table_hash_insert (subtable1 h) f")
  show ?thesis
    using h' a c hash_insert_entry(2) [OF sub(1) a] hash_insert_entry(2) [OF sub(2) c]
    by (cases x) (auto simp: table_hash2_insert_def table_hash2_lookup_def)
next
  case (Linear_table h)
  then show ?thesis using ex by simp
qed

lemma table_entry_set:
  assumes inv: "table_inv t" and pad: "pad (kflow (key f)) = (0, 0, 0)" and e: "table_entry t f = Some r"
    and same: "same_slot g (table_flow_at t r)"
  shows "table_inv (table_set_flow t r g) \<and> table_flow_at (table_set_flow t r g) r = g \<and>
    (\<exists>xs ys. table_flows t = xs @ table_flow_at t r # ys \<and> table_flows (table_set_flow t r g) = xs @ g # ys)"
proof (cases "\<exists>h. t = Linear_table h")
  case True
  then obtain h where h: "t = Linear_table h" by blast
  then obtain i x where x: "find (\<lambda>e. same_entry (snd e) f) (l_flows h) = Some (i, x)" "r = (0, i)"
    using e by auto
  then obtain xs ys where es: "l_flows h = xs @ (i, x) # ys"
    using find_Some_set split_list by metis
  have inv': "linear_inv h" using inv h by simp
  have at: "linear_flow_at h i = x" using linear_set_slot(1) [OF inv' es, of x] by simp
  then have same: "same_slot g x" using same h x(2) by simp
  note slot = linear_set_slot [OF inv' es same]
  have "\<forall>e \<in> set xs. fst e \<noteq> i" using inv' by (auto simp: linear_inv_def es)
  moreover from this have "map_of xs i = None" by (auto simp: map_of_eq_None_iff)
  ultimately have "linear_flow_at (linear_set_flow h i g) i = g"
    by (simp add: linear_flow_at_def linear_set_flow_def es map_idI map_add_def)
  then show ?thesis using slot h x(2) by auto
next
  case False
  then have "table_lookup t (key f) = Some r"
    using e by (cases t) (auto split: if_splits)
  then show ?thesis using tab.set_flow [OF inv pad _ same] table_set_flow_at [OF inv pad] by simp
qed

section \<open>The chain\<close>

lemma tables_insert_entry:
  assumes "list_all table_inv ts" "list_all exact_only (butlast ts)" "entry_ok f"
    and "chain_insert_loop f ts = (ts', True)"
  shows "\<exists>j r s. tables_entry i ts' f = Some (Working (i + j) r) \<and> j < length ts' \<and>
    table_entry (ts' ! j) f = Some r \<and> table_flow_at (ts' ! j) r = f\<lparr>serial := s\<rparr>"
  using assms(1,2,4)
proof (induction ts arbitrary: i ts')
  case Nil
  then show ?case by simp
next
  case (Cons t ts)
  obtain t' b where t': "table_insert t f = (t', b)" by (cases "table_insert t f")
  show ?case
  proof (cases b)
    case True
    then have ts': "ts' = t' # ts" using Cons.prems(3) t' by simp
    obtain r s where "table_entry t' f = Some r" "table_flow_at t' r = f\<lparr>serial := s\<rparr>"
      using table_insert_entry [OF _ assms(3), of t t'] t' True Cons.prems(1) by auto
    then show ?thesis using ts' by (intro exI [of _ 0] exI [of _ r] exI [of _ s]) simp
  next
    case False
    then obtain us where us: "chain_insert_loop f ts = (us, True)" "ts' = t' # us"
      using Cons.prems(3) t' by (auto split: prod.splits)
    then have "ts \<noteq> []" by auto
    then have "exact_only t" "list_all exact_only (butlast ts)" using Cons.prems(2) by simp_all
    then have none: "table_entry t' f = None" using table_entry_refused [of t f t'] t' False Cons.prems(1) by simp
    obtain j r s where j: "tables_entry (i + 1) us f = Some (Working (i + 1 + j) r)" "j < length us"
      "table_entry (us ! j) f = Some r" "table_flow_at (us ! j) r = f\<lparr>serial := s\<rparr>"
      using Cons.IH [OF _ \<open>list_all exact_only (butlast ts)\<close> us(1), of "i + 1"] Cons.prems(1) by auto
    then show ?thesis using us(2) none by (intro exI [of _ "Suc j"] exI [of _ r] exI [of _ s]) simp
  qed
qed

text \<open>After a successful insertion \<open>chain_entry\<close> gives the entry that was inserted.\<close>

lemma chain_insert_entry:
  assumes "chain_inv ch" "entry_ok f" "chain_insert ch f emerg = Ok (ch', 0)"
  shows "\<exists>r s. chain_entry ch' f emerg = Some r \<and> chain_flow_at ch' r = f\<lparr>serial := s\<rparr>"
proof (cases emerg)
  case True
  then obtain t t' where t: "emerg_table ch = Some t" "table_insert t f = (t', True)" "ch' = ch\<lparr>emerg_table := Some t'\<rparr>"
    using assms(3) by (auto simp: chain_insert_def split: option.splits prod.splits if_splits)
  then obtain r s where "table_entry t' f = Some r" "table_flow_at t' r = f\<lparr>serial := s\<rparr>"
    using table_insert_entry [OF _ assms(2) t(2)] assms(1) by (auto simp: chain_inv_def)
  then show ?thesis using True t(3) by (auto simp: chain_entry_def chain_flow_at_def)
next
  case False
  then obtain ts where ts: "chain_insert_loop f (tables ch) = (ts, True)" "ch' = ch\<lparr>tables := ts\<rparr>"
    using assms(3) by (auto simp: chain_insert_def split: prod.splits if_splits)
  then show ?thesis
    using tables_insert_entry [OF _ _ assms(2) ts(1), of 0] assms(1) False
    by (auto simp: chain_inv_def chain_entry_def chain_flow_at_def)
qed

text \<open>Counting a packet for that entry changes nothing else.\<close>

lemma tables_entry_Some:
  "tables_entry i ts f = Some r \<Longrightarrow> \<exists>j x. r = Working (i + j) x \<and> j < length ts \<and> table_entry (ts ! j) f = Some x"
proof (induction ts arbitrary: i)
  case Nil
  then show ?case by simp
next
  case (Cons t ts)
  show ?case
  proof (cases "table_entry t f")
    case None
    then have "tables_entry (i + 1) ts f = Some r" using Cons.prems by simp
    from Cons.IH [OF this] obtain j x where "r = Working (i + 1 + j) x" "j < length ts" "table_entry (ts ! j) f = Some x"
      by auto
    then show ?thesis by (intro exI [of _ "Suc j"] exI [of _ x]) simp
  next
    case (Some x)
    then show ?thesis using Cons.prems by (intro exI [of _ 0] exI [of _ x]) simp
  qed
qed

lemma chain_update_table:
  assumes inv: "chain_inv ch" and j: "j < length (tables ch)"
    and t: "table_inv t" "exact_only t = exact_only (tables ch ! j)"
    and xy: "table_flows (tables ch ! j) = xs @ f # ys" "table_flows t = xs @ g # ys"
  shows "chain_inv (ch\<lparr>tables := (tables ch)[j := t]\<rparr>)"
    "\<exists>xs ys. chain_flows ch = xs @ f # ys \<and> chain_flows (ch\<lparr>tables := (tables ch)[j := t]\<rparr>) = xs @ g # ys"
proof -
  let ?ts = "tables ch"
  let ?A = "concat (map table_flows (take j ?ts))" and ?B = "concat (map table_flows (drop (Suc j) ?ts))"
  have "map exact_only (?ts[j := t]) = map exact_only ?ts"
    using t(2) by (simp add: map_update) (metis list_update_id map_update)
  moreover have "list_all table_inv (?ts[j := t])"
    using inv t(1) j by (auto simp: chain_inv_def list_all_length nth_list_update)
  ultimately show "chain_inv (ch\<lparr>tables := ?ts[j := t]\<rparr>)"
    using inv exact_only_butlast [of "?ts[j := t]" ?ts] by (simp add: chain_inv_def)
  have "concat (map table_flows ?ts) = (?A @ xs) @ f # (ys @ ?B)"
    by (subst id_take_nth_drop [OF j]) (simp add: xy(1))
  moreover have "concat (map table_flows (?ts[j := t])) = (?A @ xs) @ g # (ys @ ?B)"
    by (simp add: upd_conv_take_nth_drop [OF j] xy(2))
  ultimately show "\<exists>xs ys. chain_flows ch = xs @ f # ys \<and> chain_flows (ch\<lparr>tables := ?ts[j := t]\<rparr>) = xs @ g # ys"
    unfolding chain_flows_def by (intro exI [of _ "?A @ xs"] exI [of _ "ys @ ?B"]) simp
qed

lemma chain_entry_working:
  assumes inv: "chain_inv ch" and pad: "pad (kflow (key f)) = (0, 0, 0)" and e: "chain_entry ch f False = Some r"
    and same: "same_slot g (chain_flow_at ch r)"
  shows "chain_inv (chain_set_flow ch r g)" "emerg_table (chain_set_flow ch r g) = emerg_table ch"
    "chain_flow_at (chain_set_flow ch r g) r = g"
    "\<exists>xs ys. chain_flows ch = xs @ chain_flow_at ch r # ys \<and> chain_flows (chain_set_flow ch r g) = xs @ g # ys"
proof -
  obtain j x where j: "r = Working j x" "j < length (tables ch)" "table_entry (tables ch ! j) f = Some x"
    using tables_entry_Some [of 0 "tables ch" f r] e by (auto simp: chain_entry_def)
  have t: "table_inv (tables ch ! j)" using inv j(2) by (simp add: chain_inv_def list_all_length)
  have "same_slot g (table_flow_at (tables ch ! j) x)" using same j(1) by (simp add: chain_flow_at_def)
  from table_entry_set [OF t pad j(3) this] obtain xs ys where
    s: "table_inv (table_set_flow (tables ch ! j) x g)"
    "table_flow_at (table_set_flow (tables ch ! j) x g) x = g"
    "table_flows (tables ch ! j) = xs @ table_flow_at (tables ch ! j) x # ys"
    "table_flows (table_set_flow (tables ch ! j) x g) = xs @ g # ys" by blast
  note u = chain_update_table [OF inv j(2) s(1) table_set_flow_kind s(3,4)]
  show "chain_inv (chain_set_flow ch r g)" "emerg_table (chain_set_flow ch r g) = emerg_table ch"
    "chain_flow_at (chain_set_flow ch r g) r = g"
    "\<exists>xs ys. chain_flows ch = xs @ chain_flow_at ch r # ys \<and> chain_flows (chain_set_flow ch r g) = xs @ g # ys"
    using u s(2) j by (simp_all add: chain_set_flow_def chain_flow_at_def)
qed

lemma chain_entry_emerg:
  assumes inv: "chain_inv ch" and pad: "pad (kflow (key f)) = (0, 0, 0)" and e: "chain_entry ch f True = Some r"
    and same: "same_slot g (chain_flow_at ch r)"
  shows "chain_inv (chain_set_flow ch r g)" "tables (chain_set_flow ch r g) = tables ch"
    "chain_flow_at (chain_set_flow ch r g) r = g"
    "\<exists>xs ys. emerg_flows ch = xs @ chain_flow_at ch r # ys \<and> emerg_flows (chain_set_flow ch r g) = xs @ g # ys"
proof -
  obtain t x where t: "emerg_table ch = Some t" "r = Emergency x" "table_entry t f = Some x"
    using e by (auto simp: chain_entry_def split: option.splits)
  have "table_inv t" "same_slot g (table_flow_at t x)"
    using inv same t by (simp_all add: chain_inv_def chain_flow_at_def)
  from table_entry_set [OF this(1) pad t(3) this(2)]
  show "chain_inv (chain_set_flow ch r g)" "tables (chain_set_flow ch r g) = tables ch"
    "chain_flow_at (chain_set_flow ch r g) r = g"
    "\<exists>xs ys. emerg_flows ch = xs @ chain_flow_at ch r # ys \<and> emerg_flows (chain_set_flow ch r g) = xs @ g # ys"
    using inv t by (simp_all add: chain_set_flow_def chain_flow_at_def chain_inv_def emerg_flows_def)
qed

lemma chain_use_entry_ok:
  assumes ok: "chain_ok ch" and pad: "pad (kflow (key f)) = (0, 0, 0)"
  shows "chain_ok (chain_use_entry now ch f emerg b)"
proof (cases "chain_entry ch f emerg")
  case None
  then show ?thesis using ok by (simp add: chain_use_entry_def)
next
  case (Some r)
  have inv: "chain_inv ch" using ok by (simp add: chain_ok_def)
  let ?g = "flow_used now (chain_flow_at ch r) b"
  have acts: "acts_valid ?g = acts_valid (chain_flow_at ch r)" by (simp add: acts_valid_def flow_used_def)
  show ?thesis
  proof (cases emerg)
    case True
    then have "chain_entry ch f True = Some r" using Some by simp
    note e = chain_entry_emerg [OF inv pad this same_slot_used, of now b]
    then have "chain_flows (chain_set_flow ch r ?g) = chain_flows ch" by (simp add: chain_flows_def)
    then show ?thesis using ok e(1,4) Some True acts by (auto simp: chain_ok_def chain_use_entry_def)
  next
    case False
    then have "chain_entry ch f False = Some r" using Some by simp
    note e = chain_entry_working [OF inv pad this same_slot_used, of now b]
    then have "emerg_flows (chain_set_flow ch r ?g) = emerg_flows ch" by (simp add: emerg_flows_def)
    then show ?thesis using ok e(1,4) Some False acts by (auto simp: chain_ok_def chain_use_entry_def)
  qed
qed

end
