(* ===== verification/OF_Ctl_Inv.thy ===== *)
theory OF_Ctl_Inv
  imports OF_Entry
begin

unbundle bit_operations_syntax

text \<open>
  Every message of a controller and every round of the datapath leaves the invariant \<open>dp_inv\<close> true,
  whatever the message holds, as long as the program does not abort.
\<close>

section \<open>Operations on the tables\<close>

lemma added_all: "added fs f fs' \<Longrightarrow> (\<And>g. g \<in> set fs \<Longrightarrow> P g) \<Longrightarrow> (\<And>s. P (f\<lparr>serial := s\<rparr>)) \<Longrightarrow> g \<in> set fs' \<Longrightarrow> P g"
  by (auto simp: added_def)

lemma acts_valid_serial [simp]: "acts_valid (f\<lparr>serial := s\<rparr>) = acts_valid f"
  by (simp add: acts_valid_def)

lemma acts_valid_used [simp]: "acts_valid (flow_used now f b) = acts_valid f"
  by (simp add: acts_valid_def flow_used_def)

lemma chain_insert_ok:
  assumes ok: "chain_ok ch" and f: "entry_ok f" "acts_valid f" and i: "chain_insert ch f emerg = Ok (ch', e)"
  shows "chain_ok ch'"
proof (cases emerg)
  case True
  then have "chain_inv ch'" "tables ch' = tables ch" "added (emerg_flows ch) f (emerg_flows ch') \<or> ch' = ch"
    using chain_insert_emerg [OF _ f(1), of ch] ok i by (auto simp: chain_ok_def)
  then show ?thesis
    using ok f(2) added_all [of "emerg_flows ch" f "emerg_flows ch'" acts_valid]
    by (auto simp: chain_ok_def chain_flows_def)
next
  case False
  then have "chain_inv ch'" "emerg_table ch' = emerg_table ch" "added (chain_flows ch) f (chain_flows ch') \<or> ch' = ch"
    using chain_insert_working [OF _ f(1), of ch] ok i by (auto simp: chain_ok_def)
  then show ?thesis
    using ok f(2) added_all [of "chain_flows ch" f "chain_flows ch'" acts_valid]
    by (auto simp: chain_ok_def emerg_flows_def)
qed

lemma modified_valid:
  "(\<And>f. f \<in> set fs \<Longrightarrow> acts_valid f) \<Longrightarrow> validate_actions k0 acts = ACT_VALIDATION_OK \<Longrightarrow>
   f \<in> set (modified al k prio strict acts fs) \<Longrightarrow> acts_valid f"
  by (auto simp: modified_def acts_valid_def flow_replace_acts_def split: if_splits)

lemma chain_modify_ok:
  assumes ok: "chain_ok ch" and k: "desc_ok k prio" and v: "validate_actions k0 acts = ACT_VALIDATION_OK"
    and m: "chain_modify al ch k prio strict acts emerg = Ok (ch', n)"
  shows "chain_ok ch'"
proof -
  have inv: "chain_inv ch" and f: "acts_framed acts"
    using ok validate_actions_framed [OF v] by (simp_all add: chain_ok_def)
  show ?thesis
  proof (cases emerg)
    case True
    then have "chain_inv ch'" "tables ch' = tables ch" "emerg_flows ch' = modified al k prio strict acts (emerg_flows ch)"
      using chain_modify_emerg [OF inv k f, of al strict] m by auto
    then show ?thesis
      using ok modified_valid [OF _ v, of "emerg_flows ch"] by (auto simp: chain_ok_def chain_flows_def)
  next
    case False
    then have "chain_inv ch'" "emerg_table ch' = emerg_table ch"
      "chain_flows ch' = modified al k prio strict acts (chain_flows ch)"
      using chain_modify_working [OF inv k f, of al strict] m by auto
    then show ?thesis
      using ok modified_valid [OF _ v, of "chain_flows ch"] by (auto simp: chain_ok_def emerg_flows_def)
  qed
qed

text \<open>The priority of a description that is not strict is not used.\<close>

lemma linear_delete_prio:
  "linear_delete_loop fe k port p False es dp iter n = linear_delete_loop fe k port 0 False es dp iter n"
  by (induction es arbitrary: dp iter n) (simp_all add: Let_def cong: if_cong)

lemma table_delete_prio: "table_delete fe dp t k port p False = table_delete fe dp t k port 0 False"
  by (cases t) (simp_all add: table_delete_def table_hash_delete_def table_hash2_delete_def table_linear_delete_def
      linear_delete_prio [of fe k port p])

lemma chain_delete_prio: "chain_delete fe dp ch k port p False emerg = chain_delete fe dp ch k port 0 False emerg"
proof -
  have "chain_delete_loop fe k port p False dp ts = chain_delete_loop fe k port 0 False dp ts" for dp ts
    by (induction ts arbitrary: dp) (simp_all add: table_delete_prio [of fe _ _ k port p])
  then show ?thesis by (simp add: chain_delete_def table_delete_prio [of fe _ _ k port p] cong: option.case_cong)
qed

text \<open>A deletion, strict or not, with the notifications it sends.\<close>

lemma chain_delete_outcome:
  assumes ok: "chain_ok ch" and k: "key_ok k" and p: "strict \<Longrightarrow> wildcards k = 0 \<Longrightarrow> prio = 0xffff"
  shows "\<exists>dp' ch' n. chain_delete (dp_send_flow_end env) dp ch k port prio strict emerg = Ok (dp', ch', n) \<and>
    sends dp dp' \<and> chain_ok ch'"
proof -
  define q where "q = (if strict then prio else 0xffff)"
  have q: "desc_ok k q" using k p by (simp add: desc_ok_def q_def)
  have eq: "chain_delete (dp_send_flow_end env) dp ch k port prio strict emerg =
    chain_delete (dp_send_flow_end env) dp ch k port q strict emerg"
    by (cases strict) (simp_all add: q_def trans [OF chain_delete_prio chain_delete_prio [symmetric]])
  have inv: "chain_inv ch" using ok by (simp add: chain_ok_def)
  show ?thesis
  proof (cases emerg)
    case True
    obtain ch' where ch': "chain_delete (dp_send_flow_end env) dp ch k port q strict True =
        Ok (foldl (\<lambda>d f. dp_send_flow_end env d f OFPRR_DELETE) dp (filter (delete_sel k port q strict) (emerg_flows ch)),
          ch', of_nat (length (filter (delete_sel k port q strict) (emerg_flows ch))))"
      "chain_inv ch'" "tables ch' = tables ch"
      "emerg_flows ch' = filter (\<lambda>f. \<not> delete_sel k port q strict f) (emerg_flows ch)"
      using chain_delete_emerg [OF inv q refl, of "dp_send_flow_end env" dp port strict] by auto
    moreover have "chain_ok ch'" using ok ch'(2-4) by (auto simp: chain_ok_def chain_flows_def)
    ultimately show ?thesis using eq True flow_end_foldl_sends by fastforce
  next
    case False
    obtain ch' where ch': "chain_delete (dp_send_flow_end env) dp ch k port q strict False =
        Ok (foldl (\<lambda>d f. dp_send_flow_end env d f OFPRR_DELETE) dp (filter (delete_sel k port q strict) (chain_flows ch)),
          ch', of_nat (length (filter (delete_sel k port q strict) (chain_flows ch))))"
      "chain_inv ch'" "emerg_table ch' = emerg_table ch"
      "chain_flows ch' = filter (\<lambda>f. \<not> delete_sel k port q strict f) (chain_flows ch)"
      using chain_delete_working [OF inv q refl, of "dp_send_flow_end env" dp port strict] by auto
    moreover have "chain_ok ch'" using ok ch'(2-4) by (auto simp: chain_ok_def emerg_flows_def)
    ultimately show ?thesis using eq False flow_end_foldl_sends by fastforce
  qed
qed

section \<open>Handlers\<close>

definition stays :: "(datapath \<times> int) result \<Rightarrow> bool" where
  "stays r = outcome (\<lambda>x. dp_inv (fst x)) (\<lambda>_. True) r"

lemma stays_simps [simp]: "stays (Ok x) = dp_inv (fst x)" "stays (Fail e)"
  by (simp_all add: stays_def)

lemma stays_bindR: "(\<And>x. m = Ok x \<Longrightarrow> stays (f x)) \<Longrightarrow> stays (bindR m f)"
  by (cases m) simp_all

lemma stays_mapR: "(\<And>dp'. m = Ok dp' \<Longrightarrow> dp_inv dp') \<Longrightarrow> stays (mapR (\<lambda>dp. (dp, e)) m)"
  by (cases m) simp_all

lemma stays_guardR [simp]: "stays (guardR c e m) = (c \<longrightarrow> stays m)"
  by (simp add: guardR_def)

lemma send_inv: "dp_inv dp \<Longrightarrow> send_openflow_buffer dp b s = Ok (dp', e) \<Longrightarrow> dp_inv dp'"
  using send_openflow_buffer_sends sends_inv by blast

text \<open>The same for a handler without a return value.\<close>

definition safe :: "datapath result \<Rightarrow> bool" where
  "safe r = outcome dp_inv (\<lambda>_. True) r"

lemma safe_simps [simp]: "safe (Ok dp) = dp_inv dp" "safe (Fail e)" "safe (guardR c e m) = (c \<longrightarrow> safe m)"
  by (simp_all add: safe_def guardR_def)

lemma safe_bindR: "(\<And>x. m = Ok x \<Longrightarrow> safe (f x)) \<Longrightarrow> safe (bindR m f)"
  by (cases m) simp_all

lemma stays_send: "dp_inv dp \<Longrightarrow> stays (send_openflow_buffer dp b s)"
  using send_openflow_buffer_sends [of dp b s] sends_inv by (cases "send_openflow_buffer dp b s") auto

lemma stays_error: "dp_inv dp \<Longrightarrow> dp_send_error_msg dp s t c d = Ok dp' \<Longrightarrow> dp_inv dp'"
  using dp_send_error_msg_sends sends_inv by blast

lemma dp_inv_fields:
  "dp_inv dp \<Longrightarrow> dp_inv (dp\<lparr>dp_flags := a, miss_send_len := b\<rparr>)" "dp_inv dp \<Longrightarrow> dp_inv (dp\<lparr>dp_desc := c\<rparr>)"
  by (simp_all add: dp_inv_def ports_inv_cong [of "dp\<lparr>dp_flags := a, miss_send_len := b\<rparr>" dp]
      ports_inv_cong [of "dp\<lparr>dp_desc := c\<rparr>" dp])

lemma simple_handlers_stay:
  assumes "dp_inv dp"
  shows "stays (recv_barrier_request dp s msg)" "stays (recv_echo_request dp s msg)"
    "stays (recv_echo_reply dp s msg)" "stays (recv_get_config_request dp s msg)" "stays (recv_set_config dp s msg)"
  using assms
  by (simp_all add: recv_barrier_request_def recv_echo_request_def recv_echo_reply_def recv_get_config_request_def
      recv_set_config_def Let_def dp_inv_fields stays_bindR stays_send)

lemma recv_features_request_stays: "dp_inv dp \<Longrightarrow> stays (recv_features_request dp s msg)"
  unfolding recv_features_request_def
  by (rule stays_mapR) (auto simp: dp_send_features_reply_def bindR_eq_Ok mapR_def Let_def
      dest!: send_openflow_buffer_sends intro: sends_inv)

lemma set_port_dp_inv:
  "dp_inv dp \<Longrightarrow> valid_ref dp r \<Longrightarrow> port_inv p \<Longrightarrow> netdev p = netdev (port_at dp r) \<Longrightarrow>
   port_no p = port_no (port_at dp r) \<Longrightarrow> dp_inv (set_port dp r p)"
  by (simp add: dp_inv_def set_port_inv)

lemma port_inv_config [simp]: "port_inv (p\<lparr>config := c\<rparr>) = port_inv p"
  by (simp add: port_inv_def queues_inv_def PORT_IN_USE_def split: option.splits)

lemma dp_inv_port: "dp_inv dp \<Longrightarrow> dp_lookup_port dp n = Some r \<Longrightarrow> valid_ref dp r \<and> port_inv (port_at dp r)"
  using lookup_valid port_at_inv by (auto simp: dp_inv_def)

lemma recv_port_mod_stays:
  assumes "dp_inv dp"
  shows "stays (recv_port_mod dp s msg)"
proof -
  have "dp_inv dp'" if "update_port_flags dp msg = Ok dp'" for dp'
    using that assms dp_inv_port [OF assms]
    by (auto simp: update_port_flags_def Let_def split: option.splits if_splits intro!: set_port_dp_inv)
  then show ?thesis by (simp add: recv_port_mod_def stays_mapR)
qed

lemma recv_queue_get_config_stays:
  assumes "dp_inv dp"
  shows "stays (recv_queue_get_config_request dp s msg)"
proof -
  have "stays (mapR (\<lambda>dp. (dp, 0)) (dp_send_error_msg dp (Some s) t c d))" for t c d
    by (rule stays_mapR) (rule stays_error [OF assms])
  then show ?thesis
    by (auto simp: recv_queue_get_config_request_def Let_def split: option.splits
        intro!: stays_bindR dest: send_inv [OF assms])
qed

lemma dp_inv_remote:
  assumes "dp_inv dp" "i < length (remotes dp) \<Longrightarrow> remote_inv r"
  shows "dp_inv (dp\<lparr>remotes := (remotes dp)[i := r]\<rparr>)"
proof -
  have "list_all remote_inv ((remotes dp)[i := r])"
    using assms set_update_subset_insert [of "remotes dp" i r]
    by (cases "i < length (remotes dp)") (auto simp: dp_inv_def list_all_iff list_update_beyond)
  then show ?thesis using assms(1) by (simp add: dp_inv_def)
qed

lemma remote_at_inv: "dp_inv dp \<Longrightarrow> i < length (remotes dp) \<Longrightarrow> remote_inv (remotes dp ! i)"
  by (simp add: dp_inv_def list_all_length)

lemma remote_inv_fields [simp]:
  "remote_inv (r\<lparr>cb_dump := cb\<rparr>) = remote_inv r" "remote_inv (r\<lparr>rxq := ms\<rparr>) = remote_inv r"
  by (simp_all add: remote_inv_def)

lemma recv_stats_request_stays:
  assumes "dp_inv dp"
  shows "stays (recv_stats_request dp s msg)"
proof -
  have "dp_inv dp'" if "remote_start_dump dp i cb = Ok dp'" for i cb dp'
    using that dp_inv_remote [OF assms] remote_at_inv [OF assms]
    by (auto simp: remote_start_dump_def guardR_eq_Ok)
  then show ?thesis
    using assms by (auto simp: recv_stats_request_def Let_def split: option.splits sum.splits intro!: stays_mapR)
qed

section \<open>Packet out and flow modification\<close>

lemma dp_inv_chain: "dp_inv dp \<Longrightarrow> chain_ok ch \<Longrightarrow> dp_inv (dp\<lparr>chain := ch\<rparr>)"
  by (simp add: dp_inv_def)

lemma dp_inv_pkts: "dp_inv dp \<Longrightarrow> buffers_inv pk \<Longrightarrow> dp_inv (dp\<lparr>pkts := pk\<rparr>)"
  by (simp add: dp_inv_def)

lemma dp_inv_retrieve: "dp_inv dp \<Longrightarrow> retrieve_buffer i (pkts dp) = (pk, b) \<Longrightarrow> dp_inv (dp\<lparr>pkts := pk\<rparr>)"
  using pkts.take_inv by (auto simp: dp_inv_def)

lemma dp_inv_discard: "dp_inv dp \<Longrightarrow> dp_inv (dp\<lparr>pkts := discard_buffer i (pkts dp)\<rparr>)"
  using pkts.drop_inv by (auto simp: dp_inv_def)

lemma execute_stays:
  assumes "dp_inv dp" "validate_actions k0 acts = ACT_VALIDATION_OK"
  shows "stays (bindR (execute_actions (do_output env (dp_output_port env n)) dp b k acts ig) (\<lambda>dp. Ok (dp, e)))"
  using fwd.fwd_execute_inv [OF assms(1,2)] by (intro stays_bindR) auto

lemma recv_packet_out_stays:
  assumes "dp_inv dp"
  shows "stays (recv_packet_out env n dp s msg)"
proof -
  let ?pb = "\<lambda>tl. if ntohl (ld32 msg 8) = UINT32_MAX
    then (pkts dp, Some (ofpbuf_put (ofpbuf_new (length tl - unat (ntohs (ld16 msg 14)))) (drop (unat (ntohs (ld16 msg 14))) tl)))
    else retrieve_buffer (ntohl (ld32 msg 8)) (pkts dp)"
  have inv: "dp_inv (dp\<lparr>pkts := fst (?pb tl)\<rparr>)" for tl
    using dp_inv_retrieve [OF assms, of "ntohl (ld32 msg 8)"] assms dp_inv_pkts [OF assms, of "pkts dp"]
    by (cases "retrieve_buffer (ntohl (ld32 msg 8)) (pkts dp)") (auto simp: dp_inv_def)
  have "stays (bindR (dp_send_error_msg (dp\<lparr>pkts := fst (?pb tl)\<rparr>) (Some s) t c d) (\<lambda>dp. Ok (dp, e)))" for tl t c d e
    using stays_error [OF inv] by (intro stays_bindR) auto
  then show ?thesis
    unfolding recv_packet_out_def Let_def case_prod_unfold
    using assms inv execute_stays [OF inv]
    by (intro stays_bindR) (auto split: option.splits)
qed

lemma flow_mod_error_stays: "dp_inv dp \<Longrightarrow> stays (flow_mod_error dp msg e)"
  by (simp add: flow_mod_error_def dp_inv_discard)

lemma flow_mod_refuse_stays: "dp_inv dp \<Longrightarrow> stays (flow_mod_refuse dp s msg t c e)"
  unfolding flow_mod_refuse_def using stays_error [of dp] flow_mod_error_stays by (intro stays_bindR) blast

lemma flow_mod_packet_stays:
  assumes inv: "dp_inv dp" and v: "validate_actions k0 acts = ACT_VALIDATION_OK"
    and f: "\<And>f. usd = Some f \<Longrightarrow> pad (kflow (key f)) = (0, 0, 0)"
  shows "stays (flow_mod_packet env n dp msg acts usd)"
proof -
  obtain pk buffer where pk: "retrieve_buffer (ofm_buffer_id msg) (pkts dp) = (pk, buffer)" by fastforce
  have inv': "dp_inv (dp\<lparr>pkts := pk\<rparr>)" by (rule dp_inv_retrieve [OF inv pk])
  have "dp_inv (case usd of Some f \<Rightarrow> dp\<lparr>pkts := pk, chain := chain_use_entry (time_msec env) (chain dp) f em b\<rparr>
      | None \<Rightarrow> dp\<lparr>pkts := pk\<rparr>)" for em b
    using inv' chain_use_entry_ok [of "chain dp"] f by (auto simp: dp_inv_def split: option.splits)
  from execute_stays [OF this v] show ?thesis
    unfolding flow_mod_packet_def Let_def pk case_prod_unfold
    using inv inv' by (auto split: option.splits)
qed

lemma ofm_priority_exact: "wildcards (ofm_key msg) = 0 \<Longrightarrow> ofm_priority msg = 0xffff"
  by (simp add: ofm_priority_def)

lemma ofm_desc_ok: "desc_ok (ofm_key msg) (ofm_priority msg)"
  using ofm_priority_exact by (simp add: desc_ok_def)

lemma fill_out_flow_ok:
  assumes "fill_out_flow env f msg acts = Ok f'" "validate_actions k0 acts = ACT_VALIDATION_OK"
    and "key f = ofm_key msg" "priority f = ofm_priority msg"
  shows "entry_ok f'" "acts_valid f'" "key f' = ofm_key msg" "priority f' = ofm_priority msg" "sf_acts f' = acts"
  using assms ofm_priority_exact validate_actions_framed [OF assms(2)]
  by (auto simp: fill_out_flow_def flow_setup_actions_def guardR_eq_Ok entry_ok_def acts_valid_def)

text \<open>What both \<open>add_flow\<close> and \<open>mod_flow\<close> do with a new entry.\<close>

lemma insert_stays:
  assumes inv: "dp_inv dp" and v: "validate_actions k0 acts = ACT_VALIDATION_OK"
    and f: "key f = ofm_key msg" "priority f = ofm_priority msg"
    and u: "\<And>f' g. usd f' = Some g \<Longrightarrow> key g = key f'"
  shows "stays (bindR (fill_out_flow env f msg acts)
    (\<lambda>flow. bindR (chain_insert (chain dp) flow em)
      (\<lambda>(ch, err).
         let dp = dp\<lparr>chain := ch\<rparr>
         in if err = - ENOBUFS then flow_mod_refuse dp s msg t c err
            else if err \<noteq> 0 then flow_mod_error dp msg err
            else flow_mod_packet env n dp msg acts (usd flow))))"
proof (rule stays_bindR)
  fix f'
  assume f': "fill_out_flow env f msg acts = Ok f'"
  note ok = fill_out_flow_ok [OF f' v f]
  have "stays (case x of (ch, err) \<Rightarrow>
         let dp = dp\<lparr>chain := ch\<rparr>
         in if err = - ENOBUFS then flow_mod_refuse dp s msg t c err
            else if err \<noteq> 0 then flow_mod_error dp msg err
            else flow_mod_packet env n dp msg acts (usd f'))"
    if "chain_insert (chain dp) f' em = Ok x" for x
  proof -
    obtain ch e where x: "x = (ch, e)" by (cases x)
    have "chain_ok ch" using chain_insert_ok [of "chain dp", OF _ ok(1,2)] that x inv by (auto simp: dp_inv_def)
    then have d: "dp_inv (dp\<lparr>chain := ch\<rparr>)" by (rule dp_inv_chain [OF inv])
    have "pad (kflow (key g)) = (0, 0, 0)" if "usd f' = Some g" for g
      using u [OF that] ok(3) by (simp add: key_ok_pad)
    then show ?thesis
      using flow_mod_packet_stays [OF d v] flow_mod_refuse_stays [OF d] flow_mod_error_stays [OF d] x
      by (auto simp: Let_def)
  qed
  then show "stays (bindR (chain_insert (chain dp) f' em)
      (\<lambda>(ch, err).
         let dp = dp\<lparr>chain := ch\<rparr>
         in if err = - ENOBUFS then flow_mod_refuse dp s msg t c err
            else if err \<noteq> 0 then flow_mod_error dp msg err
            else flow_mod_packet env n dp msg acts (usd f')))"
    by (rule stays_bindR)
qed

lemma add_flow_stays:
  assumes "dp_inv dp"
  shows "stays (add_flow env n dp s msg)"
proof -
  note ins = insert_stays [OF assms, where usd = Some]
  show ?thesis
    unfolding add_flow_def
    using flow_mod_error_stays [OF assms] flow_mod_refuse_stays [OF assms]
    by (intro stays_bindR) (auto simp: Let_def split: option.split intro!: ins [unfolded Let_def])
qed

lemma mod_flow_stays:
  assumes "dp_inv dp"
  shows "stays (mod_flow env n dp s msg)"
  unfolding mod_flow_def
proof (rule stays_bindR)
  fix acts
  have ok: "chain_ok (chain dp)" using assms by (simp add: dp_inv_def)
  show "stays (case flow_alloc (alloc env) (length acts) of
            None \<Rightarrow> flow_mod_error dp msg (- ENOMEM)
          | Some flow \<Rightarrow>
              let flow = flow\<lparr>key := ofm_key msg\<rparr>;
                  v_code = validate_actions (key flow) acts
              in if v_code \<noteq> ACT_VALIDATION_OK then
                   flow_mod_refuse dp s msg OFPET_BAD_ACTION v_code (- ENOMEM)
                 else
                   let flow = flow\<lparr>priority := ofm_priority msg\<rparr>;
                       strict = (ld16 msg 56 = htons OFPFC_MODIFY_STRICT)
                   in bindR (chain_modify (acts_alloc env) (chain dp) (key flow) (priority flow) strict acts (ofm_emerg msg))
                        (\<lambda>(ch, n').
                           let dp = dp\<lparr>chain := ch\<rparr>
                           in if n' = 0 then
                                bindR (fill_out_flow env flow msg acts)
                                  (\<lambda>flow.
                                     bindR (chain_insert (chain dp) flow (ofm_emerg msg))
                                       (\<lambda>(ch, err).
                                          let dp = dp\<lparr>chain := ch\<rparr>
                                          in if err = - ENOBUFS then
                                               flow_mod_refuse dp s msg OFPET_FLOW_MOD_FAILED
                                                 OFPFMFC_ALL_TABLES_FULL err
                                             else if err \<noteq> 0 then flow_mod_error dp msg err
                                             else flow_mod_packet env n dp msg acts None))
                              else flow_mod_packet env n dp msg acts None))"
  proof (cases "flow_alloc (alloc env) (length acts)")
    case None
    then show ?thesis using flow_mod_error_stays [OF assms] by simp
  next
    case (Some flow)
    show ?thesis
    proof (cases "validate_actions (ofm_key msg) acts = ACT_VALIDATION_OK")
      case False
      then show ?thesis using flow_mod_refuse_stays [OF assms] Some by (simp add: Let_def)
    next
      case True
      have d: "dp_inv (dp\<lparr>chain := ch\<rparr>)"
        if "chain_modify (acts_alloc env) (chain dp) (ofm_key msg) (ofm_priority msg) strict acts em = Ok (ch, n')"
        for strict em ch n'
        by (rule dp_inv_chain [OF assms chain_modify_ok [OF ok ofm_desc_ok True that]])
      let ?flow = "flow\<lparr>key := ofm_key msg, priority := ofm_priority msg\<rparr>"
      have ins: "stays (bindR (fill_out_flow env ?flow msg acts)
          (\<lambda>flow. bindR (chain_insert ch flow (ofm_emerg msg))
            (\<lambda>(ch', err).
               if err = - ENOBUFS then
                 flow_mod_refuse (dp\<lparr>chain := ch, chain := ch'\<rparr>) s msg OFPET_FLOW_MOD_FAILED OFPFMFC_ALL_TABLES_FULL err
               else if err \<noteq> 0 then flow_mod_error (dp\<lparr>chain := ch, chain := ch'\<rparr>) msg err
               else flow_mod_packet env n (dp\<lparr>chain := ch, chain := ch'\<rparr>) msg acts None)))"
        if "dp_inv (dp\<lparr>chain := ch\<rparr>)" for ch
        using insert_stays [OF that True, of ?flow msg "\<lambda>_. None"] by (simp add: Let_def cong: if_cong)
      have pkt: "stays (flow_mod_packet env n d msg acts None)" if "dp_inv d" for d
        using flow_mod_packet_stays [OF that True, of None] by simp
      show ?thesis
        unfolding Some option.case Let_def using True
        by simp (intro stays_bindR, auto dest!: d intro: ins pkt)
    qed
  qed
qed

lemma del_flow_stays:
  assumes "dp_inv dp" "strict \<Longrightarrow> prio = ofm_priority msg"
  shows "stays (del_flow env dp msg prio strict)"
proof -
  have "chain_ok (chain dp)" using assms(1) by (simp add: dp_inv_def)
  then obtain dp' ch' n where "chain_delete (dp_send_flow_end env) dp (chain dp) (ofm_key msg) (ld16 msg 68) prio strict
      (ofm_emerg msg) = Ok (dp', ch', n)" "sends dp dp'" "chain_ok ch'"
    using chain_delete_outcome [of "chain dp" "ofm_key msg" strict prio env dp "ld16 msg 68" "ofm_emerg msg"]
      assms(2) ofm_priority_exact by auto
  then show ?thesis
    using sends_inv [OF _ assms(1)] dp_inv_chain by (simp add: del_flow_def)
qed

lemma recv_flow_stays: "dp_inv dp \<Longrightarrow> stays (recv_flow env n dp s msg)"
  by (simp add: recv_flow_def Let_def add_flow_stays mod_flow_stays del_flow_stays)

section \<open>Vendor messages\<close>

lemma queue_error_inv: "dp_inv dp \<Longrightarrow> queue_error dp s msg c = Ok dp' \<Longrightarrow> dp_inv dp'"
  using stays_error by (simp add: queue_error_def)

lemma port_delete_queue_inv:
  assumes "port_inv p"
  shows "port_inv (port_delete_queue p i)"
proof -
  have "i < length (queues p) \<or> length (queues p) \<le> i \<and> (queues p)[i := zero_queue] = queues p"
    by (metis list_update_beyond not_less)
  then show ?thesis
    using assms
    by (cases "queue_list p")
      (auto simp: port_inv_def queues_inv_def port_delete_queue_def PORT_IN_USE_def zero_queue_def nth_list_update distinct_removeAll
        split: if_splits)
qed

lemma port_add_queue_inv:
  assumes inv: "port_inv p" and add: "port_add_queue p q_id prop rate = Ok (p', e)"
  shows "port_inv p' \<and> netdev p' = netdev p \<and> port_no p' = port_no p"
proof (cases "find (\<lambda>i. i \<ge> NETDEV_MAX_QUEUES \<or> \<not> q_port (queues p ! i)) [1..<unat (num_queues p)]")
  case None
  then show ?thesis using inv add by (simp add: port_add_queue_def)
next
  case (Some i)
  then have i: "0 < i" "i < NETDEV_MAX_QUEUES" "\<not> q_port (queues p ! i)"
    using add find_Some_set [OF Some] by (auto simp: port_add_queue_def guardR_eq_Ok)
  obtain qs where qs: "queue_list p = Some qs"
    "p' = p\<lparr>queues := (queues p)[i := zero_queue\<lparr>q_port := True, queue_id := q_id, class_id := of_nat i,
       q_property := prop, min_rate := rate\<rparr>], queue_list := Some (qs @ [i])\<rparr>"
    using add Some i(2) by (auto simp: port_add_queue_def guardR_def mapR_def bindR_eq_Ok new_queue_def port_queues_def
        split: option.splits if_splits)
  moreover have "i \<notin> set qs" using inv i qs(1) by (auto simp: port_inv_def queues_inv_def)
  ultimately show ?thesis
    using inv i by (auto simp: port_inv_def queues_inv_def PORT_IN_USE_def nth_list_update split: if_splits)
qed

lemma recv_of_exp_queue_delete_inv:
  assumes "dp_inv dp" "recv_of_exp_queue_delete dp s msg = Ok dp'"
  shows "dp_inv dp'"
proof -
  have del: "dp_inv (set_port dp r (port_delete_queue (port_at dp r) i))"
    if "dp_lookup_port dp n = Some r" for n r i
    using dp_inv_port [OF assms(1) that]
    by (intro set_port_dp_inv [OF assms(1)] port_delete_queue_inv) (simp_all add: port_delete_queue_def)
  show ?thesis
    using assms(2) queue_error_inv [OF assms(1)] del
    by (auto simp: recv_of_exp_queue_delete_def guardR_eq_Ok Let_def bindR_eq_Ok split: option.splits if_splits)
qed

lemma recv_of_exp_queue_modify_inv:
  assumes inv: "dp_inv dp" and m: "recv_of_exp_queue_modify env dp s msg = Ok dp'"
  shows "dp_inv dp'"
proof -
  have upd: "dp_inv (set_port dp r (p\<lparr>queues := (queues p)[i := (queues p ! i)\<lparr>q_property := pr, min_rate := rt\<rparr>]\<rparr>))"
    if "dp_lookup_port dp n = Some r" "p = port_at dp r" for n r p i pr rt
    using dp_inv_port [OF inv that(1)] that(2)
    by (intro set_port_dp_inv [OF inv] port_inv_queue_update) simp_all
  have add: "dp_inv (set_port dp r p)"
    if "dp_lookup_port dp n = Some r" "port_add_queue (port_at dp r) q_id pr rt = Ok (p, e)" for n r p q_id pr rt e
    using dp_inv_port [OF inv that(1)] port_add_queue_inv [OF _ that(2)] by (intro set_port_dp_inv [OF inv]) auto
  have err: "safe (queue_error d s msg c)" if "dp_inv d" for d c
    using queue_error_inv [OF that] by (simp add: safe_def outcome_TrueI)
  have "safe (recv_of_exp_queue_modify env dp s msg)"
    unfolding recv_of_exp_queue_modify_def Let_def
    by (auto split: option.split intro!: safe_bindR err inv upd [OF _ refl]) (erule (1) add)+
  then show ?thesis using m by (simp add: safe_def)
qed

lemma of_ext_recv_msg_stays:
  assumes "dp_inv dp"
  shows "stays (of_ext_recv_msg env dp s msg)"
proof -
  have "dp_inv dp'" if "recv_of_set_dp_desc dp msg = Ok dp'" for dp'
    using that dp_inv_fields(2) [OF assms] by (auto simp: recv_of_set_dp_desc_def guardR_eq_Ok)
  then show ?thesis
    using recv_of_exp_queue_delete_inv [OF assms] recv_of_exp_queue_modify_inv [OF assms] assms
    by (simp add: of_ext_recv_msg_def Let_def stays_mapR)
qed

text \<open>Iterating over a table keeps what the callback keeps for the entries of the table.\<close>

lemma hash_iterate_loop_keeps:
  assumes "I s" "\<And>f s. f \<in> set (entries bs) \<Longrightarrow> I s \<Longrightarrow> I (snd (cb f s))"
    and "hash_iterate_loop k port cb bs i s = Ok (e, nx, s')"
  shows "I s'"
  using assms
proof (induction bs arbitrary: i s)
  case Nil
  then show ?case by simp
next
  case (Cons b bs)
  have tl: "\<And>f s. f \<in> set (entries bs) \<Longrightarrow> I s \<Longrightarrow> I (snd (cb f s))"
    using Cons.prems(2) by (cases b) (auto simp: entries_simps)
  show ?case
  proof (cases b)
    case None
    then show ?thesis using Cons.IH [OF Cons.prems(1) tl] Cons.prems(3) by simp
  next
    case (Some f)
    then have f: "I (snd (cb f s))" using Cons.prems(1,2) by (simp add: entries_simps)
    show ?thesis
      using Some Cons.prems(3) Cons.IH [OF f tl] Cons.IH [OF Cons.prems(1) tl] f
      by (auto simp: bindR_eq_Ok Let_def case_prod_unfold split: if_splits)
  qed
qed

lemma linear_iterate_loop_keeps:
  assumes "I s" "\<And>f s. f \<in> set fs \<Longrightarrow> I s \<Longrightarrow> I (snd (cb f s))"
    and "linear_iterate_loop k port cb start fs s = Ok (e, nx, s')"
  shows "I s'"
  using assms
proof (induction fs arbitrary: s)
  case Nil
  then show ?case by simp
next
  case (Cons f fs)
  have tl: "\<And>f s. f \<in> set fs \<Longrightarrow> I s \<Longrightarrow> I (snd (cb f s))" using Cons.prems(2) by simp
  have f: "I (snd (cb f s))" using Cons.prems(1,2) by simp
  show ?case
    using Cons.prems(3) Cons.IH [OF f tl] Cons.IH [OF Cons.prems(1) tl] f
    by (auto simp: bindR_eq_Ok Let_def case_prod_unfold split: if_splits)
qed

lemma hash_iterate_keeps:
  assumes inv: "hash_inv t" and I: "I s" and cb: "\<And>f s. f \<in> set (hash_flows t) \<Longrightarrow> I s \<Longrightarrow> I (snd (cb f s))"
    and it: "table_hash_iterate t k port pos cb s = Ok (e, pos', s')"
  shows "I s'"
proof -
  let ?i = "unat (private0 pos)"
  have sub: "f \<in> set (hash_flows t)" if "f \<in> set (entries (drop j (buckets t)))" for f j
  proof -
    have "entries (buckets t) = entries (take j (buckets t)) @ entries (drop j (buckets t))"
      by (metis append_take_drop_id entries_simps(3))
    then show ?thesis using that by (simp add: hash_flows_def)
  qed
  have loop: "I s'" if "hash_iterate_loop k port cb (drop ?i (buckets t)) ?i s = Ok (e, nx, s')" for nx
    by (rule hash_iterate_loop_keeps [of I, OF I _ that]) (rule cb [OF sub])
  have mem: "f \<in> set (hash_flows t)" if "table_hash_lookup t k = Some j" "buckets t ! j = Some f" for j f
    using that find_bucket_less [OF inv, of k]
    by (auto simp: table_hash_lookup_def hash_flows_def set_entries Let_def split: option.splits if_splits)
  show ?thesis
  proof (cases "wildcards k = 0")
    case True
    then show ?thesis
      using it I cb [OF mem I]
      by (auto simp: table_hash_iterate_def Let_def bindR_eq_Ok case_prod_unfold split: if_splits option.splits)
  next
    case False
    then show ?thesis
      using it I loop by (auto simp: table_hash_iterate_def Let_def bindR_eq_Ok case_prod_unfold split: if_splits)
  qed
qed

lemma linear_iterate_keeps:
  assumes inv: "linear_inv t" and I: "I s" and cb: "\<And>f s. f \<in> set (linear_flows t) \<Longrightarrow> I s \<Longrightarrow> I (snd (cb f s))"
    and it: "table_linear_iterate t k port pos cb s = Ok (e, pos', s')"
  shows "I s'"
proof -
  have "linear_flow_at t i \<in> set (linear_flows t)" if "i \<in> set (iter_flows t)" for i
  proof -
    have d: "distinct (map fst (l_flows t))" "i \<in> fst ` set (l_flows t)" using inv that by (auto simp: linear_inv_def)
    then obtain f where "(i, f) \<in> set (l_flows t)" by auto
    then show ?thesis
      using d(1) by (force simp: linear_flow_at_def linear_flows_def map_of_is_SomeI)
  qed
  then have "set (map (linear_flow_at t) (iter_flows t)) \<subseteq> set (linear_flows t)" by auto
  then have "I s'" if "linear_iterate_loop k port cb start (map (linear_flow_at t) (iter_flows t)) s = Ok (e, nx, s')" for start nx
    by (intro linear_iterate_loop_keeps [of I, OF I _ that]) (auto intro: cb)
  then show ?thesis using it by (auto simp: table_linear_iterate_def Let_def bindR_eq_Ok case_prod_unfold)
qed

lemma hash2_iterate_keeps:
  assumes inv: "hash2_inv h" and I: "I s" and cb: "\<And>f s. f \<in> set (hash2_flows h) \<Longrightarrow> I s \<Longrightarrow> I (snd (cb f s))"
    and it: "table_hash2_iterate h k port pos cb s = Ok (e, pos', s')"
  shows "I s'"
proof -
  have sub: "hash_inv (subtable0 h)" "hash_inv (subtable1 h)" using inv by (simp_all add: hash2_inv_def)
  have 0: "I s2" if "I s1" "table_hash_iterate (subtable0 h) k port p cb s1 = Ok (e1, p1, s2)" for s1 p e1 p1 s2
    by (rule hash_iterate_keeps [where I = I, OF sub(1) that(1) cb that(2)]) (simp_all add: hash2_flows_def)
  have 1: "I s2" if "I s1" "table_hash_iterate (subtable1 h) k port p cb s1 = Ok (e1, p1, s2)" for s1 p e1 p1 s2
    by (rule hash_iterate_keeps [where I = I, OF sub(2) that(1) cb that(2)]) (simp_all add: hash2_flows_def)
  have second: "I s2" if "I s1" "bindR (table_hash_iterate (subtable1 h) k port p cb s1)
      (\<lambda>(error, p, s). if error \<noteq> 0 then Ok (error, p, s) else Ok (0, next_subtable p, s)) = Ok (e1, p1, s2)" for s1 p e1 p1 s2
    using that(2) 1 [OF that(1)] by (auto simp: bindR_eq_Ok split: if_splits)
  consider "private1 pos = 0" | "private1 pos \<noteq> 0" "private1 pos = 1" | "private1 pos \<noteq> 0" "private1 pos \<noteq> 1" by blast
  then show ?thesis
  proof cases
    case 1
    then obtain e1 p1 s1 where a: "table_hash_iterate (subtable0 h) k port pos cb s = Ok (e1, p1, s1)"
      using it by (auto simp: table_hash2_iterate_def Let_def bindR_eq_Ok)
    have "I s1" by (rule 0 [OF I a])
    then show ?thesis using it 1 a second [of s1] by (auto simp: table_hash2_iterate_def Let_def split: if_splits)
  next
    case 2
    then show ?thesis using it second [OF I] by (auto simp: table_hash2_iterate_def Let_def)
  next
    case 3
    then show ?thesis using it I by (simp add: table_hash2_iterate_def Let_def)
  qed
qed

lemma table_iterate_keeps:
  assumes inv: "table_inv t" and I: "I s" and cb: "\<And>f s. f \<in> set (table_flows t) \<Longrightarrow> I s \<Longrightarrow> I (snd (cb f s))"
    and it: "table_iterate t k port pos cb s = Ok (e, pos', s')"
  shows "I s'"
proof (cases t)
  case (Hash_table h)
  show ?thesis
    by (rule hash_iterate_keeps [where I = I and t = h, OF _ I cb]) (use inv it Hash_table in \<open>simp_all add: table_iterate_def\<close>)
next
  case (Hash2_table h)
  show ?thesis
    by (rule hash2_iterate_keeps [where I = I and h = h, OF _ I cb]) (use inv it Hash2_table in \<open>simp_all add: table_iterate_def\<close>)
next
  case (Linear_table h)
  show ?thesis
    by (rule linear_iterate_keeps [where I = I and t = h, OF _ I cb]) (use inv it Linear_table in \<open>simp_all add: table_iterate_def\<close>)
qed

lemma any_key_all_ok: "key_ok any_key_all" "wildcards any_key_all \<noteq> 0"
  by (code_simp+)

lemma flush_working_inv:
  assumes "dp_inv dp"
  shows "safe (flush_working env dp)"
proof -
  have "chain_ok (chain dp)" using assms by (simp add: dp_inv_def)
  then obtain dp' ch' n where "chain_delete (dp_send_flow_end env) dp (chain dp) any_key_all OFPP_NONE 0 False False
      = Ok (dp', ch', n)" "sends dp dp'" "chain_ok ch'"
    using chain_delete_outcome [of "chain dp" any_key_all False 0] any_key_all_ok by blast
  then show ?thesis using sends_inv [OF _ assms] dp_inv_chain by (simp add: flush_working_def)
qed

lemma protection_callback_keeps:
  assumes s: "\<And>ch. s = Ok ch \<Longrightarrow> chain_ok ch" and f: "entry_ok f" "acts_valid f"
  shows "snd (protection_callback env f s) = Ok ch \<Longrightarrow> chain_ok ch"
proof (cases "flow_alloc (alloc env) (length (sf_acts f))")
  case None
  then show "snd (protection_callback env f s) = Ok ch \<Longrightarrow> chain_ok ch"
    using s by (simp add: protection_callback_def)
next
  case (Some g)
  assume r: "snd (protection_callback env f s) = Ok ch"
  have k: "flow_extract_match (flow_fill_match (kflow (key f)) (wildcards (key f))) = key f"
    using f(1) by (simp add: entry_ok_def key_ok_def)
  let ?g = "g\<lparr>key := key f, priority := priority f, idle_timeout := OFP_FLOW_PERMANENT,
    hard_timeout := OFP_FLOW_PERMANENT, send_flow_rem := send_flow_rem f, emerg_flow := 0\<rparr>"
  obtain c g' e where c: "s = Ok c" "flow_setup_actions ?g (sf_acts f) (time_msec env) = Ok g'"
    "chain_insert c g' False = Ok (ch, e)"
    using r Some by (auto simp: protection_callback_def k Let_def bindR_eq_Ok split: result.splits)
  have "entry_ok g'" "acts_valid g'"
    using c(2) f by (auto simp: flow_setup_actions_def guardR_eq_Ok entry_ok_def acts_valid_def)
  then show "chain_ok ch" using chain_insert_ok [OF s [OF c(1)] _ _ c(3)] by blast
qed

lemma do_protection_inv:
  assumes "dp_inv dp"
  shows "safe (do_protection env dp)"
proof -
  have ok: "chain_ok (chain dp)" using assms by (simp add: dp_inv_def)
  then obtain t where t: "emerg_table (chain dp) = Some t" "table_inv t"
    by (auto simp: chain_ok_def chain_inv_def split: option.splits)
  have f: "entry_ok f" "acts_valid f" if "f \<in> set (table_flows t)" for f
    using that tab.flows_ok [OF t(2)] ok t(1) by (auto simp: chain_ok_def emerg_flows_def)
  have "chain_ok ch"
    if "table_iterate t any_key_all OFPP_NONE start_position (protection_callback env) (Ok (chain dp)) = Ok (e, pos, Ok ch)"
    for e pos ch
  proof -
    have cb: "\<forall>ch'. snd (protection_callback env f s) = Ok ch' \<longrightarrow> chain_ok ch'"
      if "f \<in> set (table_flows t)" "\<forall>ch'. s = Ok ch' \<longrightarrow> chain_ok ch'" for f s
      using protection_callback_keeps [OF _ f [OF that(1)], of s env] that(2) by simp
    have "\<forall>ch'. Ok ch = Ok ch' \<longrightarrow> chain_ok ch'"
      by (rule table_iterate_keeps [where I = "\<lambda>s. \<forall>ch'. s = Ok ch' \<longrightarrow> chain_ok ch'", OF t(2) _ cb that])
        (simp_all add: ok)
    then show ?thesis by simp
  qed
  then show ?thesis
    using t(1) dp_inv_chain [OF assms]
    by (auto simp: do_protection_def safe_def intro!: outcome_TrueI simp: bindR_eq_Ok mapR_def split: result.splits)
qed

lemma recv_vendor_stays:
  assumes "dp_inv dp"
  shows "stays (recv_vendor env dp s msg)"
proof -
  have prot: "stays (mapR (\<lambda>dp. (dp, 0)) (do_protection env d))" if "dp_inv d" for d
    using do_protection_inv [OF that, of env] by (intro stays_mapR) (simp add: safe_def)
  have flush: "dp_inv d" if "flush_working env dp = Ok d" for d
    using flush_working_inv [OF assms, of env] that by (simp add: safe_def)
  have "stays (private_recv_msg env dp msg)"
    using assms by (auto simp: private_recv_msg_def Let_def intro!: stays_bindR prot flush)
  moreover have "stays (bindR (dp_send_error_msg dp (Some s) t c d) (\<lambda>dp. Ok (dp, e)))" for t c d e
    using stays_error [OF assms] by (intro stays_bindR) auto
  ultimately show ?thesis
    by (simp add: recv_vendor_def Let_def of_ext_recv_msg_stays [OF assms])
qed

section \<open>Any message\<close>

lemma fwd_control_input_stays:
  assumes "dp_inv dp"
  shows "stays (fwd_control_input env n dp s msg)"
proof -
  have "stays (bindR (dp_send_error_msg dp (Some s) t c d) (\<lambda>dp. Ok (dp, e)))" for t c d e
    using stays_error [OF assms] by (intro stays_bindR) auto
  then show ?thesis
    using assms simple_handlers_stay [OF assms] recv_features_request_stays [OF assms] recv_packet_out_stays [OF assms]
      recv_flow_stays [OF assms] recv_port_mod_stays [OF assms] recv_stats_request_stays [OF assms]
      recv_queue_get_config_stays [OF assms] recv_vendor_stays [OF assms]
    by (simp add: fwd_control_input_def Let_def)
qed

end
