(* ===== verification/OF_Run_Inv.thy ===== *)
theory OF_Run_Inv
  imports OF_Ctl_Inv
begin

unbundle bit_operations_syntax

text \<open>
  Setting up a datapath establishes the invariant, and a round of \<open>dp_run\<close> keeps it. Together they
  give the invariant for every datapath that the main program can reach.
\<close>

section \<open>Creation and ports\<close>

lemma port_inv_zero: "port_inv zero_port"
  by (simp add: port_inv_def queues_inv_def zero_port_def PORT_IN_USE_def)

lemma dp_new_inv:
  assumes "buffers_inv pk" "dp_new env allocs ea desc dpid pk = Ok (Some dp, e)"
  shows "dp_inv dp"
proof -
  obtain ch where ch: "chain_create allocs = Ok (Some ch)" and dp: "chain dp = ch" "pkts dp = pk" "remotes dp = []"
    "ports dp = replicate DP_MAX_PORTS zero_port" "local_port dp = None" "port_list dp = []"
    using assms(2) by (auto simp: dp_new_def bindR_eq_Ok split: option.splits)
  have "chain_ok ch" using chain_create_cases [of allocs] ch by (auto simp: chain_ok_def)
  moreover have "ports_inv dp"
    unfolding ports_inv_def dp using port_inv_zero
    by (auto simp: list_all_length ref_ok_def port_at_def dp zero_port_def split: port_ref.splits)
  ultimately show ?thesis using assms(1) dp by (simp add: dp_inv_def)
qed

lemma send_port_status_inv: "dp_inv dp \<Longrightarrow> send_port_status dp p s = Ok dp' \<Longrightarrow> dp_inv dp'"
  using send_inv by (auto simp: send_port_status_def bindR_eq_Ok mapR_def)

text \<open>A new port takes a place that was free.\<close>

lemma add_port_inv:
  assumes inv: "ports_inv dp" and free: "case r of Phys i \<Rightarrow> 0 < i \<and> i < DP_MAX_PORTS \<and> netdev (ports dp ! i) = None
      | Local \<Rightarrow> local_port dp = None"
    and p: "port_inv p" "netdev p = Some nd" "port_no p = ref_no r"
  shows "ports_inv ((set_port dp r p)\<lparr>port_list := port_list dp @ [r]\<rparr>)"
proof -
  let ?d = "(set_port dp r p)\<lparr>port_list := port_list dp @ [r]\<rparr>"
  have len: "length (ports dp) = DP_MAX_PORTS" using inv by (simp add: ports_inv_def)
  have at: "port_at ?d s = (if s = r then p else port_at dp s)" for s
    using free len by (cases r; cases s) (auto simp: port_at_def set_port_def)
  have ok: "ref_ok ?d s \<longleftrightarrow> s = r \<or> ref_ok dp s" for s
    using free by (cases r; cases s) (auto simp: ref_ok_def set_port_def)
  have new: "r \<notin> set (port_list dp)" using inv free by (cases r) (auto simp: ports_inv_def ref_ok_def port_at_def)
  have all: "list_all port_inv (ports ?d)"
    using inv p(1) set_update_subset_insert [of "ports dp"]
    by (cases r) (force simp: ports_inv_def set_port_def list_all_iff)+
  have rest: "length (ports ?d) = DP_MAX_PORTS" "netdev (ports ?d ! 0) = None"
    "\<forall>q. local_port ?d = Some q \<longrightarrow> port_inv q \<and> netdev q \<noteq> None"
    using inv free p by (cases r; auto simp: ports_inv_def set_port_def)+
  show ?thesis
    unfolding ports_inv_def
    using inv all rest new at ok p(2,3) by (auto simp: ports_inv_def)
qed

lemma new_port_stays:
  assumes inv: "dp_inv dp" and free: "case r of Phys i \<Rightarrow> 0 < i \<and> i < DP_MAX_PORTS \<and> netdev (ports dp ! i) = None
      | Local \<Rightarrow> local_port dp = None" and no: "no = ref_no r"
  shows "stays (new_port env dp r no name mac nq)"
proof -
  have "dp_inv ((set_port dp r (zero_port\<lparr>port_flags := SWP_USED, netdev := Some nd, port_no := no,
      num_queues := nq, queue_list := Some []\<rparr>))\<lparr>port_list := port_list dp @ [r]\<rparr>)" (is "dp_inv (?d nd)") for nd
  proof -
    have "port_inv (zero_port\<lparr>port_flags := SWP_USED, netdev := Some nd, port_no := no, num_queues := nq,
        queue_list := Some []\<rparr>)"
      by (auto simp: port_inv_def queues_inv_def zero_port_def zero_queue_def PORT_IN_USE_def)
    then have "ports_inv (?d nd)" using inv free no by (intro add_port_inv) (simp_all add: dp_inv_def)
    then show ?thesis using inv by (simp add: dp_inv_def)
  qed
  from send_port_status_inv [OF this] show ?thesis
    using inv by (auto simp: new_port_def Let_def split: sum.split intro!: stays_bindR)
qed

lemma dp_add_port_stays: "dp_inv dp \<Longrightarrow> stays (dp_add_port env dp name nq)"
  using find_Some_set
  by (fastforce simp: dp_add_port_def ref_no_def split: option.split intro!: new_port_stays)

lemma dp_add_local_port_stays: "dp_inv dp \<Longrightarrow> stays (dp_add_local_port env dp name nq)"
  by (auto simp: dp_add_local_port_def ref_no_def intro!: new_port_stays)

section \<open>One round\<close>

lemma dp_timeout_inv:
  assumes "dp_inv dp"
  shows "dp_inv (dp_timeout env dp)"
proof -
  obtain ch gone where t: "chain_timeout (time_msec env) (chain dp) = (ch, gone)" by fastforce
  have inv: "chain_inv (chain dp)" using assms by (simp add: dp_inv_def chain_ok_def)
  have "chain_ok ch"
    using chain_timeout_spec [OF inv t] assms by (auto simp: dp_inv_def chain_ok_def emerg_flows_def)
  then have "dp_inv (dp\<lparr>chain := ch\<rparr>)" by (rule dp_inv_chain [OF assms])
  then have "dp_inv (foldl (\<lambda>dp f. dp_send_flow_end env dp f (reason f)) (dp\<lparr>chain := ch\<rparr>) gone)"
    using sends_inv [OF flow_end_foldl_sends] by blast
  then have "dp_inv ((foldl (\<lambda>dp f. dp_send_flow_end env dp f (reason f)) (dp\<lparr>chain := ch\<rparr>) gone)\<lparr>last_timeout := time_now env\<rparr>)"
    by (simp add: dp_inv_def)
  then show ?thesis using assms t by (simp add: dp_timeout_def Let_def)
qed

lemma count_received_inv:
  assumes inv: "dp_inv dp" and nd: "netdev (port_at dp r) = Some nd"
  shows "dp_inv (set_port dp r ((port_at dp r)\<lparr>rx_packets := a, rx_bytes := c\<rparr>))"
proof (cases "valid_ref dp r")
  case True
  then have "port_inv (port_at dp r)" using inv port_at_inv by (simp add: dp_inv_def)
  then have "port_inv ((port_at dp r)\<lparr>rx_packets := a, rx_bytes := c\<rparr>)"
    by (simp add: port_inv_def queues_inv_def PORT_IN_USE_def split: option.splits)
  then show ?thesis by (intro set_port_dp_inv [OF inv True]) simp_all
next
  case False
  have "length (ports dp) = DP_MAX_PORTS" using inv by (simp add: dp_inv_def ports_inv_def)
  then have "set_port dp r p = dp" for p
    using False nd by (cases r) (auto simp: valid_ref_def set_port_def port_at_def zero_port_def list_update_beyond)
  then show ?thesis using inv by simp
qed

lemma recv_loop_inv: "dp_inv dp \<Longrightarrow> safe (recv_loop env n incoming rs dp b)"
proof (induction rs arbitrary: dp b)
  case Nil
  then show ?case by simp
next
  case (Cons r rs)
  show ?case
  proof (cases "netdev (port_at dp r)")
    case None
    then show ?thesis by simp
  next
    case (Some nd)
    have fwd: "dp_inv d'" if "dp_inv d" "fwd_port_input env n d x r = Ok d'" for d d' x
      using fwd.fwd_port_input_inv that by blast
    show ?thesis
      unfolding recv_loop.simps Some option.case Let_def
      by (intro safe_bindR) (auto intro!: safe_bindR Cons.IH Cons.prems
          dest!: fwd [OF count_received_inv [OF Cons.prems Some]])
  qed
qed

lemma set_cb_inv: "dp_inv dp \<Longrightarrow> dp_inv (set_cb dp i cb)"
  unfolding set_cb_def using remote_at_inv by (intro dp_inv_remote) auto

lemma stats_dump_stays:
  assumes "dp_inv dp"
  shows "stays (stats_dump env dp i cb)"
proof -
  have "dp_inv d" if "send_openflow_buffer (set_cb dp j c) b s = Ok (d, e)" for j c b s d e
    by (rule send_inv [OF set_cb_inv [OF assms] that])
  then show ?thesis
    using assms set_cb_inv [OF assms] unfolding stats_dump_def Let_def
    by (auto intro!: stays_bindR split: prod.splits)
qed

lemma remote_turn_inv:
  assumes inv: "dp_inv dp" and t: "remote_turn env n dp i = Ok (dp', g)"
  shows "dp_inv dp'"
proof (cases "cb_dump (remotes dp ! i)")
  case None
  show ?thesis
  proof (cases "rxq (remotes dp ! i)")
    case Nil
    then show ?thesis using None inv t by (simp add: remote_turn_def)
  next
    case (Cons m ms)
    let ?d = "dp\<lparr>remotes := (remotes dp)[i := (remotes dp ! i)\<lparr>rxq := ms\<rparr>]\<rparr>"
    have d: "dp_inv ?d" using remote_at_inv [OF inv] by (intro dp_inv_remote [OF inv]) simp
    show ?thesis
      using None Cons t d fwd_control_input_stays [OF d, of env n]
      by (auto simp: remote_turn_def Let_def bindR_eq_Ok split: if_splits dest: arg_cong [where f = stays])
  qed
next
  case (Some cb)
  show ?thesis
  proof (cases "n_txq (remotes dp ! i) < TXQ_LIMIT")
    case True
    then obtain d e where d: "stats_dump env dp i cb = Ok (d, e)" "dp' = (if e \<le> 0 then set_cb d i None else d)"
      using Some t by (auto simp: remote_turn_def Let_def bindR_eq_Ok)
    have "dp_inv d" using stats_dump_stays [OF inv, of env i cb] d(1) by simp
    then show ?thesis using d(2) set_cb_inv by simp
  next
    case False
    then show ?thesis using Some t inv by (simp add: remote_turn_def)
  qed
qed

lemma remote_loop_inv: "dp_inv dp \<Longrightarrow> safe (remote_loop env n i dp k)"
  by (induction k arbitrary: dp) (auto intro!: safe_bindR dest: remote_turn_inv)

lemma remote_run_inv: "dp_inv dp \<Longrightarrow> safe (remote_run env n dp i)"
proof -
  assume inv: "dp_inv dp"
  have del: "dp_inv (remote_destroy d i)" if "dp_inv d" for d
    using that by (auto simp: dp_inv_def remote_destroy_def list_all_iff dest: in_set_takeD in_set_dropD)
  show ?thesis
    using remote_loop_inv [OF inv, of env n i 50] del
    by (cases "remote_loop env n i dp 50") (auto simp: remote_run_def)
qed

lemma remotes_run_inv: "dp_inv dp \<Longrightarrow> safe (remotes_run env n k dp i)"
proof (induction k arbitrary: dp i)
  case (Suc k)
  have "dp_inv d" if "remote_run env n dp i = Ok d" for d
    using remote_run_inv [OF Suc.prems, of env n i] that by simp
  then show ?case using Suc.IH by (auto intro!: safe_bindR)
qed simp

lemma accept_loop_inv:
  "dp_inv dp \<Longrightarrow> (\<And>l c. accept l = Inr c \<Longrightarrow> txq c = []) \<Longrightarrow> dp_inv (accept_loop accept dp i)"
proof (induction accept dp i rule: accept_loop.induct)
  case (1 accept dp i)
  have new: "dp_inv (remote_create dp c)" if "txq c = []" for c
    using 1(4) that by (simp add: dp_inv_def remote_create_def remote_inv_def)
  have "dp_inv (dp\<lparr>listeners := l\<rparr>)" for l using 1(4) by (simp add: dp_inv_def)
  then show ?case
    using 1 new by (subst accept_loop.simps) (auto split: sum.split)
qed

lemma dp_run_inv:
  assumes inv: "dp_inv dp" and new: "\<And>l c. accept l = Inr c \<Longrightarrow> txq c = []"
    and run: "dp_run env n incoming accept dp = Ok dp'"
  shows "dp_inv dp'"
proof -
  let ?d = "dp_timeout env dp"
  obtain d1 d2 where d: "recv_loop env n incoming (port_list ?d) ?d None = Ok d1"
    "remotes_run env n (length (remotes d1)) d1 0 = Ok d2" "dp' = accept_loop accept d2 0"
    using run by (auto simp: dp_run_def Let_def bindR_eq_Ok)
  have "safe (Ok d1)" using recv_loop_inv [OF dp_timeout_inv [OF inv]] d(1) by metis
  then have "safe (Ok d2)" using remotes_run_inv d(2) by (metis safe_simps(1))
  then have "dp_inv d2" by simp
  then show ?thesis using accept_loop_inv new d(3) by simp
qed

section \<open>Everything the main program can reach\<close>

text \<open>
  Between two rounds the connections make progress on their own: queued messages leave in order,
  messages arrive, and a connection may go up or down.
\<close>

definition net_progress :: "remote \<Rightarrow> remote \<Rightarrow> bool" where
  "net_progress r r' \<longleftrightarrow> (\<exists>k \<le> length (txq r). txq r' = drop k (txq r) \<and> n_txq r' = n_txq r - int k) \<and>
     cb_dump r' = cb_dump r"

inductive reachable_dp :: "datapath \<Rightarrow> bool" where
  created: "dp_new env allocs ea desc dpid no_buffers = Ok (Some dp, e) \<Longrightarrow> reachable_dp dp"
| port: "reachable_dp dp \<Longrightarrow> dp_add_port env dp name nq = Ok (dp', e) \<Longrightarrow> reachable_dp dp'"
| local: "reachable_dp dp \<Longrightarrow> dp_add_local_port env dp name nq = Ok (dp', e) \<Longrightarrow> reachable_dp dp'"
| listen: "reachable_dp dp \<Longrightarrow> reachable_dp (dp_add_pvconn dp pv)"
| network: "reachable_dp dp \<Longrightarrow> list_all2 net_progress (remotes dp) rs \<Longrightarrow> reachable_dp (dp\<lparr>remotes := rs\<rparr>)"
| round: "reachable_dp dp \<Longrightarrow> \<forall>l c. accept l = Inr c \<longrightarrow> txq c = [] \<Longrightarrow>
    dp_run env n incoming accept dp = Ok dp' \<Longrightarrow> reachable_dp dp'"

lemma net_progress_inv: "net_progress r r' \<Longrightarrow> remote_inv r \<Longrightarrow> remote_inv r'"
  by (auto simp: net_progress_def remote_inv_def)

lemma network_inv:
  assumes "dp_inv dp" "list_all2 net_progress (remotes dp) rs"
  shows "dp_inv (dp\<lparr>remotes := rs\<rparr>)"
proof -
  have "list_all remote_inv rs"
    using assms net_progress_inv by (auto simp: dp_inv_def list_all_length list_all2_conv_all_nth)
  then show ?thesis using assms(1) by (simp add: dp_inv_def)
qed

lemma reachable_dp_inv: "reachable_dp dp \<Longrightarrow> dp_inv dp"
proof (induction rule: reachable_dp.induct)
  case (created env allocs ea desc dpid dp e)
  then show ?case using dp_new_inv no_buffers_inv(1) by blast
next
  case (port dp env name nq dp' e)
  then show ?case using dp_add_port_stays [of dp env name nq] by simp
next
  case (local dp env name nq dp' e)
  then show ?case using dp_add_local_port_stays [of dp env name nq] by simp
next
  case (listen dp pv)
  then show ?case by (simp add: dp_add_pvconn_def dp_inv_def)
next
  case (network dp rs)
  then show ?case using network_inv by blast
next
  case (round dp accept env n incoming dp')
  then show ?case using dp_run_inv by blast
qed

end
