(* ===== verification/OF_Fuel.thy ===== *)
theory OF_Fuel
  imports OF_Fwd_Inv
begin

unbundle bit_operations_syntax

text \<open>
  The recursion depth of forwarding. A call that returns with some depth returns the same with any
  larger one, so the depth in the model only decides whether the recursion has come to an end. A
  flow entry that sends packets back to the tables makes it endless.
\<close>

section \<open>More depth gives the same result\<close>

definition less_defined :: "'a result \<Rightarrow> 'a result \<Rightarrow> bool" where
  "less_defined r r' \<longleftrightarrow> r = Fail No_return \<or> r = r'"

lemma less_defined_refl [simp]: "less_defined r r"
  by (simp add: less_defined_def)

lemma less_defined_bindR:
  "less_defined m m' \<Longrightarrow> (\<And>x. less_defined (f x) (f' x)) \<Longrightarrow> less_defined (bindR m f) (bindR m' f')"
  by (cases m) (auto simp: less_defined_def, metis)

lemma less_defined_mapR: "less_defined m m' \<Longrightarrow> less_defined (mapR f m) (mapR f m')"
  unfolding mapR_def by (rule less_defined_bindR) simp_all

lemma less_definedD: "less_defined r r' \<Longrightarrow> r \<noteq> Fail No_return \<Longrightarrow> r' = r"
  by (auto simp: less_defined_def)

definition deeper :: "port_output \<Rightarrow> port_output \<Rightarrow> bool" where
  "deeper out out' \<longleftrightarrow> (\<forall>dp b ip p q ig. less_defined (out dp b ip p q ig) (out' dp b ip p q ig))"

lemma deeperD: "deeper out out' \<Longrightarrow> less_defined (out dp b ip p q ig) (out' dp b ip p q ig)"
  by (simp add: deeper_def)

lemma flush_prev_deeper:
  "deeper out out' \<Longrightarrow>
   less_defined (flush_prev (do_output env out) dp b ip ml prev ig) (flush_prev (do_output env out') dp b ip ml prev ig)"
  by (auto simp: flush_prev_def do_output_def deeperD split: option.split)

lemma execute_loop_deeper:
  assumes "deeper out out'"
  shows "less_defined (execute_loop (do_output env out) ip ig acts dp b k prev ml)
    (execute_loop (do_output env out') ip ig acts dp b k prev ml)"
proof (induction "length acts" arbitrary: acts dp b k prev ml rule: less_induct)
  case less
  show ?case
  proof (cases "acts = [] \<or> length acts < 4")
    case True
    then show ?thesis by (subst (1 2) execute_loop.simps) auto
  next
    case False
    have "less_defined (execute_loop (do_output env out) ip ig (drop (unat (htons (ld16 acts 2))) acts) dp b k prev ml)
      (execute_loop (do_output env out') ip ig (drop (unat (htons (ld16 acts 2))) acts) dp b k prev ml)"
      if "unat (htons (ld16 acts 2)) \<noteq> 0" for dp b k prev ml
      using that False by (intro less) auto
    then show ?thesis
      using False flush_prev_deeper [OF assms]
      by (subst (1 2) execute_loop.simps) (auto simp: Let_def intro!: less_defined_bindR split: prod.split)
  qed
qed

lemma execute_actions_deeper:
  "deeper out out' \<Longrightarrow>
   less_defined (execute_actions (do_output env out) dp b k acts ig) (execute_actions (do_output env out') dp b k acts ig)"
  unfolding execute_actions_def Let_def
  by (auto intro!: less_defined_bindR execute_loop_deeper flush_prev_deeper split: prod.split)

lemma run_flow_deeper:
  assumes "deeper out out'"
  shows "less_defined (run_flow_through_tables env out dp b r) (run_flow_through_tables env out' dp b r)"
proof -
  have "less_defined (apply_tables env out dp b k) (apply_tables env out' dp b k)" for b k
    unfolding apply_tables_def Let_def
    by (auto intro!: less_defined_bindR execute_actions_deeper [OF assms] split: prod.split option.split)
  then show ?thesis
    unfolding run_flow_through_tables_def Let_def
    by (auto intro!: less_defined_mapR split: prod.split)
qed

lemma output_all_deeper:
  assumes "deeper out out'"
  shows "less_defined (output_all out dp b ip fl) (output_all out' dp b ip fl)"
proof -
  have "less_defined (output_all_loop out b ip fl rs dp prev) (output_all_loop out' b ip fl rs dp prev)" for rs dp prev
    by (induction rs arbitrary: dp prev)
      (auto simp: Let_def intro!: less_defined_bindR deeperD [OF assms] split: option.split)
  then show ?thesis
    unfolding output_all_def by (auto intro!: less_defined_bindR deeperD [OF assms] split: prod.split option.split)
qed

lemma dp_output_port_deeper: "deeper (dp_output_port env n) (dp_output_port env (Suc n))"
proof (induction n)
  case 0
  then show ?case by (simp add: deeper_def less_defined_def)
next
  case (Suc n)
  show ?case
    unfolding deeper_def
    by (simp only: dp_output_port.simps(2) [of env n] dp_output_port.simps(2) [of env "Suc n"])
      (auto intro!: less_defined_mapR run_flow_deeper [OF Suc] output_all_deeper [OF Suc])
qed

lemma fwd_port_input_deeper: "less_defined (fwd_port_input env n dp b r) (fwd_port_input env (Suc n) dp b r)"
  unfolding fwd_port_input_def
  by (intro less_defined_bindR run_flow_deeper dp_output_port_deeper) simp

lemma fwd_port_input_settled:
  assumes "fwd_port_input env n dp b r \<noteq> Fail No_return" "n \<le> m"
  shows "fwd_port_input env m dp b r = fwd_port_input env n dp b r"
  using assms(2)
proof (induction m rule: dec_induct)
  case (step m)
  then show ?case using less_definedD [OF fwd_port_input_deeper [of env m dp b r]] assms(1) by simp
qed simp

section \<open>The fields of a packet do not depend on its layer pointers\<close>

definition relayer :: "ofpbuf \<Rightarrow> ofpbuf \<Rightarrow> ofpbuf" where
  "relayer p b = b\<lparr>l2 := l2 p, l3 := l3 p, l4 := l4 p, l7 := l7 p\<rparr>"

lemma relayer_fields [simp]:
  "headroom (relayer p b) = headroom b" "data (relayer p b) = data b" "size_of (relayer p b) = size_of b"
  "ofpbuf_at (relayer p b) i n = ofpbuf_at b i n"
  by (simp_all add: relayer_def size_of_def ofpbuf_at_def)

lemma pull_relayer: "pull (relayer p b) n = map_prod id (relayer p) (pull b n)"
  by (simp add: pull_def relayer_def)

lemma pulls_relayer:
  "pull_eth (relayer p b) = map_option (map_prod id (relayer p)) (pull_eth b)"
  "pull_vlan (relayer p b) = map_option (map_prod id (relayer p)) (pull_vlan b)"
  "pull_ip (relayer p b) = map_option (map_prod id (relayer p)) (pull_ip b)"
  "pull_arp (relayer p b) = map_option (map_prod id (relayer p)) (pull_arp b)"
  "pull_tcp (relayer p b) = map_option (map_prod id (relayer p)) (pull_tcp b)"
  "pull_udp (relayer p b) = map_option (map_prod id (relayer p)) (pull_udp b)"
  "pull_icmp (relayer p b) = map_option (map_prod id (relayer p)) (pull_icmp b)"
  by (simp_all add: pull_eth_def pull_vlan_def pull_ip_def pull_arp_def pull_tcp_def pull_udp_def pull_icmp_def
      ofpbuf_try_pull_def pull_relayer Let_def)

lemma extract_relayer:
  "extract_dl_type eth (relayer p b) = map_option (map_prod id (relayer p)) (extract_dl_type eth b)"
  "extract_vlan fl (relayer p b) = map_prod id (relayer p) (extract_vlan fl b)"
  "extract_l4 nh (relayer p b) fl pk = extract_l4 nh b fl pk"
  "extract_nw (relayer p b) fl pk = extract_nw b fl pk"
  by (auto simp: extract_dl_type_def extract_vlan_def extract_l4_def extract_nw_def pulls_relayer pull_relayer Let_def
      split: option.split prod.split)

lemma flow_extract_same_data:
  assumes "same_data b b'"
  shows "flow_extract b' n = flow_extract b n"
proof -
  have "b' = relayer b' b" using assms by (simp add: relayer_def same_data_def)
  moreover have "flow_extract (relayer b' b) n = flow_extract b n"
    by (auto simp: flow_extract_def Let_def pulls_relayer extract_relayer split: option.split prod.split)
      (simp_all add: relayer_def)
  ultimately show ?thesis by simp
qed

lemma flow_extract_again:
  assumes "flow_extract b n = (frag, fl, b')"
  shows "flow_extract b' n = (frag, fl, b')"
  using flow_extract_same_data [of b b' n] flow_extract_layers [OF assms] assms by simp

section \<open>Packets that never come to rest\<close>

text \<open>All that the entry for such a packet does is to look it up again.\<close>

definition back_to_tables :: "bytes \<Rightarrow> bool" where
  "back_to_tables acts \<longleftrightarrow> (\<exists>a q ml. act_list acts = [a] \<and> output_of a = Some (OFPP_TABLE, q, ml))"

definition looping :: "sw_chain \<Rightarrow> sw_flow_key \<Rightarrow> bool" where
  "looping ch k \<longleftrightarrow> (\<exists>f \<in> set (chain_flows ch). flow_matches_1wild k (key f)) \<and>
     (\<forall>f \<in> set (chain_flows ch). flow_matches_1wild k (key f) \<longrightarrow> back_to_tables (sf_acts f))"

lemma looping_lookup:
  assumes ok: "chain_ok ch" and l: "looping ch (packet_key env fl)" and pad: "pad fl = (0, 0, 0)"
  shows "\<exists>ch' r. chain_lookup ch (packet_key env fl) False = Ok (ch', Some r) \<and>
    chain_ok (use_match now ch' r b) \<and> looping (use_match now ch' r b) (packet_key env fl) \<and>
    back_to_tables (sf_acts (chain_flow_at (use_match now ch' r b) r)) \<and>
    acts_valid (chain_flow_at (use_match now ch' r b) r)"
proof -
  have inv: "chain_inv ch" using ok by (simp add: chain_ok_def)
  obtain ch' fr where c: "chain_lookup ch (packet_key env fl) False = Ok (ch', fr)"
    and best: "best_match (chain_flows ch) (packet_key env fl) (map_option (chain_flow_at ch') fr)"
    using chain_lookup_working [OF inv, of "packet_key env fl"] pad by auto
  obtain r where r: "fr = Some r" using best l by (cases fr) (auto simp: best_match_def looping_def)
  note m = lookup_match [OF inv pad c [unfolded r]]
  obtain xs ys where xy: "chain_flows ch = xs @ chain_flow_at ch' r # ys"
    "chain_flows (use_match now ch' r b) = xs @ flow_used now (chain_flow_at ch' r) b # ys"
    using m(3) by blast
  have used: "key (flow_used now f b) = key f" "sf_acts (flow_used now f b) = sf_acts f" for f
    by (simp_all add: flow_used_def)
  have "back_to_tables (sf_acts (chain_flow_at ch' r))"
    using best l r by (auto simp: best_match_def looping_def)
  then have "back_to_tables (sf_acts (chain_flow_at (use_match now ch' r b) r))"
    using use_match_acts [OF inv pad c [unfolded r]] by simp
  moreover have "looping (use_match now ch' r b) (packet_key env fl)"
    using l unfolding looping_def xy by (auto simp: used)
  moreover have "acts_valid (chain_flow_at (use_match now ch' r b) r)"
    using chain_ok_lookup(2) [OF ok pad c [unfolded r], of now b] ok by (auto simp: chain_ok_def acts_valid_def)
  ultimately show ?thesis
    using c r chain_ok_lookup(1) [OF ok pad c [unfolded r]] by auto
qed

lemma listed_lookup:
  assumes "ports_inv dp" "r \<in> set (port_list dp)"
  shows "dp_lookup_port dp (port_no (port_at dp r)) = Some r"
proof -
  have "port_no (port_at dp r) = ref_no r" "ref_ok dp r" using assms by (auto simp: ports_inv_def)
  moreover have "unat (of_nat i :: u16) = i" if "i < 256" for i
    using that by (simp add: unat_of_nat take_bit_nat_eq_self)
  ultimately show ?thesis by (cases r) (auto simp: ref_no_def ref_ok_def dp_lookup_port_def)
qed

lemma run_flow_looping:
  assumes fe: "flow_extract b (port_no (port_at dp r)) = (frag, fl, b')"
    and kept: "\<not> drop_fragment dp frag" "\<not> refuses (Some (port_at dp r)) fl"
    and ch: "chain_ok ch" "looping ch (packet_key env fl)"
    and out: "\<And>ch q. chain_ok ch \<Longrightarrow> looping ch (packet_key env fl) \<Longrightarrow>
      out (dp\<lparr>chain := ch\<rparr>) b' (port_no (port_at dp r)) OFPP_TABLE q False = Fail No_return"
  shows "run_flow_through_tables env out (dp\<lparr>chain := ch\<rparr>) b (Some r) = Fail No_return"
proof -
  obtain ch' fr where l: "chain_lookup ch (packet_key env fl) False = Ok (ch', Some fr)"
    and ch': "chain_ok (use_match (time_msec env) ch' fr b')" "looping (use_match (time_msec env) ch' fr b') (packet_key env fl)"
    and acts: "back_to_tables (sf_acts (chain_flow_at (use_match (time_msec env) ch' fr b') fr))"
      "acts_valid (chain_flow_at (use_match (time_msec env) ch' fr b') fr)"
    using looping_lookup [OF ch flow_extract_pad [OF fe], of "time_msec env" b'] by blast
  obtain k0 where v: "validate_actions k0 (sf_acts (chain_flow_at (use_match (time_msec env) ch' fr b') fr)) = ACT_VALIDATION_OK"
    using acts(2) by (auto simp: acts_valid_def)
  obtain a q ml where a: "act_list (sf_acts (chain_flow_at (use_match (time_msec env) ch' fr b') fr)) = [a]"
    "output_of a = Some (OFPP_TABLE, q, ml)" using acts(1) by (auto simp: back_to_tables_def)
  have "in_port fl = htons (port_no (port_at dp r))" using flow_extract_layers [OF fe] by simp
  then have "apply_tables env out (dp\<lparr>chain := ch\<rparr>) b' (packet_key env fl) = Fail No_return"
    using l out [OF ch'] by (simp add: apply_tables_def Let_def execute_actions_run [OF v] a do_output_def)
  then show ?thesis
    using fe kept by (simp add: run_flow_through_tables_def drop_fragment_def)
qed

lemma dp_lookup_port_chain [simp]: "dp_lookup_port (dp\<lparr>chain := c\<rparr>) = dp_lookup_port dp"
  by (simp add: dp_lookup_port_def fun_eq_iff)

lemma run_flow_never_returns:
  assumes inv: "ports_inv dp" and r: "r \<in> set (port_list dp)"
    and fe: "flow_extract b (port_no (port_at dp r)) = (frag, fl, b')"
    and kept: "\<not> drop_fragment dp frag" "\<not> refuses (Some (port_at dp r)) fl"
    and ch: "chain_ok ch" "looping ch (packet_key env fl)"
  shows "run_flow_through_tables env (dp_output_port env n) (dp\<lparr>chain := ch\<rparr>) b (Some r) = Fail No_return"
  using ch fe
proof (induction n arbitrary: ch b)
  case (0 ch b)
  show ?case by (rule run_flow_looping [OF 0(3) kept 0(1,2)]) simp
next
  case (Suc n ch b)
  have "dp_lookup_port (dp\<lparr>chain := c\<rparr>) (port_no (port_at dp r)) = Some r" for c
    using listed_lookup [OF inv r] by simp
  then have "dp_output_port env (Suc n) (dp\<lparr>chain := c\<rparr>) b' (port_no (port_at dp r)) OFPP_TABLE q False = Fail No_return"
    if "chain_ok c" "looping c (packet_key env fl)" for c q
    using Suc.IH [OF that flow_extract_again [OF Suc.prems(3)]] by simp
  then show ?case by (rule run_flow_looping [OF Suc.prems(3) kept Suc.prems(1,2)])
qed

end
