(* ===== verification/OF_Deliver.thy ===== *)
theory OF_Deliver
  imports OF_Run_Inv OF_Fuel
begin

unbundle bit_operations_syntax

text \<open>
  Where messages and packets end up: what a connection has been handed after a message was sent
  on it, and what has been put on the wire after a packet was flooded.
\<close>

section \<open>Messages\<close>

text \<open>All that has been accepted for transmission on a connection, in order.\<close>

definition accepted :: "remote \<Rightarrow> bytes list" where
  "accepted r = sent r @ txq r"

definition accepts :: "remote \<Rightarrow> bool" where
  "accepts r \<longleftrightarrow> connected r \<and> n_txq r < TXQ_LIMIT"

lemma rconn_send_accepted:
  assumes "rconn_send_with_limit r b TXQ_LIMIT = (r', e)"
  shows "accepts r \<Longrightarrow> accepted r' = accepted r @ [b] \<and> e = 0" "\<not> accepts r \<Longrightarrow> r' = r \<and> e \<noteq> 0"
    "connected r' = connected r" "cb_dump r' = cb_dump r"
  using assms
  by (auto simp: rconn_send_with_limit_def rconn_send_def accepts_def accepted_def try_send_def Let_def
      split: if_splits list.splits)

text \<open>The message that is put on the connections, with its length filled in.\<close>

definition with_length :: "bytes \<Rightarrow> bytes" where
  "with_length b = st16 b 2 (htons (of_nat (length b)))"

lemma update_openflow_length_eq: "8 \<le> length b \<Longrightarrow> update_openflow_length b = Ok (with_length b)"
  by (simp add: update_openflow_length_def with_length_def)

definition handed :: "bytes \<Rightarrow> remote \<Rightarrow> remote" where
  "handed b r = fst (rconn_send_with_limit r b TXQ_LIMIT)"

lemma handed_accepted: "accepts r \<Longrightarrow> accepted (handed b r) = accepted r @ [b]" "\<not> accepts r \<Longrightarrow> handed b r = r"
  unfolding handed_def using rconn_send_accepted [of r b] by (metis prod.collapse)+

lemma send_to_remote_eq:
  "fst (send_openflow_buffer_to_remote dp b i) = dp\<lparr>remotes := (remotes dp)[i := handed b (remotes dp ! i)]\<rparr>"
  by (simp add: send_openflow_buffer_to_remote_def handed_def case_prod_unfold Let_def)

lemma broadcast_eq:
  "fold (\<lambda>i dp. fst (send_openflow_buffer_to_remote dp b i)) [0..<length (remotes dp)] dp =
   dp\<lparr>remotes := map (handed b) (remotes dp)\<rparr>"
proof -
  have "n \<le> length (remotes dp) \<Longrightarrow>
    fold (\<lambda>i dp. fst (send_openflow_buffer_to_remote dp b i)) [0..<n] dp =
    dp\<lparr>remotes := map (handed b) (take n (remotes dp)) @ drop n (remotes dp)\<rparr>" for n
  proof (induction n)
    case 0
    then show ?case by simp
  next
    case (Suc n)
    then have n: "n < length (remotes dp)" by simp
    then have "(map (handed b) (take n (remotes dp)) @ drop n (remotes dp))[n := handed b (remotes dp ! n)] =
      map (handed b) (take (Suc n) (remotes dp)) @ drop (Suc n) (remotes dp)"
      by (simp add: list_update_append take_Suc_conv_app_nth flip: Cons_nth_drop_Suc)
    then show ?case
      using Suc n by (simp add: send_to_remote_eq nth_append)
  qed
  from this [of "length (remotes dp)"] show ?thesis by simp
qed

lemma send_all: "8 \<le> length b \<Longrightarrow> send_openflow_buffer dp b None = Ok (dp\<lparr>remotes := map (handed (with_length b)) (remotes dp)\<rparr>, 0)"
  by (simp add: send_openflow_buffer_def update_openflow_length_eq broadcast_eq)

lemma send_one:
  assumes "8 \<le> length b" "s_remote s < length (remotes dp)" "accepts (remotes dp ! s_remote s)"
  shows "\<exists>dp'. send_openflow_buffer dp b (Some s) = Ok (dp', 0) \<and>
    accepted (remotes dp' ! s_remote s) = accepted (remotes dp ! s_remote s) @ [with_length b] \<and>
    dp' = dp\<lparr>remotes := (remotes dp)[s_remote s := handed (with_length b) (remotes dp ! s_remote s)]\<rparr>"
  using assms rconn_send_accepted(1) [OF prod.collapse [symmetric], of "remotes dp ! s_remote s" "with_length b"]
  by (auto simp: send_openflow_buffer_def update_openflow_length_eq send_openflow_buffer_to_remote_def handed_def
      case_prod_unfold Let_def)

section \<open>Flooding\<close>

text \<open>The frames put on the wire: device, bytes and class.\<close>

definition frames :: "datapath \<Rightarrow> (netdev \<times> bytes \<times> u16) list" where
  "frames dp = map (\<lambda>(nd, d, cls, ok). (nd, d, cls)) (wire dp)"

definition port_up :: "sw_port \<Rightarrow> bool" where
  "port_up p \<longleftrightarrow> config p AND OFPPC_PORT_DOWN = 0"

text \<open>Forwarding changes only counters of ports.\<close>

definition same_ports :: "datapath \<Rightarrow> datapath \<Rightarrow> bool" where
  "same_ports dp dp' \<longleftrightarrow> port_list dp' = port_list dp \<and>
     (\<forall>r. netdev (port_at dp' r) = netdev (port_at dp r) \<and> config (port_at dp' r) = config (port_at dp r) \<and>
        port_no (port_at dp' r) = port_no (port_at dp r))"

lemma same_ports_refl [simp]: "same_ports dp dp"
  by (simp add: same_ports_def)

lemma same_ports_trans: "same_ports a b \<Longrightarrow> same_ports b c \<Longrightarrow> same_ports a c"
  by (simp add: same_ports_def)

definition copy_for :: "datapath \<Rightarrow> bytes \<Rightarrow> port_ref \<Rightarrow> (netdev \<times> bytes \<times> u16) list" where
  "copy_for dp d r = (if port_up (port_at dp r) then [(the (netdev (port_at dp r)), d, 0)] else [])"

lemma copy_for_same: "same_ports dp dp' \<Longrightarrow> copy_for dp' d r = copy_for dp d r"
  by (simp add: same_ports_def copy_for_def port_up_def)

lemma output_to_listed:
  assumes inv: "dp_inv dp" and r: "r \<in> set (port_list dp)" and ip: "port_no (port_at dp r) \<noteq> ip"
  shows "\<exists>dp'. dp_output_port env (Suc n) dp b ip (port_no (port_at dp r)) 0 ig = Ok dp' \<and> dp_inv dp' \<and>
    same_ports dp dp' \<and> frames dp' = frames dp @ copy_for dp (data b) r"
proof -
  have p: "ports_inv dp" using inv by (simp add: dp_inv_def)
  obtain nd where nd: "netdev (port_at dp r) = Some nd" "valid_ref dp r"
    using p r ref_ok_valid by (fastforce simp: ports_inv_def)
  define dp' where "dp' = (if port_up (port_at dp r) then transmit env dp b r nd 0 None else dp)"
  have eq: "output_packet env dp b (port_no (port_at dp r)) 0 = Ok dp'"
    using listed_lookup [OF p r] nd by (simp add: output_packet_def packet_class_def dp'_def port_up_def)
  have "dp_output_port env (Suc n) dp b ip (port_no (port_at dp r)) 0 ig = Ok dp'"
    using listed_port_no [OF p r] ip eq by simp
  moreover have "dp_inv dp'" by (rule fwd.packet [OF inv eq])
  moreover have "same_ports dp dp'"
    using transmit_port [OF p nd(2)] by (simp add: dp'_def same_ports_def)
  moreover have "frames dp' = frames dp @ copy_for dp (data b) r"
    using nd(1) by (simp add: dp'_def frames_def copy_for_def)
  ultimately show ?thesis by blast
qed

text \<open>
  The loop of \<open>output_all\<close>: the packet is always one port behind, so a copy for the last port is
  still to be sent at the end.
\<close>

lemma output_all_loop_frames:
  assumes dp: "same_ports dp0 dp" "dp_inv dp" and rs: "set rs \<subseteq> set (port_list dp0)"
    and prev: "\<forall>r. p = Some r \<longrightarrow> r \<in> set (port_list dp0) \<and> port_no (port_at dp0 r) \<noteq> ip"
    and sel_def: "sel = (\<lambda>r. floods_to (port_at dp0 r) ip flood)"
  shows "\<exists>dp' p'. output_all_loop (dp_output_port env (Suc n)) b ip flood rs dp (map_option (\<lambda>r. port_no (port_at dp0 r)) p) =
      Ok (dp', map_option (\<lambda>r. port_no (port_at dp0 r)) p') \<and>
    same_ports dp0 dp' \<and> dp_inv dp' \<and> (\<forall>r. p' = Some r \<longrightarrow> r \<in> set (port_list dp0) \<and> port_no (port_at dp0 r) \<noteq> ip) \<and>
    frames dp' @ concat (map (copy_for dp0 (data b)) (case p' of Some r \<Rightarrow> [r] | None \<Rightarrow> [])) =
    frames dp @ concat (map (copy_for dp0 (data b)) ((case p of Some r \<Rightarrow> [r] | None \<Rightarrow> []) @ filter sel rs))"
  using dp rs prev
proof (induction rs arbitrary: dp p)
  case Nil
  then show ?case by (intro exI [of _ dp] exI [of _ p]) auto
next
  case (Cons r rs)
  have fl: "floods_to (port_at dp r) ip flood = sel r" "port_no (port_at dp r) = port_no (port_at dp0 r)"
    using Cons.prems(1) by (auto simp: same_ports_def floods_to_def sel_def)
  have sub: "set rs \<subseteq> set (port_list dp0)" "r \<in> set (port_list dp0)" using Cons.prems(3) by auto
  show ?case
  proof (cases "sel r")
    case False
    then show ?thesis using Cons.IH [OF Cons.prems(1,2) sub(1) Cons.prems(4)] fl by (simp add: Let_def del: dp_output_port.simps)
  next
    case True
    then have r: "r \<in> set (port_list dp0) \<and> port_no (port_at dp0 r) \<noteq> ip"
      using sub by (simp add: sel_def floods_to_def)
    show ?thesis
    proof (cases p)
      case None
      have "\<forall>s. Some r = Some s \<longrightarrow> s \<in> set (port_list dp0) \<and> port_no (port_at dp0 s) \<noteq> ip" using r by simp
      from Cons.IH [OF Cons.prems(1,2) sub(1) this] show ?thesis
        using True None fl by (simp add: Let_def del: dp_output_port.simps)
    next
      case (Some s)
      have s: "s \<in> set (port_list dp)" "port_no (port_at dp s) = port_no (port_at dp0 s)" "port_no (port_at dp s) \<noteq> ip"
        using Cons.prems(4) Some Cons.prems(1) by (auto simp: same_ports_def)
      obtain d where d: "dp_output_port env (Suc n) dp (ofpbuf_clone b) ip (port_no (port_at dp0 s)) 0 False = Ok d"
        "dp_inv d" "same_ports dp d" "frames d = frames dp @ copy_for dp (data b) s"
        using output_to_listed [OF Cons.prems(2) s(1,3), of env n "ofpbuf_clone b" False] s(2) by auto
      have "\<forall>s. Some r = Some s \<longrightarrow> s \<in> set (port_list dp0) \<and> port_no (port_at dp0 s) \<noteq> ip" using r by simp
      from Cons.IH [OF same_ports_trans [OF Cons.prems(1) d(3)] d(2) sub(1) this] show ?thesis
        using True Some fl d(1,4) copy_for_same [OF Cons.prems(1)] by (simp add: Let_def del: dp_output_port.simps)
    qed
  qed
qed

lemma output_all_frames:
  assumes inv: "dp_inv dp"
  shows "\<exists>dp'. output_all (dp_output_port env (Suc n)) dp b ip flood = Ok dp' \<and> dp_inv dp' \<and> same_ports dp dp' \<and>
    frames dp' = frames dp @ concat (map (copy_for dp (data b)) (filter (\<lambda>r. floods_to (port_at dp r) ip flood) (port_list dp)))"
proof -
  obtain d p where d: "output_all_loop (dp_output_port env (Suc n)) b ip flood (port_list dp) dp None =
      Ok (d, map_option (\<lambda>r. port_no (port_at dp r)) p)" "same_ports dp d" "dp_inv d"
    "\<forall>r. p = Some r \<longrightarrow> r \<in> set (port_list dp) \<and> port_no (port_at dp r) \<noteq> ip"
    "frames d @ concat (map (copy_for dp (data b)) (case p of Some r \<Rightarrow> [r] | None \<Rightarrow> [])) =
     frames dp @ concat (map (copy_for dp (data b)) (filter (\<lambda>r. floods_to (port_at dp r) ip flood) (port_list dp)))"
    using output_all_loop_frames [OF same_ports_refl inv subset_refl _ refl, of None ip env n b flood] by auto
  show ?thesis
  proof (cases p)
    case None
    then show ?thesis using d by (simp add: output_all_def del: dp_output_port.simps)
  next
    case (Some s)
    have s: "s \<in> set (port_list d)" "port_no (port_at d s) = port_no (port_at dp s)" "port_no (port_at d s) \<noteq> ip"
      using d(2,4) Some by (auto simp: same_ports_def)
    obtain d' where "dp_output_port env (Suc n) d b ip (port_no (port_at dp s)) 0 False = Ok d'" "dp_inv d'"
      "same_ports d d'" "frames d' = frames d @ copy_for d (data b) s"
      using output_to_listed [OF d(3) s(1,3), of env n b False] s(2) by auto
    then show ?thesis
      using d Some same_ports_trans copy_for_same [OF d(2)]
      by (auto simp: output_all_def simp del: dp_output_port.simps)
  qed
qed

section \<open>Packets for the controller\<close>

text \<open>What a message to the controller shows of a packet that has, or has not, been saved.\<close>

definition shown :: "bytes \<Rightarrow> u32 \<Rightarrow> nat \<Rightarrow> bytes" where
  "shown d buffer_id max_len = (if buffer_id \<noteq> UINT32_MAX then take max_len d else d)"

definition packet_in :: "bytes \<Rightarrow> u32 \<Rightarrow> nat \<Rightarrow> u16 \<Rightarrow> u8 \<Rightarrow> bytes" where
  "packet_in d buffer_id max_len in_prt rsn =
     with_length (packet_in_header (18 + length (shown d buffer_id max_len)) buffer_id (length d) in_prt rsn @
       shown d buffer_id max_len)"

lemma length_packet_in_header [simp]: "length (packet_in_header a b c d e) = 18"
  by (simp add: packet_in_header_def)

lemma dp_output_control_eq:
  assumes "18 \<le> headroom b" "save_buffer (time_now env) b (pkts dp) = (pk, i)"
  shows "dp_output_control env dp b ip ml rs =
    Ok (dp\<lparr>pkts := pk, remotes := map (handed (packet_in (data b) i ml ip rs)) (remotes dp)\<rparr>)"
proof -
  define b0 where "b0 = (if i \<noteq> UINT32_MAX \<and> size_of b > ml then b\<lparr>data := take ml (data b)\<rparr> else b)"
  have d: "data b0 = shown (data b) i ml" by (simp add: b0_def shown_def size_of_def)
  have "18 \<le> headroom b0" using assms(1) by (simp add: b0_def)
  then have "ofpbuf_push_uninit b0 18 = Ok (b0\<lparr>headroom := headroom b0 - 18, data := replicate 18 0 @ data b0\<rparr>)"
    by (rule push_uninit_Ok)
  then show ?thesis
    unfolding dp_output_control_def Let_def assms(2) prod.case b0_def [symmetric]
    by (simp add: size_of_def send_all overwrite_0 packet_in_def d)
qed

end
