(* ===== verification/OF_Dp_Props.thy ===== *)
theory OF_Dp_Props
  imports OF_Deliver OF_Chain_Props OF_Packet_Props
begin

unbundle bit_operations_syntax

text \<open>
  Properties of the datapath as a whole, with a small datapath of three ports and one connection
  at which they are applied.
\<close>

section \<open>A small datapath\<close>

definition sample_remote :: remote where
  "sample_remote = \<lparr>connected = True, alive = True, vconn_ready = False, n_txq = 0, txq = [], sent = [],
     rxq = [], cb_dump = None\<rparr>"

definition sample_device :: "u8 \<Rightarrow> netdev" where
  "sample_device n = \<lparr>nd_name = [n], nd_etheraddr = EA 2 0 0 0 1 n, nd_mtu = 1500, nd_curr = 0,
     nd_supported = 0, nd_advertised = 0, nd_peer = 0\<rparr>"

definition sample_port :: "u16 \<Rightarrow> sw_port" where
  "sample_port no = zero_port\<lparr>port_flags := SWP_USED, netdev := Some (sample_device (ucast no)), port_no := no,
     queue_list := Some []\<rparr>"

definition bare_dp :: "sw_chain \<Rightarrow> datapath" where
  "bare_dp ch = \<lparr>remotes = [sample_remote], listeners = [], last_timeout = 0, dp_id = 1, dp_desc = [], chain = ch,
     dp_flags = 0, miss_send_len = 128, ports = replicate DP_MAX_PORTS zero_port, local_port = None,
     port_list = [], pkts = no_buffers, wire = []\<rparr>"

definition plug :: "nat \<Rightarrow> datapath \<Rightarrow> datapath" where
  "plug i dp = (set_port dp (Phys i) (sample_port (of_nat i)))\<lparr>port_list := port_list dp @ [Phys i]\<rparr>"

definition sample_dp :: "sw_chain \<Rightarrow> datapath" where
  "sample_dp ch = plug 3 (plug 2 (plug 1 (bare_dp ch)))"

definition sample_env :: env where
  "sample_env = \<lparr>time_now = 100, time_msec = 100000, alloc = (\<lambda>_. True), acts_alloc = (\<lambda>_ _. True), send_ok = (\<lambda>_. True),
     uninit_key = zero_key, open_dev = (\<lambda>_. Inl ENODEV), set_etheraddr_error = (\<lambda>_. 0),
     set_flags_error = (\<lambda>_. 0), slicing_error = (\<lambda>_ _. 0), setup_class_error = (\<lambda>_ _ _. 0),
     change_class_error = (\<lambda>_ _ _. 0), mfr_desc = [], hw_desc = [], sw_desc = [], serial_num = []\<rparr>"

lemma sample_port_inv: "port_inv (sample_port no)"
  by (auto simp: sample_port_def port_inv_def queues_inv_def zero_port_def zero_queue_def PORT_IN_USE_def)

lemma sample_port_fields [simp]:
  "netdev (sample_port no) = Some (sample_device (ucast no))" "port_no (sample_port no) = no" "config (sample_port no) = 0"
  by (simp_all add: sample_port_def zero_port_def)

lemma plug_inv:
  "dp_inv dp \<Longrightarrow> 0 < i \<Longrightarrow> i < DP_MAX_PORTS \<Longrightarrow> netdev (ports dp ! i) = None \<Longrightarrow> dp_inv (plug i dp)"
  using add_port_inv [of dp "Phys i" "sample_port (of_nat i)" "sample_device (ucast (of_nat i :: u16))"]
  by (simp add: dp_inv_def plug_def sample_port_inv ref_no_def)

lemma zero_port_netdev: "netdev zero_port = None"
  by (simp add: zero_port_def)

lemma bare_dp_inv: "chain_ok ch \<Longrightarrow> dp_inv (bare_dp ch)"
  by (auto simp: bare_dp_def dp_inv_def ports_inv_def ref_ok_def port_at_def list_all_length port_inv_zero
      no_buffers_inv remote_inv_def sample_remote_def zero_port_netdev split: port_ref.splits)

lemma sample_dp_fields:
  "ports (sample_dp ch) = (replicate DP_MAX_PORTS zero_port)[1 := sample_port 1, 2 := sample_port 2, 3 := sample_port 3]"
  "port_list (sample_dp ch) = [Phys 1, Phys 2, Phys 3]" "remotes (sample_dp ch) = [sample_remote]"
  "chain (sample_dp ch) = ch" "wire (sample_dp ch) = []" "pkts (sample_dp ch) = no_buffers"
  "dp_flags (sample_dp ch) = 0" "miss_send_len (sample_dp ch) = 128" "local_port (sample_dp ch) = None"
  by (simp_all add: sample_dp_def plug_def bare_dp_def set_port_def)

lemma sample_dp_inv: "chain_ok ch \<Longrightarrow> dp_inv (sample_dp ch)"
  unfolding sample_dp_def
  by (intro plug_inv bare_dp_inv) (simp_all add: plug_def set_port_def bare_dp_def zero_port_def)

lemma sample_ports:
  "port_at (sample_dp ch) (Phys 1) = sample_port 1" "port_at (sample_dp ch) (Phys 2) = sample_port 2"
  "port_at (sample_dp ch) (Phys 3) = sample_port 3" "port_at (sample_dp ch) (Phys (Suc 0)) = sample_port 1"
  by (simp_all add: port_at_def sample_dp_fields)

lemma output_actions_valid:
  "validate_actions any_key (output_action 2) = ACT_VALIDATION_OK"
  "validate_actions any_key (output_action 3) = ACT_VALIDATION_OK"
  "validate_actions any_key (output_action 4) = ACT_VALIDATION_OK"
  "validate_actions any_key (output_action OFPP_TABLE) = ACT_VALIDATION_OK"
  by code_simp+

lemma sample_chain_ok: "chain_ok sample_chain"
  using output_actions_valid by (auto simp: chain_ok_def sample_chain_flows acts_valid_def)

lemma fresh_chain: "\<exists>ch. chain_create (\<lambda>_ _. True) = Ok (Some ch)"
  by (simp add: chain_create_def add_table_def table_hash2_create_def table_hash_create_def table_linear_create_def Let_def)

text \<open>An entry that matches every packet and sends it back to the tables.\<close>

definition loop_chain :: sw_chain where
  "loop_chain = \<lparr>tables = [Linear_table (sample_linear [sample_flow any_key 10 OFPP_TABLE])],
     emerg_table = Some (Linear_table (sample_linear []))\<rparr>"

declare any_key_matches [simp]

lemma loop_chain_flows: "chain_flows loop_chain = [sample_flow any_key 10 OFPP_TABLE]" "emerg_flows loop_chain = []"
  by (simp_all add: loop_chain_def chain_flows_def emerg_flows_def linear_flows_def sample_linear_def)

lemma loop_chain_ok: "chain_ok loop_chain"
  using output_actions_valid
  by (auto simp: chain_ok_def loop_chain_flows acts_valid_def) (simp add: chain_inv_def loop_chain_def)

definition empty_chain :: sw_chain where
  "empty_chain = \<lparr>tables = [Linear_table (sample_linear [])], emerg_table = Some (Linear_table (sample_linear []))\<rparr>"

lemma empty_chain_flows: "chain_flows empty_chain = []" "emerg_flows empty_chain = []"
  by (simp_all add: empty_chain_def chain_flows_def emerg_flows_def linear_flows_def sample_linear_def)

lemma empty_chain_ok: "chain_ok empty_chain"
  by (simp add: chain_ok_def empty_chain_flows) (simp add: chain_inv_def empty_chain_def)

lemma output_action_list: "act_list (output_action p) = [output_action p]" "output_of (output_action p) = Some (p, 0, 0)"
proof -
  have a: "ld16 (output_action p) 0 = htons OFPAT_OUTPUT" "ld16 (output_action p) 2 = htons 8"
    "ld16 (output_action p) 4 = htons p" "ld16 (output_action p) 6 = 0" "length (output_action p) = 8"
    by (simp_all add: output_action_def ld_append_ge ld_append ld_le_bytes del: le_bytes.simps) code_simp
  then show "act_list (output_action p) = [output_action p]" by (subst act_list.simps) simp
  have "ntohs 0 = 0" by code_simp
  then show "output_of (output_action p) = Some (p, 0, 0)" using a by (simp add: output_of_def)
qed

lemma loop_chain_looping: "looping loop_chain k"
  by (simp add: looping_def loop_chain_flows back_to_tables_def output_action_list)

lemma sample_chain_table_free: "table_free sample_chain"
  by (simp add: table_free_def sample_chain_flows acts_table_free_def output_action_list)

section \<open>The invariant\<close>

text \<open>C5: Every datapath that the program can reach, from \<open>dp_new\<close> through adding ports and listeners,
  progress of the network and rounds of \<open>dp_run\<close> with any frames and any controller messages, is
  well formed: flow tables keep their order and hold only validated actions, saved packets are
  consistent, every port in the list has its own device and number, queues are where their port
  says, and no connection has more than \<open>TXQ_LIMIT\<close> messages waiting.\<close>

theorem reachable_datapath_invariant:
  "reachable_dp dp \<Longrightarrow>
   chain_inv (chain dp) \<and> (\<forall>f \<in> set (chain_flows (chain dp)). \<exists>k. validate_actions k (sf_acts f) = ACT_VALIDATION_OK) \<and>
   buffers_inv (pkts dp) \<and> distinct (port_list dp) \<and>
   (\<forall>r \<in> set (port_list dp). netdev (port_at dp r) \<noteq> None \<and> port_no (port_at dp r) = ref_no r \<and> queues_inv (port_at dp r)) \<and>
   (\<forall>r \<in> set (remotes dp). int (length (txq r)) \<le> TXQ_LIMIT)"
  using reachable_dp_inv [of dp] port_at_inv [of dp] ref_ok_valid
  by (auto simp: dp_inv_def chain_ok_def acts_valid_def ports_inv_def port_inv_def remote_inv_def list_all_iff)

theorem reachable_datapath_invariant_witness:
  "\<exists>dp. reachable_dp dp \<and> distinct (port_list dp) \<and> buffers_inv (pkts dp)"
proof -
  obtain dp where dp: "dp_new sample_env (\<lambda>_ _. True) (EA 2 0 0 0 0 9) [] 1 no_buffers = Ok (Some dp, 0)"
    using fresh_chain by (auto simp: dp_new_def)
  then have "reachable_dp dp" by (rule reachable_dp.created)
  then show ?thesis using reachable_datapath_invariant [of dp] by blast
qed

text \<open>C7: A controller message, whatever its type and content, leaves a well-formed datapath
  well formed whenever its handler returns.\<close>

theorem control_message_keeps_invariant:
  "dp_inv dp \<Longrightarrow> fwd_control_input env n dp s msg = Ok (dp', e) \<Longrightarrow> dp_inv dp'"
  using fwd_control_input_stays [of dp env n s msg] by simp

theorem control_message_keeps_invariant_witness:
  "\<exists>dp' e. fwd_control_input sample_env 0 (sample_dp sample_chain) \<lparr>s_remote = 0, s_xid = 7\<rparr> [1, 3, 0, 8, 7, 0, 0, 0] = Ok (dp', e) \<and>
    dp_inv dp'"
proof -
  have "fwd_control_input sample_env 0 (sample_dp sample_chain) \<lparr>s_remote = 0, s_xid = 7\<rparr> [1, 3, 0, 8, 7, 0, 0, 0] =
    Ok (sample_dp sample_chain, 0)"
  proof -
    have "ntohs (ld16 [1, 3, 0, 8, 7, 0, 0, 0] 2) = 8" "ld8 [1, 3, 0, 8, 7, 0, 0, 0] 0 = 1" "ld8 [1, 3, 0, 8, 7, 0, 0, 0] 1 = 3"
      by code_simp+
    then show ?thesis by (simp add: fwd_control_input_def recv_echo_reply_def msg_length_def)
  qed
  from control_message_keeps_invariant [OF sample_dp_inv [OF sample_chain_ok] this] this show ?thesis by blast
qed

section \<open>Forwarding ends\<close>

text \<open>C6: If no entry in force sends packets back to the tables, processing a received packet comes
  to an end: a recursion depth of two is enough, and every larger depth gives the same result.\<close>

theorem forwarding_ends:
  assumes "dp_inv dp" "table_free (chain dp)"
  shows "\<exists>result. result \<noteq> Fail No_return \<and> (\<forall>n \<ge> 2. fwd_port_input env n dp b r = result)"
proof -
  have "outcome (loop_free (port_list dp)) (\<lambda>e. e \<noteq> No_return) (fwd_port_input env (Suc (Suc 0)) dp b r)"
    using assms by (intro lf.fwd_port_input_returns) (simp add: loop_free_def)
  then have ret: "fwd_port_input env 2 dp b r \<noteq> Fail No_return"
    by (auto simp: numeral_2_eq_2 simp del: dp_output_port.simps)
  then show ?thesis using fwd_port_input_settled by blast
qed

theorem forwarding_ends_witness:
  "fwd_port_input sample_env 7 (sample_dp sample_chain) sample_packet (Phys 1) =
     fwd_port_input sample_env 2 (sample_dp sample_chain) sample_packet (Phys 1) \<and>
   fwd_port_input sample_env 7 (sample_dp sample_chain) sample_packet (Phys 1) \<noteq> Fail No_return"
  using forwarding_ends [OF sample_dp_inv [OF sample_chain_ok], of sample_env sample_packet "Phys 1"]
  by (auto simp: sample_chain_table_free sample_dp_fields simp del: dp_output_port.simps)

text \<open>C8: An entry whose only action is an output to \<open>OFPP_TABLE\<close>, which validation accepts, makes
  processing endless for the packets it applies to: no recursion depth is enough.\<close>

theorem table_output_never_ends:
  assumes "dp_inv dp" "r \<in> set (port_list dp)"
    and "flow_extract b (port_no (port_at dp r)) = (frag, fl, b')"
    and "\<not> drop_fragment dp frag" "\<not> refuses (Some (port_at dp r)) fl"
    and "looping (chain dp) (packet_key env fl)"
  shows "fwd_port_input env n dp b r = Fail No_return"
proof -
  have "run_flow_through_tables env (dp_output_port env n) (dp\<lparr>chain := chain dp\<rparr>) b (Some r) = Fail No_return"
    using assms(1) by (intro run_flow_never_returns [OF _ assms(2-5) _ assms(6)]) (simp_all add: dp_inv_def)
  then show ?thesis by (simp add: fwd_port_input_def)
qed

theorem table_output_never_ends_witness:
  "fwd_port_input sample_env 1000 (sample_dp loop_chain) sample_packet (Phys 1) = Fail No_return"
proof -
  obtain frag fl b' where fe: "flow_extract sample_packet (port_no (port_at (sample_dp loop_chain) (Phys 1))) = (frag, fl, b')"
    by (metis prod_cases3)
  show ?thesis
    by (rule table_output_never_ends [OF sample_dp_inv [OF loop_chain_ok] _ fe])
      (simp_all add: sample_dp_fields sample_ports drop_fragment_def refuses_def loop_chain_looping)
qed

section \<open>Where packets go\<close>





end
