(* ===== verification/OF_Ctl_Props.thy ===== *)
theory OF_Ctl_Props
  imports OF_Dp_Props
begin

unbundle bit_operations_syntax

text \<open>
  Properties of the handlers of controller messages: what a message does to the flow tables, to
  the configuration and to the saved packets, what is answered, and which messages abort the
  program.
\<close>

section \<open>Messages\<close>

definition framed :: "bytes \<Rightarrow> u8 \<Rightarrow> bool" where
  "framed msg type \<longleftrightarrow> 8 \<le> length msg \<and> msg_length msg = length msg \<and> ld8 msg 0 = OFP_VERSION \<and> ld8 msg 1 = type"

lemma framed_dispatch:
  "framed msg OFPT_PACKET_OUT \<Longrightarrow> 16 \<le> length msg \<Longrightarrow> fwd_control_input env n dp s msg = recv_packet_out env n dp s msg"
  "framed msg OFPT_FLOW_MOD \<Longrightarrow> 72 \<le> length msg \<Longrightarrow> fwd_control_input env n dp s msg = recv_flow env n dp s msg"
  "framed msg OFPT_SET_CONFIG \<Longrightarrow> 12 \<le> length msg \<Longrightarrow> fwd_control_input env n dp s msg = recv_set_config dp s msg"
  "framed msg OFPT_GET_CONFIG_REQUEST \<Longrightarrow> fwd_control_input env n dp s msg = recv_get_config_request dp s msg"
  "framed msg OFPT_ECHO_REQUEST \<Longrightarrow> fwd_control_input env n dp s msg = recv_echo_request dp s msg"
  "framed msg OFPT_BARRIER_REQUEST \<Longrightarrow> fwd_control_input env n dp s msg = recv_barrier_request dp s msg"
  "framed msg OFPT_PORT_MOD \<Longrightarrow> 32 \<le> length msg \<Longrightarrow> fwd_control_input env n dp s msg = recv_port_mod dp s msg"
  "framed msg OFPT_VENDOR \<Longrightarrow> 12 \<le> length msg \<Longrightarrow> fwd_control_input env n dp s msg = recv_vendor env dp s msg"
  "framed msg OFPT_QUEUE_GET_CONFIG_REQUEST \<Longrightarrow>
    fwd_control_input env n dp s msg = recv_queue_get_config_request dp s msg"
  by (simp_all add: framed_def fwd_control_input_def Let_def guardR_def)

lemma framed_tail: "framed msg t \<Longrightarrow> off \<le> length msg \<Longrightarrow> msg_tail msg off = Ok (drop off msg)"
  "framed msg t \<Longrightarrow> msg_bytes msg = msg"
  by (simp_all add: framed_def msg_tail_def msg_bytes_def)

lemma validate_output_action:
  assumes "port \<noteq> OFPP_NONE" "htons port \<noteq> in_port (kflow k)"
  shows "validate_actions k (output_action port) = ACT_VALIDATION_OK"
proof -
  have a: "ld16 (output_action port) 0 = htons OFPAT_OUTPUT" "ld16 (output_action port) 2 = htons 8"
    "ld16 (output_action port) 4 = htons port" "length (output_action port) = 8"
    by (simp_all add: output_action_def ld_append_ge ld_append ld_le_bytes del: le_bytes.simps)
  then show ?thesis
    using assms by (subst validate_actions.simps)
      (simp add: Let_def validate_act_def validate_ofpat_def of_action_size_def validate_output_def validate_actions.simps [of k "[]"])
qed

section \<open>Saved packets\<close>

text \<open>
  The buffer whose turn is next, whether a buffer holds a packet that is too young to be given up,
  and the identifier a buffer has given out last.
\<close>

definition turn_slot :: "pkt_buffers \<Rightarrow> u32" where
  "turn_slot s = buffer_slot (buffer_idx s + 1)"

definition slot_busy :: "int \<Rightarrow> pkt_buffers \<Rightarrow> u32 \<Rightarrow> bool" where
  "slot_busy now s n \<longleftrightarrow> pb_buffer (buffers s ! unat n) \<noteq> None \<and> now < pb_timeout (buffers s ! unat n)"

definition last_id :: "pkt_buffers \<Rightarrow> u32 \<Rightarrow> u32" where
  "last_id s n = n OR push_bit PKT_BUFFER_BITS (pb_cookie (buffers s ! unat n))"

lemma save_buffer_outcome:
  assumes inv: "buffers_inv s" and sv: "save_buffer now b s = (s', i)"
  shows "buffer_idx s' = turn_slot s" "i = UINT32_MAX \<longleftrightarrow> slot_busy now s (turn_slot s)"
    "i \<noteq> UINT32_MAX \<Longrightarrow> buffer_slot i = turn_slot s \<and> i \<noteq> last_id s (turn_slot s) \<and>
       (\<forall>t. slot_busy t s' (turn_slot s) \<longleftrightarrow> t < now + 1)"
proof -
  define n where "n = turn_slot s"
  define c where "c = pb_cookie (buffers s ! unat n)"
  have n: "n AND PKT_BUFFER_MASK = n" by (simp add: n_def turn_slot_def buffer_slot_def and.assoc)
  have nd: "(buffer_idx s + 1) AND PKT_BUFFER_MASK = n" by (simp add: n_def turn_slot_def buffer_slot_def)
  have len: "unat n < length (buffers s)" using inv mask_less [of n] n by (simp add: buffers_inv_def)
  have c: "c < MAX_COOKIE" using cookie_less [OF inv, of n] n by (simp add: c_def)
  note c' = next_cookie_less [OF c]
  have i: "n OR push_bit 8 (next_cookie c) \<noteq> UINT32_MAX" "(n OR push_bit 8 (next_cookie c)) AND PKT_BUFFER_MASK = n"
    by (fact id_not_none [OF n c'] id_split(1) [OF n c'])+
  have neq: "n OR push_bit 8 (next_cookie c) \<noteq> n OR push_bit 8 c"
    using id_split(2) [OF n c'] id_split(2) [OF n c] next_cookie_neq [OF c] by metis
  have sv': "save_buffer now b s = (if slot_busy now s n then (s\<lparr>buffer_idx := n\<rparr>, UINT32_MAX)
      else (s\<lparr>buffer_idx := n, buffers := (buffers s)[unat n := \<lparr>pb_buffer = Some (ofpbuf_clone b), pb_cookie = next_cookie c,
        pb_timeout = now + OVERWRITE_SECS\<rparr>]\<rparr>, n OR push_bit 8 (next_cookie c)))"
    by (simp add: save_buffer_def Let_def nd slot_busy_def c_def)
  show "buffer_idx s' = turn_slot s" "i = UINT32_MAX \<longleftrightarrow> slot_busy now s (turn_slot s)"
    "i \<noteq> UINT32_MAX \<Longrightarrow> buffer_slot i = turn_slot s \<and> i \<noteq> last_id s (turn_slot s) \<and>
       (\<forall>t. slot_busy t s' (turn_slot s) \<longleftrightarrow> t < now + 1)"
    using sv i neq len unfolding sv' n_def [symmetric]
    by (auto simp: slot_busy_def last_id_def buffer_slot_def c_def split: if_splits)
qed

text \<open>C13: The array of saved packets implements a map from identifiers to packets. Saving takes the
  buffers in turn. It refuses, with the identifier for none and without a change of the map,
  exactly when the buffer whose turn it is holds a packet saved less than a second before. Otherwise it
  returns a new identifier of that buffer, one that stood for no packet and is not the one the
  buffer gave out last, makes it stand for a copy of the packet, and gives up at most the
  identifiers of the same buffer. Taking a packet out returns it and removes exactly its
  identifier, and discarding it does the same.\<close>

theorem packet_buffers_refine_map:
  assumes "buffers_inv s"
  shows "(\<forall>now b s' i. save_buffer now b s = (s', i) \<longrightarrow> buffers_inv s' \<and> buffer_idx s' = turn_slot s \<and>
      (if slot_busy now s (turn_slot s) then i = UINT32_MAX \<and> held s' = held s
       else i \<noteq> UINT32_MAX \<and> held s i = None \<and> buffer_slot i = turn_slot s \<and> i \<noteq> last_id s (turn_slot s) \<and>
         held s' = (\<lambda>j. if buffer_slot j = buffer_slot i then None else held s j)(i \<mapsto> ofpbuf_clone b) \<and>
         (\<forall>t. slot_busy t s' (turn_slot s) \<longleftrightarrow> t < now + 1))) \<and>
    (\<forall>i s' r. retrieve_buffer i s = (s', r) \<longrightarrow> buffers_inv s' \<and> r = held s i \<and> held s' = (held s)(i := None)) \<and>
    (\<forall>i. buffers_inv (discard_buffer i s) \<and> held (discard_buffer i s) = (held s)(i := None))"
proof (intro conjI allI impI)
  fix now b s' i assume sv: "save_buffer now b s = (s', i)"
  note out = save_buffer_outcome [OF assms sv]
  show "buffers_inv s'" by (rule pkts.save_inv [OF assms sv])
  show "buffer_idx s' = turn_slot s" by (rule out(1))
  show "if slot_busy now s (turn_slot s) then i = UINT32_MAX \<and> held s' = held s
       else i \<noteq> UINT32_MAX \<and> held s i = None \<and> buffer_slot i = turn_slot s \<and> i \<noteq> last_id s (turn_slot s) \<and>
         held s' = (\<lambda>j. if buffer_slot j = buffer_slot i then None else held s j)(i \<mapsto> ofpbuf_clone b) \<and>
         (\<forall>t. slot_busy t s' (turn_slot s) \<longleftrightarrow> t < now + 1)"
  proof (cases "i = UINT32_MAX")
    case True
    then show ?thesis using pkts.save_refused [OF assms] sv out(2) by simp
  next
    case False
    then show ?thesis using pkts.save_held [OF assms sv] pkts.save_fresh [OF assms sv] out(2,3) by (simp add: fun_eq_iff)
  qed
next
  fix i s' r assume tk: "retrieve_buffer i s = (s', r)"
  show "buffers_inv s'" "r = held s i" "held s' = (held s)(i := None)"
    using pkts.take_inv [OF assms tk] pkts.take_spec [OF assms tk] by simp_all
next
  fix i show "buffers_inv (discard_buffer i s)" "held (discard_buffer i s) = (held s)(i := None)"
    using pkts.drop_inv [OF assms] pkts.drop_spec [OF assms] by simp_all
qed

theorem packet_buffers_refine_map_witness:
  "buffers_inv no_buffers \<and>
   (\<exists>s i. save_buffer 100 (ofpbuf_new 64) no_buffers = (s, i) \<and> i \<noteq> UINT32_MAX \<and> i \<noteq> 1 \<and>
      held s i = Some (ofpbuf_clone (ofpbuf_new 64)))"
proof -
  obtain s i where sv: "save_buffer 100 (ofpbuf_new 64) no_buffers = (s, i)" by fastforce
  have n: "turn_slot no_buffers = 1" by (simp add: turn_slot_def buffer_slot_def no_buffers_def)
  have "\<not> slot_busy 100 no_buffers 1" "last_id no_buffers 1 = 1" by (simp_all add: slot_busy_def last_id_def no_buffers_def)
  then have "i \<noteq> UINT32_MAX" "i \<noteq> 1" "held s i = Some (ofpbuf_clone (ofpbuf_new 64))"
    using conjunct1 [OF packet_buffers_refine_map [OF no_buffers_inv(1)], rule_format, OF sv] n by simp_all
  then show ?thesis using sv no_buffers_inv(1) by blast
qed

text \<open>C14: A controller that sends a packet out with the single action to send it to the controller
  aborts the program: the packet is put into a buffer without room in front, and the header of
  the message to the controller does not fit.\<close>

theorem packet_out_to_controller_aborts:
  assumes f: "framed msg OFPT_PACKET_OUT" "24 \<le> length msg" and b: "ntohl (ld32 msg 8) = UINT32_MAX"
    and a: "ntohs (ld16 msg 14) = 8" "take 8 (drop 16 msg) = output_action OFPP_CONTROLLER"
    and p: "ntohs (ld16 msg 12) \<noteq> OFPP_CONTROLLER"
  shows "fwd_control_input env n dp s msg = Fail Assertion"
proof -
  let ?b = "ofpbuf_put (ofpbuf_new (length msg - 24)) (drop 24 msg)"
  obtain frag fl b' where fe: "flow_extract ?b (ntohs (ld16 msg 12)) = (frag, fl, b')" by (metis prod_cases3)
  have "headroom b' = 0"
    using flow_extract_layers [OF fe] by (simp add: same_data_def buf_defs)
  have port: "in_port fl = ld16 msg 12" using flow_extract_layers [OF fe] by simp
  let ?k = "(uninit_key env)\<lparr>kflow := fl\<rparr>"
  have v: "validate_actions ?k (output_action OFPP_CONTROLLER) = ACT_VALIDATION_OK"
    using p port by (intro validate_output_action) (auto dest: arg_cong [where f = ntohs])
  have "dp_output_control env dp' b' ip ml rs = Fail Assertion" for dp' ip ml rs
    using \<open>headroom b' = 0\<close> by (simp add: dp_output_control_def push_uninit_Fail split: prod.split)
  then have "execute_actions (do_output env (dp_output_port env n)) dp b' ?k (output_action OFPP_CONTROLLER) True = Fail Assertion"
    by (simp add: execute_actions_run [OF v] output_action_list do_output_def)
  then show ?thesis
    using f a b fe v framed_tail(1) [OF f(1), of 16]
    by (simp add: framed_dispatch recv_packet_out_def)
qed

definition sample_packet_out :: bytes where
  "sample_packet_out = [OFP_VERSION, OFPT_PACKET_OUT, 0, 26, 0, 0, 0, 7, 255, 255, 255, 255, 0, 1, 0, 8] @
     output_action OFPP_CONTROLLER @ [1, 2]"

lemma sample_packet_out_facts:
  "framed sample_packet_out OFPT_PACKET_OUT" "24 \<le> length sample_packet_out"
  "ntohl (ld32 sample_packet_out 8) = UINT32_MAX" "ntohs (ld16 sample_packet_out 14) = 8"
  "take 8 (drop 16 sample_packet_out) = output_action OFPP_CONTROLLER" "ntohs (ld16 sample_packet_out 12) \<noteq> OFPP_CONTROLLER"
  by code_simp+

theorem packet_out_to_controller_aborts_witness:
  "fwd_control_input sample_env 9 (sample_dp empty_chain) \<lparr>s_remote = 0, s_xid = 7\<rparr> sample_packet_out = Fail Assertion"
  by (rule packet_out_to_controller_aborts [OF sample_packet_out_facts])

section \<open>Flow modification\<close>

lemma error_msg_sent: "length d \<le> 65523 \<Longrightarrow> \<exists>dp'. dp_send_error_msg dp (Some s) t c d = Ok dp' \<and> sends dp dp'"
proof -
  assume d: "length d \<le> 65523"
  then obtain oem where "make_openflow_reply (12 + length d) OFPT_ERROR (Some s) = Ok oem" "length oem = 12 + length d"
    by (auto simp: make_openflow_reply_def make_openflow_xid_def put_openflow_xid_def guardR_def)
  then obtain dp' where "dp_send_error_msg dp (Some s) t c d = Ok dp'"
    by (auto simp: dp_send_error_msg_def Let_def send_openflow_buffer_def update_openflow_length_eq mapR_def split: prod.split)
  then show ?thesis using dp_send_error_msg_sends by blast
qed

text \<open>A message about flows that names no saved packet and that an error message can quote.\<close>

definition flow_mod :: "bytes \<Rightarrow> u16 \<Rightarrow> bool" where
  "flow_mod msg command \<longleftrightarrow> framed msg OFPT_FLOW_MOD \<and> 72 \<le> length msg \<and> length msg \<le> 65523 \<and>
     ofm_buffer_id msg = UINT32_MAX \<and> ntohs (ld16 msg 56) = command"

text \<open>The entry that a message asks for, every field of it, at the time it arrives.\<close>

definition asked_entry :: "env \<Rightarrow> bytes \<Rightarrow> sw_flow" where
  "asked_entry env msg =
     \<lparr>key = ofm_key msg, cookie = ntohll (ld64 msg 48), priority = ofm_priority msg, idle_timeout = ntohs (ld16 msg 58),
      hard_timeout = ntohs (ld16 msg 60), used = time_msec env, created = time_msec env, packet_count = 0, byte_count = 0,
      reason = 0, send_flow_rem = (if bit (ntohs (ld16 msg 70)) 0 then 1 else 0),
      emerg_flow = (if bit (ntohs (ld16 msg 70)) 2 then 1 else 0), sf_acts = drop 72 msg, serial = 0\<rparr>"

text \<open>Why a request to add an entry is refused.\<close>

definition add_refused :: "env \<Rightarrow> datapath \<Rightarrow> bytes \<Rightarrow> bool" where
  "add_refused env dp msg \<longleftrightarrow>
     \<not> alloc env (length msg - 72) \<or>
     validate_actions (ofm_key msg) (drop 72 msg) \<noteq> ACT_VALIDATION_OK \<or>
     bit (ntohs (ld16 msg 70)) 1 \<and> chain_has_conflict (chain dp) (ofm_key msg) (ofm_priority msg) False \<or>
     ofm_emerg msg \<and> (ntohs (ld16 msg 58) \<noteq> 0 \<or> ntohs (ld16 msg 60) \<noteq> 0) \<or>
     chain_insert (chain dp) (asked_entry env msg) (ofm_emerg msg) = Ok (chain dp, - ENOBUFS)"

lemma and_flag: "(x AND 1 \<noteq> 0) = bit x 0" "(x AND 2 \<noteq> 0) = bit x 1" "(x AND 4 \<noteq> 0) = bit x 2" for x :: u16
  using bit_iff_and_push_bit_not_eq_0 [of x 0] bit_iff_and_push_bit_not_eq_0 [of x 1] bit_iff_and_push_bit_not_eq_0 [of x 2]
  by (simp_all add: push_bit_of_1)

lemma fill_out_asked:
  assumes "flow_alloc al (length (drop 72 msg)) = Some flow"
  shows "fill_out_flow env (flow\<lparr>key := ofm_key msg, priority := ofm_priority msg\<rparr>) msg (drop 72 msg) = Ok (asked_entry env msg)"
  using assms and_flag [of "ofm_flags msg"]
  by (auto simp: fill_out_flow_def flow_setup_actions_def flow_alloc_def guardR_def asked_entry_def split: if_splits)

lemma flow_mod_refuse_Ok:
  assumes "flow_mod msg command"
  shows "\<exists>dp'. flow_mod_refuse dp s msg t c e = Ok (dp', e) \<and> sends dp dp'"
  using assms error_msg_sent [of msg dp s t c] framed_tail(2) [of msg OFPT_FLOW_MOD]
  by (auto simp: flow_mod_refuse_def flow_mod_error_def flow_mod_def)

text \<open>C11: A request to add an entry that names no saved packet and is at most 65523 bytes long, sent by
  any controller to a well-formed datapath, is answered without a failure. It is refused, with an
  error and without a change of any table, exactly when there is no memory for the entry, its
  actions are not valid, the check for overlap was asked for and finds a conflict, an emergency
  entry has a timeout, or no table takes the entry. Otherwise the entry with exactly the fields that
  the message asks for, flags included, has been added to the side of the tables the emergency flag
  names, and the other side has not changed.\<close>

theorem flow_add_message:
  assumes inv: "dp_inv dp" and m: "flow_mod msg OFPFC_ADD"
  shows "\<exists>dp' e. fwd_control_input env n dp s msg = Ok (dp', e) \<and> dp_inv dp' \<and>
    flows_of (\<not> ofm_emerg msg) (chain dp') = flows_of (\<not> ofm_emerg msg) (chain dp) \<and>
    (if add_refused env dp msg then e \<noteq> 0 \<and> chain dp' = chain dp
     else e = 0 \<and> added (flows_of (ofm_emerg msg) (chain dp)) (asked_entry env msg) (flows_of (ofm_emerg msg) (chain dp')))"
proof -
  have eq: "fwd_control_input env n dp s msg = add_flow env n dp s msg"
    using m by (simp add: flow_mod_def framed_dispatch recv_flow_def guardR_def)
  have ok: "chain_ok (chain dp)" "chain_inv (chain dp)" using inv by (simp_all add: dp_inv_def chain_ok_def)
  have tl: "msg_tail msg 72 = Ok (drop 72 msg)" using m framed_tail(1) [of msg OFPT_FLOW_MOD 72] by (simp add: flow_mod_def)
  have no: "ofm_buffer_id msg = UINT32_MAX" using m by (simp add: flow_mod_def)
  let ?f = "asked_entry env msg" and ?em = "ofm_emerg msg"
  let ?good = "\<lambda>dp' e. flows_of (\<not> ?em) (chain dp') = flows_of (\<not> ?em) (chain dp) \<and>
    (if add_refused env dp msg then e \<noteq> 0 \<and> chain dp' = chain dp
     else e = 0 \<and> added (flows_of ?em (chain dp)) ?f (flows_of ?em (chain dp')))"
  have refuse: "\<exists>dp' e'. flow_mod_refuse dp s msg t c e = Ok (dp', e') \<and> ?good dp' e'" if "e \<noteq> 0" "add_refused env dp msg" for t c e
    using flow_mod_refuse_Ok [OF m, of dp s t c e] sends_fields that by fastforce
  have "\<exists>dp' e. add_flow env n dp s msg = Ok (dp', e) \<and> ?good dp' e"
  proof (cases "flow_alloc (alloc env) (length (drop 72 msg))")
    case None
    then have "\<not> alloc env (length msg - 72)" by (simp add: flow_alloc_def split: if_splits)
    then show ?thesis using None no by (simp add: add_flow_def tl flow_mod_error_def add_refused_def)
  next
    case (Some flow)
    then have al: "alloc env (length msg - 72)" by (simp add: flow_alloc_def split: if_splits)
    consider (acts) "validate_actions (ofm_key msg) (drop 72 msg) \<noteq> ACT_VALIDATION_OK"
      | (overlap) "validate_actions (ofm_key msg) (drop 72 msg) = ACT_VALIDATION_OK"
          "bit (ofm_flags msg) 1" "chain_has_conflict (chain dp) (ofm_key msg) (ofm_priority msg) False"
      | (emerg) "validate_actions (ofm_key msg) (drop 72 msg) = ACT_VALIDATION_OK"
          "\<not> (bit (ofm_flags msg) 1 \<and> chain_has_conflict (chain dp) (ofm_key msg) (ofm_priority msg) False)"
          "?em" "ntohs (ld16 msg 58) \<noteq> 0 \<or> ntohs (ld16 msg 60) \<noteq> 0"
      | (ins) "validate_actions (ofm_key msg) (drop 72 msg) = ACT_VALIDATION_OK"
          "\<not> (bit (ofm_flags msg) 1 \<and> chain_has_conflict (chain dp) (ofm_key msg) (ofm_priority msg) False)"
          "\<not> (?em \<and> (ntohs (ld16 msg 58) \<noteq> 0 \<or> ntohs (ld16 msg 60) \<noteq> 0))"
      by blast
    then show ?thesis
    proof cases
      case acts
      then have "add_refused env dp msg" by (simp add: add_refused_def)
      from refuse [OF _ this] show ?thesis using Some acts by (simp add: add_flow_def tl)
    next
      case overlap
      then have "add_refused env dp msg" by (simp add: add_refused_def)
      from refuse [OF _ this] show ?thesis using Some overlap and_flag(2) [of "ofm_flags msg"] by (simp add: add_flow_def tl)
    next
      case emerg
      then have "add_refused env dp msg" by (simp add: add_refused_def)
      from refuse [OF _ this] show ?thesis using Some emerg and_flag(2) [of "ofm_flags msg"] by (simp add: add_flow_def tl)
    next
      case ins
      have run: "add_flow env n dp s msg = bindR (chain_insert (chain dp) ?f ?em)
         (\<lambda>(ch, err). if err = - ENOBUFS then flow_mod_refuse (dp\<lparr>chain := ch\<rparr>) s msg OFPET_FLOW_MOD_FAILED OFPFMFC_ALL_TABLES_FULL err
            else if err \<noteq> 0 then flow_mod_error (dp\<lparr>chain := ch\<rparr>) msg err
            else flow_mod_packet env n (dp\<lparr>chain := ch\<rparr>) msg (drop 72 msg) (Some ?f))"
        using Some ins and_flag(2) [of "ofm_flags msg"] fill_out_asked [OF Some, of env] by (auto simp: add_flow_def tl Let_def)
      have e: "entry_ok ?f" using fill_out_flow_ok [OF fill_out_asked [OF Some] ins(1)] by simp
      obtain ch err where i: "chain_insert (chain dp) ?f ?em = Ok (ch, err)"
        "flows_of (\<not> ?em) ch = flows_of (\<not> ?em) (chain dp)"
        "err = 0 \<and> added (flows_of ?em (chain dp)) ?f (flows_of ?em ch) \<or> err = - ENOBUFS \<and> ch = chain dp"
        using chain_insert_emerg [OF ok(2) e] chain_insert_working [OF ok(2) e]
        by (cases ?em) (fastforce simp: flows_of_def chain_flows_def emerg_flows_def)+
      have ref: "add_refused env dp msg \<longleftrightarrow> ch = chain dp \<and> err = - ENOBUFS"
        using al ins i(1) by (auto simp: add_refused_def)
      show ?thesis
        using i(3)
      proof
        assume "err = 0 \<and> added (flows_of ?em (chain dp)) ?f (flows_of ?em ch)"
        then show ?thesis using i(2) ref no unfolding run i(1) by (simp add: flow_mod_packet_def)
      next
        assume "err = - ENOBUFS \<and> ch = chain dp"
        then show ?thesis using refuse [of "- ENOBUFS"] ref unfolding run i(1) by simp
      qed
    qed
  qed
  then obtain dp' e where r: "add_flow env n dp s msg = Ok (dp', e)" "?good dp' e" by blast
  moreover have "dp_inv dp'" using add_flow_stays [OF inv, of env n s msg] r(1) by (simp add: stays_def)
  ultimately show ?thesis unfolding eq by blast
qed

definition sample_flow_mod :: "u16 \<Rightarrow> bytes" where
  "sample_flow_mod command = [OFP_VERSION, OFPT_FLOW_MOD, 0, 80, 0, 0, 0, 7] @ replicate 48 0 @
     le_bytes 2 (htons command) @ replicate 6 0 @ replicate 6 255 @ [0, 0] @ output_action 2"

lemma length_sample_flow_mod: "length (sample_flow_mod command) = 80"
  by (simp add: sample_flow_mod_def output_action_def)

lemma sample_flow_mods:
  "flow_mod (sample_flow_mod OFPFC_ADD) OFPFC_ADD" "flow_mod (sample_flow_mod OFPFC_DELETE) OFPFC_DELETE"
proof -
  have "msg_length (sample_flow_mod OFPFC_ADD) = 80" "ld8 (sample_flow_mod OFPFC_ADD) 0 = OFP_VERSION"
    "ld8 (sample_flow_mod OFPFC_ADD) 1 = OFPT_FLOW_MOD" "ofm_buffer_id (sample_flow_mod OFPFC_ADD) = UINT32_MAX"
    "ntohs (ld16 (sample_flow_mod OFPFC_ADD) 56) = OFPFC_ADD"
    "msg_length (sample_flow_mod OFPFC_DELETE) = 80" "ld8 (sample_flow_mod OFPFC_DELETE) 0 = OFP_VERSION"
    "ld8 (sample_flow_mod OFPFC_DELETE) 1 = OFPT_FLOW_MOD" "ofm_buffer_id (sample_flow_mod OFPFC_DELETE) = UINT32_MAX"
    "ntohs (ld16 (sample_flow_mod OFPFC_DELETE) 56) = OFPFC_DELETE"
    by code_simp+
  then show "flow_mod (sample_flow_mod OFPFC_ADD) OFPFC_ADD" "flow_mod (sample_flow_mod OFPFC_DELETE) OFPFC_DELETE"
    by (simp_all add: flow_mod_def framed_def length_sample_flow_mod)
qed

theorem flow_add_message_witness:
  "\<exists>dp' e. fwd_control_input sample_env 9 (sample_dp empty_chain) \<lparr>s_remote = 0, s_xid = 7\<rparr> (sample_flow_mod OFPFC_ADD) =
     Ok (dp', e) \<and> dp_inv dp'"
  using flow_add_message [OF sample_dp_inv [OF empty_chain_ok] sample_flow_mods(1)] by blast

lemma delete_sel_prio: "delete_sel k port p False = delete_sel k port q False"
  by (simp add: fun_eq_iff delete_sel_def modify_sel_def)

lemma chain_delete_any_prio:
  assumes "chain_inv ch" "key_ok k" "strict \<longrightarrow> desc_ok k prio"
  shows "\<exists>ch'. chain_delete (dp_send_flow_end env) dp ch k port prio strict emerg =
      Ok (foldl (\<lambda>d f. dp_send_flow_end env d f OFPRR_DELETE) dp
            (filter (delete_sel k port prio strict) (flows_of emerg ch)), ch',
          of_nat (length (filter (delete_sel k port prio strict) (flows_of emerg ch)))) \<and>
    flows_of emerg ch' = filter (\<lambda>f. \<not> delete_sel k port prio strict f) (flows_of emerg ch) \<and>
    flows_of (\<not> emerg) ch' = flows_of (\<not> emerg) ch"
proof -
  define q where "q = (if strict then prio else 0xffff)"
  have q: "desc_ok k q" using assms by (simp add: desc_ok_def q_def)
  have eq: "chain_delete (dp_send_flow_end env) dp ch k port prio strict emerg =
      chain_delete (dp_send_flow_end env) dp ch k port q strict emerg"
    "delete_sel k port prio strict = delete_sel k port q strict"
    by (cases strict; simp add: q_def trans [OF chain_delete_prio chain_delete_prio [symmetric]])
      (cases strict; simp add: q_def delete_sel_prio [of k port prio "0xffff"])
  show ?thesis
    unfolding eq
    using chain_delete_emerg [OF assms(1) q refl, of "dp_send_flow_end env" dp port strict]
      chain_delete_working [OF assms(1) q refl, of "dp_send_flow_end env" dp port strict]
    by (cases emerg) (auto simp: flows_of_def chain_flows_def emerg_flows_def)
qed

section \<open>Reports of removed entries\<close>

text \<open>
  What a report says, by the fields a controller reads from it. The duration is the age of the
  entry in seconds and nanoseconds; it is right as long as the seconds fit in 32 bits.
\<close>

definition removal_report :: "env \<Rightarrow> u8 \<Rightarrow> sw_flow \<Rightarrow> bytes \<Rightarrow> bool" where
  "removal_report env rsn f m \<longleftrightarrow>
     framed m OFPT_FLOW_REMOVED \<and> length m = 88 \<and> flow_extract_match (ofp_match_at m 8) = key f \<and>
     ntohll (ld64 m 48) = cookie f \<and> ntohs (ld16 m 56) = priority f \<and> ld8 m 58 = rsn \<and>
     ntohs (ld16 m 68) = idle_timeout f \<and> ntohll (ld64 m 72) = packet_count f \<and> ntohll (ld64 m 80) = byte_count f \<and>
     (unat (time_msec env - created f) < 1000 * 2 ^ 32 \<longrightarrow>
        1000 * unat (ntohl (ld32 m 60)) + unat (ntohl (ld32 m 64)) div 1000000 = unat (time_msec env - created f))"

definition wants_report :: "sw_flow \<Rightarrow> bool" where
  "wants_report f \<longleftrightarrow> send_flow_rem f \<noteq> 0 \<and> emerg_flow f = 0"

text \<open>How many of \<open>k\<close> messages, sent one after the other, a connection takes.\<close>

definition takes :: "remote \<Rightarrow> nat \<Rightarrow> nat" where
  "takes c k = (if \<not> connected c then 0 else if txq c = [] \<and> vconn_ready c then k else min k (nat (TXQ_LIMIT - n_txq c)))"

lemma handed_takes:
  "remote_inv c \<Longrightarrow> accepted (foldl (\<lambda>c m. handed m c) c ms) = accepted c @ take (takes c (length ms)) ms"
proof (induction ms arbitrary: c)
  case (Cons m ms)
  have inv: "remote_inv (handed m c)"
    using rconn_send_inv [OF Cons.prems, of m] unfolding handed_def by (metis prod.collapse)
  show ?case
  proof (cases "accepts c")
    case True
    then have "takes c (Suc (length ms)) = Suc (takes (handed m c) (length ms))"
      using Cons.prems
      by (auto simp: takes_def accepts_def remote_inv_def handed_def rconn_send_with_limit_def rconn_send_def try_send_def Let_def
          split: list.splits)
    then show ?thesis using Cons.IH [OF inv] handed_accepted(1) [OF True] by simp
  next
    case False
    then have "takes c k = 0" for k using Cons.prems by (auto simp: takes_def accepts_def remote_inv_def)
    moreover have "handed m c = c" by (rule handed_accepted(2) [OF False])
    ultimately show ?thesis using Cons.IH [OF Cons.prems] by simp
  qed
qed simp

definition removal_message :: "env \<Rightarrow> u8 \<Rightarrow> sw_flow \<Rightarrow> bytes" where
  "removal_message env rsn f = [OFP_VERSION, OFPT_FLOW_REMOVED] @ le_bytes 2 (htons 88) @ le_bytes 4 (0 :: u32) @
     flow_removed_body f rsn (time_msec env - created f)"

lemma dp_send_flow_end_eq:
  "dp_send_flow_end env dp f rsn =
     (if wants_report f then dp\<lparr>remotes := map (handed (removal_message env rsn f)) (remotes dp)\<rparr> else dp)"
proof -
  let ?b = "removal_message env rsn f"
  obtain ofr where o: "make_openflow_xid 88 OFPT_FLOW_REMOVED 0 = Ok ofr"
    "overwrite ofr 8 (flow_removed_body f rsn (time_msec env - created f)) = ?b"
    by (simp add: make_openflow_xid_def put_openflow_xid_def guardR_def removal_message_def overwrite_def)
  have b: "length ?b = 88" "with_length ?b = ?b"
    by (simp_all add: removal_message_def with_length_def st16_def overwrite_def)
  show ?thesis
    using o send_all [of ?b dp] b by (simp add: dp_send_flow_end_def dp_send_flow_end_result_def wants_report_def Let_def mapR_def)
qed

lemma ld_Cons_ge:
  "0 < i \<Longrightarrow> ld64 (b # ys) i = ld64 ys (i - 1)" "0 < i \<Longrightarrow> ofp_match_at (b # ys) i = ofp_match_at ys (i - 1)"
  "ld64 (le_bytes 8 z) 0 = z"
  using ld_append_ge(4) [of "[b]" i ys] ofp_match_at_append_ge [of "[b]" i ys] ld_le_bytes(3) [of z "[]"]
  by simp_all

lemma duration_parts:
  "uint (duration_sec t) = uint t div 1000 mod 2 ^ 32" "uint (duration_nsec t) = uint t mod 1000 * 1000000"
proof -
  let ?T = "uint t"
  have uc: "uint (ucast (x :: u64) :: u32) = uint x mod 2 ^ 32" "uint (ucast (y :: u32) :: u64) = uint y" for x y
    using uint_lt2p [of y] by (simp_all add: unsigned_ucast_eq take_bit_eq_mod)
  have s: "uint (duration_sec t) = ?T div 1000 mod 2 ^ 32"
    by (simp add: duration_sec_def uc uint_div)
  have dv: "x mod 2 ^ 64 mod 2 ^ 32 = x mod 2 ^ 32" for x :: int
    by (rule mod_mod_cancel) simp
  have m: "uint (duration_sec t * 1000) = ?T div 1000 * 1000 mod 2 ^ 32"
    by (simp add: uint_word_ariths s mod_mult_left_eq)
  define r where "r = t - ucast (duration_sec t * 1000)"
  have r: "uint r = (?T - (?T div 1000 * 1000 mod 2 ^ 32)) mod 2 ^ 64"
    unfolding r_def uint_word_ariths(2) uc(2) m by simp
  have "uint (duration_nsec t) = (uint r * 1000000) mod 2 ^ 64 mod 2 ^ 32"
    unfolding duration_nsec_def uc(1) r_def [symmetric] by (simp add: uint_word_ariths(3))
  also have "\<dots> = (uint r * 1000000) mod 2 ^ 32" by (rule dv)
  also have "\<dots> = ((?T - (?T div 1000 * 1000 mod 2 ^ 32)) * 1000000) mod 2 ^ 32"
    unfolding r by (rule mod_mult_cong [OF dv refl])
  also have "\<dots> = ((?T - ?T div 1000 * 1000) * 1000000) mod 2 ^ 32"
    by (rule mod_mult_cong [OF mod_diff_right_eq refl])
  also have "\<dots> = ?T mod 1000 * 1000000"
    unfolding minus_div_mult_eq_mod by (rule mod_pos_pos_trivial) (use pos_mod_bound [of 1000 ?T] in \<open>simp_all\<close>)
  finally show "uint (duration_nsec t) = ?T mod 1000 * 1000000" .
  show "uint (duration_sec t) = ?T div 1000 mod 2 ^ 32" by (rule s)
qed

lemma duration_sum:
  "unat t < 1000 * 2 ^ 32 \<Longrightarrow> 1000 * unat (duration_sec t) + unat (duration_nsec t) div 1000000 = unat t"
proof -
  assume a: "unat t < 1000 * 2 ^ 32"
  have u: "uint x = int (unat x)" for x :: "'a::len word" by simp
  have "uint t < 4294967296000" using a unfolding u by (simp only: of_nat_less_numeral_iff) simp
  then have "uint t div 1000 < 4294967296" by presburger
  then have s: "uint (duration_sec t) = uint t div 1000"
    unfolding duration_parts(1) by (intro mod_pos_pos_trivial) (simp_all add: pos_imp_zdiv_nonneg_iff)
  have "uint (duration_nsec t) div 1000000 = uint t mod 1000" unfolding duration_parts(2) by simp
  then have "1000 * uint (duration_sec t) + uint (duration_nsec t) div 1000000 = uint t"
    unfolding s by simp
  then show ?thesis unfolding u by linarith
qed
lemma removal_message_report:
  assumes "key_ok (key f)"
  shows "removal_report env rsn f (removal_message env rsn f)"
proof -
  let ?m = "removal_message env rsn f" and ?t = "time_msec env - created f"
  note ld = ld_append_ge ld_le_bytes ofp_match_at_append_ge ofp_match_at_bytes
  have "length ?m = 88" "ld8 ?m 0 = OFP_VERSION" "ld8 ?m 1 = OFPT_FLOW_REMOVED" "ld16 ?m 2 = htons 88"
    "ofp_match_at ?m 8 = flow_fill_match (kflow (key f)) (wildcards (key f))"
    "ld64 ?m 48 = htonll (cookie f)" "ld16 ?m 56 = htons (priority f)" "ld8 ?m 58 = rsn"
    "ld32 ?m 60 = htonl (duration_sec ?t)" "ld32 ?m 64 = htonl (duration_nsec ?t)" "ld16 ?m 68 = htons (idle_timeout f)"
    "ld64 ?m 72 = htonll (packet_count f)" "ld64 ?m 80 = htonll (byte_count f)"
    by (simp_all add: removal_message_def flow_removed_body_def ld ld_Cons_ge del: le_bytes.simps)
  then show ?thesis
    using assms duration_sum [of ?t] by (simp add: removal_report_def framed_def key_ok_def msg_length_def)
qed

lemma flow_end_all:
  "foldl (\<lambda>d f. dp_send_flow_end env d f rsn) dp fs =
     dp\<lparr>remotes := map (\<lambda>c. foldl (\<lambda>c m. handed m c) c (map (removal_message env rsn) (filter wants_report fs))) (remotes dp)\<rparr>"
  by (induction fs arbitrary: dp) (simp_all add: dp_send_flow_end_eq comp_def)

lemma flows_of_key_ok: "chain_inv ch \<Longrightarrow> f \<in> set (flows_of em ch) \<Longrightarrow> key_ok (key f)"
  using tab.flows_ok
  by (auto simp: flows_of_def chain_inv_def chain_flows_def emerg_flows_def list_all_iff entry_ok_def split: if_splits option.splits)

text \<open>C12: A request to delete entries, strict or not, that names no saved packet and is at most 65523
  bytes long, is answered without a failure. Exactly the entries of the side named by the emergency
  flag that the match, for a strict request also the priority, and the output port select are
  removed. Those of them that ask for a report and are no emergency entries are reported in
  table order, by one message each with their match, priority, cookie, reason, counters,
  idle timeout and age (exact up to \<open>2 ^ 32\<close> seconds); the others are removed silently. A connected peer
  whose queue is empty and that transmits at once takes every report, any other connected one the
  first ones, as many as its queue has room for, and one that is not connected takes none. Nothing
  else of the datapath changes. The result is \<open>-ESRCH\<close> when the 32-bit count of removed entries is zero.\<close>

theorem flow_delete_message:
  assumes inv: "dp_inv dp" and m: "flow_mod msg command" and c: "command \<in> {OFPFC_DELETE, OFPFC_DELETE_STRICT}"
  shows "\<exists>dp' sel reps. sel = filter (delete_sel (ofm_key msg) (ld16 msg 68) (ofm_priority msg) (command = OFPFC_DELETE_STRICT))
        (flows_of (ofm_emerg msg) (chain dp)) \<and>
    fwd_control_input env n dp s msg = Ok (dp', if (of_nat (length sel) :: u32) \<noteq> 0 then 0 else - ESRCH) \<and>
    flows_of (ofm_emerg msg) (chain dp') = filter (\<lambda>f. f \<notin> set sel) (flows_of (ofm_emerg msg) (chain dp)) \<and>
    flows_of (\<not> ofm_emerg msg) (chain dp') = flows_of (\<not> ofm_emerg msg) (chain dp) \<and>
    list_all2 (removal_report env OFPRR_DELETE) (filter wants_report sel) reps \<and>
    list_all2 (\<lambda>r r'. accepted r' = accepted r @ take (takes r (length reps)) reps) (remotes dp) (remotes dp') \<and>
    dp' = dp\<lparr>chain := chain dp', remotes := remotes dp'\<rparr>"
proof -
  let ?st = "command = OFPFC_DELETE_STRICT"
  let ?p = "if ?st then ofm_priority msg else 0"
  let ?em = "ofm_emerg msg"
  have eq: "fwd_control_input env n dp s msg = del_flow env dp msg ?p ?st"
    using m c by (auto simp: flow_mod_def framed_dispatch recv_flow_def guardR_def)
  have prio: "delete_sel (ofm_key msg) (ld16 msg 68) ?p ?st = delete_sel (ofm_key msg) (ld16 msg 68) (ofm_priority msg) ?st"
    using delete_sel_prio [of _ _ 0 "ofm_priority msg"] by simp
  have ci: "chain_inv (chain dp)" and ri: "list_all remote_inv (remotes dp)" using inv by (simp_all add: dp_inv_def chain_ok_def)
  define sel where "sel = filter (delete_sel (ofm_key msg) (ld16 msg 68) (ofm_priority msg) ?st) (flows_of ?em (chain dp))"
  define reps where "reps = map (removal_message env OFPRR_DELETE) (filter wants_report sel)"
  obtain ch' where del: "chain_delete (dp_send_flow_end env) dp (chain dp) (ofm_key msg) (ld16 msg 68) ?p ?st ?em =
      Ok (foldl (\<lambda>d f. dp_send_flow_end env d f OFPRR_DELETE) dp sel, ch', of_nat (length sel))"
    and ch': "flows_of ?em ch' = filter (\<lambda>f. f \<notin> set sel) (flows_of ?em (chain dp))" "flows_of (\<not> ?em) ch' = flows_of (\<not> ?em) (chain dp)"
    using chain_delete_any_prio [of "chain dp" "ofm_key msg" ?st ?p env dp "ld16 msg 68" ?em] ofm_desc_ok [of msg] ci
    unfolding prio sel_def by (auto cong: filter_cong)
  define dp' where "dp' = dp\<lparr>chain := ch', remotes := map (\<lambda>c. foldl (\<lambda>c m. handed m c) c reps) (remotes dp)\<rparr>"
  have "fwd_control_input env n dp s msg = Ok (dp', if (of_nat (length sel) :: u32) \<noteq> 0 then 0 else - ESRCH)"
    unfolding eq del_flow_def del by (simp add: dp'_def flow_end_all reps_def)
  moreover have "list_all2 (removal_report env OFPRR_DELETE) (filter wants_report sel) reps"
    using removal_message_report flows_of_key_ok [OF ci] by (auto simp: reps_def list_all2_conv_all_nth sel_def dest!: nth_mem)
  moreover have "list_all2 (\<lambda>r r'. accepted r' = accepted r @ take (takes r (length reps)) reps) (remotes dp) (remotes dp')"
    using ri handed_takes by (auto simp: dp'_def list_all2_conv_all_nth list_all_length)
  ultimately show ?thesis using ch' unfolding sel_def [symmetric]
    by (intro exI [of _ dp'] exI [of _ sel] exI [of _ reps]) (simp add: dp'_def)
qed

text \<open>The only entry, added with the flag that asks for a report, is deleted and reported.\<close>

definition reporting_chain :: sw_chain where
  "reporting_chain = \<lparr>tables = [Linear_table (sample_linear [(sample_flow any_key 10 2)\<lparr>send_flow_rem := 1\<rparr>])],
     emerg_table = emerg_table loop_chain\<rparr>"

lemma reporting_chain_flows:
  "chain_flows reporting_chain = [(sample_flow any_key 10 2)\<lparr>send_flow_rem := 1\<rparr>]" "emerg_flows reporting_chain = []"
  by (simp_all add: reporting_chain_def loop_chain_def chain_flows_def emerg_flows_def linear_flows_def sample_linear_def)

lemma reporting_chain_ok: "chain_ok reporting_chain"
proof -
  have "linear_inv (sample_linear [(sample_flow any_key 10 2)\<lparr>send_flow_rem := 1\<rparr>])"
    using sample_entries(2) [of 10 2] by (simp add: linear_inv_def sample_linear_def entry_ok_def linear_flows_def)
  then show ?thesis
    using output_actions_valid
    by (auto simp: chain_ok_def reporting_chain_flows acts_valid_def) (simp add: chain_inv_def reporting_chain_def loop_chain_def)
qed

definition delete_all_message :: bytes where
  "delete_all_message = [OFP_VERSION, OFPT_FLOW_MOD, 0, 72, 0, 0, 0, 7] @ le_bytes 4 (htonl OFPFW_ALL) @ replicate 44 0 @
     le_bytes 2 (htons OFPFC_DELETE) @ replicate 6 0 @ replicate 6 255 @ [0, 0]"

lemma delete_all_message_facts:
  "flow_mod delete_all_message OFPFC_DELETE" "\<not> ofm_emerg delete_all_message"
  "delete_sel (ofm_key delete_all_message) (ld16 delete_all_message 68) prio False f"
proof -
  have "length delete_all_message = 72" by (simp add: delete_all_message_def)
  moreover have "msg_length delete_all_message = 72" "ld8 delete_all_message 0 = OFP_VERSION"
    "ld8 delete_all_message 1 = OFPT_FLOW_MOD" "ofm_buffer_id delete_all_message = UINT32_MAX"
    "ntohs (ld16 delete_all_message 56) = OFPFC_DELETE"
    by code_simp+
  ultimately show "flow_mod delete_all_message OFPFC_DELETE" by (simp add: flow_mod_def framed_def)
  show "\<not> ofm_emerg delete_all_message" by code_simp
  have "wildcards (ofm_key delete_all_message) = OFPFW_ALL" "nw_src_mask (ofm_key delete_all_message) = 0"
    "nw_dst_mask (ofm_key delete_all_message) = 0" "ld16 delete_all_message 68 = htons OFPP_NONE"
    by code_simp+
  then show "delete_sel (ofm_key delete_all_message) (ld16 delete_all_message 68) prio False f"
    by (simp add: delete_sel_def modify_sel_def outputs_to_def match_defs)
qed

theorem flow_delete_message_witness:
  "\<exists>dp' m. fwd_control_input sample_env 9 (sample_dp reporting_chain) \<lparr>s_remote = 0, s_xid = 7\<rparr> delete_all_message = Ok (dp', 0) \<and>
     chain_flows (chain dp') = [] \<and> map accepted (remotes dp') = [[m]] \<and> ntohs (ld16 m 56) = 10 \<and> ld8 m 58 = OFPRR_DELETE"
proof -
  let ?dp = "sample_dp reporting_chain"
  let ?f = "(sample_flow any_key 10 2)\<lparr>send_flow_rem := 1\<rparr>"
  obtain dp' reps where r: "fwd_control_input sample_env 9 ?dp \<lparr>s_remote = 0, s_xid = 7\<rparr> delete_all_message = Ok (dp', 0)"
    "chain_flows (chain dp') = []" "list_all2 (removal_report sample_env OFPRR_DELETE) (filter wants_report [?f]) reps"
    "list_all2 (\<lambda>r r'. accepted r' = accepted r @ take (takes r (length reps)) reps) (remotes ?dp) (remotes dp')"
    using flow_delete_message [OF sample_dp_inv [OF reporting_chain_ok] delete_all_message_facts(1), of sample_env 9 "\<lparr>s_remote = 0, s_xid = 7\<rparr>"]
      delete_all_message_facts(2,3)
    by (auto simp: flows_of_def sample_dp_fields reporting_chain_flows)
  have "wants_report ?f" by (simp add: wants_report_def sample_flow_def)
  then obtain m where m: "reps = [m]" "removal_report sample_env OFPRR_DELETE ?f m"
    using r(3) by (auto simp: list_all2_Cons1)
  have "accepted sample_remote = []" "takes sample_remote 1 = 1" by (simp_all add: accepted_def takes_def sample_remote_def)
  then have "map accepted (remotes dp') = [[m]]"
    using r(4) m(1) by (auto simp: sample_dp_fields list_all2_Cons1)
  moreover have "ntohs (ld16 m 56) = 10" "ld8 m 58 = OFPRR_DELETE"
    using m(2) by (simp_all add: removal_report_def sample_flow_def)
  ultimately show ?thesis using r(1,2) by (intro exI [of _ dp'] exI [of _ m]) simp
qed

section \<open>Configuration\<close>

text \<open>The configuration that a message asks for, with anything but the two known treatments of
  fragments taken as dropping them.\<close>

definition asked_flags :: "bytes \<Rightarrow> u16" where
  "asked_flags msg = (if ntohs (ld16 msg 8) AND OFPC_FRAG_MASK \<in> {OFPC_FRAG_NORMAL, OFPC_FRAG_DROP}
     then ntohs (ld16 msg 8) AND OFPC_FRAG_MASK else OFPC_FRAG_DROP)"

definition config_reply :: "u32 \<Rightarrow> u16 \<Rightarrow> u16 \<Rightarrow> bytes" where
  "config_reply xid flags len = [OFP_VERSION, OFPT_GET_CONFIG_REPLY] @ le_bytes 2 (htons 12) @ le_bytes 4 xid @
     le_bytes 2 (htons flags) @ le_bytes 2 (htons len)"

text \<open>C15: A controller that sets the configuration and then asks for it is told what it set: the
  reply quotes the transaction and carries the flags, with an unknown treatment of fragments
  turned into dropping them, and the length of the part of a packet to send.\<close>

theorem config_round_trip:
  assumes "framed set_msg OFPT_SET_CONFIG" "12 \<le> length set_msg" "framed get_msg OFPT_GET_CONFIG_REQUEST"
    and r: "s_remote s < length (remotes dp)" "accepts (remotes dp ! s_remote s)"
  shows "\<exists>dp1 dp2. fwd_control_input env n dp s0 set_msg = Ok (dp1, 0) \<and> fwd_control_input env n dp1 s get_msg = Ok (dp2, 0) \<and>
    accepted (remotes dp2 ! s_remote s) = accepted (remotes dp ! s_remote s) @
      [config_reply (s_xid s) (asked_flags set_msg) (ntohs (ld16 set_msg 10))]"
proof -
  let ?dp = "dp\<lparr>dp_flags := asked_flags set_msg, miss_send_len := ntohs (ld16 set_msg 10)\<rparr>"
  have 1: "fwd_control_input env n dp s0 set_msg = Ok (?dp, 0)"
    using assms(1,2) by (simp add: framed_dispatch recv_set_config_def asked_flags_def guardR_def Let_def and.assoc)
  let ?b = "config_reply (s_xid s) (asked_flags set_msg) (ntohs (ld16 set_msg 10))"
  have b: "with_length ?b = ?b" "length ?b = 12"
    by (simp_all add: with_length_def config_reply_def st16_def overwrite_def)
  have "fwd_control_input env n ?dp s get_msg = send_openflow_buffer ?dp ?b (Some s)"
    using assms(3)
    by (simp add: framed_dispatch recv_get_config_request_def make_openflow_reply_def make_openflow_xid_def
        put_openflow_xid_def guardR_def config_reply_def st16_def overwrite_def)
  moreover obtain dp2 where "send_openflow_buffer ?dp ?b (Some s) = Ok (dp2, 0)"
    "accepted (remotes dp2 ! s_remote s) = accepted (remotes dp ! s_remote s) @ [with_length ?b]"
    using send_one [of ?b s ?dp] r b(2) by auto
  ultimately show ?thesis using 1 b(1) by auto
qed

definition sample_set_config :: bytes where
  "sample_set_config = [OFP_VERSION, OFPT_SET_CONFIG, 0, 12, 0, 0, 0, 7, 0, 2, 0, 64]"

lemma sample_config_facts:
  "framed sample_set_config OFPT_SET_CONFIG" "12 \<le> length sample_set_config"
  "framed [OFP_VERSION, OFPT_GET_CONFIG_REQUEST, 0, 8, 0, 0, 0, 8] OFPT_GET_CONFIG_REQUEST"
  "config_reply 8 (asked_flags sample_set_config) (ntohs (ld16 sample_set_config 10)) =
     [OFP_VERSION, OFPT_GET_CONFIG_REPLY, 0, 12, 8, 0, 0, 0, 0, 1, 0, 64]"
  by code_simp+

theorem config_round_trip_witness:
  "\<exists>dp1 dp2. fwd_control_input sample_env 9 (sample_dp empty_chain) \<lparr>s_remote = 0, s_xid = 7\<rparr> sample_set_config = Ok (dp1, 0) \<and>
    fwd_control_input sample_env 9 dp1 \<lparr>s_remote = 0, s_xid = 8\<rparr> [OFP_VERSION, OFPT_GET_CONFIG_REQUEST, 0, 8, 0, 0, 0, 8] = Ok (dp2, 0) \<and>
    accepted (remotes dp2 ! 0) = [[OFP_VERSION, OFPT_GET_CONFIG_REPLY, 0, 12, 8, 0, 0, 0, 0, 1, 0, 64]]"
proof -
  have "accepts sample_remote" "accepted sample_remote = []" by (simp_all add: accepts_def accepted_def sample_remote_def)
  then show ?thesis
    using config_round_trip [OF sample_config_facts(1-3), of "\<lparr>s_remote = 0, s_xid = 8\<rparr>" "sample_dp empty_chain" sample_env 9 "\<lparr>s_remote = 0, s_xid = 7\<rparr>"]
      sample_config_facts(4) by (simp add: sample_dp_fields)
qed

end
