(* ===== verification/OF_Stp.thy ===== *)
theory OF_Stp
  imports OF_Proto "HOL-Library.Signed_Division"
begin

unbundle bit_operations_syntax

text \<open>
  The spanning tree protocol of \<open>lib/stp.c\<close>: the bridge, its ports and timers, and every function
  of the file. A pointer to a port is the index of the port; \<open>ports[ARRAY_SIZE(ports)]\<close> is the index
  \<open>STP_MAX_PORTS\<close>. The function \<open>send_bpdu\<close> that the client provides is represented by the list of
  the frames handed to it, with the numbers of their ports. The type \<open>int\<close> of C has 32 bits; it is
  represented by integers, with \<open>int32\<close> where a value can leave the range, and costs, which the
  code compares as unsigned in some places and as signed in others, are words.
\<close>

definition int32 :: "int \<Rightarrow> int" where
  "int32 x = sint (word_of_int x :: u32)"

section \<open>Data\<close>

abbreviation (input) STP_PROTOCOL_ID :: u16 where "STP_PROTOCOL_ID \<equiv> 0"
abbreviation (input) STP_PROTOCOL_VERSION :: u8 where "STP_PROTOCOL_VERSION \<equiv> 0"
abbreviation (input) STP_TYPE_CONFIG :: u8 where "STP_TYPE_CONFIG \<equiv> 0"
abbreviation (input) STP_TYPE_TCN :: u8 where "STP_TYPE_TCN \<equiv> 0x80"
abbreviation (input) STP_CONFIG_TOPOLOGY_CHANGE_ACK :: u16 where "STP_CONFIG_TOPOLOGY_CHANGE_ACK \<equiv> 0x80"
abbreviation (input) STP_CONFIG_TOPOLOGY_CHANGE :: u16 where "STP_CONFIG_TOPOLOGY_CHANGE \<equiv> 1"
abbreviation (input) STP_LLC_SSAP :: u8 where "STP_LLC_SSAP \<equiv> 0x42"
abbreviation (input) STP_LLC_DSAP :: u8 where "STP_LLC_DSAP \<equiv> 0x42"
abbreviation (input) STP_LLC_CNTL :: u8 where "STP_LLC_CNTL \<equiv> 3"
abbreviation (input) STP_DEFAULT_BRIDGE_PRIORITY :: u64 where "STP_DEFAULT_BRIDGE_PRIORITY \<equiv> 32768"
abbreviation (input) STP_DEFAULT_PORT_PRIORITY :: u16 where "STP_DEFAULT_PORT_PRIORITY \<equiv> 128"
abbreviation (input) STP_MAX_PORTS :: nat where "STP_MAX_PORTS \<equiv> 255"
abbreviation (input) MESSAGE_AGE_INCREMENT :: int where "MESSAGE_AGE_INCREMENT \<equiv> 1"

abbreviation (input) STP_DISABLED :: u8 where "STP_DISABLED \<equiv> 1"
abbreviation (input) STP_LISTENING :: u8 where "STP_LISTENING \<equiv> 2"
abbreviation (input) STP_LEARNING :: u8 where "STP_LEARNING \<equiv> 4"
abbreviation (input) STP_FORWARDING :: u8 where "STP_FORWARDING \<equiv> 8"
abbreviation (input) STP_BLOCKING :: u8 where "STP_BLOCKING \<equiv> 16"

definition stp_eth_addr :: bytes where
  "stp_eth_addr = [0x01, 0x80, 0xC2, 0x00, 0x00, 0x01]"

text \<open>The fields of a configuration message, in network byte order as in the packed structure.\<close>

record stp_config_bpdu =
  c_flags :: u8
  c_root_id :: u64
  c_root_path_cost :: u32
  c_bridge_id :: u64
  c_port_id :: u16
  c_message_age :: u16
  c_max_age :: u16
  c_hello_time :: u16
  c_forward_delay :: u16

definition bpdu_header :: "u8 \<Rightarrow> bytes" where
  "bpdu_header type = le_bytes 2 (htons STP_PROTOCOL_ID) @ [STP_PROTOCOL_VERSION, type]"

definition config_bytes :: "stp_config_bpdu \<Rightarrow> bytes" where
  "config_bytes c = bpdu_header STP_TYPE_CONFIG @ [c_flags c] @ le_bytes 8 (c_root_id c) @
     le_bytes 4 (c_root_path_cost c) @ le_bytes 8 (c_bridge_id c) @ le_bytes 2 (c_port_id c) @
     le_bytes 2 (c_message_age c) @ le_bytes 2 (c_max_age c) @ le_bytes 2 (c_hello_time c) @
     le_bytes 2 (c_forward_delay c)"

definition config_at :: "bytes \<Rightarrow> stp_config_bpdu" where
  "config_at b = \<lparr>c_flags = ld8 b 4, c_root_id = ld64 b 5, c_root_path_cost = ld32 b 13, c_bridge_id = ld64 b 17,
     c_port_id = ld16 b 25, c_message_age = ld16 b 27, c_max_age = ld16 b 29, c_hello_time = ld16 b 31,
     c_forward_delay = ld16 b 33\<rparr>"

record stp_timer =
  active :: bool
  tm_value :: int

record stp_port =
  port_id :: u16
  state :: u8
  path_cost :: u16
  p_designated_root :: u64
  designated_cost :: u32
  designated_bridge :: u64
  designated_port :: u16
  topology_change_ack :: bool
  config_pending :: bool
  change_detection_enabled :: bool
  message_age_timer :: stp_timer
  forward_delay_timer :: stp_timer
  hold_timer :: stp_timer
  state_changed :: bool

record stp =
  stp_name :: string
  bridge_id :: u64
  max_age :: int
  hello_time :: int
  forward_delay :: int
  bridge_max_age :: int
  bridge_hello_time :: int
  bridge_forward_delay :: int
  rq_max_age :: int
  rq_hello_time :: int
  rq_forward_delay :: int
  elapsed_remainder :: int
  designated_root :: u64
  root_path_cost :: u32
  root_port :: "nat option"
  topology_change_detected :: bool
  topology_change :: bool
  hello_timer :: stp_timer
  tcn_timer :: stp_timer
  topology_change_timer :: stp_timer
  stp_ports :: "stp_port list"
  first_changed_port :: nat
  sent_bpdus :: "(bytes \<times> nat) list"

abbreviation stp_port :: "stp \<Rightarrow> nat \<Rightarrow> stp_port" where
  "stp_port stp i \<equiv> stp_ports stp ! i"

definition upd_port :: "nat \<Rightarrow> (stp_port \<Rightarrow> stp_port) \<Rightarrow> stp \<Rightarrow> stp" where
  "upd_port i f stp = stp\<lparr>stp_ports := (stp_ports stp)[i := f (stp_port stp i)]\<rparr>"

definition for_each_enabled_port :: "(nat \<Rightarrow> stp \<Rightarrow> stp) \<Rightarrow> stp \<Rightarrow> stp" where
  "for_each_enabled_port body stp =
     fold (\<lambda>i stp. if state (stp_port stp i) \<noteq> STP_DISABLED then body i stp else stp) [0..<STP_MAX_PORTS] stp"

section \<open>Timers\<close>

definition stp_start_timer :: "int \<Rightarrow> stp_timer \<Rightarrow> stp_timer" where
  "stp_start_timer v timer = timer\<lparr>tm_value := v, active := True\<rparr>"

definition stp_stop_timer :: "stp_timer \<Rightarrow> stp_timer" where
  "stp_stop_timer timer = timer\<lparr>active := False\<rparr>"

definition stp_timer_expired :: "stp_timer \<Rightarrow> int \<Rightarrow> int \<Rightarrow> stp_timer \<times> bool" where
  "stp_timer_expired timer elapsed timeout =
     (if active timer then
        let timer = timer\<lparr>tm_value := int32 (tm_value timer + elapsed)\<rparr>
        in if tm_value timer \<ge> timeout then (timer\<lparr>active := False\<rparr>, True) else (timer, False)
      else (timer, False))"

definition ms_to_timer :: "int \<Rightarrow> int" where
  "ms_to_timer ms = int32 (ms * 0x100) sdiv 1000"

definition ms_to_timer_remainder :: "int \<Rightarrow> int" where
  "ms_to_timer_remainder ms = int32 (ms * 0x100) smod 1000"

definition timer_to_ms :: "int \<Rightarrow> int" where
  "timer_to_ms timer = int32 (timer * 1000) sdiv 0x100"

definition clamp :: "int \<Rightarrow> int \<Rightarrow> int \<Rightarrow> int" where
  "clamp x mn mx = (if x < mn then mn else if x > mx then mx else x)"

definition stp_is_root_bridge :: "stp \<Rightarrow> bool" where
  "stp_is_root_bridge stp \<longleftrightarrow> bridge_id stp = designated_root stp"

definition use_bridge_timers :: "stp \<Rightarrow> stp" where
  "use_bridge_timers stp = stp\<lparr>max_age := bridge_max_age stp, hello_time := bridge_hello_time stp,
     forward_delay := bridge_forward_delay stp\<rparr>"

definition stp_update_bridge_timers :: "stp \<Rightarrow> stp" where
  "stp_update_bridge_timers stp =
     (let ht = clamp (rq_hello_time stp) 1000 10000;
          ma = clamp (rq_max_age stp) (max (2 * (ht + 1000)) 6000) 40000;
          fd = clamp (rq_forward_delay stp) (ma sdiv 2 + 1000) 30000;
          stp = stp\<lparr>bridge_hello_time := ms_to_timer ht, bridge_max_age := ms_to_timer ma,
                  bridge_forward_delay := ms_to_timer fd\<rparr>
      in if stp_is_root_bridge stp then use_bridge_timers stp else stp)"

section \<open>Transmission\<close>

definition stp_send_bpdu :: "nat \<Rightarrow> bytes \<Rightarrow> stp \<Rightarrow> stp" where
  "stp_send_bpdu i bpdu stp =
     (let eth = stp_eth_addr @ replicate 6 0 @ le_bytes 2 (htons (of_nat (LLC_HEADER_LEN + length bpdu)));
          llc = [STP_LLC_DSAP, STP_LLC_SSAP, STP_LLC_CNTL]
      in stp\<lparr>sent_bpdus := sent_bpdus stp @ [(eth @ llc @ bpdu, i)]\<rparr>)"

text \<open>
  The flags of a configuration message are one octet, but are combined with \<open>htons\<close> of the masks:
  the 16-bit result is cut to the octet.
\<close>

definition or_flag :: "u8 \<Rightarrow> u16 \<Rightarrow> u8" where
  "or_flag flags bit_mask = ucast ((ucast flags :: u16) OR htons bit_mask)"

definition has_flag :: "u8 \<Rightarrow> u16 \<Rightarrow> bool" where
  "has_flag flags bit_mask \<longleftrightarrow> (ucast flags :: u16) AND htons bit_mask \<noteq> 0"

definition config_for :: "stp \<Rightarrow> nat \<Rightarrow> stp_config_bpdu" where
  "config_for stp i =
     (let p = stp_port stp i;
          flags = (0 :: u8);
          flags = (if topology_change_ack p then or_flag flags STP_CONFIG_TOPOLOGY_CHANGE_ACK else flags);
          flags = (if topology_change stp then or_flag flags STP_CONFIG_TOPOLOGY_CHANGE else flags)
      in \<lparr>c_flags = flags, c_root_id = htonll (designated_root stp), c_root_path_cost = htonl (root_path_cost stp),
          c_bridge_id = htonll (bridge_id stp), c_port_id = htons (port_id p),
          c_message_age =
            (if stp_is_root_bridge stp then htons 0
             else case root_port stp of
                    Some r \<Rightarrow> htons (word_of_int (tm_value (message_age_timer (stp_port stp r)) + MESSAGE_AGE_INCREMENT))
                  | None \<Rightarrow> htons 0),
          c_max_age = htons (word_of_int (max_age stp)), c_hello_time = htons (word_of_int (hello_time stp)),
          c_forward_delay = htons (word_of_int (forward_delay stp))\<rparr>)"

definition stp_transmit_config :: "nat \<Rightarrow> stp \<Rightarrow> stp" where
  "stp_transmit_config i stp =
     (let root = stp_is_root_bridge stp
      in if \<not> root \<and> root_port stp = None then stp
         else if active (hold_timer (stp_port stp i)) then upd_port i (\<lambda>p. p\<lparr>config_pending := True\<rparr>) stp
         else
           let config = config_for stp i
           in if uint (ntohs (c_message_age config)) < max_age stp then
                let stp = upd_port i (\<lambda>p. p\<lparr>topology_change_ack := False, config_pending := False\<rparr>) stp;
                    stp = stp_send_bpdu i (config_bytes config) stp
                in upd_port i (\<lambda>p. p\<lparr>hold_timer := stp_start_timer 0 (hold_timer p)\<rparr>) stp
              else stp)"

definition stp_transmit_tcn :: "stp \<Rightarrow> stp" where
  "stp_transmit_tcn stp =
     (case root_port stp of
        None \<Rightarrow> stp
      | Some r \<Rightarrow> stp_send_bpdu r (bpdu_header STP_TYPE_TCN) stp)"

section \<open>Information of a port\<close>

definition stp_supersedes_port_info :: "stp \<Rightarrow> nat \<Rightarrow> stp_config_bpdu \<Rightarrow> bool" where
  "stp_supersedes_port_info stp i config =
     (let p = stp_port stp i
      in if ntohll (c_root_id config) \<noteq> p_designated_root p then ntohll (c_root_id config) < p_designated_root p
         else if ntohl (c_root_path_cost config) \<noteq> designated_cost p then
           ntohl (c_root_path_cost config) < designated_cost p
         else if ntohll (c_bridge_id config) \<noteq> designated_bridge p then
           ntohll (c_bridge_id config) < designated_bridge p
         else ntohll (c_bridge_id config) \<noteq> bridge_id stp \<or> ntohs (c_port_id config) \<le> designated_port p)"

definition stp_record_config_information :: "nat \<Rightarrow> stp_config_bpdu \<Rightarrow> stp \<Rightarrow> stp" where
  "stp_record_config_information i config =
     upd_port i (\<lambda>p. p\<lparr>p_designated_root := ntohll (c_root_id config),
       designated_cost := ntohl (c_root_path_cost config), designated_bridge := ntohll (c_bridge_id config),
       designated_port := ntohs (c_port_id config),
       message_age_timer := stp_start_timer (uint (ntohs (c_message_age config))) (message_age_timer p)\<rparr>)"

definition stp_record_config_timeout_values :: "stp_config_bpdu \<Rightarrow> stp \<Rightarrow> stp" where
  "stp_record_config_timeout_values config stp =
     stp\<lparr>max_age := uint (ntohs (c_max_age config)), hello_time := uint (ntohs (c_hello_time config)),
         forward_delay := uint (ntohs (c_forward_delay config)),
         topology_change := has_flag (c_flags config) STP_CONFIG_TOPOLOGY_CHANGE\<rparr>"

definition stp_is_designated_port :: "stp \<Rightarrow> nat \<Rightarrow> bool" where
  "stp_is_designated_port stp i \<longleftrightarrow>
     designated_bridge (stp_port stp i) = bridge_id stp \<and> designated_port (stp_port stp i) = port_id (stp_port stp i)"

definition stp_config_bpdu_generation :: "stp \<Rightarrow> stp" where
  "stp_config_bpdu_generation =
     for_each_enabled_port (\<lambda>i stp. if stp_is_designated_port stp i then stp_transmit_config i stp else stp)"

definition stp_become_designated_port :: "nat \<Rightarrow> stp \<Rightarrow> stp" where
  "stp_become_designated_port i stp =
     upd_port i (\<lambda>p. p\<lparr>p_designated_root := designated_root stp, designated_cost := root_path_cost stp,
       designated_bridge := bridge_id stp, designated_port := port_id p\<rparr>) stp"

section \<open>Selection of the root and of the designated ports\<close>

definition stp_supersedes_root :: "stp_port \<Rightarrow> stp_port \<Rightarrow> bool" where
  "stp_supersedes_root root p =
     (let p_cost = designated_cost p + ucast (path_cost p);
          root_cost = designated_cost root + ucast (path_cost root)
      in if p_designated_root p \<noteq> p_designated_root root then p_designated_root p < p_designated_root root
         else if p_cost \<noteq> root_cost then sint p_cost < sint root_cost
         else if designated_bridge p \<noteq> designated_bridge root then designated_bridge p < designated_bridge root
         else if designated_port p \<noteq> designated_port root then designated_port p < designated_port root
         else port_id p < port_id root)"

definition root_candidate :: "stp \<Rightarrow> nat \<Rightarrow> bool" where
  "root_candidate stp i \<longleftrightarrow> state (stp_port stp i) \<noteq> STP_DISABLED \<and>
     \<not> (stp_is_designated_port stp i \<or> p_designated_root (stp_port stp i) \<ge> bridge_id stp)"

definition best_root :: "stp \<Rightarrow> nat option" where
  "best_root stp =
     fold (\<lambda>i root.
       if \<not> root_candidate stp i then root
       else case root of
              Some r \<Rightarrow> if \<not> stp_supersedes_root (stp_port stp r) (stp_port stp i) then root else Some i
            | None \<Rightarrow> Some i) [0..<STP_MAX_PORTS] None"

definition stp_root_selection :: "stp \<Rightarrow> stp" where
  "stp_root_selection stp =
     (let root = best_root stp;
          stp = stp\<lparr>root_port := root\<rparr>
      in case root of
           None \<Rightarrow> stp\<lparr>designated_root := bridge_id stp, root_path_cost := 0\<rparr>
         | Some r \<Rightarrow> stp\<lparr>designated_root := p_designated_root (stp_port stp r),
             root_path_cost := designated_cost (stp_port stp r) + ucast (path_cost (stp_port stp r))\<rparr>)"

definition stp_designated_port_selection :: "stp \<Rightarrow> stp" where
  "stp_designated_port_selection =
     for_each_enabled_port (\<lambda>i stp.
       let p = stp_port stp i
       in if stp_is_designated_port stp i \<or> p_designated_root p \<noteq> designated_root stp \<or>
             root_path_cost stp < designated_cost p \<or>
             root_path_cost stp = designated_cost p \<and>
               (bridge_id stp < designated_bridge p \<or>
                bridge_id stp = designated_bridge p \<and> port_id p \<le> designated_port p)
          then stp_become_designated_port i stp else stp)"

definition stp_configuration_update :: "stp \<Rightarrow> stp" where
  "stp_configuration_update stp = stp_designated_port_selection (stp_root_selection stp)"

section \<open>State of a port\<close>

definition stp_set_port_state :: "nat \<Rightarrow> u8 \<Rightarrow> stp \<Rightarrow> stp" where
  "stp_set_port_state i st stp =
     (let stp = (if st \<noteq> state (stp_port stp i) \<and> \<not> state_changed (stp_port stp i) then
                   let stp = upd_port i (\<lambda>p. p\<lparr>state_changed := True\<rparr>) stp
                   in if i < first_changed_port stp then stp\<lparr>first_changed_port := i\<rparr> else stp
                 else stp)
      in upd_port i (\<lambda>p. p\<lparr>state := st\<rparr>) stp)"

definition stp_topology_change_detection :: "stp \<Rightarrow> stp" where
  "stp_topology_change_detection stp =
     (let stp = (if stp_is_root_bridge stp then
                   stp\<lparr>topology_change := True, topology_change_timer := stp_start_timer 0 (topology_change_timer stp)\<rparr>
                 else if \<not> topology_change_detected stp then
                   let stp = stp_transmit_tcn stp in stp\<lparr>tcn_timer := stp_start_timer 0 (tcn_timer stp)\<rparr>
                 else stp)
      in stp\<lparr>topology_change_detected := True\<rparr>)"

definition stp_make_forwarding :: "nat \<Rightarrow> stp \<Rightarrow> stp" where
  "stp_make_forwarding i stp =
     (if state (stp_port stp i) = STP_BLOCKING then
        upd_port i (\<lambda>p. p\<lparr>forward_delay_timer := stp_start_timer 0 (forward_delay_timer p)\<rparr>)
          (stp_set_port_state i STP_LISTENING stp)
      else stp)"

definition stp_make_blocking :: "nat \<Rightarrow> stp \<Rightarrow> stp" where
  "stp_make_blocking i stp =
     (if state (stp_port stp i) AND (STP_DISABLED OR STP_BLOCKING) = 0 then
        let stp = (if state (stp_port stp i) AND (STP_FORWARDING OR STP_LEARNING) \<noteq> 0 \<and>
                      change_detection_enabled (stp_port stp i)
                   then stp_topology_change_detection stp else stp);
            stp = stp_set_port_state i STP_BLOCKING stp
        in upd_port i (\<lambda>p. p\<lparr>forward_delay_timer := stp_stop_timer (forward_delay_timer p)\<rparr>) stp
      else stp)"

definition stp_port_state_selection :: "stp \<Rightarrow> stp" where
  "stp_port_state_selection =
     for_each_enabled_port (\<lambda>i stp.
       if root_port stp = Some i then
         stp_make_forwarding i (upd_port i (\<lambda>p. p\<lparr>config_pending := False, topology_change_ack := False\<rparr>) stp)
       else if stp_is_designated_port stp i then
         stp_make_forwarding i
           (upd_port i (\<lambda>p. p\<lparr>message_age_timer := stp_stop_timer (message_age_timer p)\<rparr>) stp)
       else
         stp_make_blocking i (upd_port i (\<lambda>p. p\<lparr>config_pending := False, topology_change_ack := False\<rparr>) stp))"

definition stp_topology_change_acknowledged :: "stp \<Rightarrow> stp" where
  "stp_topology_change_acknowledged stp =
     stp\<lparr>topology_change_detected := False, tcn_timer := stp_stop_timer (tcn_timer stp)\<rparr>"

definition stp_acknowledge_topology_change :: "nat \<Rightarrow> stp \<Rightarrow> stp" where
  "stp_acknowledge_topology_change i stp =
     stp_transmit_config i (upd_port i (\<lambda>p. p\<lparr>topology_change_ack := True\<rparr>) stp)"

definition stp_become_root_bridge :: "stp \<Rightarrow> stp" where
  "stp_become_root_bridge stp =
     (let stp = use_bridge_timers stp;
          stp = stp_topology_change_detection stp;
          stp = stp\<lparr>tcn_timer := stp_stop_timer (tcn_timer stp)\<rparr>;
          stp = stp_config_bpdu_generation stp
      in stp\<lparr>hello_timer := stp_start_timer 0 (hello_timer stp)\<rparr>)"

text \<open>The tail that four functions share: update, select states, and react to becoming the root.\<close>

definition update_and_select :: "bool \<Rightarrow> stp \<Rightarrow> stp" where
  "update_and_select root stp =
     (let stp = stp_port_state_selection (stp_configuration_update stp)
      in if stp_is_root_bridge stp \<and> \<not> root then stp_become_root_bridge stp else stp)"

section \<open>Received messages\<close>

definition stp_received_config_bpdu :: "nat \<Rightarrow> stp_config_bpdu \<Rightarrow> stp \<Rightarrow> stp" where
  "stp_received_config_bpdu i config stp =
     (if ntohs (c_message_age config) \<ge> ntohs (c_max_age config) then stp
      else if state (stp_port stp i) \<noteq> STP_DISABLED then
        let root = stp_is_root_bridge stp
        in if stp_supersedes_port_info stp i config then
             let stp = stp_record_config_information i config stp;
                 stp = stp_configuration_update stp;
                 stp = stp_port_state_selection stp;
                 stp = (if \<not> stp_is_root_bridge stp \<and> root then
                          let stp = stp\<lparr>hello_timer := stp_stop_timer (hello_timer stp)\<rparr>
                          in if topology_change_detected stp then
                               let stp = stp\<lparr>topology_change_timer := stp_stop_timer (topology_change_timer stp)\<rparr>;
                                   stp = stp_transmit_tcn stp
                               in stp\<lparr>tcn_timer := stp_start_timer 0 (tcn_timer stp)\<rparr>
                             else stp
                        else stp)
             in if root_port stp = Some i then
                  let stp = stp_record_config_timeout_values config stp;
                      stp = stp_config_bpdu_generation stp
                  in if has_flag (c_flags config) STP_CONFIG_TOPOLOGY_CHANGE_ACK
                     then stp_topology_change_acknowledged stp else stp
                else stp
           else if stp_is_designated_port stp i then stp_transmit_config i stp
           else stp
      else stp)"

definition stp_received_tcn_bpdu :: "nat \<Rightarrow> stp \<Rightarrow> stp" where
  "stp_received_tcn_bpdu i stp =
     (if state (stp_port stp i) \<noteq> STP_DISABLED \<and> stp_is_designated_port stp i
      then stp_acknowledge_topology_change i (stp_topology_change_detection stp) else stp)"

definition stp_received_bpdu :: "nat \<Rightarrow> bytes \<Rightarrow> stp \<Rightarrow> stp" where
  "stp_received_bpdu i bpdu stp =
     (if state (stp_port stp i) = STP_DISABLED then stp
      else if length bpdu < 4 then stp
      else if ld16 bpdu 0 \<noteq> htons STP_PROTOCOL_ID then stp
      else if ld8 bpdu 3 = STP_TYPE_CONFIG then
        if length bpdu < 35 then stp else stp_received_config_bpdu i (config_at bpdu) stp
      else if ld8 bpdu 3 = STP_TYPE_TCN then
        if length bpdu \<noteq> 4 then stp else stp_received_tcn_bpdu i stp
      else stp)"

section \<open>Timer expiry\<close>

definition stp_hello_timer_expiry :: "stp \<Rightarrow> stp" where
  "stp_hello_timer_expiry stp =
     (let stp = stp_config_bpdu_generation stp in stp\<lparr>hello_timer := stp_start_timer 0 (hello_timer stp)\<rparr>)"

definition stp_message_age_timer_expiry :: "nat \<Rightarrow> stp \<Rightarrow> stp" where
  "stp_message_age_timer_expiry i stp =
     update_and_select (stp_is_root_bridge stp) (stp_become_designated_port i stp)"

definition stp_is_designated_for_some_port :: "stp \<Rightarrow> bool" where
  "stp_is_designated_for_some_port stp \<longleftrightarrow>
     list_ex (\<lambda>i. state (stp_port stp i) \<noteq> STP_DISABLED \<and> designated_bridge (stp_port stp i) = bridge_id stp)
       [0..<STP_MAX_PORTS]"

definition stp_forward_delay_timer_expiry :: "nat \<Rightarrow> stp \<Rightarrow> stp" where
  "stp_forward_delay_timer_expiry i stp =
     (if state (stp_port stp i) = STP_LISTENING then
        upd_port i (\<lambda>p. p\<lparr>forward_delay_timer := stp_start_timer 0 (forward_delay_timer p)\<rparr>)
          (stp_set_port_state i STP_LEARNING stp)
      else if state (stp_port stp i) = STP_LEARNING then
        let stp = stp_set_port_state i STP_FORWARDING stp
        in if stp_is_designated_for_some_port stp \<and> change_detection_enabled (stp_port stp i)
           then stp_topology_change_detection stp else stp
      else stp)"

definition stp_tcn_timer_expiry :: "stp \<Rightarrow> stp" where
  "stp_tcn_timer_expiry stp =
     (let stp = stp_transmit_tcn stp in stp\<lparr>tcn_timer := stp_start_timer 0 (tcn_timer stp)\<rparr>)"

definition stp_topology_change_timer_expiry :: "stp \<Rightarrow> stp" where
  "stp_topology_change_timer_expiry stp = stp\<lparr>topology_change_detected := False, topology_change := False\<rparr>"

definition stp_hold_timer_expiry :: "nat \<Rightarrow> stp \<Rightarrow> stp" where
  "stp_hold_timer_expiry i stp =
     (if config_pending (stp_port stp i) then stp_transmit_config i stp else stp)"

text \<open>The body of the first and of the second loop over the ports.\<close>

definition tick_message_age :: "int \<Rightarrow> nat \<Rightarrow> stp \<Rightarrow> stp" where
  "tick_message_age elapsed i stp =
     (let (t, expired) = stp_timer_expired (message_age_timer (stp_port stp i)) elapsed (max_age stp);
          stp = upd_port i (\<lambda>p. p\<lparr>message_age_timer := t\<rparr>) stp
      in if expired then stp_message_age_timer_expiry i stp else stp)"

definition tick_port :: "int \<Rightarrow> nat \<Rightarrow> stp \<Rightarrow> stp" where
  "tick_port elapsed i stp =
     (let (t, expired) = stp_timer_expired (forward_delay_timer (stp_port stp i)) elapsed (forward_delay stp);
          stp = upd_port i (\<lambda>p. p\<lparr>forward_delay_timer := t\<rparr>) stp;
          stp = (if expired then stp_forward_delay_timer_expiry i stp else stp);
          (t, expired) = stp_timer_expired (hold_timer (stp_port stp i)) elapsed (ms_to_timer 1000);
          stp = upd_port i (\<lambda>p. p\<lparr>hold_timer := t\<rparr>) stp
      in if expired then stp_hold_timer_expiry i stp else stp)"

definition stp_tick :: "int \<Rightarrow> stp \<Rightarrow> stp" where
  "stp_tick ms stp =
     (let ms = clamp ms 0 (2147483647 - 1000) + elapsed_remainder stp;
          elapsed = ms_to_timer ms;
          stp = stp\<lparr>elapsed_remainder := ms_to_timer_remainder ms\<rparr>
      in if elapsed = 0 then stp
         else
           let (t, expired) = stp_timer_expired (hello_timer stp) elapsed (hello_time stp);
               stp = stp\<lparr>hello_timer := t\<rparr>;
               stp = (if expired then stp_hello_timer_expiry stp else stp);
               (t, expired) = stp_timer_expired (tcn_timer stp) elapsed (bridge_hello_time stp);
               stp = stp\<lparr>tcn_timer := t\<rparr>;
               stp = (if expired then stp_tcn_timer_expiry stp else stp);
               (t, expired) = stp_timer_expired (topology_change_timer stp) elapsed (max_age stp + forward_delay stp);
               stp = stp\<lparr>topology_change_timer := t\<rparr>;
               stp = (if expired then stp_topology_change_timer_expiry stp else stp);
               stp = for_each_enabled_port (tick_message_age elapsed) stp
           in for_each_enabled_port (tick_port elapsed) stp)"

section \<open>Creation and configuration\<close>

definition stp_initialize_port :: "nat \<Rightarrow> u8 \<Rightarrow> stp \<Rightarrow> stp result" where
  "stp_initialize_port i st stp =
     guardR (st AND (STP_DISABLED OR STP_BLOCKING) \<noteq> 0) Assertion
       (let stp = stp_become_designated_port i stp;
            stp = stp_set_port_state i st stp
        in Ok (upd_port i (\<lambda>p. p\<lparr>topology_change_ack := False, config_pending := False,
             change_detection_enabled := True, message_age_timer := stp_stop_timer (message_age_timer p),
             forward_delay_timer := stp_stop_timer (forward_delay_timer p),
             hold_timer := stp_stop_timer (hold_timer p)\<rparr>) stp))"

text \<open>What \<open>xcalloc\<close> returns.\<close>

definition zero_timer :: stp_timer where
  "zero_timer = \<lparr>active = False, tm_value = 0\<rparr>"

definition zero_stp_port :: stp_port where
  "zero_stp_port = \<lparr>port_id = 0, state = 0, path_cost = 0, p_designated_root = 0, designated_cost = 0,
     designated_bridge = 0, designated_port = 0, topology_change_ack = False, config_pending = False,
     change_detection_enabled = False, message_age_timer = zero_timer, forward_delay_timer = zero_timer,
     hold_timer = zero_timer, state_changed = False\<rparr>"

definition zero_stp :: stp where
  "zero_stp = \<lparr>stp_name = [], bridge_id = 0, max_age = 0, hello_time = 0, forward_delay = 0, bridge_max_age = 0,
     bridge_hello_time = 0, bridge_forward_delay = 0, rq_max_age = 0, rq_hello_time = 0, rq_forward_delay = 0,
     elapsed_remainder = 0, designated_root = 0, root_path_cost = 0, root_port = None,
     topology_change_detected = False, topology_change = False, hello_timer = zero_timer, tcn_timer = zero_timer,
     topology_change_timer = zero_timer, stp_ports = replicate STP_MAX_PORTS zero_stp_port,
     first_changed_port = 0, sent_bpdus = []\<rparr>"

definition create_port :: "nat \<Rightarrow> stp result \<Rightarrow> stp result" where
  "create_port i r =
     bindR r (\<lambda>stp. stp_initialize_port i STP_DISABLED
       (upd_port i (\<lambda>p. p\<lparr>port_id := of_nat (i + 1) OR push_bit 8 STP_DEFAULT_PORT_PRIORITY, path_cost := 19\<rparr>) stp))"

definition stp_create :: "string \<Rightarrow> u64 \<Rightarrow> stp result" where
  "stp_create nm bid =
     (let bid = (if drop_bit 48 bid = 0 then bid OR push_bit 48 STP_DEFAULT_BRIDGE_PRIORITY else bid);
          stp = zero_stp\<lparr>stp_name := nm, bridge_id := bid, rq_max_age := 6000, rq_hello_time := 2000,
                  rq_forward_delay := 4000\<rparr>;
          stp = use_bridge_timers (stp_update_bridge_timers stp);
          stp = stp\<lparr>designated_root := bridge_id stp, root_path_cost := 0, root_port := None,
                  topology_change_detected := False, topology_change := False,
                  tcn_timer := stp_stop_timer (tcn_timer stp),
                  topology_change_timer := stp_stop_timer (topology_change_timer stp),
                  hello_timer := stp_start_timer 0 (hello_timer stp), first_changed_port := STP_MAX_PORTS\<rparr>
      in fold create_port [0..<STP_MAX_PORTS] (Ok stp))"

definition set_bridge_id :: "u64 \<Rightarrow> stp \<Rightarrow> stp" where
  "set_bridge_id new_bridge_id stp =
     (if new_bridge_id \<noteq> bridge_id stp then
        let root = stp_is_root_bridge stp;
            stp = for_each_enabled_port (\<lambda>i stp.
                    if stp_is_designated_port stp i then upd_port i (\<lambda>p. p\<lparr>designated_bridge := new_bridge_id\<rparr>) stp
                    else stp) stp;
            stp = stp\<lparr>bridge_id := new_bridge_id\<rparr>
        in update_and_select root stp
      else stp)"

definition stp_set_bridge_id :: "u64 \<Rightarrow> stp \<Rightarrow> stp" where
  "stp_set_bridge_id bid stp =
     (let mac_bits = push_bit 48 1 - 1; pri_bits = NOT mac_bits
      in set_bridge_id ((bridge_id stp AND pri_bits) OR (bid AND mac_bits)) stp)"

definition stp_set_bridge_priority :: "u16 \<Rightarrow> stp \<Rightarrow> stp" where
  "stp_set_bridge_priority new_priority stp =
     (let mac_bits = push_bit 48 1 - 1
      in set_bridge_id ((bridge_id stp AND mac_bits) OR push_bit 48 (ucast new_priority)) stp)"

definition stp_set_hello_time :: "int \<Rightarrow> stp \<Rightarrow> stp" where
  "stp_set_hello_time ms stp = stp_update_bridge_timers (stp\<lparr>rq_hello_time := ms\<rparr>)"

definition stp_set_max_age :: "int \<Rightarrow> stp \<Rightarrow> stp" where
  "stp_set_max_age ms stp = stp_update_bridge_timers (stp\<lparr>rq_max_age := ms\<rparr>)"

definition stp_set_forward_delay :: "int \<Rightarrow> stp \<Rightarrow> stp" where
  "stp_set_forward_delay ms stp = stp_update_bridge_timers (stp\<lparr>rq_forward_delay := ms\<rparr>)"

definition stp_get_hello_time :: "stp \<Rightarrow> int" where
  "stp_get_hello_time stp = timer_to_ms (bridge_hello_time stp)"

definition stp_get_max_age :: "stp \<Rightarrow> int" where
  "stp_get_max_age stp = timer_to_ms (bridge_max_age stp)"

definition stp_get_forward_delay :: "stp \<Rightarrow> int" where
  "stp_get_forward_delay stp = timer_to_ms (bridge_forward_delay stp)"

definition stp_get_port :: "stp \<Rightarrow> int \<Rightarrow> nat result" where
  "stp_get_port stp no = guardR (no \<ge> 0 \<and> no < int STP_MAX_PORTS) Assertion (Ok (nat no))"

definition stp_get_changed_port :: "stp \<Rightarrow> stp \<times> nat option" where
  "stp_get_changed_port stp =
     (case find (\<lambda>i. state_changed (stp_port stp i)) [first_changed_port stp..<STP_MAX_PORTS] of
        Some i \<Rightarrow> ((upd_port i (\<lambda>p. p\<lparr>state_changed := False\<rparr>) stp)\<lparr>first_changed_port := i + 1\<rparr>, Some i)
      | None \<Rightarrow> (stp\<lparr>first_changed_port := STP_MAX_PORTS\<rparr>, None))"

definition stp_state_name :: "u8 \<Rightarrow> string result" where
  "stp_state_name st =
     (if st = STP_DISABLED then Ok ''disabled'' else if st = STP_LISTENING then Ok ''listening''
      else if st = STP_LEARNING then Ok ''learning'' else if st = STP_FORWARDING then Ok ''forwarding''
      else if st = STP_BLOCKING then Ok ''blocking'' else Fail Assertion)"

definition stp_forward_in_state :: "u8 \<Rightarrow> bool" where
  "stp_forward_in_state st \<longleftrightarrow> st AND (STP_DISABLED OR STP_FORWARDING) \<noteq> 0"

definition stp_learn_in_state :: "u8 \<Rightarrow> bool" where
  "stp_learn_in_state st \<longleftrightarrow> st AND (STP_DISABLED OR STP_LEARNING OR STP_FORWARDING) \<noteq> 0"

definition stp_port_disable :: "nat \<Rightarrow> stp \<Rightarrow> stp" where
  "stp_port_disable i stp =
     (if state (stp_port stp i) \<noteq> STP_DISABLED then
        let root = stp_is_root_bridge stp;
            stp = stp_set_port_state i STP_DISABLED (stp_become_designated_port i stp);
            stp = upd_port i (\<lambda>p. p\<lparr>topology_change_ack := False, config_pending := False,
                    message_age_timer := stp_stop_timer (message_age_timer p),
                    forward_delay_timer := stp_stop_timer (forward_delay_timer p)\<rparr>) stp
        in update_and_select root stp
      else stp)"

definition stp_port_enable :: "nat \<Rightarrow> stp \<Rightarrow> stp result" where
  "stp_port_enable i stp =
     (if state (stp_port stp i) = STP_DISABLED
      then mapR stp_port_state_selection (stp_initialize_port i STP_BLOCKING stp) else Ok stp)"

definition stp_port_set_priority :: "nat \<Rightarrow> u8 \<Rightarrow> stp \<Rightarrow> stp" where
  "stp_port_set_priority i new_priority stp =
     (let new_port_id = (port_id (stp_port stp i) AND 0xff) OR push_bit 8 (ucast new_priority)
      in if port_id (stp_port stp i) \<noteq> new_port_id then
           let stp = (if stp_is_designated_port stp i then upd_port i (\<lambda>p. p\<lparr>designated_port := new_port_id\<rparr>) stp
                      else stp);
               stp = upd_port i (\<lambda>p. p\<lparr>port_id := new_port_id\<rparr>) stp
           in if bridge_id stp = designated_bridge (stp_port stp i) \<and>
                 port_id (stp_port stp i) < designated_port (stp_port stp i)
              then stp_port_state_selection (stp_become_designated_port i stp) else stp
         else stp)"

definition stp_port_set_path_cost :: "nat \<Rightarrow> u16 \<Rightarrow> stp \<Rightarrow> stp" where
  "stp_port_set_path_cost i cost stp =
     (if path_cost (stp_port stp i) \<noteq> cost then
        stp_port_state_selection (stp_configuration_update (upd_port i (\<lambda>p. p\<lparr>path_cost := cost\<rparr>) stp))
      else stp)"

definition stp_port_set_speed :: "nat \<Rightarrow> u32 \<Rightarrow> stp \<Rightarrow> stp" where
  "stp_port_set_speed i speed =
     stp_port_set_path_cost i
       (if speed \<ge> 10000 then 2 else if speed \<ge> 1000 then 4 else if speed \<ge> 100 then 19
        else if speed \<ge> 16 then 62 else if speed \<ge> 10 then 100 else if speed \<ge> 4 then 250 else 19)"

definition stp_port_enable_change_detection :: "nat \<Rightarrow> stp \<Rightarrow> stp" where
  "stp_port_enable_change_detection i = upd_port i (\<lambda>p. p\<lparr>change_detection_enabled := True\<rparr>)"

definition stp_port_disable_change_detection :: "nat \<Rightarrow> stp \<Rightarrow> stp" where
  "stp_port_disable_change_detection i = upd_port i (\<lambda>p. p\<lparr>change_detection_enabled := False\<rparr>)"

end
