(* ===== verification/OF_Stp_Inv.thy ===== *)
theory OF_Stp_Inv
  imports OF_Stp "HOL-Library.Product_Lexorder"
begin

unbundle bit_operations_syntax

text \<open>
  The invariant of a bridge and its preservation by every operation. What the invariant speaks
  about is collected in a view of the bridge; the operations that only send messages or move
  timers keep the view.
\<close>

section \<open>The view of a bridge\<close>

definition port_view :: "stp_port \<Rightarrow> u16 \<times> u64 \<times> u16 \<times> u8 \<times> bool" where
  "port_view p = (port_id p, designated_bridge p, designated_port p, state p, state_changed p)"

definition stp_view :: "stp \<Rightarrow> u64 \<times> u64 \<times> u32 \<times> nat option \<times> nat \<times> (u16 \<times> u64 \<times> u16 \<times> u8 \<times> bool) list" where
  "stp_view s = (bridge_id s, designated_root s, root_path_cost s, root_port s, first_changed_port s, map port_view (stp_ports s))"

text \<open>A port takes part in the tree when it is neither disabled nor blocked.\<close>

definition takes_part :: "stp \<Rightarrow> nat \<Rightarrow> bool" where
  "takes_part s i \<longleftrightarrow> state (stp_port s i) \<notin> {STP_DISABLED, STP_BLOCKING}"

definition has_role :: "stp \<Rightarrow> nat \<Rightarrow> bool" where
  "has_role s i \<longleftrightarrow> root_port s = Some i \<or> stp_is_designated_port s i"

definition port_ok :: "stp \<Rightarrow> nat \<Rightarrow> bool" where
  "port_ok s i \<longleftrightarrow> state (stp_port s i) \<in> {STP_DISABLED, STP_LISTENING, STP_LEARNING, STP_FORWARDING, STP_BLOCKING} \<and>
     port_id (stp_port s i) AND 0xff = of_nat (i + 1) \<and>
     (state_changed (stp_port s i) \<longrightarrow> first_changed_port s \<le> i)"

text \<open>Well-formed apart from the roles, which are off between an update and the selection of states.\<close>

definition stp_wf :: "stp \<Rightarrow> bool" where
  "stp_wf s \<longleftrightarrow> length (stp_ports s) = STP_MAX_PORTS \<and> (\<forall>i < STP_MAX_PORTS. port_ok s i)"

definition root_ok :: "stp \<Rightarrow> bool" where
  "root_ok s \<longleftrightarrow> (case root_port s of
       None \<Rightarrow> designated_root s = bridge_id s \<and> root_path_cost s = 0
     | Some r \<Rightarrow> r < STP_MAX_PORTS \<and> state (stp_port s r) \<noteq> STP_DISABLED \<and> designated_root s < bridge_id s)"

definition roles_ok :: "stp \<Rightarrow> bool" where
  "roles_ok s \<longleftrightarrow> (\<forall>i < STP_MAX_PORTS. takes_part s i \<longrightarrow> has_role s i)"

definition stp_inv :: "stp \<Rightarrow> bool" where
  "stp_inv s \<longleftrightarrow> stp_wf s \<and> root_ok s \<and> roles_ok s"

lemma view_fields:
  assumes "stp_view s' = stp_view s"
  shows "bridge_id s' = bridge_id s" "designated_root s' = designated_root s" "root_path_cost s' = root_path_cost s"
    "root_port s' = root_port s" "first_changed_port s' = first_changed_port s" "length (stp_ports s') = length (stp_ports s)"
  using assms by (auto simp: stp_view_def dest: map_eq_imp_length_eq)

lemma view_port:
  assumes "stp_view s' = stp_view s" "i < length (stp_ports s)"
  shows "port_id (stp_port s' i) = port_id (stp_port s i)" "designated_bridge (stp_port s' i) = designated_bridge (stp_port s i)"
    "designated_port (stp_port s' i) = designated_port (stp_port s i)" "state (stp_port s' i) = state (stp_port s i)"
    "state_changed (stp_port s' i) = state_changed (stp_port s i)"
proof -
  have "map port_view (stp_ports s') ! i = map port_view (stp_ports s) ! i"
    using assms(1) by (simp add: stp_view_def)
  then show "port_id (stp_port s' i) = port_id (stp_port s i)" "designated_bridge (stp_port s' i) = designated_bridge (stp_port s i)"
    "designated_port (stp_port s' i) = designated_port (stp_port s i)" "state (stp_port s' i) = state (stp_port s i)"
    "state_changed (stp_port s' i) = state_changed (stp_port s i)"
    using assms(2) view_fields(6) [OF assms(1)] by (auto simp: port_view_def)
qed

lemma view_inv:
  assumes v: "stp_view s' = stp_view s" and wf: "stp_wf s"
  shows "stp_wf s'" "root_ok s' = root_ok s" "roles_ok s' = roles_ok s"
proof -
  have len: "length (stp_ports s) = STP_MAX_PORTS" using wf by (simp add: stp_wf_def)
  note p = view_port [OF v, unfolded len] and f = view_fields [OF v]
  have "port_ok s' i = port_ok s i" if "i < STP_MAX_PORTS" for i
    using p [OF that] f by (simp add: port_ok_def)
  then show "stp_wf s'" using wf f(6) by (simp add: stp_wf_def)
  show "root_ok s' = root_ok s" using p f by (auto simp: root_ok_def split: option.splits)
  show "roles_ok s' = roles_ok s"
    using p f by (auto simp: roles_ok_def takes_part_def has_role_def stp_is_designated_port_def)
qed

lemma view_stp_inv: "stp_view s' = stp_view s \<Longrightarrow> stp_inv s \<Longrightarrow> stp_inv s'"
  using view_inv [of s' s] by (simp add: stp_inv_def)

section \<open>Loops over the enabled ports\<close>

lemma for_each_upto:
  assumes "J 0 s"
    and "\<And>i s. i < STP_MAX_PORTS \<Longrightarrow> J i s \<Longrightarrow> state (stp_port s i) \<noteq> STP_DISABLED \<Longrightarrow> J (Suc i) (body i s)"
    and "\<And>i s. i < STP_MAX_PORTS \<Longrightarrow> J i s \<Longrightarrow> state (stp_port s i) = STP_DISABLED \<Longrightarrow> J (Suc i) s"
  shows "J STP_MAX_PORTS (for_each_enabled_port body s)"
proof -
  have "n \<le> STP_MAX_PORTS \<Longrightarrow>
    J n (fold (\<lambda>i stp. if state (stp_port stp i) \<noteq> STP_DISABLED then body i stp else stp) [0..<n] s)" for n
    by (induction n) (simp_all add: assms)
  then show ?thesis by (simp add: for_each_enabled_port_def)
qed

lemma for_each_keeps:
  assumes "I s" and "\<And>i s. i < STP_MAX_PORTS \<Longrightarrow> I s \<Longrightarrow> state (stp_port s i) \<noteq> STP_DISABLED \<Longrightarrow> I (body i s)"
  shows "I (for_each_enabled_port body s)"
  by (rule for_each_upto [of "\<lambda>_. I"]) (auto simp: assms)

lemma for_each_view:
  assumes "\<And>i s. stp_view (body i s) = stp_view s"
  shows "stp_view (for_each_enabled_port body s) = stp_view s"
  by (rule for_each_keeps [of "\<lambda>s'. stp_view s' = stp_view s"]) (simp_all add: assms)

section \<open>Operations that keep the view\<close>

named_theorems keeps_view \<open>operations that keep the view of a bridge\<close>

lemma nth_list_update': "xs[i := x] ! j = (if i = j \<and> i < length xs then x else xs ! j)"
  by (cases "i < length xs") (auto simp: nth_list_update list_update_beyond)

lemma upd_port_view:
  assumes "\<And>p. port_view (f p) = port_view p"
  shows "stp_view (upd_port i f s) = stp_view s"
proof -
  have "map port_view ((stp_ports s)[i := f (stp_port s i)]) = map port_view (stp_ports s)"
    by (rule nth_equalityI) (auto simp: assms nth_list_update')
  then show ?thesis by (simp add: stp_view_def upd_port_def)
qed

lemma view_upd_simps [simp]:
  "stp_view (s\<lparr>sent_bpdus := a\<rparr>) = stp_view s" "stp_view (s\<lparr>hello_timer := t\<rparr>) = stp_view s"
  "stp_view (s\<lparr>tcn_timer := t\<rparr>) = stp_view s" "stp_view (s\<lparr>topology_change_timer := t\<rparr>) = stp_view s"
  "stp_view (s\<lparr>topology_change := b\<rparr>) = stp_view s" "stp_view (s\<lparr>topology_change_detected := b\<rparr>) = stp_view s"
  "stp_view (s\<lparr>max_age := x\<rparr>) = stp_view s" "stp_view (s\<lparr>hello_time := x\<rparr>) = stp_view s"
  "stp_view (s\<lparr>forward_delay := x\<rparr>) = stp_view s" "stp_view (s\<lparr>elapsed_remainder := x\<rparr>) = stp_view s"
  "stp_view (s\<lparr>bridge_max_age := x\<rparr>) = stp_view s" "stp_view (s\<lparr>bridge_hello_time := x\<rparr>) = stp_view s"
  "stp_view (s\<lparr>bridge_forward_delay := x\<rparr>) = stp_view s" "stp_view (s\<lparr>rq_max_age := x\<rparr>) = stp_view s"
  "stp_view (s\<lparr>rq_hello_time := x\<rparr>) = stp_view s" "stp_view (s\<lparr>rq_forward_delay := x\<rparr>) = stp_view s"
  by (simp_all add: stp_view_def)

lemma view_upd_port_simps [simp]:
  "stp_view (upd_port i (\<lambda>p. p\<lparr>config_pending := b\<rparr>) s) = stp_view s"
  "stp_view (upd_port i (\<lambda>p. p\<lparr>topology_change_ack := b\<rparr>) s) = stp_view s"
  "stp_view (upd_port i (\<lambda>p. p\<lparr>topology_change_ack := b, config_pending := c\<rparr>) s) = stp_view s"
  "stp_view (upd_port i (\<lambda>p. p\<lparr>config_pending := b, topology_change_ack := c\<rparr>) s) = stp_view s"
  "stp_view (upd_port i (\<lambda>p. p\<lparr>hold_timer := h p\<rparr>) s) = stp_view s"
  "stp_view (upd_port i (\<lambda>p. p\<lparr>message_age_timer := h p\<rparr>) s) = stp_view s"
  "stp_view (upd_port i (\<lambda>p. p\<lparr>forward_delay_timer := h p\<rparr>) s) = stp_view s"
  "stp_view (upd_port i (\<lambda>p. p\<lparr>change_detection_enabled := b\<rparr>) s) = stp_view s"
  "stp_view (upd_port i (\<lambda>p. p\<lparr>path_cost := q\<rparr>) s) = stp_view s"
  "stp_view (upd_port i (\<lambda>p. p\<lparr>topology_change_ack := b, config_pending := c, message_age_timer := h p,
     forward_delay_timer := k p\<rparr>) s) = stp_view s"
  "stp_view (upd_port i (\<lambda>p. p\<lparr>topology_change_ack := b, config_pending := c, change_detection_enabled := d,
     message_age_timer := h p, forward_delay_timer := k p, hold_timer := l p\<rparr>) s) = stp_view s"
  by (simp_all add: upd_port_view port_view_def)

lemma use_bridge_timers_view [keeps_view]: "stp_view (use_bridge_timers s) = stp_view s"
  by (simp add: use_bridge_timers_def)

lemma stp_update_bridge_timers_view [keeps_view]: "stp_view (stp_update_bridge_timers s) = stp_view s"
  by (simp add: stp_update_bridge_timers_def Let_def use_bridge_timers_view)

lemma stp_send_bpdu_view [keeps_view]: "stp_view (stp_send_bpdu i b s) = stp_view s"
  by (simp add: stp_send_bpdu_def)

lemma stp_transmit_config_view [keeps_view]: "stp_view (stp_transmit_config i s) = stp_view s"
  by (simp add: stp_transmit_config_def Let_def stp_send_bpdu_view)

lemma stp_transmit_tcn_view [keeps_view]: "stp_view (stp_transmit_tcn s) = stp_view s"
  by (simp add: stp_transmit_tcn_def stp_send_bpdu_view split: option.split)

lemma stp_config_bpdu_generation_view [keeps_view]: "stp_view (stp_config_bpdu_generation s) = stp_view s"
  unfolding stp_config_bpdu_generation_def by (rule for_each_view) (simp add: stp_transmit_config_view)

lemma stp_topology_change_detection_view [keeps_view]: "stp_view (stp_topology_change_detection s) = stp_view s"
  by (simp add: stp_topology_change_detection_def Let_def stp_transmit_tcn_view)

lemma simple_operations_view [keeps_view]:
  "stp_view (stp_topology_change_acknowledged s) = stp_view s" "stp_view (stp_acknowledge_topology_change i s) = stp_view s"
  "stp_view (stp_become_root_bridge s) = stp_view s" "stp_view (stp_record_config_timeout_values c s) = stp_view s"
  "stp_view (stp_received_tcn_bpdu i s) = stp_view s" "stp_view (stp_hello_timer_expiry s) = stp_view s"
  "stp_view (stp_tcn_timer_expiry s) = stp_view s" "stp_view (stp_topology_change_timer_expiry s) = stp_view s"
  "stp_view (stp_hold_timer_expiry i s) = stp_view s" "stp_view (stp_set_hello_time ms s) = stp_view s"
  "stp_view (stp_set_max_age ms s) = stp_view s" "stp_view (stp_set_forward_delay ms s) = stp_view s"
  "stp_view (stp_port_enable_change_detection i s) = stp_view s" "stp_view (stp_port_disable_change_detection i s) = stp_view s"
  by (simp_all add: stp_topology_change_acknowledged_def stp_acknowledge_topology_change_def stp_become_root_bridge_def
      stp_record_config_timeout_values_def stp_received_tcn_bpdu_def stp_hello_timer_expiry_def stp_tcn_timer_expiry_def
      stp_topology_change_timer_expiry_def stp_hold_timer_expiry_def stp_set_hello_time_def stp_set_max_age_def
      stp_set_forward_delay_def stp_port_enable_change_detection_def stp_port_disable_change_detection_def Let_def
      stp_transmit_config_view stp_topology_change_detection_view use_bridge_timers_view stp_config_bpdu_generation_view
      stp_transmit_tcn_view stp_update_bridge_timers_view)

section \<open>Changing the state of a port\<close>

definition same_roles :: "stp \<Rightarrow> stp \<Rightarrow> bool" where
  "same_roles s s' \<longleftrightarrow> bridge_id s' = bridge_id s \<and> designated_root s' = designated_root s \<and> root_path_cost s' = root_path_cost s \<and>
     root_port s' = root_port s \<and> (\<forall>j < STP_MAX_PORTS. port_id (stp_port s' j) = port_id (stp_port s j) \<and>
       designated_bridge (stp_port s' j) = designated_bridge (stp_port s j) \<and>
       designated_port (stp_port s' j) = designated_port (stp_port s j) \<and>
       (state (stp_port s' j) = STP_DISABLED \<longleftrightarrow> state (stp_port s j) = STP_DISABLED))"

text \<open>A step that keeps roles and changes at most the state of one port.\<close>

definition port_step :: "nat \<Rightarrow> stp \<Rightarrow> stp \<Rightarrow> bool" where
  "port_step i s s' \<longleftrightarrow> stp_wf s' \<and> same_roles s s' \<and> (\<forall>j < STP_MAX_PORTS. j \<noteq> i \<longrightarrow> state (stp_port s' j) = state (stp_port s j))"

lemma same_roles_refl [simp]: "same_roles s s"
  by (simp add: same_roles_def)

lemma same_roles_trans: "same_roles a b \<Longrightarrow> same_roles b c \<Longrightarrow> same_roles a c"
  by (simp add: same_roles_def)

lemma port_step_trans: "port_step i a b \<Longrightarrow> port_step i b c \<Longrightarrow> port_step i a c"
  using same_roles_trans by (auto simp: port_step_def)

lemma port_step_wf: "port_step i s s' \<Longrightarrow> stp_wf s'"
  by (simp add: port_step_def)

lemma view_step:
  assumes "stp_view s' = stp_view s" "stp_wf s"
  shows "port_step i s s'" "\<forall>j < STP_MAX_PORTS. state (stp_port s' j) = state (stp_port s j)"
proof -
  have len: "length (stp_ports s) = STP_MAX_PORTS" using assms(2) by (simp add: stp_wf_def)
  show "port_step i s s'" "\<forall>j < STP_MAX_PORTS. state (stp_port s' j) = state (stp_port s j)"
    using view_inv(1) [OF assms] view_fields [OF assms(1)] view_port [OF assms(1), unfolded len]
    by (simp_all add: port_step_def same_roles_def)
qed

lemma port_step_view: "port_step i s s1 \<Longrightarrow> stp_view s2 = stp_view s1 \<Longrightarrow> port_step i s s2"
  using port_step_trans view_step(1) port_step_wf by blast

lemma same_roles_ok: "same_roles s s' \<Longrightarrow> root_ok s' = root_ok s"
  by (auto simp: same_roles_def root_ok_def split: option.split)

lemma same_roles_role: "same_roles s s' \<Longrightarrow> i < STP_MAX_PORTS \<Longrightarrow> has_role s' i = has_role s i"
  by (simp add: same_roles_def has_role_def stp_is_designated_port_def)

lemma stp_set_port_state_facts:
  assumes "i < length (stp_ports s)" and s'_def: "s' = stp_set_port_state i st s"
  shows "stp_ports s' = (stp_ports s)[i := (stp_port s i)\<lparr>state := st, state_changed := (state_changed (stp_port s i) \<or> st \<noteq> state (stp_port s i))\<rparr>]"
    "first_changed_port s' = (if st \<noteq> state (stp_port s i) \<and> \<not> state_changed (stp_port s i) \<and> i < first_changed_port s
       then i else first_changed_port s)"
    "bridge_id s' = bridge_id s" "designated_root s' = designated_root s" "root_path_cost s' = root_path_cost s" "root_port s' = root_port s"
  using assms(1) by (auto simp: s'_def stp_set_port_state_def upd_port_def Let_def list_eq_iff_nth_eq nth_list_update)

lemma set_state_wf:
  assumes wf: "stp_wf s" and i: "i < STP_MAX_PORTS"
    and st: "st \<in> {STP_DISABLED, STP_LISTENING, STP_LEARNING, STP_FORWARDING, STP_BLOCKING}"
  shows "stp_wf (stp_set_port_state i st s)" "state (stp_port (stp_set_port_state i st s) i) = st"
    "\<forall>j < STP_MAX_PORTS. j \<noteq> i \<longrightarrow> stp_port (stp_set_port_state i st s) j = stp_port s j"
proof -
  have len: "i < length (stp_ports s)" "length (stp_ports s) = STP_MAX_PORTS" using wf i by (simp_all add: stp_wf_def)
  note f = stp_set_port_state_facts [OF len(1) refl, of st]
  have ok: "port_ok s j" if "j < STP_MAX_PORTS" for j using wf that by (simp add: stp_wf_def)
  have "port_ok (stp_set_port_state i st s) j" if j: "j < STP_MAX_PORTS" for j
  proof (cases "j = i")
    case True
    then show ?thesis using ok [OF i] st len by (auto simp: port_ok_def f)
  next
    case False
    then show ?thesis using ok [OF j] by (auto simp: port_ok_def f)
  qed
  then show "stp_wf (stp_set_port_state i st s)" using len by (simp add: stp_wf_def f)
  show "state (stp_port (stp_set_port_state i st s) i) = st"
    "\<forall>j < STP_MAX_PORTS. j \<noteq> i \<longrightarrow> stp_port (stp_set_port_state i st s) j = stp_port s j"
    using len by (simp_all add: f)
qed

lemma set_state_step:
  assumes wf: "stp_wf s" and i: "i < STP_MAX_PORTS" and old: "state (stp_port s i) \<noteq> STP_DISABLED"
    and st: "st \<in> {STP_LISTENING, STP_LEARNING, STP_FORWARDING, STP_BLOCKING}"
  shows "port_step i s (stp_set_port_state i st s)"
proof -
  have len: "i < length (stp_ports s)" using wf i by (simp add: stp_wf_def)
  have st': "st \<in> {STP_DISABLED, STP_LISTENING, STP_LEARNING, STP_FORWARDING, STP_BLOCKING}" "st \<noteq> STP_DISABLED" using st by auto
  note f = stp_set_port_state_facts [OF len refl, of st] and w = set_state_wf [OF wf i st'(1)]
  have "port_id (stp_port (stp_set_port_state i st s) j) = port_id (stp_port s j) \<and>
      designated_bridge (stp_port (stp_set_port_state i st s) j) = designated_bridge (stp_port s j) \<and>
      designated_port (stp_port (stp_set_port_state i st s) j) = designated_port (stp_port s j) \<and>
      (state (stp_port (stp_set_port_state i st s) j) = STP_DISABLED \<longleftrightarrow> state (stp_port s j) = STP_DISABLED)"
    if "j < STP_MAX_PORTS" for j
    using len old st'(2) by (auto simp: f(1) nth_list_update')
  then show ?thesis using w f by (simp add: port_step_def same_roles_def)
qed

lemma make_forwarding_step:
  assumes "stp_wf s" "i < STP_MAX_PORTS"
  shows "port_step i s (stp_make_forwarding i s)"
proof (cases "state (stp_port s i) = STP_BLOCKING")
  case True
  have "port_step i s (stp_set_port_state i STP_LISTENING s)" using True by (intro set_state_step [OF assms]) simp_all
  then show ?thesis using True port_step_view by (simp add: stp_make_forwarding_def)
next
  case False
  then show ?thesis using view_step(1) [OF refl assms(1)] by (simp add: stp_make_forwarding_def)
qed

lemma make_blocking_step:
  assumes wf: "stp_wf s" and i: "i < STP_MAX_PORTS" and en: "state (stp_port s i) \<noteq> STP_DISABLED"
  shows "port_step i s (stp_make_blocking i s) \<and> state (stp_port (stp_make_blocking i s) i) = STP_BLOCKING"
proof (cases "state (stp_port s i) AND (STP_DISABLED OR STP_BLOCKING) = 0")
  case True
  define s1 where "s1 = (if state (stp_port s i) AND (STP_FORWARDING OR STP_LEARNING) \<noteq> 0 \<and> change_detection_enabled (stp_port s i)
    then stp_topology_change_detection s else s)"
  have v: "stp_view s1 = stp_view s" by (simp add: s1_def keeps_view)
  have 1: "port_step i s s1" "state (stp_port s1 i) \<noteq> STP_DISABLED" using view_step [OF v wf] i en by auto
  have w1: "stp_wf s1" by (rule port_step_wf [OF 1(1)])
  define s2 where "s2 = stp_set_port_state i STP_BLOCKING s1"
  have 2: "port_step i s1 s2" unfolding s2_def by (rule set_state_step [OF w1 i 1(2)]) simp
  have b: "state (stp_port s2 i) = STP_BLOCKING" unfolding s2_def by (rule set_state_wf(2) [OF w1 i]) simp
  let ?s3 = "upd_port i (\<lambda>p. p\<lparr>forward_delay_timer := stp_stop_timer (forward_delay_timer p)\<rparr>) s2"
  have v3: "stp_view ?s3 = stp_view s2" by simp
  have eq: "stp_make_blocking i s = ?s3" using True by (simp add: stp_make_blocking_def Let_def s1_def s2_def)
  show ?thesis
    unfolding eq
  proof
    show "port_step i s ?s3"
      by (rule port_step_view [OF port_step_trans [OF 1(1) 2] v3])
    show "state (stp_port ?s3 i) = STP_BLOCKING" using view_step(2) [OF v3 port_step_wf [OF 2]] b i by simp
  qed
next
  case False
  have "state (stp_port s i) \<in> {STP_LISTENING, STP_LEARNING, STP_FORWARDING, STP_BLOCKING}"
    using wf i en by (auto simp: stp_wf_def port_ok_def)
  then have "state (stp_port s i) = STP_BLOCKING" using False by (elim insertE) simp_all
  then show ?thesis using view_step(1) [OF refl wf] False by (simp add: stp_make_blocking_def)
qed

section \<open>Selection of states\<close>

lemma state_selection_step:
  assumes wf: "stp_wf s"
  shows "stp_wf (stp_port_state_selection s)" "same_roles s (stp_port_state_selection s)" "roles_ok (stp_port_state_selection s)"
proof -
  define J where "J k s' \<longleftrightarrow> stp_wf s' \<and> same_roles s s' \<and> (\<forall>j < k. takes_part s' j \<longrightarrow> has_role s' j)" for k s'
  have adv: "J (Suc i) s'" if i: "i < STP_MAX_PORTS" and J: "J i s0" and st: "port_step i s0 s'"
    and role: "takes_part s' i \<Longrightarrow> has_role s0 i" for i s0 s'
  proof -
    have r: "same_roles s0 s'" "same_roles s s'" using J st same_roles_trans by (auto simp: J_def port_step_def)
    have "has_role s' j" if j: "j < Suc i" and t: "takes_part s' j" for j
    proof (cases "j = i")
      case True
      then show ?thesis using role t same_roles_role [OF r(1) i] by simp
    next
      case False
      then have "takes_part s0 j" using st t j i by (simp add: port_step_def takes_part_def)
      then show ?thesis using J j False i same_roles_role [OF r(1), of j] by (simp add: J_def)
    qed
    then show ?thesis using st r by (simp add: J_def port_step_def)
  qed
  have "J STP_MAX_PORTS (stp_port_state_selection s)"
    unfolding stp_port_state_selection_def
  proof (rule for_each_upto)
    show "J 0 s" using wf by (simp add: J_def)
  next
    fix i s0 assume i: "i < STP_MAX_PORTS" and J: "J i s0" and en: "state (stp_port s0 i) \<noteq> STP_DISABLED"
    have w: "stp_wf s0" using J by (simp add: J_def)
    have fwd: "port_step i s0 (stp_make_forwarding i s1)" if "stp_view s1 = stp_view s0" for s1
      using port_step_trans [OF view_step(1) [OF that w] make_forwarding_step [OF view_inv(1) [OF that w] i]] .
    have blk: "port_step i s0 (stp_make_blocking i s1) \<and> state (stp_port (stp_make_blocking i s1) i) = STP_BLOCKING"
      if "stp_view s1 = stp_view s0" for s1
      using port_step_trans [OF view_step(1) [OF that w]] make_blocking_step [OF view_inv(1) [OF that w] i]
        view_step(2) [OF that w] i en by auto
    show "J (Suc i) (if root_port s0 = Some i then
         stp_make_forwarding i (upd_port i (\<lambda>p. p\<lparr>config_pending := False, topology_change_ack := False\<rparr>) s0)
       else if stp_is_designated_port s0 i then
         stp_make_forwarding i (upd_port i (\<lambda>p. p\<lparr>message_age_timer := stp_stop_timer (message_age_timer p)\<rparr>) s0)
       else
         stp_make_blocking i (upd_port i (\<lambda>p. p\<lparr>config_pending := False, topology_change_ack := False\<rparr>) s0))"
      by (rule adv [OF i J]) (simp_all add: fwd blk has_role_def takes_part_def split: if_splits)
  next
    fix i s0 assume "i < STP_MAX_PORTS" "J i s0" "state (stp_port s0 i) = STP_DISABLED"
    then show "J (Suc i) s0" by (auto simp: J_def takes_part_def less_Suc_eq)
  qed
  then show "stp_wf (stp_port_state_selection s)" "same_roles s (stp_port_state_selection s)" "roles_ok (stp_port_state_selection s)"
    by (simp_all add: J_def roles_ok_def)
qed

lemma selection_inv: "stp_wf s \<Longrightarrow> root_ok s \<Longrightarrow> stp_inv (stp_port_state_selection s)"
  using state_selection_step [of s] same_roles_ok [OF state_selection_step(2)] by (simp add: stp_inv_def)

section \<open>Selection of the root and of the designated ports\<close>

lemma upd_port_wf:
  assumes f: "\<And>p. port_id (f p) = port_id p \<and> state (f p) = state p \<and> state_changed (f p) = state_changed p" and wf: "stp_wf s"
  shows "stp_wf (upd_port i f s)" "root_ok (upd_port i f s) = root_ok s"
proof -
  have p: "port_id (stp_port (upd_port i f s) j) = port_id (stp_port s j) \<and> state (stp_port (upd_port i f s) j) = state (stp_port s j) \<and>
      state_changed (stp_port (upd_port i f s) j) = state_changed (stp_port s j)" for j
    by (auto simp: upd_port_def nth_list_update' f)
  moreover have "first_changed_port (upd_port i f s) = first_changed_port s" "root_port (upd_port i f s) = root_port s"
    "length (stp_ports (upd_port i f s)) = length (stp_ports s)" "designated_root (upd_port i f s) = designated_root s"
    "bridge_id (upd_port i f s) = bridge_id s" "root_path_cost (upd_port i f s) = root_path_cost s"
    by (simp_all add: upd_port_def)
  ultimately show "stp_wf (upd_port i f s)" "root_ok (upd_port i f s) = root_ok s"
    using wf by (simp_all add: stp_wf_def port_ok_def root_ok_def split: option.split)
qed

lemma become_designated_wf:
  "stp_wf s \<Longrightarrow> stp_wf (stp_become_designated_port i s)" "stp_wf s \<Longrightarrow> root_ok (stp_become_designated_port i s) = root_ok s"
  unfolding stp_become_designated_port_def by (rule upd_port_wf; simp)+

lemma record_information_wf: "stp_wf s \<Longrightarrow> stp_wf (stp_record_config_information i c s)"
  unfolding stp_record_config_information_def by (rule upd_port_wf) simp_all

lemma best_root_candidate: "best_root s = Some r \<Longrightarrow> r < STP_MAX_PORTS \<and> root_candidate s r"
proof -
  let ?f = "\<lambda>i root. if \<not> root_candidate s i then root else case root of
      Some r \<Rightarrow> if \<not> stp_supersedes_root (stp_port s r) (stp_port s i) then root else Some i | None \<Rightarrow> Some i"
  have "fold ?f [0..<n] None = Some r \<Longrightarrow> r < n \<and> root_candidate s r" for n
    by (induction n) (auto split: if_splits option.splits)
  then show "best_root s = Some r \<Longrightarrow> r < STP_MAX_PORTS \<and> root_candidate s r" by (simp add: best_root_def)
qed

lemma root_selection_fields:
  "stp_ports (stp_root_selection s) = stp_ports s" "bridge_id (stp_root_selection s) = bridge_id s"
  "first_changed_port (stp_root_selection s) = first_changed_port s" "root_port (stp_root_selection s) = best_root s"
  by (simp_all add: stp_root_selection_def Let_def split: option.split)

lemma root_selection_ok: "root_ok (stp_root_selection s)"
proof (cases "best_root s")
  case None
  then show ?thesis by (simp add: stp_root_selection_def root_ok_def)
next
  case (Some r)
  then show ?thesis
    using best_root_candidate [OF Some] by (auto simp: stp_root_selection_def root_ok_def root_candidate_def)
qed

lemma root_selection_wf: "stp_wf s \<Longrightarrow> stp_wf (stp_root_selection s)"
  by (simp add: stp_wf_def port_ok_def root_selection_fields)

lemma designated_selection_wf:
  assumes "stp_wf s" "root_ok s"
  shows "stp_wf (stp_designated_port_selection s) \<and> root_ok (stp_designated_port_selection s)"
  unfolding stp_designated_port_selection_def
  by (rule for_each_keeps [of "\<lambda>s. stp_wf s \<and> root_ok s"]) (simp_all add: assms Let_def become_designated_wf)

lemma configuration_update_wf:
  "stp_wf s \<Longrightarrow> stp_wf (stp_configuration_update s)" "stp_wf s \<Longrightarrow> root_ok (stp_configuration_update s)"
  using designated_selection_wf [OF root_selection_wf root_selection_ok] by (simp_all add: stp_configuration_update_def)

lemma update_selection_inv: "stp_wf s \<Longrightarrow> stp_inv (stp_port_state_selection (stp_configuration_update s))"
  by (simp add: selection_inv configuration_update_wf)

lemma update_and_select_inv: "stp_wf s \<Longrightarrow> stp_inv (update_and_select root s)"
  using update_selection_inv [of s] by (auto simp: update_and_select_def Let_def intro: view_stp_inv simp: keeps_view)

section \<open>Operations\<close>

lemma stp_inv_wf: "stp_inv s \<Longrightarrow> stp_wf s" "stp_inv s \<Longrightarrow> root_ok s"
  by (simp_all add: stp_inv_def)

lemma received_config_inv:
  assumes "stp_inv s"
  shows "stp_inv (stp_received_config_bpdu i c s)"
proof -
  define s1 where "s1 = stp_port_state_selection (stp_configuration_update (stp_record_config_information i c s))"
  have 1: "stp_inv s1" unfolding s1_def by (intro update_selection_inv record_information_wf stp_inv_wf assms)
  show ?thesis
    using assms 1
    by (auto simp: stp_received_config_bpdu_def Let_def s1_def [symmetric] keeps_view
        elim: view_stp_inv [rotated])
qed

lemma received_bpdu_inv: "stp_inv s \<Longrightarrow> stp_inv (stp_received_bpdu i b s)"
  using received_config_inv view_stp_inv by (simp add: stp_received_bpdu_def keeps_view)

lemma message_age_expiry_inv: "stp_inv s \<Longrightarrow> stp_inv (stp_message_age_timer_expiry i s)"
  by (simp add: stp_message_age_timer_expiry_def update_and_select_inv become_designated_wf stp_inv_wf)

lemma port_step_inv:
  assumes inv: "stp_inv s" and st: "port_step i s s'" and t: "takes_part s' i \<Longrightarrow> takes_part s i"
  shows "stp_inv s'"
proof -
  have r: "same_roles s s'" "stp_wf s'" using st by (simp_all add: port_step_def)
  have "has_role s' j" if j: "j < STP_MAX_PORTS" and tp: "takes_part s' j" for j
  proof -
    have "takes_part s j" using st t tp j by (cases "j = i") (auto simp: port_step_def takes_part_def)
    then show ?thesis using inv j same_roles_role [OF r(1) j] by (simp add: stp_inv_def roles_ok_def)
  qed
  then show ?thesis using r same_roles_ok [OF r(1)] inv by (simp add: stp_inv_def roles_ok_def)
qed

lemma forward_delay_expiry_inv:
  assumes inv: "stp_inv s" and i: "i < STP_MAX_PORTS"
  shows "stp_inv (stp_forward_delay_timer_expiry i s)"
proof -
  have set: "stp_inv (stp_set_port_state i st s)"
    if "state (stp_port s i) \<in> {STP_LISTENING, STP_LEARNING}" "st \<in> {STP_LEARNING, STP_FORWARDING}" for st
    using that by (intro port_step_inv [OF inv set_state_step [OF stp_inv_wf(1) [OF inv] i]]) (auto simp: takes_part_def)
  show ?thesis
  proof (cases "state (stp_port s i) = STP_LISTENING")
    case True
    then show ?thesis using set [of STP_LEARNING] view_stp_inv by (simp add: stp_forward_delay_timer_expiry_def)
  next
    case False
    then show ?thesis
      using inv set [of STP_FORWARDING] view_stp_inv
      by (simp add: stp_forward_delay_timer_expiry_def Let_def keeps_view)
  qed
qed

lemma tick_message_age_inv: "stp_inv s \<Longrightarrow> stp_inv (tick_message_age e i s)"
  using message_age_expiry_inv view_stp_inv by (simp add: tick_message_age_def Let_def split: prod.split)

lemma tick_port_inv:
  assumes inv: "stp_inv s" and i: "i < STP_MAX_PORTS"
  shows "stp_inv (tick_port e i s)"
proof -
  obtain t x where tx: "stp_timer_expired (forward_delay_timer (stp_port s i)) e (forward_delay s) = (t, x)" by fastforce
  define s1 where "s1 = upd_port i (\<lambda>p. p\<lparr>forward_delay_timer := t\<rparr>) s"
  define s2 where "s2 = (if x then stp_forward_delay_timer_expiry i s1 else s1)"
  have 1: "stp_inv s1" using inv view_stp_inv [of s1 s] by (simp add: s1_def)
  have 2: "stp_inv s2" using forward_delay_expiry_inv [OF 1 i] 1 by (simp add: s2_def)
  show ?thesis
    unfolding tick_port_def Let_def tx prod.case s1_def [symmetric] s2_def [symmetric]
    by (rule view_stp_inv [OF _ 2]) (simp add: keeps_view split: prod.split)
qed

lemma stp_tick_inv:
  assumes inv: "stp_inv s"
  shows "stp_inv (stp_tick ms s)"
proof -
  define m where "m = clamp ms 0 (2147483647 - 1000) + elapsed_remainder s"
  define e where "e = ms_to_timer m"
  define s0 where "s0 = s\<lparr>elapsed_remainder := ms_to_timer_remainder m\<rparr>"
  obtain t1 x1 where 1: "stp_timer_expired (hello_timer s0) e (hello_time s0) = (t1, x1)" by fastforce
  define s1 where "s1 = (if x1 then stp_hello_timer_expiry (s0\<lparr>hello_timer := t1\<rparr>) else s0\<lparr>hello_timer := t1\<rparr>)"
  obtain t2 x2 where 2: "stp_timer_expired (tcn_timer s1) e (bridge_hello_time s1) = (t2, x2)" by fastforce
  define s2 where "s2 = (if x2 then stp_tcn_timer_expiry (s1\<lparr>tcn_timer := t2\<rparr>) else s1\<lparr>tcn_timer := t2\<rparr>)"
  obtain t3 x3 where 3: "stp_timer_expired (topology_change_timer s2) e (max_age s2 + forward_delay s2) = (t3, x3)" by fastforce
  define s3 where "s3 = (if x3 then stp_topology_change_timer_expiry (s2\<lparr>topology_change_timer := t3\<rparr>)
    else s2\<lparr>topology_change_timer := t3\<rparr>)"
  have v: "stp_view s0 = stp_view s" "stp_view s3 = stp_view s" by (simp_all add: s0_def s1_def s2_def s3_def keeps_view)
  have "stp_inv (for_each_enabled_port (tick_port e) (for_each_enabled_port (tick_message_age e) s3))"
  proof (rule for_each_keeps)
    show "stp_inv (for_each_enabled_port (tick_message_age e) s3)"
      by (rule for_each_keeps) (rule view_stp_inv [OF v(2) inv], rule tick_message_age_inv)
  qed (rule tick_port_inv)
  moreover have "stp_inv s0" by (rule view_stp_inv [OF v(1) inv])
  ultimately show ?thesis
    unfolding stp_tick_def Let_def m_def [symmetric] e_def [symmetric] s0_def [symmetric] 1 prod.case s1_def [symmetric] 2
      s2_def [symmetric] 3 s3_def [symmetric] by simp
qed

text \<open>The low byte of the identifier of a port is its number plus one and never changes.\<close>

lemma priority_low_byte: "((x :: u16) AND 0xff OR push_bit 8 y) AND 0xff = x AND 0xff"
proof (rule bit_word_eqI)
  fix n assume "n < LENGTH(16)"
  have "bit (0xff :: u16) n \<longleftrightarrow> n < 8"
    using bit_mask_iff [where 'a = u16, of 8 n] \<open>n < LENGTH(16)\<close> by (simp add: mask_eq_exp_minus_1)
  then show "bit ((x AND 0xff OR push_bit 8 y) AND 0xff) n = bit (x AND 0xff) n"
    by (auto simp: bit_and_iff bit_or_iff bit_push_bit_iff)
qed

lemma set_priority_inv:
  assumes inv: "stp_inv s" and i: "i < STP_MAX_PORTS"
  shows "stp_inv (stp_port_set_priority i pr s)"
proof -
  define new where "new = (port_id (stp_port s i) AND 0xff) OR push_bit 8 (ucast pr :: u16)"
  define s1 where "s1 = upd_port i (\<lambda>p. p\<lparr>port_id := new\<rparr>)
    (if stp_is_designated_port s i then upd_port i (\<lambda>p. p\<lparr>designated_port := new\<rparr>) s else s)"
  have len: "length (stp_ports s) = STP_MAX_PORTS" using inv by (simp add: stp_inv_def stp_wf_def)
  have fields: "root_port s1 = root_port s" "bridge_id s1 = bridge_id s" "designated_root s1 = designated_root s"
    "root_path_cost s1 = root_path_cost s" "first_changed_port s1 = first_changed_port s" "length (stp_ports s1) = STP_MAX_PORTS"
    using len by (simp_all add: s1_def upd_port_def)
  have port: "stp_port s1 i = (stp_port s i)\<lparr>port_id := new,
      designated_port := (if stp_is_designated_port s i then new else designated_port (stp_port s i))\<rparr>"
    "\<And>j. j \<noteq> i \<Longrightarrow> stp_port s1 j = stp_port s j"
    using len i by (auto simp: s1_def upd_port_def)
  have low: "new AND 0xff = port_id (stp_port s i) AND 0xff" by (simp add: new_def priority_low_byte)
  have "port_ok s1 j" if "j < STP_MAX_PORTS" for j
    using inv that low fields port by (cases "j = i") (auto simp: stp_inv_def stp_wf_def port_ok_def)
  then have wf: "stp_wf s1" using fields by (simp add: stp_wf_def)
  have root: "root_ok s1"
  proof -
    have "state (stp_port s1 j) = state (stp_port s j)" for j using port by (cases "j = i") auto
    then show ?thesis using stp_inv_wf(2) [OF inv] fields by (simp add: root_ok_def cong: option.case_cong)
  qed
  have "has_role s1 j" if j: "j < STP_MAX_PORTS" and t: "takes_part s1 j" for j
  proof -
    have "takes_part s j" using t port by (cases "j = i") (auto simp: takes_part_def)
    then have "has_role s j" using inv j by (simp add: stp_inv_def roles_ok_def)
    then show ?thesis using port fields by (cases "j = i") (auto simp: has_role_def stp_is_designated_port_def)
  qed
  then have "stp_inv s1" using wf root by (simp add: stp_inv_def roles_ok_def)
  moreover have "stp_inv (stp_port_state_selection (stp_become_designated_port i s1))"
    using wf root by (simp add: selection_inv become_designated_wf)
  ultimately show ?thesis
    using inv by (simp add: stp_port_set_priority_def Let_def new_def [symmetric] s1_def [symmetric])
qed

lemma set_path_cost_inv: "stp_inv s \<Longrightarrow> stp_inv (stp_port_set_path_cost i c s)"
  using view_inv(1) [OF view_upd_port_simps(9) stp_inv_wf(1)] update_selection_inv by (simp add: stp_port_set_path_cost_def)

lemma set_bridge_id_inv:
  assumes "stp_inv s"
  shows "stp_inv (set_bridge_id b s)"
proof -
  let ?body = "\<lambda>i s. if stp_is_designated_port s i then upd_port i (\<lambda>p. p\<lparr>designated_bridge := b\<rparr>) s else s"
  have "stp_wf (for_each_enabled_port ?body s)"
    by (rule for_each_keeps) (auto simp: stp_inv_wf [OF assms] intro: upd_port_wf)
  then have "stp_wf ((for_each_enabled_port ?body s)\<lparr>bridge_id := b\<rparr>)" by (simp add: stp_wf_def port_ok_def)
  then show ?thesis using assms update_and_select_inv by (simp add: set_bridge_id_def Let_def)
qed

lemma port_disable_inv:
  assumes inv: "stp_inv s" and i: "i < STP_MAX_PORTS"
  shows "stp_inv (stp_port_disable i s)"
proof -
  define s1 where "s1 = stp_set_port_state i STP_DISABLED (stp_become_designated_port i s)"
  have w: "stp_wf s1" unfolding s1_def by (rule set_state_wf(1)) (simp_all add: i become_designated_wf stp_inv_wf [OF inv])
  then show ?thesis
    using inv update_and_select_inv view_inv(1) [OF _ w]
    by (simp add: stp_port_disable_def Let_def s1_def [symmetric])
qed

lemma port_enable_inv:
  assumes inv: "stp_inv s" and i: "i < STP_MAX_PORTS" and e: "stp_port_enable i s = Ok s'"
  shows "stp_inv s'"
proof (cases "state (stp_port s i) = STP_DISABLED")
  case True
  define s0 where "s0 = stp_become_designated_port i s"
  define s1 where "s1 = stp_set_port_state i STP_BLOCKING s0"
  have w0: "stp_wf s0" "root_ok s0" by (simp_all add: s0_def become_designated_wf stp_inv_wf [OF inv])
  have st: "stp_wf s1" "state (stp_port s1 i) = STP_BLOCKING" "\<forall>j < STP_MAX_PORTS. j \<noteq> i \<longrightarrow> stp_port s1 j = stp_port s0 j"
    unfolding s1_def by (rule set_state_wf [OF w0(1) i]; simp)+
  have len: "i < length (stp_ports s0)" using w0(1) i by (simp add: stp_wf_def)
  note f = stp_set_port_state_facts(3-6) [OF len s1_def]
  have r: "root_ok s1"
  proof (cases "root_port s0")
    case None
    then show ?thesis using w0(2) f by (simp add: root_ok_def)
  next
    case (Some r)
    then have "r < STP_MAX_PORTS" "state (stp_port s1 r) \<noteq> STP_DISABLED"
      using w0(2) st(2,3) by (cases "r = i"; simp add: root_ok_def)+
    then show ?thesis using w0(2) f Some by (simp add: root_ok_def)
  qed
  obtain s2 where s2: "s' = stp_port_state_selection s2" "stp_view s2 = stp_view s1"
    using e True by (auto simp: stp_port_enable_def stp_initialize_port_def Let_def s0_def [symmetric] s1_def [symmetric])
  then show ?thesis using view_inv [OF s2(2) st(1)] r by (simp add: selection_inv)
next
  case False
  then show ?thesis using e inv by (simp add: stp_port_enable_def)
qed

lemma port_enabled:
  assumes inv: "stp_inv s" and i: "i < STP_MAX_PORTS" and e: "stp_port_enable i s = Ok s'"
  shows "state (stp_port s' i) \<noteq> STP_DISABLED"
proof (cases "state (stp_port s i) = STP_DISABLED")
  case True
  define s0 where "s0 = stp_become_designated_port i s"
  define s1 where "s1 = stp_set_port_state i STP_BLOCKING s0"
  have w0: "stp_wf s0" by (simp add: s0_def become_designated_wf stp_inv_wf [OF inv])
  have st: "stp_wf s1" "state (stp_port s1 i) = STP_BLOCKING"
    unfolding s1_def by (rule set_state_wf [OF w0 i]; simp)+
  obtain s2 where s2: "s' = stp_port_state_selection s2" "stp_view s2 = stp_view s1"
    using e True by (auto simp: stp_port_enable_def stp_initialize_port_def Let_def s0_def [symmetric] s1_def [symmetric])
  have "same_roles s2 s'" using state_selection_step(2) view_inv(1) [OF s2(2) st(1)] s2(1) by simp
  then show ?thesis using view_step(2) [OF s2(2) st(1)] st(2) i by (simp add: same_roles_def)
next
  case False
  then show ?thesis using e by (simp add: stp_port_enable_def)
qed

section \<open>Creation\<close>

text \<open>After the first \<open>k\<close> ports have been set up.\<close>

definition created :: "nat \<Rightarrow> stp \<Rightarrow> bool" where
  "created k s \<longleftrightarrow> length (stp_ports s) = STP_MAX_PORTS \<and> root_port s = None \<and> designated_root s = bridge_id s \<and>
     root_path_cost s = 0 \<and> (\<forall>j < k. port_ok s j \<and> state (stp_port s j) = STP_DISABLED) \<and>
     (\<forall>j. k \<le> j \<and> j < STP_MAX_PORTS \<longrightarrow> \<not> state_changed (stp_port s j) \<and> state (stp_port s j) = 0)"

lemma port_id_low: "i < STP_MAX_PORTS \<Longrightarrow> (of_nat (i + 1) OR push_bit 8 STP_DEFAULT_PORT_PRIORITY :: u16) AND 0xff = of_nat (i + 1)"
proof -
  assume i: "i < STP_MAX_PORTS"
  have m: "(0xff :: u16) = mask 8" by (simp add: mask_eq_exp_minus_1)
  have "(of_nat (i + 1) OR push_bit 8 STP_DEFAULT_PORT_PRIORITY :: u16) AND 0xff = take_bit 8 (of_nat (i + 1))"
    unfolding m take_bit_eq_mask [symmetric] by (simp add: take_bit_or take_bit_push_bit del: of_nat_Suc)
  also have "\<dots> = of_nat (i + 1)"
    unfolding take_bit_of_nat using i by (simp add: take_bit_nat_eq_self del: of_nat_add of_nat_Suc)
  finally show ?thesis .
qed

lemma create_port_step:
  assumes c: "created i s" and i: "i < STP_MAX_PORTS"
  shows "\<exists>s'. create_port i (Ok s) = Ok s' \<and> created (Suc i) s'"
proof -
  define s0 where "s0 = stp_become_designated_port i
    (upd_port i (\<lambda>p. p\<lparr>port_id := of_nat (i + 1) OR push_bit 8 STP_DEFAULT_PORT_PRIORITY, path_cost := 19\<rparr>) s)"
  define s1 where "s1 = stp_set_port_state i STP_DISABLED s0"
  define s2 where "s2 = upd_port i (\<lambda>p. p\<lparr>topology_change_ack := False, config_pending := False,
             change_detection_enabled := True, message_age_timer := stp_stop_timer (message_age_timer p),
             forward_delay_timer := stp_stop_timer (forward_delay_timer p),
             hold_timer := stp_stop_timer (hold_timer p)\<rparr>) s1"
  have eq: "create_port i (Ok s) = Ok s2"
    by (simp add: create_port_def stp_initialize_port_def Let_def s0_def s1_def s2_def)
  have len: "i < length (stp_ports s0)" using c i by (simp add: created_def s0_def stp_become_designated_port_def upd_port_def)
  note f1 = stp_set_port_state_facts [OF len s1_def]
  have p0: "\<And>j. j \<noteq> i \<Longrightarrow> stp_port s0 j = stp_port s j" "state (stp_port s0 i) = 0" "\<not> state_changed (stp_port s0 i)"
    "port_id (stp_port s0 i) = of_nat (i + 1) OR push_bit 8 STP_DEFAULT_PORT_PRIORITY"
    "root_port s0 = None" "designated_root s0 = bridge_id s0" "root_path_cost s0 = 0" "length (stp_ports s0) = STP_MAX_PORTS"
    "first_changed_port s0 = first_changed_port s"
    using c i by (simp_all add: created_def s0_def stp_become_designated_port_def upd_port_def)
  have port: "\<And>j. j \<noteq> i \<Longrightarrow> stp_port s2 j = stp_port s j" "state (stp_port s2 i) = STP_DISABLED" "state_changed (stp_port s2 i)"
    "port_id (stp_port s2 i) = of_nat (i + 1) OR push_bit 8 STP_DEFAULT_PORT_PRIORITY"
    using p0 f1 len by (simp_all add: s2_def upd_port_def)
  have fields: "root_port s2 = None" "designated_root s2 = bridge_id s2" "root_path_cost s2 = 0" "length (stp_ports s2) = STP_MAX_PORTS"
    "first_changed_port s2 = (if i < first_changed_port s then i else first_changed_port s)"
    using p0 f1 by (simp_all add: s2_def upd_port_def)
  have "port_ok s2 j \<and> state (stp_port s2 j) = STP_DISABLED" if "j < Suc i" for j
  proof (cases "j = i")
    case True
    then show ?thesis using port(2-4) fields port_id_low [OF i] by (simp add: port_ok_def del: of_nat_add of_nat_Suc)
  next
    case False
    then have "port_ok s j \<and> state (stp_port s j) = STP_DISABLED" using c that by (simp add: created_def)
    then show ?thesis using port(1) [OF False] fields by (auto simp: port_ok_def)
  qed
  moreover have "\<not> state_changed (stp_port s2 j) \<and> state (stp_port s2 j) = 0" if "Suc i \<le> j" "j < STP_MAX_PORTS" for j
    using c that port(1) [of j] by (simp add: created_def)
  ultimately show ?thesis using eq fields by (simp add: created_def)
qed

lemma stp_create_inv: "\<exists>s. stp_create nm bid = Ok s \<and> stp_inv s"
proof -
  have all: "\<exists>s'. fold create_port [0..<n] (Ok s) = Ok s' \<and> created n s'" if "created 0 s" "n \<le> STP_MAX_PORTS" for n s
    using that(2)
  proof (induction n)
    case 0
    then show ?case using that(1) by simp
  next
    case (Suc n)
    then obtain s1 where "fold create_port [0..<n] (Ok s) = Ok s1" "created n s1" by auto
    then show ?case using create_port_step [of n s1] Suc.prems by simp
  qed
  have fin: "stp_inv s" if "created STP_MAX_PORTS s" for s
    using that by (simp add: created_def stp_inv_def stp_wf_def root_ok_def roles_ok_def takes_part_def)
  define b where "b = (if drop_bit 48 bid = 0 then bid OR push_bit 48 STP_DEFAULT_BRIDGE_PRIORITY else bid)"
  define s0 where "s0 = use_bridge_timers (stp_update_bridge_timers (zero_stp\<lparr>stp_name := nm, bridge_id := b, rq_max_age := 6000,
    rq_hello_time := 2000, rq_forward_delay := 4000\<rparr>))"
  have "stp_ports s0 = replicate STP_MAX_PORTS zero_stp_port"
    by (simp add: s0_def stp_update_bridge_timers_def use_bridge_timers_def Let_def zero_stp_def)
  then have "created 0 (s0\<lparr>designated_root := bridge_id s0, root_path_cost := 0, root_port := None,
      topology_change_detected := False, topology_change := False, tcn_timer := stp_stop_timer (tcn_timer s0),
      topology_change_timer := stp_stop_timer (topology_change_timer s0),
      hello_timer := stp_start_timer 0 (hello_timer s0), first_changed_port := STP_MAX_PORTS\<rparr>)"
    by (simp add: created_def zero_stp_port_def)
  from all [OF this order_refl] show ?thesis
    unfolding stp_create_def Let_def b_def [symmetric] s0_def [symmetric] using fin by blast
qed

section \<open>Reporting changes of state\<close>

lemma find_upt: "find P [a..<b] = Some i \<Longrightarrow> a \<le> i \<and> i < b \<and> P i \<and> (\<forall>j. a \<le> j \<and> j < i \<longrightarrow> \<not> P j)"
  by (auto simp: find_Some_iff) (metis add_less_cancel_left le_add_diff_inverse)

lemma get_changed_spec:
  assumes inv: "stp_inv s" and g: "stp_get_changed_port s = (s', r)"
  shows "stp_inv s'" "r = None \<longleftrightarrow> (\<forall>i < STP_MAX_PORTS. \<not> state_changed (stp_port s i))"
    "r = Some i \<Longrightarrow> i < STP_MAX_PORTS \<and> state_changed (stp_port s i) \<and> (\<forall>j < i. \<not> state_changed (stp_port s j))"
    "\<forall>j < STP_MAX_PORTS. state_changed (stp_port s' j) \<longleftrightarrow> state_changed (stp_port s j) \<and> r \<noteq> Some j"
proof -
  have len: "length (stp_ports s) = STP_MAX_PORTS" using inv by (simp add: stp_inv_def stp_wf_def)
  have ok: "first_changed_port s \<le> i" if "i < STP_MAX_PORTS" "state_changed (stp_port s i)" for i
    using inv that by (simp add: stp_inv_def stp_wf_def port_ok_def)
  have "stp_inv s' \<and> (r = None \<longleftrightarrow> (\<forall>i < STP_MAX_PORTS. \<not> state_changed (stp_port s i))) \<and>
    (\<forall>i. r = Some i \<longrightarrow> i < STP_MAX_PORTS \<and> state_changed (stp_port s i) \<and> (\<forall>j < i. \<not> state_changed (stp_port s j))) \<and>
    (\<forall>j < STP_MAX_PORTS. state_changed (stp_port s' j) \<longleftrightarrow> state_changed (stp_port s j) \<and> r \<noteq> Some j)"
  proof (cases "find (\<lambda>i. state_changed (stp_port s i)) [first_changed_port s..<STP_MAX_PORTS]")
    case None
    then have none: "\<not> state_changed (stp_port s i)" if "i < STP_MAX_PORTS" for i
      using ok that by (auto simp: find_None_iff)
    have s': "s' = s\<lparr>first_changed_port := STP_MAX_PORTS\<rparr>" "r = None" using g None by (auto simp: stp_get_changed_port_def)
    have "stp_inv s'"
      using inv none by (auto simp: s' stp_inv_def stp_wf_def port_ok_def root_ok_def roles_ok_def takes_part_def has_role_def
          stp_is_designated_port_def split: option.splits)
    then show ?thesis using none s' by simp
  next
    case (Some k)
    note k = find_upt [OF Some]
    have before: "\<not> state_changed (stp_port s j)" if "j < k" for j using k that ok [of j] by (metis less_trans)
    have s': "s' = (upd_port k (\<lambda>p. p\<lparr>state_changed := False\<rparr>) s)\<lparr>first_changed_port := k + 1\<rparr>" "r = Some k"
      using g Some by (auto simp: stp_get_changed_port_def)
    have p: "stp_port s' j = (if j = k then (stp_port s j)\<lparr>state_changed := False\<rparr> else stp_port s j)" for j
      using k len by (auto simp: s' upd_port_def)
    have f: "root_port s' = root_port s" "bridge_id s' = bridge_id s" "designated_root s' = designated_root s"
      "root_path_cost s' = root_path_cost s" "length (stp_ports s') = STP_MAX_PORTS" "first_changed_port s' = k + 1"
      using len by (simp_all add: s' upd_port_def)
    have "port_ok s' j" if "j < STP_MAX_PORTS" for j
      using inv that before [of j] by (cases "j < k") (auto simp: stp_inv_def stp_wf_def port_ok_def p f)
    then have "stp_wf s'" using f by (simp add: stp_wf_def)
    moreover have "root_ok s'" using stp_inv_wf(2) [OF inv] by (auto simp: root_ok_def p f split: option.splits)
    moreover have "roles_ok s'"
      using inv by (auto simp: stp_inv_def roles_ok_def takes_part_def has_role_def stp_is_designated_port_def p f)
    ultimately have "stp_inv s'" by (simp add: stp_inv_def)
    then show ?thesis using k before s' p by auto
  qed
  then show "stp_inv s'" "r = None \<longleftrightarrow> (\<forall>i < STP_MAX_PORTS. \<not> state_changed (stp_port s i))"
    "r = Some i \<Longrightarrow> i < STP_MAX_PORTS \<and> state_changed (stp_port s i) \<and> (\<forall>j < i. \<not> state_changed (stp_port s j))"
    "\<forall>j < STP_MAX_PORTS. state_changed (stp_port s' j) \<longleftrightarrow> state_changed (stp_port s j) \<and> r \<noteq> Some j"
    by blast+
qed

section \<open>The bridge as a state machine\<close>

text \<open>A step is a call of one of the functions of the interface.\<close>

inductive stp_step :: "stp \<Rightarrow> stp \<Rightarrow> bool" where
  step_tick: "stp_step s (stp_tick ms s)"
| step_bpdu: "i < STP_MAX_PORTS \<Longrightarrow> stp_step s (stp_received_bpdu i b s)"
| step_enable: "i < STP_MAX_PORTS \<Longrightarrow> stp_port_enable i s = Ok s' \<Longrightarrow> stp_step s s'"
| step_disable: "i < STP_MAX_PORTS \<Longrightarrow> stp_step s (stp_port_disable i s)"
| step_priority: "i < STP_MAX_PORTS \<Longrightarrow> stp_step s (stp_port_set_priority i pr s)"
| step_cost: "i < STP_MAX_PORTS \<Longrightarrow> stp_step s (stp_port_set_path_cost i c s)"
| step_speed: "i < STP_MAX_PORTS \<Longrightarrow> stp_step s (stp_port_set_speed i sp s)"
| step_detect: "i < STP_MAX_PORTS \<Longrightarrow> stp_step s (stp_port_enable_change_detection i s)"
| step_ignore: "i < STP_MAX_PORTS \<Longrightarrow> stp_step s (stp_port_disable_change_detection i s)"
| step_bridge: "stp_step s (stp_set_bridge_id bid s)"
| step_bridge_priority: "stp_step s (stp_set_bridge_priority bp s)"
| step_hello: "stp_step s (stp_set_hello_time ms s)"
| step_max_age: "stp_step s (stp_set_max_age ms s)"
| step_delay: "stp_step s (stp_set_forward_delay ms s)"
| step_changed: "stp_step s (fst (stp_get_changed_port s))"

inductive stp_reach :: "stp \<Rightarrow> bool" where
  reach_create: "stp_create nm bid = Ok s \<Longrightarrow> stp_reach s"
| reach_step: "stp_reach s \<Longrightarrow> stp_step s s' \<Longrightarrow> stp_reach s'"

lemma stp_step_inv:
  assumes "stp_step s s'" "stp_inv s"
  shows "stp_inv s'"
  using assms
proof (cases rule: stp_step.cases)
  case (step_enable i)
  then show ?thesis using port_enable_inv assms(2) by blast
next
  case step_changed
  then show ?thesis using get_changed_spec(1) [OF assms(2)] by (metis prod.collapse)
qed (auto simp: stp_tick_inv received_bpdu_inv port_disable_inv set_priority_inv set_path_cost_inv stp_port_set_speed_def
    stp_set_bridge_id_def stp_set_bridge_priority_def Let_def set_bridge_id_inv keeps_view intro: view_stp_inv)

lemma stp_reach_inv: "stp_reach s \<Longrightarrow> stp_inv s"
proof (induction rule: stp_reach.induct)
  case (reach_create nm bid s)
  then show ?case using stp_create_inv [of nm bid] by auto
qed (rule stp_step_inv)

end
