(* ===== verification/OF_Stp_Props.thy ===== *)
theory OF_Stp_Props
  imports OF_Stp_Inv
begin

unbundle bit_operations_syntax

text \<open>Properties of the spanning tree protocol.\<close>

section \<open>Roles and states\<close>

text \<open>C16: In every state that a bridge can reach, from its creation through any sequence of received
  messages, passages of time and changes of its configuration, a port that forwards packets, or
  learns, or listens is the root port or the designated port of its LAN; every port has one of the five
  states and keeps its own number in its identifier; the root port is enabled and leads to a bridge
  with a smaller identifier, and a bridge without root port takes itself for the root; no pending
  change of state lies before the position from which changes are reported.\<close>

theorem stp_reachable_invariant:
  assumes "stp_reach s"
  shows "stp_inv s \<and> (\<forall>i < STP_MAX_PORTS. stp_forward_in_state (state (stp_port s i)) \<longrightarrow>
    state (stp_port s i) = STP_DISABLED \<or> root_port s = Some i \<or> stp_is_designated_port s i)"
proof -
  have inv: "stp_inv s" by (rule stp_reach_inv [OF assms])
  have "takes_part s i" if "i < STP_MAX_PORTS" "stp_forward_in_state (state (stp_port s i))" "state (stp_port s i) \<noteq> STP_DISABLED" for i
    using that by (auto simp: takes_part_def stp_forward_in_state_def)
  then show ?thesis using inv by (auto simp: stp_inv_def roles_ok_def has_role_def)
qed

theorem stp_reachable_invariant_witness:
  "\<exists>s. stp_create ''br0'' 5 = Ok s \<and> stp_inv (stp_tick 1000 s)"
proof -
  obtain s where s: "stp_create ''br0'' 5 = Ok s" using stp_create_inv by blast
  have "stp_reach (stp_tick 1000 s)" by (rule reach_step [OF reach_create [OF s] step_tick])
  then show ?thesis using stp_reachable_invariant s by blast
qed

section \<open>The root port\<close>

text \<open>The order of the standard: root, cost of the path, bridge, port, own port.\<close>

definition root_key :: "stp_port \<Rightarrow> u64 \<times> int \<times> u64 \<times> u16 \<times> u16" where
  "root_key p = (p_designated_root p, sint (designated_cost p + ucast (path_cost p)), designated_bridge p, designated_port p, port_id p)"

lemma supersedes_root_key: "stp_supersedes_root root p \<longleftrightarrow> root_key p < root_key root"
proof -
  have "sint a = sint b \<longleftrightarrow> a = b" for a b :: u32 by (metis word_eq_iff_signed)
  then show ?thesis
    by (auto simp: stp_supersedes_root_def root_key_def Let_def order_le_less)
qed

lemma root_key_distinct:
  assumes "stp_wf s" "i < STP_MAX_PORTS" "j < STP_MAX_PORTS" "root_key (stp_port s i) = root_key (stp_port s j)"
  shows "i = j"
proof -
  have "(of_nat (i + 1) :: u16) = of_nat (j + 1)"
    using assms unfolding root_key_def stp_wf_def port_ok_def by (metis prod.inject)
  then have "unat (of_nat (i + 1) :: u16) = unat (of_nat (j + 1) :: u16)" by simp
  then show ?thesis using assms(2,3) by (simp add: unat_of_nat_less del: of_nat_add of_nat_Suc)
qed

lemma best_root_least:
  "case best_root s of
     None \<Rightarrow> \<forall>i < STP_MAX_PORTS. \<not> root_candidate s i
   | Some r \<Rightarrow> r < STP_MAX_PORTS \<and> root_candidate s r \<and>
       (\<forall>i < STP_MAX_PORTS. root_candidate s i \<longrightarrow> root_key (stp_port s r) \<le> root_key (stp_port s i))"
proof -
  let ?f = "\<lambda>i root. if \<not> root_candidate s i then root else case root of
      Some r \<Rightarrow> if \<not> stp_supersedes_root (stp_port s r) (stp_port s i) then root else Some i | None \<Rightarrow> Some i"
  have "case fold ?f [0..<n] None of
     None \<Rightarrow> \<forall>i < n. \<not> root_candidate s i
   | Some r \<Rightarrow> r < n \<and> root_candidate s r \<and> (\<forall>i < n. root_candidate s i \<longrightarrow> root_key (stp_port s r) \<le> root_key (stp_port s i))" for n
  proof (induction n)
    case (Suc n)
    then show ?case
      by (cases "fold ?f [0..<n] None") (auto simp: supersedes_root_key less_Suc_eq not_less intro: order_trans less_imp_le)
  qed simp
  then show ?thesis by (simp add: best_root_def)
qed

text \<open>C17: The loop that chooses the root port finds the one that the standard names: the port is
  chosen exactly if it is a candidate, that is enabled, not designated and told of a root better
  than this bridge, and is strictly before every other candidate in the lexicographic order of root,
  path cost, designated bridge, designated port and own identifier. No port is chosen exactly if there is no
  candidate. The bridge takes over the root of the chosen port.\<close>

theorem root_selection_is_minimum:
  assumes "stp_wf s"
  shows "(root_port (stp_root_selection s) = Some r \<longleftrightarrow> r < STP_MAX_PORTS \<and> root_candidate s r \<and>
      (\<forall>i < STP_MAX_PORTS. root_candidate s i \<and> i \<noteq> r \<longrightarrow> root_key (stp_port s r) < root_key (stp_port s i))) \<and>
    (root_port (stp_root_selection s) = None \<longleftrightarrow> (\<forall>i < STP_MAX_PORTS. \<not> root_candidate s i)) \<and>
    designated_root (stp_root_selection s) =
      (case root_port (stp_root_selection s) of None \<Rightarrow> bridge_id s | Some r \<Rightarrow> p_designated_root (stp_port s r))"
proof -
  have d: "designated_root (stp_root_selection s) = (case best_root s of None \<Rightarrow> bridge_id s | Some r \<Rightarrow> p_designated_root (stp_port s r))"
    by (simp add: stp_root_selection_def Let_def split: option.split)
  show ?thesis
  proof (cases "best_root s")
    case None
    then show ?thesis using best_root_least [of s] d by (auto simp: root_selection_fields)
  next
    case (Some q)
    then have q: "q < STP_MAX_PORTS" "root_candidate s q"
      "\<And>i. i < STP_MAX_PORTS \<Longrightarrow> root_candidate s i \<Longrightarrow> root_key (stp_port s q) \<le> root_key (stp_port s i)"
      using best_root_least [of s] by auto
    have "root_key (stp_port s q) < root_key (stp_port s i)" if "i < STP_MAX_PORTS" "root_candidate s i" "i \<noteq> q" for i
      using q(3) [OF that(1,2)] root_key_distinct [OF assms q(1) that(1)] that(3) by (auto simp: order_less_le)
    moreover have "r = q" if "r < STP_MAX_PORTS" "root_candidate s r"
      "\<forall>i < STP_MAX_PORTS. root_candidate s i \<and> i \<noteq> r \<longrightarrow> root_key (stp_port s r) < root_key (stp_port s i)"
      using that q(1,2) q(3) [OF that(1,2)] by (metis not_less)
    ultimately show ?thesis using Some q(1,2) d by (auto simp: root_selection_fields)
  qed
qed

theorem root_selection_is_minimum_witness:
  "\<exists>s. stp_create ''br0'' 5 = Ok s \<and> (root_port (stp_root_selection s) = None \<longleftrightarrow> (\<nexists>i. i < STP_MAX_PORTS \<and> root_candidate s i))"
proof -
  obtain s where s: "stp_create ''br0'' 5 = Ok s" "stp_wf s" using stp_create_inv stp_inv_wf by blast
  then show ?thesis using root_selection_is_minimum [OF s(2)] by blast
qed

section \<open>Designated ports\<close>

text \<open>What a port knows about its LAN, and what this bridge would announce there.\<close>

definition known :: "stp_port \<Rightarrow> u64 \<times> u32 \<times> u64 \<times> u16" where
  "known p = (p_designated_root p, designated_cost p, designated_bridge p, designated_port p)"

definition announced :: "stp \<Rightarrow> nat \<Rightarrow> u64 \<times> u32 \<times> u64 \<times> u16" where
  "announced s i = (designated_root s, root_path_cost s, bridge_id s, port_id (stp_port s i))"

definition settled :: "stp \<Rightarrow> nat \<Rightarrow> bool" where
  "settled s i \<longleftrightarrow> (if stp_is_designated_port s i then known (stp_port s i) = announced s i
     else p_designated_root (stp_port s i) = designated_root s \<and> known (stp_port s i) < announced s i)"

lemma become_designated_fields:
  "stp_port (stp_become_designated_port i s) j = (if i = j \<and> i < length (stp_ports s) then (stp_port s i)\<lparr>p_designated_root := designated_root s,
     designated_cost := root_path_cost s, designated_bridge := bridge_id s, designated_port := port_id (stp_port s i)\<rparr> else stp_port s j)"
  "bridge_id (stp_become_designated_port i s) = bridge_id s" "designated_root (stp_become_designated_port i s) = designated_root s"
  "root_path_cost (stp_become_designated_port i s) = root_path_cost s"
  "length (stp_ports (stp_become_designated_port i s)) = length (stp_ports s)"
  by (auto simp: stp_become_designated_port_def upd_port_def nth_list_update')

lemma settled_other: "j \<noteq> i \<Longrightarrow> settled (stp_become_designated_port i s) j = settled s j"
  by (simp add: settled_def known_def announced_def stp_is_designated_port_def become_designated_fields)

text \<open>C18: After an update of the configuration every enabled port is settled: if it is designated, what
  it records for its LAN is exactly what this bridge announces there; otherwise the LAN has been
  told of the same root by a bridge, or by another port, whose announcement is strictly better in the
  lexicographic order of root, cost, bridge and port.\<close>

theorem configuration_update_settles:
  assumes wf: "stp_wf s" and i: "i < STP_MAX_PORTS" and en: "state (stp_port s i) \<noteq> STP_DISABLED"
  shows "settled (stp_configuration_update s) i"
proof -
  define r where "r = stp_root_selection s"
  have len: "length (stp_ports r) = STP_MAX_PORTS" using wf by (simp add: r_def root_selection_fields stp_wf_def)
  define J where "J k s' \<longleftrightarrow> length (stp_ports s') = STP_MAX_PORTS \<and> (\<forall>j < STP_MAX_PORTS. state (stp_port s' j) = state (stp_port s j)) \<and>
    (\<forall>j < k. state (stp_port s j) \<noteq> STP_DISABLED \<longrightarrow> settled s' j)" for k s'
  have "J STP_MAX_PORTS (stp_designated_port_selection r)"
    unfolding stp_designated_port_selection_def
  proof (rule for_each_upto)
    show "J 0 r" using len by (simp add: J_def r_def root_selection_fields)
  next
    fix i s0 assume i: "i < STP_MAX_PORTS" and J: "J i s0" and "state (stp_port s0 i) \<noteq> STP_DISABLED"
    define c where "c \<longleftrightarrow> stp_is_designated_port s0 i \<or> p_designated_root (stp_port s0 i) \<noteq> designated_root s0 \<or>
      root_path_cost s0 < designated_cost (stp_port s0 i) \<or>
      root_path_cost s0 = designated_cost (stp_port s0 i) \<and> (bridge_id s0 < designated_bridge (stp_port s0 i) \<or>
        bridge_id s0 = designated_bridge (stp_port s0 i) \<and> port_id (stp_port s0 i) \<le> designated_port (stp_port s0 i))"
    define s1 where "s1 = (if c then stp_become_designated_port i s0 else s0)"
    have "settled s1 i"
    proof (cases c)
      case True
      then show ?thesis
        using J i by (simp add: s1_def settled_def known_def announced_def stp_is_designated_port_def become_designated_fields J_def)
    next
      case False
      then show ?thesis by (auto simp: s1_def c_def settled_def known_def announced_def order_le_less)
    qed
    moreover have "settled s1 j" if "settled s0 j" "j \<noteq> i" for j using that by (simp add: s1_def settled_other)
    moreover have "length (stp_ports s1) = STP_MAX_PORTS" "\<forall>j < STP_MAX_PORTS. state (stp_port s1 j) = state (stp_port s j)"
      using J by (auto simp: s1_def J_def become_designated_fields)
    ultimately have "J (Suc i) s1" using J by (auto simp: J_def less_Suc_eq)
    then show "J (Suc i) (let p = stp_port s0 i in
        if stp_is_designated_port s0 i \<or> p_designated_root p \<noteq> designated_root s0 \<or> root_path_cost s0 < designated_cost p \<or>
           root_path_cost s0 = designated_cost p \<and> (bridge_id s0 < designated_bridge p \<or>
             bridge_id s0 = designated_bridge p \<and> port_id p \<le> designated_port p)
        then stp_become_designated_port i s0 else s0)"
      by (simp add: s1_def c_def Let_def)
  next
    fix i s0 assume "i < STP_MAX_PORTS" "J i s0" "state (stp_port s0 i) = STP_DISABLED"
    then show "J (Suc i) s0" by (auto simp: J_def less_Suc_eq)
  qed
  then show ?thesis using i en by (simp add: J_def stp_configuration_update_def r_def)
qed

theorem configuration_update_settles_witness:
  "\<exists>s s'. stp_create ''br0'' 5 = Ok s \<and> stp_port_enable 3 s = Ok s' \<and> settled (stp_configuration_update s') 3"
proof -
  obtain s where s: "stp_create ''br0'' 5 = Ok s" "stp_inv s" using stp_create_inv by blast
  have "\<exists>s'. stp_port_enable 3 s = Ok s'" by (simp add: stp_port_enable_def stp_initialize_port_def Let_def)
  then obtain s' where e: "stp_port_enable 3 s = Ok s'" by blast
  have inv: "stp_inv s'" by (rule port_enable_inv [OF s(2) _ e]) simp
  have "state (stp_port s' 3) \<noteq> STP_DISABLED" by (rule port_enabled [OF s(2) _ e]) simp
  then show ?thesis using configuration_update_settles [OF stp_inv_wf(1) [OF inv], of 3] s(1) e by auto
qed

section \<open>Messages\<close>

lemma take_drop_le:
  "take n (drop k (xs @ ys)) = (if k + n \<le> length xs then take n (drop k xs) else if length xs \<le> k then take n (drop (k - length xs) ys)
     else take n (drop k xs) @ take (n - (length xs - k)) ys)"
  by auto

lemma config_round_trip_bytes: "length (config_bytes c) = 35" "config_at (config_bytes c) = c" "ld16 (config_bytes c) 0 = htons STP_PROTOCOL_ID"
  "ld8 (config_bytes c) 3 = STP_TYPE_CONFIG"
proof -
  have le: "take n (le_bytes n x) = le_bytes n x" for n and x :: "'a::len word" by simp
  show "length (config_bytes c) = 35" by (simp add: config_bytes_def bpdu_header_def)
  show "config_at (config_bytes c) = c"
    by (simp add: config_at_def config_bytes_def bpdu_header_def load_defs take_drop_le le le_word_full del: le_bytes.simps)
  show "ld16 (config_bytes c) 0 = htons STP_PROTOCOL_ID" "ld8 (config_bytes c) 3 = STP_TYPE_CONFIG"
    by (simp_all add: config_bytes_def bpdu_header_def load_defs take_drop_le le le_word_full del: le_bytes.simps)
qed

text \<open>C21: The configuration message that one bridge encodes is decoded by the next as the message
  meant: whatever the fields are, a port that is not disabled and receives the encoded bytes,
  followed by any padding, processes exactly these fields.\<close>

theorem config_message_round_trip:
  "config_at (config_bytes c @ padding) = c \<and>
   stp_received_bpdu i (config_bytes c @ padding) s =
     (if state (stp_port s i) = STP_DISABLED then s else stp_received_config_bpdu i c s)"
proof -
  have p: "config_at (config_bytes c @ padding) = config_at (config_bytes c)"
    "ld16 (config_bytes c @ padding) 0 = ld16 (config_bytes c) 0" "ld8 (config_bytes c @ padding) 3 = ld8 (config_bytes c) 3"
    using config_round_trip_bytes(1) by (simp_all add: config_at_def load_defs take_drop_le)
  show ?thesis using config_round_trip_bytes by (simp add: p stp_received_bpdu_def)
qed

section \<open>Topology changes\<close>

lemma flag_masks: "htons STP_CONFIG_TOPOLOGY_CHANGE_ACK = push_bit 15 1" "htons STP_CONFIG_TOPOLOGY_CHANGE = push_bit 8 1"
  by code_simp+

lemma high_mask_lost:
  assumes "\<And>n. n < 8 \<Longrightarrow> \<not> bit (m :: u16) n"
  shows "ucast ((ucast (f :: u8) :: u16) OR m) = f" "(ucast f :: u16) AND m = 0"
proof -
  show "ucast ((ucast f :: u16) OR m) = f" using assms by (auto intro!: bit_word_eqI simp: bit_simps)
  have "\<not> (bit f n \<and> bit m n)" for n using assms [of n] by (cases "n < 8") simp_all
  then show "(ucast f :: u16) AND m = 0" by (auto intro!: bit_word_eqI simp: bit_simps)
qed

lemma flags_cut: "or_flag f STP_CONFIG_TOPOLOGY_CHANGE_ACK = f" "or_flag f STP_CONFIG_TOPOLOGY_CHANGE = f"
  "\<not> has_flag f STP_CONFIG_TOPOLOGY_CHANGE_ACK" "\<not> has_flag f STP_CONFIG_TOPOLOGY_CHANGE"
proof -
  have hi: "\<not> bit (htons STP_CONFIG_TOPOLOGY_CHANGE_ACK) n" "\<not> bit (htons STP_CONFIG_TOPOLOGY_CHANGE) n" if "n < 8" for n
    using that unfolding flag_masks bit_push_bit_iff by simp_all
  show "or_flag f STP_CONFIG_TOPOLOGY_CHANGE_ACK = f" "or_flag f STP_CONFIG_TOPOLOGY_CHANGE = f"
    "\<not> has_flag f STP_CONFIG_TOPOLOGY_CHANGE_ACK" "\<not> has_flag f STP_CONFIG_TOPOLOGY_CHANGE"
    by (simp_all add: or_flag_def has_flag_def high_mask_lost hi)
qed

named_theorems stays_detected \<open>operations after which a detected topology change is still detected\<close>

lemma detected_upd [stays_detected]: "topology_change_detected (upd_port i f s) = topology_change_detected s"
  by (simp add: upd_port_def)

lemma detected_set_state [stays_detected]: "topology_change_detected (stp_set_port_state i st s) = topology_change_detected s"
  by (simp add: stp_set_port_state_def Let_def stays_detected)

lemma detected_send [stays_detected]:
  "topology_change_detected (stp_send_bpdu i b s) = topology_change_detected s"
  "topology_change_detected (stp_transmit_tcn s) = topology_change_detected s"
  "topology_change_detected (stp_transmit_config i s) = topology_change_detected s"
  "topology_change_detected (stp_topology_change_detection s)"
  by (simp_all add: stp_transmit_tcn_def stp_transmit_config_def stp_topology_change_detection_def stp_send_bpdu_def Let_def
      stays_detected split: option.split)

lemma detected_generation [stays_detected]: "topology_change_detected s \<Longrightarrow> topology_change_detected (stp_config_bpdu_generation s)"
  unfolding stp_config_bpdu_generation_def by (rule for_each_keeps) (simp_all add: stays_detected)

lemma detected_selection [stays_detected]:
  "topology_change_detected s \<Longrightarrow> topology_change_detected (stp_port_state_selection s)"
  unfolding stp_port_state_selection_def
  by (rule for_each_keeps) (simp_all add: stp_make_forwarding_def stp_make_blocking_def Let_def stays_detected)

lemma detected_update [stays_detected]:
  "topology_change_detected s \<Longrightarrow> topology_change_detected (stp_configuration_update s)"
proof -
  assume "topology_change_detected s"
  then have "topology_change_detected (stp_root_selection s)" by (simp add: stp_root_selection_def Let_def split: option.split)
  then show ?thesis
    unfolding stp_configuration_update_def stp_designated_port_selection_def
    by (rule for_each_keeps) (simp add: Let_def stp_become_designated_port_def stays_detected)
qed

lemma detected_record [stays_detected]:
  "topology_change_detected (stp_record_config_information i c s) = topology_change_detected s"
  "topology_change_detected (stp_record_config_timeout_values c s) = topology_change_detected s"
  by (simp_all add: stp_record_config_information_def stp_record_config_timeout_values_def stays_detected)

text \<open>C19: The flags of a configuration message are lost. They are one octet, but are set and tested with
  masks passed through \<open>htons\<close>, which moves them into the other octet: the flags of every message sent are
  zero, whatever the state of the bridge; no received octet is taken for an acknowledgement
  or for a topology change; and a detected topology change therefore stays detected whatever message
  arrives.\<close>

theorem topology_flags_lost:
  "c_flags (config_for s i) = 0 \<and> \<not> topology_change (stp_record_config_timeout_values c s) \<and>
   (topology_change_detected s \<longrightarrow> topology_change_detected (stp_received_bpdu j b s))"
proof (intro conjI impI)
  show "c_flags (config_for s i) = 0" by (simp add: config_for_def Let_def flags_cut)
  show "\<not> topology_change (stp_record_config_timeout_values c s)"
    by (simp add: stp_record_config_timeout_values_def flags_cut)
  assume d: "topology_change_detected s"
  define s1 where "s1 = stp_port_state_selection (stp_configuration_update (stp_record_config_information j (config_at b) s))"
  have "topology_change_detected s1" using d by (simp add: s1_def stays_detected)
  then have "topology_change_detected (stp_received_config_bpdu j (config_at b) s)"
    using d by (simp add: stp_received_config_bpdu_def Let_def s1_def [symmetric] flags_cut stays_detected)
  then show "topology_change_detected (stp_received_bpdu j b s)"
    using d by (simp add: stp_received_bpdu_def stp_received_tcn_bpdu_def stp_acknowledge_topology_change_def stays_detected)
qed

theorem topology_flags_lost_witness:
  "topology_change_detected (stp_received_bpdu 0 [0, 0, 0, 0x80] (zero_stp\<lparr>topology_change_detected := True\<rparr>))"
  using topology_flags_lost [of "zero_stp\<lparr>topology_change_detected := True\<rparr>" 0 undefined 0 "[0, 0, 0, 0x80]"] by simp

section \<open>Timers\<close>

lemma int32_id: "- 2147483648 \<le> x \<Longrightarrow> x < 2147483648 \<Longrightarrow> int32 x = x"
  by (simp add: int32_def sint_sbintrunc' signed_take_bit_int_eq_self)

lemma sdiv_nonneg: "0 \<le> x \<Longrightarrow> 0 < y \<Longrightarrow> x sdiv y = x div (y :: int)"
  by (auto simp: signed_divide_int_def sgn_if)

lemma ms_to_timer_eq: "0 \<le> x \<Longrightarrow> x \<le> 8388607 \<Longrightarrow> ms_to_timer x = x * 256 div 1000"
  by (simp add: ms_to_timer_def int32_id sdiv_nonneg)

lemma clamp_bounds: "mn \<le> mx \<Longrightarrow> mn \<le> clamp x mn mx \<and> clamp x mn mx \<le> mx"
  by (simp add: clamp_def)

text \<open>C20: Whatever times the user asks for, the times in use stay in the ranges of the standard and
  the maximum age is at least twice the hello time plus two seconds. The promised relation with the
  forward delay holds up to the rounding to units of 1/256 second, at most two units, and not
  exactly: asking for a maximum age of 6004 ms violates it.\<close>

theorem bridge_timers_in_range:
  "(let s' = stp_update_bridge_timers s in
     256 \<le> bridge_hello_time s' \<and> bridge_hello_time s' \<le> 2560 \<and> 1536 \<le> bridge_max_age s' \<and> bridge_max_age s' \<le> 10240 \<and>
     1024 \<le> bridge_forward_delay s' \<and> bridge_forward_delay s' \<le> 7680 \<and> 2 * (bridge_hello_time s' + 256) \<le> bridge_max_age s' \<and>
     bridge_max_age s' \<le> 2 * (bridge_forward_delay s' - 256) + 2) \<and>
   (let s' = stp_set_max_age 6004 (s\<lparr>rq_hello_time := 0, rq_forward_delay := 0\<rparr>) in
     2 * (bridge_forward_delay s' - 256) < bridge_max_age s')"
proof -
  define ht where "ht = clamp (rq_hello_time s) 1000 10000"
  define ma where "ma = clamp (rq_max_age s) (max (2 * (ht + 1000)) 6000) 40000"
  define fd where "fd = clamp (rq_forward_delay s) (ma sdiv 2 + 1000) 30000"
  have ht: "1000 \<le> ht" "ht \<le> 10000" using clamp_bounds [of 1000 10000] by (simp_all add: ht_def)
  have ma: "2 * (ht + 1000) \<le> ma" "6000 \<le> ma" "ma \<le> 40000"
    using clamp_bounds [of "max (2 * (ht + 1000)) 6000" 40000] ht by (simp_all add: ma_def)
  have h: "ma sdiv 2 = ma div 2" "2 * (ma div 2) \<le> ma" "ma \<le> 2 * (ma div 2) + 1" "3000 \<le> ma div 2" using ma by (simp_all add: sdiv_nonneg)
  have fd: "ma div 2 + 1000 \<le> fd" "fd \<le> 30000"
    using clamp_bounds [of "ma div 2 + 1000" 30000] ma h by (simp_all add: fd_def)
  define hf where "hf = ma div 2"
  have f1: "4000 \<le> fd" using fd(1) h(4) unfolding hf_def [symmetric] by linarith
  have f2: "ma \<le> 2 * fd - 1999" using fd(1) h(3) unfolding hf_def [symmetric] by linarith
  have eq: "bridge_hello_time (stp_update_bridge_timers s) = ms_to_timer ht" "bridge_max_age (stp_update_bridge_timers s) = ms_to_timer ma"
    "bridge_forward_delay (stp_update_bridge_timers s) = ms_to_timer fd"
    by (simp_all add: stp_update_bridge_timers_def use_bridge_timers_def Let_def ht_def ma_def fd_def)
  have t: "ms_to_timer ht = ht * 256 div 1000" "ms_to_timer ma = ma * 256 div 1000" "ms_to_timer fd = fd * 256 div 1000"
    using ht ma fd h by (simp_all add: ms_to_timer_eq)
  have "1000 * (x div 1000) \<le> x" "x < 1000 * (x div 1000) + 1000" for x :: int by simp_all
  note d = this [of "ht * 256", folded t(1)] this [of "ma * 256", folded t(2)] this [of "fd * 256", folded t(3)]
  have "256 \<le> ms_to_timer ht" "ms_to_timer ht \<le> 2560" "1536 \<le> ms_to_timer ma" "ms_to_timer ma \<le> 10240"
    "1024 \<le> ms_to_timer fd" "ms_to_timer fd \<le> 7680"
    using ht ma fd(2) f1 d by linarith+
  moreover have "2 * ms_to_timer ht + 512 \<le> ms_to_timer ma" using ma(1) [unfolded distrib_left] d by linarith
  moreover have "ms_to_timer ma \<le> 2 * ms_to_timer fd - 510" using f2 d by linarith
  moreover have "2 * (bridge_forward_delay s' - 256) < bridge_max_age s'"
    if "s' = stp_set_max_age 6004 (s\<lparr>rq_hello_time := 0, rq_forward_delay := 0\<rparr>)" for s'
    by (simp add: that stp_set_max_age_def stp_update_bridge_timers_def use_bridge_timers_def Let_def clamp_def ms_to_timer_eq
        sdiv_nonneg)
  ultimately show ?thesis by (simp add: Let_def eq algebra_simps)
qed

lemma for_each_disabled:
  assumes "\<forall>i < STP_MAX_PORTS. state (stp_port s i) = STP_DISABLED"
  shows "for_each_enabled_port body s = s"
  by (rule for_each_upto [of "\<lambda>_ s'. s' = s"]) (use assms in auto)

definition fresh :: "stp \<Rightarrow> bool" where
  "fresh s \<longleftrightarrow> hello_timer s = \<lparr>active = True, tm_value = 0\<rparr> \<and> hello_time s = 512 \<and> elapsed_remainder s = 0 \<and>
     \<not> active (tcn_timer s) \<and> \<not> active (topology_change_timer s)"

lemma fresh_upd: "fresh (upd_port i f s) = fresh s" "fresh (s\<lparr>first_changed_port := k\<rparr>) = fresh s"
  by (simp_all add: fresh_def upd_port_def)

lemma fresh_set_state: "fresh (stp_set_port_state i st s) = fresh s" "fresh (stp_become_designated_port i s) = fresh s"
  by (simp_all add: stp_set_port_state_def stp_become_designated_port_def Let_def fresh_upd)

lemma create_port_fresh: "create_port i (Ok s) = Ok s' \<Longrightarrow> fresh s' = fresh s"
  by (auto simp: create_port_def stp_initialize_port_def Let_def guardR_eq_Ok fresh_upd fresh_set_state)

lemma stp_create_fresh:
  assumes "stp_create nm bid = Ok s"
  shows "fresh s" "\<forall>i < STP_MAX_PORTS. state (stp_port s i) = STP_DISABLED"
proof -
  define b where "b = (if drop_bit 48 bid = 0 then bid OR push_bit 48 STP_DEFAULT_BRIDGE_PRIORITY else bid)"
  define s1 where "s1 = stp_update_bridge_timers (zero_stp\<lparr>stp_name := nm, bridge_id := b, rq_max_age := 6000,
    rq_hello_time := 2000, rq_forward_delay := 4000\<rparr>)"
  define s0 where "s0 = (use_bridge_timers s1)\<lparr>designated_root := bridge_id (use_bridge_timers s1), root_path_cost := 0, root_port := None,
      topology_change_detected := False, topology_change := False, tcn_timer := stp_stop_timer (tcn_timer (use_bridge_timers s1)),
      topology_change_timer := stp_stop_timer (topology_change_timer (use_bridge_timers s1)),
      hello_timer := stp_start_timer 0 (hello_timer (use_bridge_timers s1)), first_changed_port := STP_MAX_PORTS\<rparr>"
  have "stp_ports s1 = replicate STP_MAX_PORTS zero_stp_port" "bridge_hello_time s1 = 512" "elapsed_remainder s1 = 0"
    "hello_timer s1 = zero_timer" "tcn_timer s1 = zero_timer" "topology_change_timer s1 = zero_timer"
    by (simp_all add: s1_def stp_update_bridge_timers_def use_bridge_timers_def Let_def zero_stp_def clamp_def ms_to_timer_eq)
  then have s0: "created 0 s0" "fresh s0"
    by (simp_all add: s0_def created_def fresh_def use_bridge_timers_def zero_stp_port_def stp_start_timer_def stp_stop_timer_def zero_timer_def)
  have eq: "fold create_port [0..<STP_MAX_PORTS] (Ok s0) = Ok s"
    using assms unfolding stp_create_def Let_def b_def [symmetric] s1_def [symmetric] s0_def by simp
  have "\<exists>s'. fold create_port [0..<n] (Ok s0) = Ok s' \<and> fresh s' \<and> created n s'" if "n \<le> STP_MAX_PORTS" for n
    using that
  proof (induction n)
    case 0
    then show ?case using s0 by simp
  next
    case (Suc n)
    then obtain s1 where 1: "fold create_port [0..<n] (Ok s0) = Ok s1" "fresh s1" "created n s1" by auto
    obtain s2 where "create_port n (Ok s1) = Ok s2" "created (Suc n) s2" using create_port_step [OF 1(3)] Suc.prems by auto
    then show ?case using 1 create_port_fresh by auto
  qed
  from this [OF order_refl] show "fresh s" "\<forall>i < STP_MAX_PORTS. state (stp_port s i) = STP_DISABLED"
    using eq by (auto simp: created_def)
qed

text \<open>C22: The remainder that \<open>stp_tick\<close> keeps is not in milliseconds: on a new bridge, two calls that each
  report that one millisecond has passed advance the hello timer by 65 units, which is a quarter of a second,
  where two milliseconds are less than one unit.\<close>

theorem stp_tick_drifts:
  assumes "stp_create nm bid = Ok s"
  shows "tm_value (hello_timer (stp_tick 1 s)) = 0 \<and> tm_value (hello_timer (stp_tick 1 (stp_tick 1 s))) = 65 \<and>
    ms_to_timer 2 = 0 \<and> timer_to_ms 65 = 253"
proof -
  note f = stp_create_fresh [OF assms]
  have m: "ms_to_timer 1 = 0" "ms_to_timer_remainder 1 = 256" "ms_to_timer 257 = 65"
    by (simp_all add: ms_to_timer_eq ms_to_timer_remainder_def int32_id signed_modulo_int_def sdiv_nonneg)
  have 1: "stp_tick 1 s = s\<lparr>elapsed_remainder := 256\<rparr>"
    using f(1) by (simp add: stp_tick_def Let_def clamp_def fresh_def m)
  define s1 where "s1 = s\<lparr>elapsed_remainder := ms_to_timer_remainder 257, hello_timer := \<lparr>active = True, tm_value = 65\<rparr>\<rparr>"
  have "\<forall>i < STP_MAX_PORTS. state (stp_port s1 i) = STP_DISABLED" using f(2) by (simp add: s1_def)
  then have "stp_tick 1 (s\<lparr>elapsed_remainder := 256\<rparr>) = s1"
    using f(1) for_each_disabled [of s1]
    by (simp add: stp_tick_def Let_def clamp_def fresh_def m stp_timer_expired_def int32_id s1_def)
  moreover have "timer_to_ms 65 = 253" by (simp add: timer_to_ms_def int32_id sdiv_nonneg)
  ultimately show ?thesis using 1 f(1) by (simp add: s1_def fresh_def ms_to_timer_eq)
qed

theorem stp_tick_drifts_witness:
  "\<exists>s. stp_create ''br0'' 5 = Ok s \<and> tm_value (hello_timer (stp_tick 1 (stp_tick 1 s))) = 65"
  using stp_tick_drifts stp_create_inv by blast

end
