(* ===== verification/OF_Vconn.thy ===== *)
theory OF_Vconn
  imports OF_Datapath
begin

unbundle bit_operations_syntax

text \<open>
  OpenFlow connections, \<open>lib/vconn.c\<close>, and the counters of messages, \<open>lib/ofpstat.c\<close>. The functions of
  the class of a connection (TCP, SSL, Unix domain sockets) are a parameter: a record of functions
  over the private state of the connection, as in \<open>struct vconn_class\<close>. Random transaction ids
  are a parameter \<open>rnd\<close>, by type of message. The loop in \<open>do_recv\<close> that skips messages has fuel, since a
  peer can keep it going.
\<close>

section \<open>Counters of messages\<close>

text \<open>One constructor per counter of \<open>struct ofpstat\<close>.\<close>

datatype ofpstat_field = Ofps_total | Ofps_unknown | Ofps_hello | Ofps_error
  | Et_hello_fail | Et_bad_request | Et_bad_action | Et_flow_mod_fail | Et_unknown
  | Ec_hf_incompat | Ec_hf_eperm | Ec_br_bad_version | Ec_br_bad_type | Ec_br_bad_stat | Ec_br_bad_vendor
  | Ec_br_eperm | Ec_ba_bad_type | Ec_ba_bad_len | Ec_ba_bad_vendor | Ec_ba_bad_vendor_type
  | Ec_ba_bad_out_port | Ec_ba_bad_argument | Ec_ba_eperm | Ec_fmf_all_tables_full | Ec_fmf_overlap
  | Ec_fmf_eperm | Ec_fmf_emerg | Ec_unknown
  | Ofps_echo_request | Ofps_echo_reply | Ofps_vendor | Ofps_feats_request | Ofps_feats_reply
  | Ofps_get_config_request | Ofps_get_config_reply | Ofps_set_config | Ofps_packet_in | Ofps_flow_removed
  | Ofps_port_status | Ofps_packet_out | Ofps_flow_mod
  | Fm_add | Fm_modify | Fm_modify_strict | Fm_delete | Fm_delete_strict | Fm_unknown
  | Ofps_port_mod | Ofps_stats_request | Ofps_stats_reply | Ofps_barrier_request | Ofps_barrier_reply

type_synonym ofpstat = "ofpstat_field \<Rightarrow> u64"

definition inc_stat :: "ofpstat_field \<Rightarrow> ofpstat \<Rightarrow> ofpstat" where
  "inc_stat f st = st(f := st f + 1)"

definition message_stat :: "u8 \<Rightarrow> ofpstat_field" where
  "message_stat type =
     (if type = OFPT_HELLO then Ofps_hello else if type = OFPT_ERROR then Ofps_error
      else if type = OFPT_ECHO_REQUEST then Ofps_echo_request else if type = OFPT_ECHO_REPLY then Ofps_echo_reply
      else if type = OFPT_VENDOR then Ofps_vendor else if type = OFPT_FEATURES_REQUEST then Ofps_feats_request
      else if type = OFPT_FEATURES_REPLY then Ofps_feats_reply
      else if type = OFPT_GET_CONFIG_REQUEST then Ofps_get_config_request
      else if type = OFPT_GET_CONFIG_REPLY then Ofps_get_config_reply
      else if type = OFPT_SET_CONFIG then Ofps_set_config else if type = OFPT_PACKET_IN then Ofps_packet_in
      else if type = OFPT_FLOW_REMOVED then Ofps_flow_removed else if type = OFPT_PORT_STATUS then Ofps_port_status
      else if type = OFPT_PACKET_OUT then Ofps_packet_out else if type = OFPT_FLOW_MOD then Ofps_flow_mod
      else if type = OFPT_PORT_MOD then Ofps_port_mod else if type = OFPT_STATS_REQUEST then Ofps_stats_request
      else if type = OFPT_STATS_REPLY then Ofps_stats_reply
      else if type = OFPT_BARRIER_REQUEST then Ofps_barrier_request
      else if type = OFPT_BARRIER_REPLY then Ofps_barrier_reply else Ofps_unknown)"

definition inc_protocol_message :: "bytes \<Rightarrow> ofpstat \<Rightarrow> ofpstat" where
  "inc_protocol_message hdr = inc_stat (message_stat (ld8 hdr 1))"

abbreviation (input) OFPHFC_INCOMPATIBLE :: u16 where "OFPHFC_INCOMPATIBLE \<equiv> 0"
abbreviation (input) OFPHFC_EPERM :: u16 where "OFPHFC_EPERM \<equiv> 1"

definition inc_error_notification :: "bytes \<Rightarrow> ofpstat \<Rightarrow> ofpstat" where
  "inc_error_notification hdr st =
     (let errtype = ntohs (ld16 hdr 8);
          errcode = ntohs (ld16 hdr 10)
      in if errtype = OFPET_HELLO_FAILED then
           inc_stat (if errcode = OFPHFC_INCOMPATIBLE then Ec_hf_incompat
                     else if errcode = OFPHFC_EPERM then Ec_hf_eperm else Ec_unknown) (inc_stat Et_hello_fail st)
         else if errtype = OFPET_BAD_REQUEST then
           inc_stat (if errcode = OFPBRC_BAD_VERSION then Ec_br_bad_version
                     else if errcode = OFPBRC_BAD_TYPE then Ec_br_bad_type
                     else if errcode = OFPBRC_BAD_STAT then Ec_br_bad_stat
                     else if errcode = OFPBRC_BAD_VENDOR then Ec_br_bad_vendor
                     else if errcode = OFPBRC_EPERM then Ec_br_eperm else Ec_unknown) (inc_stat Et_bad_request st)
         else if errtype = OFPET_BAD_ACTION then
           inc_stat (if errcode = OFPBAC_BAD_TYPE then Ec_ba_bad_type
                     else if errcode = OFPBAC_BAD_LEN then Ec_ba_bad_len
                     else if errcode = OFPBAC_BAD_VENDOR then Ec_ba_bad_vendor
                     else if errcode = OFPBAC_BAD_VENDOR_TYPE then Ec_ba_bad_vendor_type
                     else if errcode = OFPBAC_BAD_OUT_PORT then Ec_ba_bad_out_port
                     else if errcode = OFPBAC_BAD_ARGUMENT then Ec_ba_bad_argument
                     else if errcode = OFPBAC_EPERM then Ec_ba_eperm else Ec_unknown) (inc_stat Et_bad_action st)
         else if errtype = OFPET_FLOW_MOD_FAILED then
           inc_stat (if errcode = OFPFMFC_ALL_TABLES_FULL then Ec_fmf_all_tables_full
                     else if errcode = OFPFMFC_OVERLAP then Ec_fmf_overlap
                     else if errcode = OFPFMFC_EPERM then Ec_fmf_eperm
                     else if errcode = OFPFMFC_BAD_EMERG_TIMEOUT then Ec_fmf_emerg else Ec_unknown)
             (inc_stat Et_flow_mod_fail st)
         else inc_stat Et_unknown st)"

definition inc_flow_manipulation :: "bytes \<Rightarrow> ofpstat \<Rightarrow> ofpstat" where
  "inc_flow_manipulation hdr =
     (let flowmodops = ntohs (ld16 hdr 56)
      in inc_stat (if flowmodops = OFPFC_ADD then Fm_add else if flowmodops = OFPFC_MODIFY then Fm_modify
                   else if flowmodops = OFPFC_MODIFY_STRICT then Fm_modify_strict
                   else if flowmodops = OFPFC_DELETE then Fm_delete
                   else if flowmodops = OFPFC_DELETE_STRICT then Fm_delete_strict else Fm_unknown))"

text \<open>
  The message is counted without a look at its length: what follows it in memory is part of the
  argument.
\<close>

definition ofpstat_inc_protocol_stat :: "bytes \<Rightarrow> ofpstat \<Rightarrow> ofpstat" where
  "ofpstat_inc_protocol_stat hdr st =
     (let st = inc_protocol_message hdr (inc_stat Ofps_total st)
      in if ld8 hdr 1 = OFPT_ERROR then inc_error_notification hdr st
         else if ld8 hdr 1 = OFPT_FLOW_MOD then inc_flow_manipulation hdr st
         else st)"

section \<open>Connections\<close>

abbreviation (input) EPROTO :: int where "EPROTO \<equiv> 71"
abbreviation (input) EINPROGRESS :: int where "EINPROGRESS \<equiv> 115"
abbreviation (input) EOF :: int where "EOF \<equiv> - 1"

datatype vconn_state = VCS_CONNECTING | VCS_SEND_HELLO | VCS_RECV_HELLO | VCS_CONNECTED | VCS_SEND_ERROR | VCS_DISCONNECTED

text \<open>The functions return an error number, zero for success; \<open>recv\<close> returns the message on success.\<close>

record 't vconn_class =
  class_connect :: "'t \<Rightarrow> 't \<times> int"
  class_recv :: "'t \<Rightarrow> 't \<times> (int + bytes)"
  class_send :: "'t \<Rightarrow> bytes \<Rightarrow> 't \<times> int"

record 't vconn =
  vc_class :: "'t vconn_class"
  vc_private :: 't
  vc_state :: vconn_state
  vc_error :: int
  vc_version :: int
  min_version :: int
  vc_ip :: u32
  vc_name :: string
  reconnectable :: bool
  vc_rcvd :: ofpstat
  vc_sent :: ofpstat

definition vconn_init :: "'t vconn_class \<Rightarrow> 't \<Rightarrow> int \<Rightarrow> u32 \<Rightarrow> string \<Rightarrow> bool \<Rightarrow> 't vconn" where
  "vconn_init cls t connect_status ip nm rec =
     \<lparr>vc_class = cls, vc_private = t,
      vc_state = (if connect_status = EAGAIN then VCS_CONNECTING else if connect_status = 0 then VCS_SEND_HELLO
                  else VCS_DISCONNECTED),
      vc_error = connect_status, vc_version = - 1, min_version = - 1, vc_ip = ip, vc_name = nm, reconnectable = rec,
      vc_rcvd = (\<lambda>_. 0), vc_sent = (\<lambda>_. 0)\<rparr>"

definition vconn_disconnected :: "int \<Rightarrow> 't vconn \<Rightarrow> 't vconn" where
  "vconn_disconnected error vconn = vconn\<lparr>vc_state := VCS_DISCONNECTED, vc_error := error\<rparr>"

primrec do_recv :: "nat \<Rightarrow> 't vconn \<Rightarrow> ('t vconn \<times> (int + bytes)) result" where
  "do_recv 0 vconn = Fail No_return"
| "do_recv (Suc n) vconn =
     (let (t, r) = class_recv (vc_class vconn) (vc_private vconn);
          vconn = vconn\<lparr>vc_private := t\<rparr>
      in case r of
           Inl retval \<Rightarrow> Ok (vconn, Inl retval)
         | Inr msg \<Rightarrow>
             guardR (8 \<le> length msg) Assertion
               (let type = ld8 msg 1
                in if uint (ld8 msg 0) \<noteq> vc_version vconn \<and> type \<noteq> OFPT_HELLO \<and> type \<noteq> OFPT_ERROR \<and>
                      type \<noteq> OFPT_ECHO_REQUEST \<and> type \<noteq> OFPT_ECHO_REPLY \<and> type \<noteq> OFPT_VENDOR then
                     if vc_version vconn < 0 \<and>
                        (type = OFPT_PACKET_IN \<or> type = OFPT_FLOW_REMOVED \<or> type = OFPT_PORT_STATUS)
                     then do_recv n vconn
                     else Ok (vconn, Inl EPROTO)
                   else Ok (vconn, Inr msg)))"

definition do_send :: "'t vconn \<Rightarrow> bytes \<Rightarrow> ('t vconn \<times> int) result" where
  "do_send vconn msg =
     guardR (8 \<le> length msg \<and> ld16 msg 2 = htons (of_nat (length msg))) Assertion
       (let (t, retval) = class_send (vc_class vconn) (vc_private vconn) msg
        in Ok (vconn\<lparr>vc_private := t\<rparr>, retval))"

definition vcs_connecting :: "'t vconn \<Rightarrow> 't vconn result" where
  "vcs_connecting vconn =
     (let (t, retval) = class_connect (vc_class vconn) (vc_private vconn);
          vconn = vconn\<lparr>vc_private := t\<rparr>
      in guardR (retval \<noteq> EINPROGRESS) Assertion
           (Ok (if retval = 0 then vconn\<lparr>vc_state := VCS_SEND_HELLO\<rparr>
                else if retval \<noteq> EAGAIN then vconn_disconnected retval vconn
                else vconn)))"

definition vcs_send_hello :: "(u8 \<Rightarrow> u32) \<Rightarrow> 't vconn \<Rightarrow> 't vconn result" where
  "vcs_send_hello rnd vconn =
     bindR (make_openflow_xid 8 OFPT_HELLO (rnd OFPT_HELLO))
       (\<lambda>b. bindR (do_send vconn b)
         (\<lambda>(vconn, retval).
            Ok (if retval = 0 then
                  vconn\<lparr>vc_sent := inc_stat Ofps_hello (inc_stat Ofps_total (vc_sent vconn)), vc_state := VCS_RECV_HELLO\<rparr>
                else if retval \<noteq> EAGAIN then vconn_disconnected retval vconn
                else vconn)))"

definition vcs_recv_hello :: "nat \<Rightarrow> 't vconn \<Rightarrow> 't vconn result" where
  "vcs_recv_hello fuel vconn =
     bindR (do_recv fuel vconn)
       (\<lambda>(vconn, r).
          case r of
            Inr b \<Rightarrow>
              Ok (if ld8 b 1 = OFPT_HELLO then
                    let vconn = vconn\<lparr>vc_version := min (uint OFP_VERSION) (uint (ld8 b 0))\<rparr>;
                        vconn = vconn\<lparr>vc_state := (if vc_version vconn < min_version vconn then VCS_SEND_ERROR else VCS_CONNECTED)\<rparr>
                    in vconn\<lparr>vc_rcvd := inc_stat Ofps_hello (inc_stat Ofps_total (vc_rcvd vconn))\<rparr>
                  else vconn_disconnected EPROTO vconn)
          | Inl retval \<Rightarrow> Ok (if retval \<noteq> EAGAIN then vconn_disconnected retval vconn else vconn))"

text \<open>The conversion \<open>%02x\<close>.\<close>

definition hex_digit :: "nat \<Rightarrow> u8" where
  "hex_digit n = of_nat (if n < 10 then 48 + n else 87 + n)"

fun hex02 :: "nat \<Rightarrow> bytes" where
  "hex02 n = (if n < 16 then [48, hex_digit n] else if n < 256 then [hex_digit (n div 16), hex_digit (n mod 16)]
     else hex02 (n div 16) @ [hex_digit (n mod 16)])"

definition ascii :: "string \<Rightarrow> bytes" where
  "ascii s = map (\<lambda>c. of_nat (of_char c)) s"

definition hello_failed_text :: "int \<Rightarrow> int \<Rightarrow> bytes" where
  "hello_failed_text mn vn =
     take 127 (ascii ''We support versions 0x'' @ hex02 (nat mn) @ ascii '' to 0x'' @ hex02 (unat OFP_VERSION) @
       ascii '' inclusive but you support no later than version 0x'' @ hex02 (nat vn) @ ascii ''.'')"

definition vcs_send_error :: "(u8 \<Rightarrow> u32) \<Rightarrow> 't vconn \<Rightarrow> 't vconn result" where
  "vcs_send_error rnd vconn =
     bindR (make_openflow_xid 12 OFPT_ERROR (rnd OFPT_ERROR))
       (\<lambda>b. let b = st16 (st16 b 8 (htons OFPET_HELLO_FAILED)) 10 (htons OFPHFC_INCOMPATIBLE) @
                    hello_failed_text (min_version vconn) (vc_version vconn)
            in bindR (update_openflow_length b)
              (\<lambda>b. bindR (do_send vconn b)
                (\<lambda>(vconn, retval).
                   let vconn = (if retval \<noteq> 0 then
                                  vconn\<lparr>vc_sent := inc_stat Ec_hf_incompat (inc_stat Et_hello_fail
                                    (inc_stat Ofps_error (inc_stat Ofps_total (vc_sent vconn))))\<rparr>
                                else vconn)
                   in Ok (if retval \<noteq> EAGAIN then vconn_disconnected (if retval \<noteq> 0 then retval else EPROTO) vconn
                          else vconn))))"

text \<open>One turn of the loop of \<open>vconn_connect\<close>, for the states it does not return in.\<close>

definition vcs_step :: "nat \<Rightarrow> (u8 \<Rightarrow> u32) \<Rightarrow> 't vconn \<Rightarrow> 't vconn result" where
  "vcs_step fuel rnd vconn =
     (case vc_state vconn of
        VCS_CONNECTING \<Rightarrow> vcs_connecting vconn
      | VCS_SEND_HELLO \<Rightarrow> vcs_send_hello rnd vconn
      | VCS_RECV_HELLO \<Rightarrow> vcs_recv_hello fuel vconn
      | VCS_SEND_ERROR \<Rightarrow> vcs_send_error rnd vconn
      | _ \<Rightarrow> Ok vconn)"

primrec vcs_rank :: "vconn_state \<Rightarrow> nat" where
  "vcs_rank VCS_CONNECTING = 4" | "vcs_rank VCS_SEND_HELLO = 3" | "vcs_rank VCS_RECV_HELLO = 2"
| "vcs_rank VCS_SEND_ERROR = 1" | "vcs_rank VCS_CONNECTED = 0" | "vcs_rank VCS_DISCONNECTED = 0"

lemma do_recv_keeps:
  "do_recv n v = Ok (v', r) \<Longrightarrow> \<exists>t. v' = v\<lparr>vc_private := t\<rparr>"
proof (induction n arbitrary: v)
  case (Suc n)
  obtain t q where t: "class_recv (vc_class v) (vc_private v) = (t, q)" by fastforce
  then show ?case
    using Suc.prems Suc.IH [of "v\<lparr>vc_private := t\<rparr>"]
    by (auto simp: Let_def guardR_eq_Ok split: sum.splits if_splits)
qed simp

lemma do_send_keeps: "do_send v m = Ok (v', e) \<Longrightarrow> \<exists>t. v' = v\<lparr>vc_private := t\<rparr>"
  by (auto simp: do_send_def guardR_eq_Ok split: prod.splits)

lemma vcs_states:
  "vcs_connecting v = Ok v' \<Longrightarrow> vc_state v' \<in> {vc_state v, VCS_SEND_HELLO, VCS_DISCONNECTED}"
  "vcs_send_hello rnd v = Ok v' \<Longrightarrow> vc_state v' \<in> {vc_state v, VCS_RECV_HELLO, VCS_DISCONNECTED}"
  "vcs_recv_hello n v = Ok v' \<Longrightarrow> vc_state v' \<in> {vc_state v, VCS_SEND_ERROR, VCS_CONNECTED, VCS_DISCONNECTED}"
  "vcs_send_error rnd v = Ok v' \<Longrightarrow> vc_state v' \<in> {vc_state v, VCS_DISCONNECTED}"
proof -
  show "vcs_connecting v = Ok v' \<Longrightarrow> vc_state v' \<in> {vc_state v, VCS_SEND_HELLO, VCS_DISCONNECTED}"
    by (auto simp: vcs_connecting_def vconn_disconnected_def guardR_eq_Ok Let_def split: prod.splits if_splits)
  have send: "vc_state w = vc_state v" if "do_send v m = Ok (w, e)" for m w e using do_send_keeps [OF that] by auto
  show "vcs_send_hello rnd v = Ok v' \<Longrightarrow> vc_state v' \<in> {vc_state v, VCS_RECV_HELLO, VCS_DISCONNECTED}"
    by (auto simp: vcs_send_hello_def vconn_disconnected_def bindR_eq_Ok dest: send split: if_splits)
  show "vcs_send_error rnd v = Ok v' \<Longrightarrow> vc_state v' \<in> {vc_state v, VCS_DISCONNECTED}"
    by (auto simp: vcs_send_error_def vconn_disconnected_def bindR_eq_Ok Let_def dest: send split: if_splits)
  have recv: "vc_state w = vc_state v" if "do_recv n v = Ok (w, r)" for w r using do_recv_keeps [OF that] by auto
  assume ok: "vcs_recv_hello n v = Ok v'"
  then obtain w r where w: "do_recv n v = Ok (w, r)" by (auto simp: vcs_recv_hello_def bindR_eq_Ok)
  show "vc_state v' \<in> {vc_state v, VCS_SEND_ERROR, VCS_CONNECTED, VCS_DISCONNECTED}"
    using ok recv [OF w] w by (cases r) (auto simp: vcs_recv_hello_def vconn_disconnected_def Let_def split: if_splits)
qed

lemma vcs_step_progress:
  assumes "vcs_step n rnd v = Ok v'" "vc_state v' \<noteq> vc_state v"
  shows "vcs_rank (vc_state v') < vcs_rank (vc_state v)"
  using assms vcs_states(1) [of v v'] vcs_states(2) [of rnd v v'] vcs_states(3) [of n v v'] vcs_states(4) [of rnd v v']
  by (cases "vc_state v") (auto simp: vcs_step_def)

function vconn_connect_loop :: "nat \<Rightarrow> (u8 \<Rightarrow> u32) \<Rightarrow> 't vconn \<Rightarrow> ('t vconn \<times> int) result" where
  "vconn_connect_loop fuel rnd vconn =
     (if vc_state vconn = VCS_CONNECTED then Ok (vconn, 0)
      else if vc_state vconn = VCS_DISCONNECTED then Ok (vconn, vc_error vconn)
      else bindR (vcs_step fuel rnd vconn)
        (\<lambda>v. if vc_state v \<noteq> vc_state vconn then vconn_connect_loop fuel rnd v else Ok (v, EAGAIN)))"
  by pat_completeness auto
termination
  by (relation "measure (\<lambda>(_, _, v). vcs_rank (vc_state v))") (auto intro: vcs_step_progress)

declare vconn_connect_loop.simps [simp del]

definition vconn_connect :: "nat \<Rightarrow> (u8 \<Rightarrow> u32) \<Rightarrow> 't vconn \<Rightarrow> ('t vconn \<times> int) result" where
  "vconn_connect fuel rnd vconn =
     guardR (min_version vconn \<ge> 0) Assertion (vconn_connect_loop fuel rnd vconn)"

definition vconn_recv :: "nat \<Rightarrow> (u8 \<Rightarrow> u32) \<Rightarrow> 't vconn \<Rightarrow> ('t vconn \<times> (int + bytes)) result" where
  "vconn_recv fuel rnd vconn =
     bindR (vconn_connect fuel rnd vconn)
       (\<lambda>(vconn, retval). if retval = 0 then do_recv fuel vconn else Ok (vconn, Inl retval))"

definition vconn_send :: "nat \<Rightarrow> (u8 \<Rightarrow> u32) \<Rightarrow> 't vconn \<Rightarrow> bytes \<Rightarrow> ('t vconn \<times> int) result" where
  "vconn_send fuel rnd vconn msg =
     bindR (vconn_connect fuel rnd vconn)
       (\<lambda>(vconn, retval). if retval = 0 then do_send vconn msg else Ok (vconn, retval))"

text \<open>A connection that a class has opened or accepted.\<close>

definition vconn_opened :: "int \<Rightarrow> int + 't vconn \<Rightarrow> int + 't vconn" where
  "vconn_opened mn r = map_sum id (\<lambda>vconn. vconn\<lparr>min_version := mn\<rparr>) r"

definition pvconn_accept :: "('p \<Rightarrow> 'p \<times> (int + 't vconn)) \<Rightarrow> 'p \<Rightarrow> int \<Rightarrow> 'p \<times> (int + 't vconn)" where
  "pvconn_accept accept pvconn mn = (let (p, r) = accept pvconn in (p, vconn_opened mn r))"

text \<open>The name of the class is what precedes the first colon.\<close>

definition vconn_open :: "(string \<times> (string \<Rightarrow> string \<Rightarrow> int + 't vconn)) list \<Rightarrow> string \<Rightarrow> int \<Rightarrow> int + 't vconn" where
  "vconn_open classes nm mn =
     (let prefix = takeWhile (\<lambda>c. c \<noteq> CHR '':'') nm
      in if length prefix = length nm then Inl 97
         else case find (\<lambda>(n, _). n = prefix) classes of
                Some (_, op) \<Rightarrow> vconn_opened mn (op nm (drop (length prefix + 1) nm))
              | None \<Rightarrow> Inl 97)"

section \<open>Making messages\<close>

definition make_flow_mod :: "u16 \<Rightarrow> flow \<Rightarrow> nat \<Rightarrow> bytes" where
  "make_flow_mod command fl actions_len =
     [OFP_VERSION, OFPT_FLOW_MOD] @ le_bytes 2 (htons (of_nat (72 + actions_len))) @ replicate 4 0 @
     ofp_match_bytes \<lparr>m_wildcards = htonl 0, m_in_port = in_port fl, m_dl_src = dl_src fl, m_dl_dst = dl_dst fl,
       m_dl_vlan = dl_vlan fl, m_dl_vlan_pcp = dl_vlan_pcp fl, m_dl_type = dl_type fl, m_nw_tos = 0,
       m_nw_proto = nw_proto fl, m_nw_src = nw_src fl, m_nw_dst = nw_dst fl, m_tp_src = tp_src fl,
       m_tp_dst = tp_dst fl\<rparr> @
     replicate 8 0 @ le_bytes 2 (htons command) @ replicate 14 0"

definition make_add_flow :: "flow \<Rightarrow> u32 \<Rightarrow> u16 \<Rightarrow> nat \<Rightarrow> bytes" where
  "make_add_flow fl buffer_id idle actions_len =
     (let ofm = make_flow_mod OFPFC_ADD fl actions_len;
          ofm = st16 ofm 58 (htons idle);
          ofm = st16 ofm 60 (htons OFP_FLOW_PERMANENT)
      in st32 ofm 64 (htonl buffer_id))"

definition make_del_flow :: "flow \<Rightarrow> bytes" where
  "make_del_flow fl = st16 (make_flow_mod OFPFC_DELETE_STRICT fl 0) 68 (htons OFPP_NONE)"

definition make_output :: "u16 \<Rightarrow> u16 \<Rightarrow> bytes" where
  "make_output out_port max_len =
     le_bytes 2 (htons OFPAT_OUTPUT) @ le_bytes 2 (htons 8) @ le_bytes 2 (htons out_port) @ le_bytes 2 (htons max_len)"

definition make_add_simple_flow :: "flow \<Rightarrow> u32 \<Rightarrow> u16 \<Rightarrow> u16 \<Rightarrow> bytes" where
  "make_add_simple_flow fl buffer_id out_port idle =
     make_add_flow fl buffer_id idle 8 @ make_output out_port (if out_port = OFPP_CONTROLLER then 0xffff else 0)"

definition make_unbuffered_packet_out :: "bytes \<Rightarrow> u16 \<Rightarrow> u16 \<Rightarrow> bytes result" where
  "make_unbuffered_packet_out packet in_prt out_port =
     update_openflow_length
       ([OFP_VERSION, OFPT_PACKET_OUT, 0, 0] @ replicate 4 0 @ le_bytes 4 (htonl UINT32_MAX) @
        le_bytes 2 (htons in_prt) @ le_bytes 2 (htons 8) @ make_output out_port 0 @ packet)"

definition make_buffered_packet_out :: "u32 \<Rightarrow> u16 \<Rightarrow> u16 \<Rightarrow> bytes" where
  "make_buffered_packet_out buffer_id in_prt out_port =
     [OFP_VERSION, OFPT_PACKET_OUT] @ le_bytes 2 (htons 24) @ replicate 4 0 @ le_bytes 4 (htonl buffer_id) @
     le_bytes 2 (htons in_prt) @ le_bytes 2 (htons 8) @ make_output out_port 0"

definition make_echo_request :: "u32 \<Rightarrow> bytes" where
  "make_echo_request xid = [OFP_VERSION, OFPT_ECHO_REQUEST] @ le_bytes 2 (htons 8) @ le_bytes 4 xid"

section \<open>Checking messages\<close>

definition check_message_type :: "u8 \<Rightarrow> u8 \<Rightarrow> bool" where
  "check_message_type got_type want_type \<longleftrightarrow> got_type = want_type"

definition check_ofp_message :: "bytes \<Rightarrow> u8 \<Rightarrow> nat \<Rightarrow> int" where
  "check_ofp_message msg type sz =
     (if \<not> check_message_type (ld8 msg 1) type then EINVAL
      else if unat (ntohs (ld16 msg 2)) \<noteq> sz then EINVAL
      else 0)"

definition check_ofp_message_array :: "bytes \<Rightarrow> u8 \<Rightarrow> nat \<Rightarrow> nat \<Rightarrow> (int + nat) result" where
  "check_ofp_message_array msg type min_size array_elt_size =
     guardR (array_elt_size \<noteq> 0) Assertion
       (Ok (let got_size = unat (ntohs (ld16 msg 2))
            in if \<not> check_message_type (ld8 msg 1) type then Inl EINVAL
               else if got_size < min_size then Inl EINVAL
               else if (got_size - min_size) mod array_elt_size \<noteq> 0 then Inl EINVAL
               else Inr ((got_size - min_size) div array_elt_size)))"

text \<open>The iterator is the rest of the body of the reply.\<close>

definition flow_stats_next :: "bytes \<Rightarrow> bytes \<times> bytes option" where
  "flow_stats_next iter =
     (let bytes_left = length iter;
          len = unat (ntohs (ld16 iter 0))
      in if bytes_left < 88 then (iter, None)
         else if len < 88 then (iter, None)
         else if len > bytes_left then (iter, None)
         else if (len - 88) mod 8 \<noteq> 0 then (iter, None)
         else (drop len iter, Some (take len iter)))"

definition flow_stats_first :: "bytes \<Rightarrow> (bytes \<times> bytes option) result" where
  "flow_stats_first osr =
     guardR (12 \<le> unat (ntohs (ld16 osr 2)) \<and> unat (ntohs (ld16 osr 2)) \<le> length osr) Bad_access
       (Ok (flow_stats_next (drop 12 (take (unat (ntohs (ld16 osr 2))) osr))))"

end
