(* ===== verification/OF_Rconn.thy ===== *)
theory OF_Rconn
  imports OF_Vconn
begin

unbundle bit_operations_syntax

text \<open>
  Reliable connections, \<open>lib/rconn.c\<close> with \<open>lib/sat-math.h\<close>: the five states, the queue of messages to
  send with the counters of the clients, backoff, inactivity probes and monitors. What a call takes from outside is
  its argument \<open>rcenv\<close>: the time, the outcome of opening a connection, random numbers, the bytes that
  lie behind a received message, and the fuel for \<open>do_recv\<close>. Sleeping and waking the poll loop are not
  modelled.
\<close>

definition sat_add :: "u32 \<Rightarrow> u32 \<Rightarrow> u32" where
  "sat_add x y = (if x + y \<ge> x then x + y else - 1)"

definition sat_sub :: "u32 \<Rightarrow> u32 \<Rightarrow> u32" where
  "sat_sub x y = (if x \<ge> y then x - y else 0)"

definition sat_mul :: "u32 \<Rightarrow> u32 \<Rightarrow> u32" where
  "sat_mul x y = (if y = 0 then 0 else if x \<le> (- 1) div y then x * y else - 1)"

section \<open>Data\<close>

datatype rconn_state = S_VOID | S_BACKOFF | S_CONNECTING | S_ACTIVE | S_IDLE

abbreviation (input) TIME_MIN :: int where "TIME_MIN \<equiv> - (2 ^ 63)"
abbreviation (input) TIME_MAX :: int where "TIME_MAX \<equiv> 2 ^ 63 - 1"
abbreviation (input) MAX_MONITORS :: nat where "MAX_MONITORS \<equiv> 8"

text \<open>
  A message in the queue carries the counter it is counted in, if any. \<open>n_queued\<close> are the counters of
  the clients.
\<close>

record 't rconn =
  rc_state :: rconn_state
  state_entered :: int
  rc_vconn :: "'t vconn option"
  rc_name :: string
  reliable :: bool
  rc_txq :: "(bytes \<times> nat option) list"
  backoff :: int
  max_backoff :: int
  backoff_deadline :: int
  last_received :: int
  last_connected :: int
  packets_sent :: u32
  seqno :: u32
  probably_admitted :: bool
  last_admitted :: int
  packets_received :: u32
  n_attempted_connections :: u32
  n_successful_connections :: u32
  creation_time :: int
  total_time_connected :: u64
  questionable_connectivity :: bool
  last_questioned :: int
  probe_interval :: int
  monitors :: "'t vconn list"
  ofps_rcvd :: ofpstat
  ofps_sent :: ofpstat
  idle_echo_xid :: u32
  n_queued :: "nat \<Rightarrow> int"

record 't rcenv =
  rc_now :: int
  rc_open :: "string \<Rightarrow> int + 't vconn"
  rc_rnd :: "u8 \<Rightarrow> u32"
  rc_room :: bytes
  rc_fuel :: nat

section \<open>States and timeouts\<close>

definition is_connected_state :: "rconn_state \<Rightarrow> bool" where
  "is_connected_state st \<longleftrightarrow> st = S_ACTIVE \<or> st = S_IDLE"

definition rconn_is_connected :: "'t rconn \<Rightarrow> bool" where
  "rconn_is_connected rc \<longleftrightarrow> is_connected_state (rc_state rc)"

definition rconn_is_alive :: "'t rconn \<Rightarrow> bool" where
  "rconn_is_alive rc \<longleftrightarrow> rc_state rc \<noteq> S_VOID"

definition elapsed_in_this_state :: "'t rcenv \<Rightarrow> 't rconn \<Rightarrow> u32" where
  "elapsed_in_this_state env rc = word_of_int (rc_now env - state_entered rc)"

definition rc_timeout :: "'t rconn \<Rightarrow> u32" where
  "rc_timeout rc =
     (case rc_state rc of
        S_VOID \<Rightarrow> - 1
      | S_BACKOFF \<Rightarrow> word_of_int (backoff rc)
      | S_CONNECTING \<Rightarrow> word_of_int (max 1 (backoff rc))
      | S_ACTIVE \<Rightarrow>
          if probe_interval rc \<noteq> 0
          then word_of_int (max (last_received rc) (state_entered rc) + probe_interval rc - state_entered rc)
          else - 1
      | S_IDLE \<Rightarrow> word_of_int (probe_interval rc))"

definition timed_out :: "'t rcenv \<Rightarrow> 't rconn \<Rightarrow> bool" where
  "timed_out env rc \<longleftrightarrow> rc_now env \<ge> uint (sat_add (word_of_int (state_entered rc)) (rc_timeout rc))"

definition state_transition :: "'t rcenv \<Rightarrow> rconn_state \<Rightarrow> 't rconn \<Rightarrow> 't rconn" where
  "state_transition env st rc =
     (let rc = rc\<lparr>seqno := seqno rc + (if (rc_state rc = S_ACTIVE) \<noteq> (st = S_ACTIVE) then 1 else 0)\<rparr>;
          rc = (if is_connected_state st \<and> \<not> is_connected_state (rc_state rc) then rc\<lparr>probably_admitted := False\<rparr> else rc);
          rc = (if rconn_is_connected rc
                then rc\<lparr>total_time_connected := total_time_connected rc + ucast (elapsed_in_this_state env rc)\<rparr> else rc)
      in rc\<lparr>rc_state := st, state_entered := rc_now env\<rparr>)"

definition question_connectivity :: "'t rcenv \<Rightarrow> 't rconn \<Rightarrow> 't rconn" where
  "question_connectivity env rc =
     (if rc_now env - last_questioned rc > 60
      then rc\<lparr>questionable_connectivity := True, last_questioned := rc_now env\<rparr> else rc)"

section \<open>Disconnecting\<close>

definition drop_queued :: "bytes \<times> nat option \<Rightarrow> (nat \<Rightarrow> int) \<Rightarrow> nat \<Rightarrow> int" where
  "drop_queued b cs = (case snd b of Some c \<Rightarrow> cs(c := cs c - 1) | None \<Rightarrow> cs)"

definition flush_queue :: "'t rconn \<Rightarrow> 't rconn" where
  "flush_queue rc = rc\<lparr>rc_txq := [], n_queued := fold drop_queued (rc_txq rc) (n_queued rc)\<rparr>"

definition rconn_disconnect :: "'t rcenv \<Rightarrow> 't rconn \<Rightarrow> 't rconn" where
  "rconn_disconnect env rc =
     (if rc_state rc \<noteq> S_VOID then
        state_transition env S_VOID
          (rc\<lparr>rc_vconn := None, rc_name := ''void'', reliable := False, backoff := 0, backoff_deadline := TIME_MIN\<rparr>)
      else rc)"

definition rc_disconnect :: "'t rcenv \<Rightarrow> 't rconn \<Rightarrow> 't rconn" where
  "rc_disconnect env rc =
     (if reliable rc then
        let now = rc_now env;
            rc = (if rc_state rc \<in> {S_CONNECTING, S_ACTIVE, S_IDLE} then flush_queue (rc\<lparr>rc_vconn := None\<rparr>) else rc);
            rc = (if now \<ge> backoff_deadline rc then rc\<lparr>backoff := 1\<rparr>
                  else rc\<lparr>backoff := min (max_backoff rc) (max 1 (2 * backoff rc))\<rparr>);
            rc = rc\<lparr>backoff_deadline := now + backoff rc\<rparr>;
            rc = state_transition env S_BACKOFF rc
        in if now - last_connected rc > 60 then question_connectivity env rc else rc
      else rconn_disconnect env rc)"

section \<open>Connecting\<close>

definition reconnect :: "'t rcenv \<Rightarrow> 't rconn \<Rightarrow> 't rconn \<times> int" where
  "reconnect env rc =
     (let rc = rc\<lparr>n_attempted_connections := n_attempted_connections rc + 1\<rparr>
      in case rc_open env (rc_name rc) of
           Inr v \<Rightarrow>
             let rc = rc\<lparr>rc_vconn := Some v\<rparr>;
                 rc = (if \<not> reconnectable v then rc\<lparr>reliable := False\<rparr> else rc);
                 rc = rc\<lparr>backoff_deadline := rc_now env + backoff rc\<rparr>
             in (state_transition env S_CONNECTING rc, 0)
         | Inl retval \<Rightarrow>
             (rc_disconnect env (rc\<lparr>rc_vconn := None, backoff_deadline := TIME_MAX\<rparr>), retval))"

definition rconn_create :: "'t rcenv \<Rightarrow> int \<Rightarrow> int \<Rightarrow> (nat \<Rightarrow> int) \<Rightarrow> 't rconn" where
  "rconn_create env probe max_bo counters =
     \<lparr>rc_state = S_VOID, state_entered = rc_now env, rc_vconn = None, rc_name = ''void'', reliable = False, rc_txq = [],
      backoff = 0, max_backoff = (if max_bo \<noteq> 0 then max_bo else 60), backoff_deadline = TIME_MIN,
      last_received = rc_now env, last_connected = rc_now env, packets_sent = 0, seqno = 0, probably_admitted = False,
      last_admitted = rc_now env, packets_received = 0, n_attempted_connections = 0, n_successful_connections = 0,
      creation_time = rc_now env, total_time_connected = 0, questionable_connectivity = False,
      last_questioned = rc_now env, probe_interval = (if probe \<noteq> 0 then max 1 probe else 0), monitors = [],
      ofps_rcvd = (\<lambda>_. 0), ofps_sent = (\<lambda>_. 0), idle_echo_xid = 0, n_queued = counters\<rparr>"

definition rconn_connect :: "'t rcenv \<Rightarrow> string \<Rightarrow> 't rconn \<Rightarrow> 't rconn \<times> int" where
  "rconn_connect env nm rc = reconnect env ((rconn_disconnect env rc)\<lparr>rc_name := nm, reliable := True\<rparr>)"

definition rconn_connect_unreliably :: "'t rcenv \<Rightarrow> string \<Rightarrow> 't vconn \<Rightarrow> 't rconn \<Rightarrow> 't rconn" where
  "rconn_connect_unreliably env nm v rc =
     state_transition env S_ACTIVE
       ((rconn_disconnect env rc)\<lparr>rc_name := nm, reliable := False, rc_vconn := Some v, last_connected := rc_now env\<rparr>)"

definition rconn_new :: "'t rcenv \<Rightarrow> string \<Rightarrow> int \<Rightarrow> int \<Rightarrow> (nat \<Rightarrow> int) \<Rightarrow> 't rconn" where
  "rconn_new env nm probe max_bo counters = fst (rconn_connect env nm (rconn_create env probe max_bo counters))"

definition rconn_new_from_vconn :: "'t rcenv \<Rightarrow> string \<Rightarrow> 't vconn \<Rightarrow> (nat \<Rightarrow> int) \<Rightarrow> 't rconn" where
  "rconn_new_from_vconn env nm v counters = rconn_connect_unreliably env nm v (rconn_create env 60 0 counters)"

definition rconn_add_monitor :: "'t vconn \<Rightarrow> 't rconn \<Rightarrow> 't rconn" where
  "rconn_add_monitor v rc = (if length (monitors rc) < MAX_MONITORS then rc\<lparr>monitors := monitors rc @ [v]\<rparr> else rc)"

section \<open>Sending\<close>

text \<open>A monitor that fails is replaced by the last one.\<close>

function copy_loop :: "'t rcenv \<Rightarrow> bytes \<Rightarrow> nat \<Rightarrow> 't vconn list \<Rightarrow> 't vconn list result" where
  "copy_loop env b i ms =
     (if i < length ms then
        bindR (vconn_send (rc_fuel env) (rc_rnd env) (ms ! i) b)
          (\<lambda>(v, retval).
             if retval = 0 \<or> retval = EAGAIN then copy_loop env b (i + 1) (ms[i := v])
             else copy_loop env b i (butlast (ms[i := last ms])))
      else Ok ms)"
  by pat_completeness auto
termination
  by (relation "measure (\<lambda>(_, _, i, ms). length ms - i)") auto

declare copy_loop.simps [simp del]

definition copy_to_monitor :: "'t rcenv \<Rightarrow> bytes \<Rightarrow> 't rconn \<Rightarrow> 't rconn result" where
  "copy_to_monitor env b rc = mapR (\<lambda>ms. rc\<lparr>monitors := ms\<rparr>) (copy_loop env b 0 (monitors rc))"

definition rc_try_send :: "'t rcenv \<Rightarrow> 't rconn \<Rightarrow> ('t rconn \<times> int) result" where
  "rc_try_send env rc =
     (case (rc_txq rc, rc_vconn rc) of
        ((h, c) # rest, Some v) \<Rightarrow>
          guardR (8 \<le> length h) Bad_access
            (let rc = rc\<lparr>ofps_sent := ofpstat_inc_protocol_stat (h @ rc_room env) (ofps_sent rc), idle_echo_xid := ld32 h 4\<rparr>
             in bindR (vconn_send (rc_fuel env) (rc_rnd env) v h)
                  (\<lambda>(v, retval).
                     let rc = rc\<lparr>rc_vconn := Some v\<rparr>
                     in if retval \<noteq> 0 then
                          let rc = rc\<lparr>idle_echo_xid := 0\<rparr>
                          in Ok (if retval \<noteq> EAGAIN then rc_disconnect env rc else rc, retval)
                        else
                          Ok (rc\<lparr>packets_sent := packets_sent rc + 1, rc_txq := rest,
                                n_queued := drop_queued (h, c) (n_queued rc)\<rparr>, 0)))
      | _ \<Rightarrow> Fail Bad_access)"

definition rc_send :: "'t rcenv \<Rightarrow> bytes \<Rightarrow> nat option \<Rightarrow> 't rconn \<Rightarrow> ('t rconn \<times> int) result" where
  "rc_send env b c rc =
     (if rconn_is_connected rc then
        bindR (copy_to_monitor env b rc)
          (\<lambda>rc.
             let rc = rc\<lparr>rc_txq := rc_txq rc @ [(b, c)],
                       n_queued := (case c of Some c \<Rightarrow> (n_queued rc)(c := n_queued rc c + 1) | None \<Rightarrow> n_queued rc)\<rparr>
             in if length (rc_txq rc) = 1 then mapR (\<lambda>(rc, _). (rc, 0)) (rc_try_send env rc) else Ok (rc, 0))
      else Ok (rc, ENOTCONN))"

definition rc_send_with_limit :: "'t rcenv \<Rightarrow> bytes \<Rightarrow> nat \<Rightarrow> int \<Rightarrow> 't rconn \<Rightarrow> ('t rconn \<times> int) result" where
  "rc_send_with_limit env b c queue_limit rc =
     (if n_queued rc c \<ge> queue_limit then Ok (rc, EAGAIN) else rc_send env b (Some c) rc)"

text \<open>The loop runs at most once per message in the queue.\<close>

primrec tx_loop :: "nat \<Rightarrow> 't rcenv \<Rightarrow> 't rconn \<Rightarrow> 't rconn result" where
  "tx_loop 0 env rc = Ok rc"
| "tx_loop (Suc n) env rc =
     (if rc_txq rc \<noteq> [] then bindR (rc_try_send env rc) (\<lambda>(rc, error). if error \<noteq> 0 then Ok rc else tx_loop n env rc)
      else Ok rc)"

definition do_tx_work :: "'t rcenv \<Rightarrow> 't rconn \<Rightarrow> 't rconn result" where
  "do_tx_work env rc = tx_loop (length (rc_txq rc)) env rc"

section \<open>Running\<close>

definition run_BACKOFF :: "'t rcenv \<Rightarrow> 't rconn \<Rightarrow> 't rconn result" where
  "run_BACKOFF env rc = Ok (if timed_out env rc then fst (reconnect env rc) else rc)"

definition run_CONNECTING :: "'t rcenv \<Rightarrow> 't rconn \<Rightarrow> 't rconn result" where
  "run_CONNECTING env rc =
     (case rc_vconn rc of
        None \<Rightarrow> Fail Bad_access
      | Some v \<Rightarrow>
          bindR (vconn_connect (rc_fuel env) (rc_rnd env) v)
            (\<lambda>(v, retval).
               let rc = rc\<lparr>rc_vconn := Some v\<rparr>
               in Ok (if retval = 0 then
                        let rc = rc\<lparr>n_successful_connections := n_successful_connections rc + 1\<rparr>;
                            rc = state_transition env S_ACTIVE rc
                        in rc\<lparr>last_connected := state_entered rc\<rparr>
                      else if retval \<noteq> EAGAIN then rc_disconnect env rc
                      else if timed_out env rc then rc_disconnect env (rc\<lparr>backoff_deadline := TIME_MAX\<rparr>)
                      else rc)))"

definition run_ACTIVE :: "'t rcenv \<Rightarrow> 't rconn \<Rightarrow> 't rconn result" where
  "run_ACTIVE env rc =
     (if timed_out env rc then
        mapR fst (rc_send env (make_echo_request (rc_rnd env OFPT_ECHO_REQUEST)) None (state_transition env S_IDLE rc))
      else do_tx_work env rc)"

definition run_IDLE :: "'t rcenv \<Rightarrow> 't rconn \<Rightarrow> 't rconn result" where
  "run_IDLE env rc =
     (if timed_out env rc then Ok (rc_disconnect env (question_connectivity env rc)) else do_tx_work env rc)"

definition run_state :: "'t rcenv \<Rightarrow> 't rconn \<Rightarrow> 't rconn result" where
  "run_state env rc =
     (case rc_state rc of
        S_VOID \<Rightarrow> Ok rc
      | S_BACKOFF \<Rightarrow> run_BACKOFF env rc
      | S_CONNECTING \<Rightarrow> run_CONNECTING env rc
      | S_ACTIVE \<Rightarrow> run_ACTIVE env rc
      | S_IDLE \<Rightarrow> run_IDLE env rc)"

primrec rconn_run :: "nat \<Rightarrow> 't rcenv \<Rightarrow> 't rconn \<Rightarrow> 't rconn result" where
  "rconn_run 0 env rc = Fail No_return"
| "rconn_run (Suc n) env rc =
     bindR (run_state env rc) (\<lambda>rc'. if rc_state rc' \<noteq> rc_state rc then rconn_run n env rc' else Ok rc')"

definition is_admitted_msg :: "bytes \<Rightarrow> bool" where
  "is_admitted_msg b \<longleftrightarrow>
     \<not> (ld8 b 1 < 32 \<and>
        ld8 b 1 \<in> {OFPT_HELLO, OFPT_ERROR, OFPT_ECHO_REQUEST, OFPT_ECHO_REPLY, OFPT_VENDOR, OFPT_FEATURES_REQUEST,
          OFPT_FEATURES_REPLY, OFPT_GET_CONFIG_REQUEST, OFPT_GET_CONFIG_REPLY, OFPT_SET_CONFIG})"

definition rconn_recv :: "'t rcenv \<Rightarrow> 't rconn \<Rightarrow> ('t rconn \<times> bytes option) result" where
  "rconn_recv env rc =
     (if rconn_is_connected rc then
        case rc_vconn rc of
          None \<Rightarrow> Fail Bad_access
        | Some v \<Rightarrow>
            bindR (vconn_recv (rc_fuel env) (rc_rnd env) v)
              (\<lambda>(v, r).
                 let rc = rc\<lparr>rc_vconn := Some v\<rparr>
                 in case r of
                      Inr b \<Rightarrow>
                        bindR (copy_to_monitor env b rc)
                          (\<lambda>rc.
                             let rc = (if is_admitted_msg b \<or> rc_now env - last_connected rc \<ge> 30
                                       then rc\<lparr>probably_admitted := True, last_admitted := rc_now env\<rparr> else rc);
                                 rc = rc\<lparr>last_received := rc_now env, packets_received := packets_received rc + 1,
                                        ofps_rcvd := ofpstat_inc_protocol_stat (b @ rc_room env) (ofps_rcvd rc)\<rparr>;
                                 rc = (if rc_state rc = S_IDLE then
                                         if ld8 b 1 = OFPT_ECHO_REPLY then
                                           if idle_echo_xid rc = 0 then state_transition env S_ACTIVE rc
                                           else
                                             let rc = (if idle_echo_xid rc = ld32 b 4 then state_transition env S_ACTIVE rc else rc)
                                             in rc\<lparr>idle_echo_xid := 0\<rparr>
                                         else state_transition env S_ACTIVE rc
                                       else rc)
                             in Ok (rc, Some b))
                    | Inl error \<Rightarrow> Ok (if error \<noteq> EAGAIN then rc_disconnect env rc else rc, None))
      else Ok (rc, None))"

section \<open>Status\<close>

definition rconn_failure_duration :: "'t rcenv \<Rightarrow> 't rconn \<Rightarrow> int" where
  "rconn_failure_duration env rc = (if rconn_is_connected rc then 0 else rc_now env - last_admitted rc)"

definition rconn_get_ip :: "'t rconn \<Rightarrow> u32" where
  "rconn_get_ip rc = (case rc_vconn rc of Some v \<Rightarrow> vc_ip v | None \<Rightarrow> 0)"

definition rconn_is_connectivity_questionable :: "'t rconn \<Rightarrow> 't rconn \<times> bool" where
  "rconn_is_connectivity_questionable rc = (rc\<lparr>questionable_connectivity := False\<rparr>, questionable_connectivity rc)"

definition rconn_get_total_time_connected :: "'t rcenv \<Rightarrow> 't rconn \<Rightarrow> u64" where
  "rconn_get_total_time_connected env rc =
     total_time_connected rc + (if rconn_is_connected rc then ucast (elapsed_in_this_state env rc) else 0)"

text \<open>Counters of the connection are moved to those of the reliable connection.\<close>

definition move_stat :: "ofpstat_field list \<Rightarrow> ofpstat \<Rightarrow> ofpstat \<Rightarrow> ofpstat \<times> ofpstat" where
  "move_stat fs from to = fold (\<lambda>f (from, to). (from(f := 0), to(f := to f + from f))) fs (from, to)"

definition rconn_update_protocol_stat :: "'t rconn \<Rightarrow> 't rconn \<times> ofpstat \<times> ofpstat" where
  "rconn_update_protocol_stat rc =
     (let rc = (case rc_vconn rc of
                  None \<Rightarrow> rc
                | Some v \<Rightarrow>
                    let (vr, r) = move_stat [Ofps_total, Ofps_hello] (vc_rcvd v) (ofps_rcvd rc);
                        (vs, s) = move_stat [Ofps_total, Ofps_hello, Ofps_error, Et_hello_fail, Ec_hf_incompat] (vc_sent v) (ofps_sent rc)
                    in rc\<lparr>rc_vconn := Some (v\<lparr>vc_rcvd := vr, vc_sent := vs\<rparr>), ofps_rcvd := r, ofps_sent := s\<rparr>)
      in (rc, ofps_rcvd rc, ofps_sent rc))"

end
