(* ===== verification/OF_Rconn_Props.thy ===== *)
theory OF_Rconn_Props
  imports OF_Rconn
begin

unbundle bit_operations_syntax

text \<open>
  Properties of connections: the negotiation of the version, the invariant of a reliable connection
  and that \<open>rconn_run\<close> comes to an end.
\<close>

section \<open>The invariant of a reliable connection\<close>

definition queued_in :: "nat \<Rightarrow> (bytes \<times> nat option) list \<Rightarrow> int" where
  "queued_in c q = int (length (filter (\<lambda>b. snd b = Some c) q))"

definition rconn_inv :: "'t rconn \<Rightarrow> bool" where
  "rconn_inv rc \<longleftrightarrow> (rc_vconn rc = None \<longleftrightarrow> rc_state rc \<in> {S_VOID, S_BACKOFF}) \<and>
     1 \<le> max_backoff rc \<and> 0 \<le> backoff rc \<and> backoff rc \<le> max_backoff rc \<and> (rc_state rc = S_BACKOFF \<longrightarrow> 1 \<le> backoff rc) \<and>
     0 \<le> probe_interval rc \<and> length (monitors rc) \<le> MAX_MONITORS \<and> (\<forall>c. n_queued rc c = queued_in c (rc_txq rc))"

text \<open>What is left when the state and the connection are being changed.\<close>

definition rconn_core :: "'t rconn \<Rightarrow> bool" where
  "rconn_core rc \<longleftrightarrow> 1 \<le> max_backoff rc \<and> 0 \<le> backoff rc \<and> backoff rc \<le> max_backoff rc \<and>
     0 \<le> probe_interval rc \<and> length (monitors rc) \<le> MAX_MONITORS \<and> (\<forall>c. n_queued rc c = queued_in c (rc_txq rc))"

lemma rconn_inv_core:
  "rconn_inv rc \<longleftrightarrow> rconn_core rc \<and> (rc_vconn rc = None \<longleftrightarrow> rc_state rc \<in> {S_VOID, S_BACKOFF}) \<and>
     (rc_state rc = S_BACKOFF \<longrightarrow> 1 \<le> backoff rc)"
  by (auto simp: rconn_inv_def rconn_core_def)

lemma queued_in_simps [simp]:
  "queued_in c [] = 0" "queued_in c (xs @ ys) = queued_in c xs + queued_in c ys"
  "queued_in c ((b, q) # xs) = (if q = Some c then 1 else 0) + queued_in c xs"
  by (simp_all add: queued_in_def)

lemma drop_queued_eq: "drop_queued (b, q) cs c = cs c - (if q = Some c then 1 else 0)"
  by (auto simp: drop_queued_def split: option.split)

lemma fold_drop_queued: "fold drop_queued q cs c = cs c - queued_in c q"
  by (induction q arbitrary: cs) (auto simp: drop_queued_eq)

lemma transition_fields [simp]:
  "rc_state (state_transition env st rc) = st" "state_entered (state_transition env st rc) = rc_now env"
  "rc_vconn (state_transition env st rc) = rc_vconn rc" "reliable (state_transition env st rc) = reliable rc"
  "rc_txq (state_transition env st rc) = rc_txq rc" "backoff (state_transition env st rc) = backoff rc"
  "max_backoff (state_transition env st rc) = max_backoff rc" "probe_interval (state_transition env st rc) = probe_interval rc"
  "monitors (state_transition env st rc) = monitors rc" "n_queued (state_transition env st rc) = n_queued rc"
  "last_received (state_transition env st rc) = last_received rc" "idle_echo_xid (state_transition env st rc) = idle_echo_xid rc"
  by (simp_all add: state_transition_def Let_def)

lemma question_fields [simp]:
  "rc_state (question_connectivity env rc) = rc_state rc" "state_entered (question_connectivity env rc) = state_entered rc"
  "rc_vconn (question_connectivity env rc) = rc_vconn rc" "reliable (question_connectivity env rc) = reliable rc"
  "rc_txq (question_connectivity env rc) = rc_txq rc" "backoff (question_connectivity env rc) = backoff rc"
  "max_backoff (question_connectivity env rc) = max_backoff rc" "probe_interval (question_connectivity env rc) = probe_interval rc"
  "monitors (question_connectivity env rc) = monitors rc" "n_queued (question_connectivity env rc) = n_queued rc"
  by (simp_all add: question_connectivity_def)

lemma core_transition [simp]: "rconn_core (state_transition env st rc) = rconn_core rc"
  by (simp add: rconn_core_def)

lemma core_question [simp]: "rconn_core (question_connectivity env rc) = rconn_core rc"
  by (simp add: rconn_core_def)

lemma core_fields [simp]:
  "rconn_core (rc\<lparr>rc_vconn := v\<rparr>) = rconn_core rc" "rconn_core (rc\<lparr>reliable := r\<rparr>) = rconn_core rc"
  "rconn_core (rc\<lparr>backoff_deadline := d\<rparr>) = rconn_core rc" "rconn_core (rc\<lparr>n_attempted_connections := k\<rparr>) = rconn_core rc"
  "rconn_core (rc\<lparr>n_successful_connections := k\<rparr>) = rconn_core rc" "rconn_core (rc\<lparr>last_connected := d\<rparr>) = rconn_core rc"
  "rconn_core (rc\<lparr>rc_name := nm\<rparr>) = rconn_core rc" "rconn_core (rc\<lparr>idle_echo_xid := x\<rparr>) = rconn_core rc"
  "rconn_core (rc\<lparr>ofps_sent := st\<rparr>) = rconn_core rc" "rconn_core (rc\<lparr>ofps_rcvd := st\<rparr>) = rconn_core rc"
  "rconn_core (rc\<lparr>packets_received := k\<rparr>) = rconn_core rc" "rconn_core (rc\<lparr>packets_sent := k\<rparr>) = rconn_core rc"
  "rconn_core (rc\<lparr>last_received := d\<rparr>) = rconn_core rc" "rconn_core (rc\<lparr>probably_admitted := r\<rparr>) = rconn_core rc"
  "rconn_core (rc\<lparr>last_admitted := d\<rparr>) = rconn_core rc"
  by (simp_all add: rconn_core_def)

lemma core_flush: "rconn_core rc \<Longrightarrow> rconn_core (flush_queue rc)"
  by (simp add: rconn_core_def flush_queue_def fold_drop_queued)

lemma rconn_disconnect_inv: "rconn_core rc \<Longrightarrow> rc_state rc \<noteq> S_VOID \<or> rc_vconn rc = None \<Longrightarrow> rconn_inv (rconn_disconnect env rc)"
  by (auto simp: rconn_disconnect_def rconn_inv_core rconn_core_def)

text \<open>Whatever the state was, after a disconnection the connection is void or waits to reconnect.\<close>

lemma rc_disconnect_inv:
  assumes core: "rconn_core rc" and v: "rc_state rc \<in> {S_VOID, S_BACKOFF} \<Longrightarrow> rc_vconn rc = None"
  shows "rconn_inv (rc_disconnect env rc)" "rc_state (rc_disconnect env rc) \<in> {S_VOID, S_BACKOFF}"
    "rc_state (rc_disconnect env rc) = S_BACKOFF \<Longrightarrow> state_entered (rc_disconnect env rc) = rc_now env \<or> \<not> reliable rc"
proof -
  define r1 where "r1 = (if rc_state rc \<in> {S_CONNECTING, S_ACTIVE, S_IDLE} then flush_queue (rc\<lparr>rc_vconn := None\<rparr>) else rc)"
  define r2 where "r2 = (if rc_now env \<ge> backoff_deadline r1 then r1\<lparr>backoff := 1\<rparr>
    else r1\<lparr>backoff := min (max_backoff r1) (max 1 (2 * backoff r1))\<rparr>)"
  define r3 where "r3 = state_transition env S_BACKOFF (r2\<lparr>backoff_deadline := rc_now env + backoff r2\<rparr>)"
  have c1: "rconn_core r1" "rc_vconn r1 = None"
    using core core_flush [of "rc\<lparr>rc_vconn := None\<rparr>"] v
    by (cases "rc_state rc"; simp add: r1_def flush_queue_def)+
  have c2: "rconn_core r2" "1 \<le> backoff r2" "rc_vconn r2 = None"
    using c1 by (auto simp: r2_def rconn_core_def)
  have eq: "rc_disconnect env rc = (if reliable rc then
      if rc_now env - last_connected r3 > 60 then question_connectivity env r3 else r3 else rconn_disconnect env rc)"
    unfolding rc_disconnect_def Let_def r1_def [symmetric] r2_def [symmetric] r3_def [symmetric] by (rule refl)
  have i3: "rconn_inv r3" "rconn_inv (question_connectivity env r3)" using c2 by (simp_all add: r3_def rconn_inv_core)
  have "rc_state rc \<noteq> S_VOID \<or> rc_vconn rc = None" using v by auto
  then show "rconn_inv (rc_disconnect env rc)" using eq i3 rconn_disconnect_inv [OF core] by simp
  show "rc_state (rc_disconnect env rc) \<in> {S_VOID, S_BACKOFF}"
    by (simp add: eq r3_def rconn_disconnect_def)
  show "rc_state (rc_disconnect env rc) = S_BACKOFF \<Longrightarrow> state_entered (rc_disconnect env rc) = rc_now env \<or> \<not> reliable rc"
    by (simp add: eq r3_def)
qed

lemma reconnect_inv:
  assumes "rconn_core rc" "rc_vconn rc = None"
  shows "rconn_inv (fst (reconnect env rc))" "rc_state (fst (reconnect env rc)) \<in> {S_VOID, S_BACKOFF, S_CONNECTING}"
proof -
  have "rconn_inv (fst (reconnect env rc)) \<and> rc_state (fst (reconnect env rc)) \<in> {S_VOID, S_BACKOFF, S_CONNECTING}"
  proof (cases "rc_open env (rc_name rc)")
    case (Inl e)
    then show ?thesis
      using rc_disconnect_inv(1,2) [of "rc\<lparr>n_attempted_connections := n_attempted_connections rc + 1, rc_vconn := None, backoff_deadline := TIME_MAX\<rparr>" env] assms(1)
      by (auto simp: reconnect_def)
  next
    case (Inr v)
    then show ?thesis using assms by (simp add: reconnect_def Let_def rconn_inv_core)
  qed
  then show "rconn_inv (fst (reconnect env rc))" "rc_state (fst (reconnect env rc)) \<in> {S_VOID, S_BACKOFF, S_CONNECTING}" by simp_all
qed

lemma rconn_disconnect_void: "rc_state (rconn_disconnect env rc) = S_VOID"
  by (simp add: rconn_disconnect_def)

lemma rconn_connect_inv:
  assumes "rconn_inv rc"
  shows "rconn_inv (fst (rconn_connect env nm rc))"
proof -
  have "rconn_inv (rconn_disconnect env rc)" using assms rconn_disconnect_inv [of rc env] by (auto simp: rconn_inv_core)
  then show ?thesis
    using rconn_disconnect_void [of env rc]
    by (simp add: rconn_connect_def rconn_inv_core [of "rconn_disconnect env rc"] reconnect_inv)
qed

lemma rconn_connect_unreliably_inv:
  assumes "rconn_inv rc"
  shows "rconn_inv (rconn_connect_unreliably env nm v rc)"
proof -
  have "rconn_inv (rconn_disconnect env rc)" using assms rconn_disconnect_inv [of rc env] by (auto simp: rconn_inv_core)
  then show ?thesis by (simp add: rconn_connect_unreliably_def rconn_inv_core)
qed

lemma copy_loop_length: "copy_loop env b i ms = Ok ms' \<Longrightarrow> length ms' \<le> length ms"
proof (induction env b i ms arbitrary: ms' rule: copy_loop.induct)
  case (1 env b i ms)
  show ?case
  proof (cases "i < length ms")
    case True
    then obtain v e where v: "vconn_send (rc_fuel env) (rc_rnd env) (ms ! i) b = Ok (v, e)"
      using "1.prems" by (subst (asm) copy_loop.simps) (auto simp: bindR_eq_Ok)
    show ?thesis
    proof (cases "e = 0 \<or> e = EAGAIN")
      case e: True
      then have "copy_loop env b (i + 1) (ms[i := v]) = Ok ms'"
        using "1.prems" True v by (subst (asm) copy_loop.simps) auto
      then show ?thesis using "1.IH"(1) [OF True v refl e] by simp
    next
      case e: False
      then have "copy_loop env b i (butlast (ms[i := last ms])) = Ok ms'"
        using "1.prems" True v by (subst (asm) copy_loop.simps) auto
      then show ?thesis using "1.IH"(2) [OF True v refl e] by simp
    qed
  next
    case False
    then show ?thesis using "1.prems" by (subst (asm) copy_loop.simps) simp
  qed
qed

lemma copy_to_monitor_fields:
  assumes "copy_to_monitor env b rc = Ok rc'"
  shows "\<exists>ms. rc' = rc\<lparr>monitors := ms\<rparr> \<and> length ms \<le> length (monitors rc)"
proof -
  obtain ms where "copy_loop env b 0 (monitors rc) = Ok ms" "rc' = rc\<lparr>monitors := ms\<rparr>"
    using assms by (auto simp: copy_to_monitor_def mapR_def bindR_eq_Ok)
  then show ?thesis using copy_loop_length by blast
qed

text \<open>A call either keeps the state or drops the connection.\<close>

definition dropped :: "'t rcenv \<Rightarrow> 't rconn \<Rightarrow> 't rconn \<Rightarrow> bool" where
  "dropped env rc rc' \<longleftrightarrow> (\<exists>x. rc' = rc_disconnect env x \<and> rconn_core x \<and> rc_state x \<notin> {S_VOID, S_BACKOFF} \<and>
     max_backoff x = max_backoff rc)"

definition moves :: "'t rcenv \<Rightarrow> 't rconn \<Rightarrow> 't rconn \<Rightarrow> bool" where
  "moves env rc rc' \<longleftrightarrow> rc_state rc' = rc_state rc \<and> max_backoff rc' = max_backoff rc \<or> dropped env rc rc'"

lemma moves_cong: "moves env r1 rc' \<Longrightarrow> rc_state r1 = rc_state rc \<Longrightarrow> max_backoff r1 = max_backoff rc \<Longrightarrow> moves env rc rc'"
  by (simp add: moves_def dropped_def)

lemma try_send_inv:
  assumes inv: "rconn_inv rc" and ok: "rc_try_send env rc = Ok (rc', e)"
  shows "rconn_inv rc'" "moves env rc rc'" "e = 0 \<Longrightarrow> length (rc_txq rc') < length (rc_txq rc)"
    "e = 0 \<Longrightarrow> rc_state rc' = rc_state rc \<and> max_backoff rc' = max_backoff rc"
proof -
  obtain h c rest v where q: "rc_txq rc = (h, c) # rest" "rc_vconn rc = Some v"
    using ok by (auto simp: rc_try_send_def split: list.splits option.splits)
  define r1 where "r1 = rc\<lparr>ofps_sent := ofpstat_inc_protocol_stat (h @ rc_room env) (ofps_sent rc), idle_echo_xid := ld32 h 4\<rparr>"
  obtain v' where s: "vconn_send (rc_fuel env) (rc_rnd env) v h = Ok (v', e)"
    using ok q by (auto simp: rc_try_send_def Let_def guardR_eq_Ok bindR_eq_Ok split: if_splits)
  have c: "rconn_core rc" "rc_state rc \<notin> {S_VOID, S_BACKOFF}" using inv q(2) by (auto simp: rconn_inv_core)
  have r: "rc' = (if e \<noteq> 0 then (if e \<noteq> EAGAIN then rc_disconnect env (r1\<lparr>rc_vconn := Some v', idle_echo_xid := 0\<rparr>)
      else r1\<lparr>rc_vconn := Some v', idle_echo_xid := 0\<rparr>)
    else r1\<lparr>rc_vconn := Some v', packets_sent := packets_sent r1 + 1, rc_txq := rest, n_queued := drop_queued (h, c) (n_queued r1)\<rparr>)"
    using ok q s by (auto simp: rc_try_send_def Let_def guardR_eq_Ok r1_def)
  have d: "rconn_inv (rc_disconnect env (r1\<lparr>rc_vconn := Some v', idle_echo_xid := 0\<rparr>))"
    "rc_state (rc_disconnect env (r1\<lparr>rc_vconn := Some v', idle_echo_xid := 0\<rparr>)) \<in> {S_VOID, S_BACKOFF}"
    using rc_disconnect_inv [of "r1\<lparr>rc_vconn := Some v', idle_echo_xid := 0\<rparr>" env] c by (simp_all add: r1_def)
  have k: "rconn_inv (r1\<lparr>rc_vconn := Some v', idle_echo_xid := 0\<rparr>)" using c by (simp add: r1_def rconn_inv_core)
  have "rconn_core (r1\<lparr>rc_vconn := Some v', packets_sent := packets_sent r1 + 1, rc_txq := rest, n_queued := drop_queued (h, c) (n_queued r1)\<rparr>)"
    using c(1) q(1) by (auto simp: r1_def rconn_core_def drop_queued_eq)
  then show "rconn_inv rc'" using r d(1) k c(2) by (simp add: rconn_inv_core r1_def)
  have "dropped env rc (rc_disconnect env (r1\<lparr>rc_vconn := Some v', idle_echo_xid := 0\<rparr>))"
    unfolding dropped_def using c by (intro exI [of _ "r1\<lparr>rc_vconn := Some v', idle_echo_xid := 0\<rparr>"]) (simp add: r1_def)
  then show "moves env rc rc'" using r by (simp add: moves_def r1_def)
  show "e = 0 \<Longrightarrow> length (rc_txq rc') < length (rc_txq rc)" "e = 0 \<Longrightarrow> rc_state rc' = rc_state rc \<and> max_backoff rc' = max_backoff rc" using r q(1) by (simp_all add: r1_def)
qed

lemma rc_send_inv:
  assumes inv: "rconn_inv rc" and ok: "rc_send env b c rc = Ok (rc', e)"
  shows "rconn_inv rc'" "moves env rc rc'"
proof -
  have "rconn_inv rc' \<and> moves env rc rc'"
  proof (cases "rconn_is_connected rc")
    case True
    obtain ms where ms: "copy_to_monitor env b rc = Ok (rc\<lparr>monitors := ms\<rparr>)" "length ms \<le> length (monitors rc)"
      using ok True copy_to_monitor_fields by (fastforce simp: rc_send_def bindR_eq_Ok)
    define r1 where "r1 = rc\<lparr>monitors := ms, rc_txq := rc_txq rc @ [(b, c)],
      n_queued := (case c of Some c \<Rightarrow> (n_queued rc)(c := n_queued rc c + 1) | None \<Rightarrow> n_queued rc)\<rparr>"
    have i1: "rconn_inv r1" "rc_state r1 = rc_state rc" "max_backoff r1 = max_backoff rc"
      using inv ms(2) by (auto simp: r1_def rconn_inv_def split: option.splits)
    have "rc_send env b c rc = (if length (rc_txq r1) = 1 then mapR (\<lambda>(rc, _). (rc, 0)) (rc_try_send env r1) else Ok (r1, 0))"
      using True ms(1) by (simp add: rc_send_def Let_def r1_def cong: option.case_cong)
    then consider e' where "rc_try_send env r1 = Ok (rc', e')" | "rc' = r1"
      using ok by (cases "rc_try_send env r1") (auto split: if_splits)
    then show ?thesis
    proof cases
      case 1
      then show ?thesis using try_send_inv(1,2) [OF i1(1) 1] moves_cong [OF _ i1(2,3)] by simp
    next
      case 2
      then show ?thesis using i1 by (simp add: moves_def)
    qed
  next
    case False
    then show ?thesis using ok inv by (simp add: rc_send_def moves_def)
  qed
  then show "rconn_inv rc'" "moves env rc rc'" by simp_all
qed

lemma tx_loop_inv:
  assumes "rconn_inv rc" "tx_loop n env rc = Ok rc'"
  shows "rconn_inv rc' \<and> moves env rc rc'"
  using assms
proof (induction n arbitrary: rc)
  case 0
  then show ?case by (simp add: moves_def)
next
  case (Suc n)
  show ?case
  proof (cases "rc_txq rc = []")
    case False
    then obtain r1 e where 1: "rc_try_send env rc = Ok (r1, e)" "(if e \<noteq> 0 then Ok r1 else tx_loop n env r1) = Ok rc'"
      using Suc.prems(2) by (auto simp: bindR_eq_Ok)
    note t = try_send_inv [OF Suc.prems(1) 1(1)]
    show ?thesis
    proof (cases "e = 0")
      case True
      then show ?thesis using Suc.IH [OF t(1)] 1(2) t(4) moves_cong [of env r1 rc' rc] by simp
    next
      case False
      then show ?thesis using 1(2) t(1,2) by simp
    qed
  next
    case True
    then show ?thesis using Suc.prems by (simp add: moves_def)
  qed
qed

text \<open>A connection that has just been dropped, at a time the timers can represent, has to wait.\<close>

definition time_ok :: "'t rcenv \<Rightarrow> bool" where
  "time_ok env \<longleftrightarrow> 0 \<le> rc_now env \<and> rc_now env < 2 ^ 32 - 1"

lemma sat_add_later:
  fixes x y :: u32
  assumes "y \<noteq> 0" "x \<noteq> - 1"
  shows "uint x < uint (sat_add x y)"
proof (cases "x + y \<ge> x")
  case True
  then have "x < x + y" using assms(1) by (simp add: order_less_le)
  then show ?thesis using True by (simp add: sat_add_def word_less_def)
next
  case False
  have "x < - 1" using assms(2) by (simp add: order_less_le)
  then show ?thesis using False by (simp add: sat_add_def word_less_def)
qed

definition waits :: "'t rcenv \<Rightarrow> 't rconn \<Rightarrow> bool" where
  "waits env rc \<longleftrightarrow> rc_state rc = S_VOID \<or> rc_state rc = S_BACKOFF \<and> \<not> timed_out env rc"

lemma backoff_waits:
  assumes t: "time_ok env" and s: "rc_state rc = S_BACKOFF" "state_entered rc = rc_now env"
    and b: "1 \<le> backoff rc" "backoff rc < 2 ^ 32"
  shows "waits env rc"
proof -
  have n: "(word_of_int (rc_now env) :: u32) \<noteq> - 1" "uint (word_of_int (rc_now env) :: u32) = rc_now env"
  proof -
    show u: "uint (word_of_int (rc_now env) :: u32) = rc_now env"
      using t by (simp add: time_ok_def unsigned_of_int take_bit_int_eq_self)
    show "(word_of_int (rc_now env) :: u32) \<noteq> - 1"
    proof
      assume "(word_of_int (rc_now env) :: u32) = - 1"
      then have "rc_now env = uint (- 1 :: u32)" using u by simp
      then show False using t by (simp add: time_ok_def unsigned_minus_1_eq_mask mask_eq_exp_minus_1)
    qed
  qed
  have "(word_of_int (backoff rc) :: u32) \<noteq> 0"
  proof
    assume "(word_of_int (backoff rc) :: u32) = 0"
    then have "uint (word_of_int (backoff rc) :: u32) = 0" by simp
    then show False using b by (simp add: unsigned_of_int take_bit_int_eq_self)
  qed
  then have "uint (word_of_int (rc_now env) :: u32) < uint (sat_add (word_of_int (rc_now env)) (word_of_int (backoff rc)))"
    by (rule sat_add_later [OF _ n(1)])
  then show ?thesis using s n(2) by (simp add: waits_def timed_out_def rc_timeout_def)
qed

text \<open>What a turn of the loop of \<open>rconn_run\<close> makes of the state.\<close>

lemma disconnect_waits:
  assumes core: "rconn_core rc" and v: "rc_state rc \<notin> {S_VOID, S_BACKOFF}" and t: "time_ok env" "max_backoff rc < 2 ^ 32"
  shows "waits env (rc_disconnect env rc)"
proof -
  note d = rc_disconnect_inv [OF core, of env]
  have mb: "max_backoff (rc_disconnect env rc) = max_backoff rc"
    by (simp add: rc_disconnect_def rconn_disconnect_def flush_queue_def Let_def)
  show ?thesis
  proof (cases "rc_state (rc_disconnect env rc) = S_BACKOFF")
    case True
    have r: "reliable rc"
    proof (rule ccontr)
      assume "\<not> reliable rc"
      then have "rc_state (rc_disconnect env rc) = S_VOID" by (simp add: rc_disconnect_def rconn_disconnect_void)
      then show False using True by simp
    qed
    have i: "rconn_inv (rc_disconnect env rc)" by (rule d(1)) (use v in auto)
    have "state_entered (rc_disconnect env rc) = rc_now env" using d(3) True r v by auto
    then show ?thesis using i True mb t by (intro backoff_waits) (auto simp: rconn_inv_def)
  next
    case False
    then show ?thesis using d(2) v by (auto simp: waits_def)
  qed
qed

lemma disconnect_max_backoff: "max_backoff (rc_disconnect env rc) = max_backoff rc"
  by (simp add: rc_disconnect_def rconn_disconnect_def flush_queue_def Let_def)

lemma dropped_waits: "dropped env rc rc' \<Longrightarrow> time_ok env \<Longrightarrow> max_backoff rc < 2 ^ 32 \<Longrightarrow> waits env rc' \<and> max_backoff rc' = max_backoff rc"
  unfolding dropped_def by (elim exE conjE) (simp add: disconnect_waits disconnect_max_backoff)

definition phase :: "'t rcenv \<Rightarrow> 't rconn \<Rightarrow> nat" where
  "phase env rc = (case rc_state rc of S_VOID \<Rightarrow> 0 | S_BACKOFF \<Rightarrow> (if timed_out env rc then 4 else 0)
     | S_CONNECTING \<Rightarrow> 3 | S_ACTIVE \<Rightarrow> 2 | S_IDLE \<Rightarrow> 1)"

lemma waits_phase: "waits env rc \<Longrightarrow> phase env rc = 0"
  by (auto simp: waits_def phase_def)

lemma run_CONNECTING_inv:
  assumes inv: "rconn_inv rc" and st: "rc_state rc = S_CONNECTING" and ok: "run_CONNECTING env rc = Ok rc'"
  shows "rconn_inv rc' \<and> (moves env rc rc' \<or> rc_state rc' = S_ACTIVE \<and> max_backoff rc' = max_backoff rc)"
proof -
  obtain v where v: "rc_vconn rc = Some v" using inv st by (auto simp: rconn_inv_def)
  obtain v' e where e: "vconn_connect (rc_fuel env) (rc_rnd env) v = Ok (v', e)"
    using ok v by (auto simp: run_CONNECTING_def bindR_eq_Ok)
  define r1 where "r1 = rc\<lparr>rc_vconn := Some v'\<rparr>"
  have c: "rconn_core r1" "rc_state r1 = S_CONNECTING" "max_backoff r1 = max_backoff rc" "rc_vconn r1 = Some v'"
    using inv st by (simp_all add: r1_def rconn_inv_core)
  have r: "rc' = (if e = 0 then
        (let rc = state_transition env S_ACTIVE (r1\<lparr>n_successful_connections := n_successful_connections r1 + 1\<rparr>)
         in rc\<lparr>last_connected := state_entered rc\<rparr>)
      else if e \<noteq> EAGAIN then rc_disconnect env r1
      else if timed_out env r1 then rc_disconnect env (r1\<lparr>backoff_deadline := TIME_MAX\<rparr>) else r1)"
    using ok unfolding run_CONNECTING_def v option.case e bindR.simps prod.case Let_def r1_def [symmetric] by (simp only: result.inject)
  have d: "rconn_inv (rc_disconnect env x) \<and> dropped env rc (rc_disconnect env x)"
    if "rconn_core x" "rc_state x = S_CONNECTING" "max_backoff x = max_backoff rc" for x
    using that rc_disconnect_inv(1) [of x env] by (auto simp: dropped_def)
  have "rconn_inv r1" using c by (simp add: rconn_inv_core)
  then show ?thesis
    using r c d [of r1] d [of "r1\<lparr>backoff_deadline := TIME_MAX\<rparr>"] st
    by (auto simp: Let_def rconn_inv_core moves_def split: if_splits)
qed

lemma run_ACTIVE_inv:
  assumes inv: "rconn_inv rc" and st: "rc_state rc = S_ACTIVE" and ok: "run_ACTIVE env rc = Ok rc'"
  shows "rconn_inv rc' \<and> (moves env rc rc' \<or> rc_state rc' = S_IDLE \<and> max_backoff rc' = max_backoff rc)"
proof (cases "timed_out env rc")
  case True
  have i: "rconn_inv (state_transition env S_IDLE rc)" using inv st by (simp add: rconn_inv_core)
  obtain e where "rc_send env (make_echo_request (rc_rnd env OFPT_ECHO_REQUEST)) None (state_transition env S_IDLE rc) = Ok (rc', e)"
    using ok True by (auto simp: run_ACTIVE_def mapR_def bindR_eq_Ok)
  from rc_send_inv [OF i this] show ?thesis by (auto simp: moves_def dropped_def)
next
  case False
  then show ?thesis using ok tx_loop_inv [OF inv] by (auto simp: run_ACTIVE_def do_tx_work_def)
qed

lemma run_IDLE_inv:
  assumes inv: "rconn_inv rc" and st: "rc_state rc = S_IDLE" and ok: "run_IDLE env rc = Ok rc'"
  shows "rconn_inv rc' \<and> moves env rc rc'"
proof (cases "timed_out env rc")
  case True
  have c: "rconn_core (question_connectivity env rc)" using inv by (simp add: rconn_inv_core)
  have "dropped env rc rc'"
    unfolding dropped_def using ok True c st by (intro exI [of _ "question_connectivity env rc"]) (simp add: run_IDLE_def)
  then show ?thesis using ok True rc_disconnect_inv(1) [OF c, of env] st by (simp add: run_IDLE_def moves_def)
next
  case False
  then show ?thesis using ok tx_loop_inv [OF inv] by (simp add: run_IDLE_def do_tx_work_def)
qed

lemma reconnect_max_backoff: "max_backoff (fst (reconnect env rc)) = max_backoff rc"
  by (simp add: reconnect_def rc_disconnect_def rconn_disconnect_def flush_queue_def Let_def split: sum.split)

lemma run_state_inv:
  assumes inv: "rconn_inv rc" and ok: "run_state env rc = Ok rc'"
  shows "rconn_inv rc'"
    and "time_ok env \<Longrightarrow> max_backoff rc < 2 ^ 32 \<Longrightarrow> max_backoff rc' = max_backoff rc \<and>
      (rc_state rc' \<noteq> rc_state rc \<longrightarrow> phase env rc' < phase env rc)"
proof -
  have "rconn_inv rc' \<and> (time_ok env \<and> max_backoff rc < 2 ^ 32 \<longrightarrow> max_backoff rc' = max_backoff rc \<and>
      (rc_state rc' \<noteq> rc_state rc \<longrightarrow> phase env rc' < phase env rc))"
  proof (cases "rc_state rc")
    case S_VOID
    then show ?thesis using inv ok by (simp add: run_state_def)
  next
    case S_BACKOFF
    then have r: "rc' = (if timed_out env rc then fst (reconnect env rc) else rc)" using ok by (simp add: run_state_def run_BACKOFF_def)
    have "rconn_core rc" "rc_vconn rc = None" using inv S_BACKOFF by (simp_all add: rconn_inv_core)
    note c = reconnect_inv [OF this, of env]
    show ?thesis using r c S_BACKOFF inv reconnect_max_backoff [of env rc] by (auto simp: phase_def)
  next
    case S_CONNECTING
    have "phase env rc = 3" "rc_state rc' = S_ACTIVE \<Longrightarrow> phase env rc' = 2" using S_CONNECTING by (simp_all add: phase_def)
    then show ?thesis
      using run_CONNECTING_inv [OF inv S_CONNECTING, of env rc'] ok dropped_waits [of env rc rc'] waits_phase [of env rc'] S_CONNECTING
      by (auto simp: run_state_def moves_def)
  next
    case S_ACTIVE
    have "phase env rc = 2" "rc_state rc' = S_IDLE \<Longrightarrow> phase env rc' = 1" using S_ACTIVE by (simp_all add: phase_def)
    then show ?thesis
      using run_ACTIVE_inv [OF inv S_ACTIVE, of env rc'] ok dropped_waits [of env rc rc'] waits_phase [of env rc'] S_ACTIVE
      by (auto simp: run_state_def moves_def)
  next
    case S_IDLE
    have "phase env rc = 1" using S_IDLE by (simp add: phase_def)
    then show ?thesis
      using run_IDLE_inv [OF inv S_IDLE, of env rc'] ok dropped_waits [of env rc rc'] waits_phase [of env rc'] S_IDLE
      by (auto simp: run_state_def moves_def)
  qed
  then show "rconn_inv rc'" "time_ok env \<Longrightarrow> max_backoff rc < 2 ^ 32 \<Longrightarrow> max_backoff rc' = max_backoff rc \<and>
      (rc_state rc' \<noteq> rc_state rc \<longrightarrow> phase env rc' < phase env rc)" by simp_all
qed

lemma rconn_run_inv: "rconn_inv rc \<Longrightarrow> rconn_run n env rc = Ok rc' \<Longrightarrow> rconn_inv rc'"
proof (induction n arbitrary: rc)
  case (Suc n)
  then obtain r1 where 1: "run_state env rc = Ok r1" "(if rc_state r1 \<noteq> rc_state rc then rconn_run n env r1 else Ok r1) = Ok rc'"
    by (auto simp: bindR_eq_Ok)
  show ?case using Suc.IH [OF run_state_inv(1) [OF Suc.prems(1) 1(1)]] run_state_inv(1) [OF Suc.prems(1) 1(1)] 1(2)
    by (auto split: if_splits)
qed simp

lemma rconn_run_phase:
  assumes "rconn_inv rc" "time_ok env" "max_backoff rc < 2 ^ 32" "phase env rc < n"
  shows "rconn_run (n + k) env rc = rconn_run n env rc"
  using assms
proof (induction n arbitrary: rc)
  case (Suc n)
  show ?case
  proof (cases "run_state env rc")
    case (Ok r1)
    note r = run_state_inv [OF Suc.prems(1) Ok]
    show ?thesis
    proof (cases "rc_state r1 = rc_state rc")
      case True
      then show ?thesis using Ok by simp
    next
      case False
      then have "phase env r1 < n" "max_backoff r1 < 2 ^ 32" using r(2) Suc.prems by auto
      then show ?thesis using Ok False Suc.IH [OF r(1) Suc.prems(2)] by simp
    qed
  next
    case (Fail f)
    then show ?thesis by simp
  qed
qed simp

lemma rconn_recv_inv:
  assumes inv: "rconn_inv rc" and ok: "rconn_recv env rc = Ok (rc', r)"
  shows "rconn_inv rc'"
proof (cases "rconn_is_connected rc")
  case True
  then have st: "rc_state rc \<in> {S_ACTIVE, S_IDLE}" by (auto simp: rconn_is_connected_def is_connected_state_def)
  then obtain v where v: "rc_vconn rc = Some v" using inv by (auto simp: rconn_inv_def)
  obtain v' q where q: "vconn_recv (rc_fuel env) (rc_rnd env) v = Ok (v', q)"
    using ok True v by (auto simp: rconn_recv_def bindR_eq_Ok)
  define r1 where "r1 = rc\<lparr>rc_vconn := Some v'\<rparr>"
  have c: "rconn_core r1" "rc_state r1 \<in> {S_ACTIVE, S_IDLE}" "rc_vconn r1 = Some v'"
    using inv st by (simp_all add: r1_def rconn_inv_core)
  have conn: "rconn_inv x" if "rconn_core x" "rc_state x \<in> {S_ACTIVE, S_IDLE}" "rc_vconn x \<noteq> None" for x :: "'a rconn"
    using that by (auto simp: rconn_inv_core)
  show ?thesis
  proof (cases q)
    case (Inl e)
    then have "rc' = (if e \<noteq> EAGAIN then rc_disconnect env r1 else r1)"
      using ok True v q by (auto simp: rconn_recv_def Let_def r1_def split: if_splits)
    then show ?thesis using rc_disconnect_inv(1) [OF c(1), of env] conn [OF c(1,2)] c by auto
  next
    case (Inr b)
    then obtain r2 where r2: "copy_to_monitor env b r1 = Ok r2"
      using ok True v q by (auto simp: rconn_recv_def Let_def r1_def bindR_eq_Ok)
    from copy_to_monitor_fields [OF this] have c2: "rconn_core r2" "rc_state r2 \<in> {S_ACTIVE, S_IDLE}" "rc_vconn r2 \<noteq> None"
      using c by (auto simp: rconn_core_def)
    define r3 where "r3 = (if is_admitted_msg b \<or> rc_now env - last_connected r2 \<ge> 30
      then r2\<lparr>probably_admitted := True, last_admitted := rc_now env\<rparr> else r2)"
    define r4 where "r4 = r3\<lparr>last_received := rc_now env, packets_received := packets_received r3 + 1,
      ofps_rcvd := ofpstat_inc_protocol_stat (b @ rc_room env) (ofps_rcvd r3)\<rparr>"
    have c4: "rconn_core r4" "rc_state r4 \<in> {S_ACTIVE, S_IDLE}" "rc_vconn r4 \<noteq> None"
      using c2 by (simp_all add: r4_def r3_def)
    have "rc' = (if rc_state r4 = S_IDLE then
        if ld8 b 1 = OFPT_ECHO_REPLY then
          if idle_echo_xid r4 = 0 then state_transition env S_ACTIVE r4
          else (if idle_echo_xid r4 = ld32 b 4 then state_transition env S_ACTIVE r4 else r4)\<lparr>idle_echo_xid := 0\<rparr>
        else state_transition env S_ACTIVE r4
      else r4)"
      using ok unfolding rconn_recv_def if_P [OF True] v option.case q bindR.simps prod.case Let_def r1_def [symmetric] Inr sum.case r2
        r3_def [symmetric] r4_def [symmetric] by simp
    then show ?thesis using c4 by (auto intro!: conn split: if_splits)
  qed
next
  case False
  then show ?thesis using ok inv by (simp add: rconn_recv_def)
qed

section \<open>Reachable connections\<close>

text \<open>The calls of the interface, each with its own surroundings.\<close>

inductive rconn_reach :: "'t rconn \<Rightarrow> bool" where
  rr_create: "0 \<le> max_bo \<Longrightarrow> rconn_reach (rconn_create env probe max_bo (\<lambda>_. 0))"
| rr_connect: "rconn_reach rc \<Longrightarrow> rconn_reach (fst (rconn_connect env nm rc))"
| rr_connect_unreliably: "rconn_reach rc \<Longrightarrow> rconn_reach (rconn_connect_unreliably env nm v rc)"
| rr_disconnect: "rconn_reach rc \<Longrightarrow> rconn_reach (rconn_disconnect env rc)"
| rr_monitor: "rconn_reach rc \<Longrightarrow> rconn_reach (rconn_add_monitor v rc)"
| rr_send: "rconn_reach rc \<Longrightarrow> rc_send env b c rc = Ok (rc', e) \<Longrightarrow> rconn_reach rc'"
| rr_send_limit: "rconn_reach rc \<Longrightarrow> rc_send_with_limit env b k l rc = Ok (rc', e) \<Longrightarrow> rconn_reach rc'"
| rr_recv: "rconn_reach rc \<Longrightarrow> rconn_recv env rc = Ok (rc', r) \<Longrightarrow> rconn_reach rc'"
| rr_run: "rconn_reach rc \<Longrightarrow> rconn_run n env rc = Ok rc' \<Longrightarrow> rconn_reach rc'"
| rr_questionable: "rconn_reach rc \<Longrightarrow> rconn_reach (fst (rconn_is_connectivity_questionable rc))"
| rr_stat: "rconn_reach rc \<Longrightarrow> rconn_reach (fst (rconn_update_protocol_stat rc))"

lemma rconn_reach_inv: "rconn_reach rc \<Longrightarrow> rconn_inv rc"
proof (induction rule: rconn_reach.induct)
  case (rr_create max_bo env probe)
  then show ?case by (auto simp: rconn_create_def rconn_inv_def max_def)
next
  case (rr_disconnect rc env)
  then show ?case using rconn_disconnect_inv [of rc env] by (auto simp: rconn_inv_core)
next
  case (rr_send_limit rc env b k l rc' e)
  then show ?case by (auto simp: rc_send_with_limit_def split: if_splits intro: rc_send_inv(1))
next
  case (rr_stat rc)
  then show ?case by (auto simp: rconn_update_protocol_stat_def rconn_inv_def Let_def split: option.splits prod.splits)
next
  case (rr_monitor rc v)
  then show ?case by (simp add: rconn_add_monitor_def rconn_inv_def)
next
  case (rr_questionable rc)
  then show ?case by (simp add: rconn_is_connectivity_questionable_def rconn_inv_def)
qed (blast intro: rconn_connect_inv rconn_connect_unreliably_inv rc_send_inv(1) rconn_recv_inv rconn_run_inv)+

text \<open>C23: In every state that a reliable connection can reach, whatever the network does, there is an
  underlying connection exactly in the states connecting, active and idle, so that no call follows a null
  pointer to it; the time to wait before the next attempt is at least one second and never more
  than the maximum; at most eight monitors are attached; and the counter of each client equals the
  number of its messages in the queue.\<close>

theorem rconn_reachable_invariant:
  assumes "rconn_reach rc"
  shows "(rc_vconn rc = None \<longleftrightarrow> rc_state rc \<in> {S_VOID, S_BACKOFF}) \<and>
    (rc_state rc = S_BACKOFF \<longrightarrow> 1 \<le> backoff rc) \<and> backoff rc \<le> max_backoff rc \<and>
    length (monitors rc) \<le> MAX_MONITORS \<and> (\<forall>c. n_queued rc c = queued_in c (rc_txq rc))"
  using rconn_reach_inv [OF assms] by (simp add: rconn_inv_def)

text \<open>A connection whose peer has sent the given messages and that accepts everything.\<close>

definition script_class :: "bytes list vconn_class" where
  "script_class = \<lparr>class_connect = (\<lambda>t. (t, 0)),
     class_recv = (\<lambda>t. case t of [] \<Rightarrow> ([], Inl EAGAIN) | m # ms \<Rightarrow> (ms, Inr m)),
     class_send = (\<lambda>t m. (t, 0))\<rparr>"

definition hello :: "u8 \<Rightarrow> bytes" where
  "hello vn = [vn, OFPT_HELLO, 0, 8, 0, 0, 0, 1]"

definition script_vconn :: "bytes list \<Rightarrow> bytes list vconn" where
  "script_vconn ms = (vconn_init script_class ms 0 0 ''tcp:peer'' True)\<lparr>min_version := 1\<rparr>"

definition script_env :: "int \<Rightarrow> bytes list rcenv" where
  "script_env t = \<lparr>rc_now = t, rc_open = (\<lambda>_. Inr (script_vconn [hello 1])), rc_rnd = (\<lambda>_. 5), rc_room = replicate 80 0, rc_fuel = 9\<rparr>"

theorem rconn_reachable_invariant_witness:
  "rc_vconn (fst (rconn_connect (script_env 100) ''tcp:peer'' (rconn_create (script_env 100) 15 8 (\<lambda>_. 0)))) \<noteq> None"
proof -
  have "rconn_reach (fst (rconn_connect (script_env 100) ''tcp:peer'' (rconn_create (script_env 100) 15 8 (\<lambda>_. 0))))"
    by (intro rr_connect rr_create) simp
  from rconn_reachable_invariant [OF this] show ?thesis
    by (simp add: rconn_connect_def reconnect_def Let_def rconn_disconnect_def rconn_create_def script_env_def)
qed

section \<open>Running comes to an end\<close>

text \<open>
  What a turn can wait for without end: a connection, brought by its own steps to the point where
  it expects the greeting of its peer, whose peer sends nothing but notifications that are skipped.
\<close>

definition conns :: "'t rconn \<Rightarrow> 't vconn list" where
  "conns rc = (case rc_vconn rc of Some v \<Rightarrow> [v] | None \<Rightarrow> []) @ monitors rc"

definition advances :: "'t rcenv \<Rightarrow> 't vconn \<Rightarrow> 't vconn \<Rightarrow> bool" where
  "advances env v v' \<longleftrightarrow> vcs_step (rc_fuel env) (rc_rnd env) v = Ok v'"

definition flooded :: "'t rcenv \<Rightarrow> 't vconn \<Rightarrow> bool" where
  "flooded env v0 \<longleftrightarrow> (\<exists>v. (advances env)\<^sup>*\<^sup>* v0 v \<and> vc_state v = VCS_RECV_HELLO \<and> do_recv (rc_fuel env) v = Fail No_return)"

definition turn :: "'t rcenv \<Rightarrow> 't rconn \<Rightarrow> 't rconn \<Rightarrow> bool" where
  "turn env rc rc' \<longleftrightarrow> run_state env rc = Ok rc' \<and> rc_state rc' \<noteq> rc_state rc"

lemma guardR_No_return: "e \<noteq> No_return \<Longrightarrow> guardR c e m = Fail No_return \<longleftrightarrow> c \<and> m = Fail No_return"
  by (simp add: guardR_def)

lemma mapR_No_return: "mapR f m = Fail e \<longleftrightarrow> m = Fail e"
  by (cases m) (simp_all add: mapR_def)

lemmas never_returns = bindR_eq_Fail guardR_No_return mapR_No_return

lemma do_send_returns: "do_send v m \<noteq> Fail No_return"
  by (auto simp: do_send_def never_returns split: prod.splits)

lemma make_openflow_xid_returns: "make_openflow_xid n ty x \<noteq> Fail No_return"
  by (auto simp: make_openflow_xid_def put_openflow_xid_def never_returns)

lemma vcs_step_No_return:
  assumes "vcs_step n rnd v = Fail No_return"
  shows "vc_state v = VCS_RECV_HELLO \<and> do_recv n v = Fail No_return"
proof -
  have "vcs_connecting v \<noteq> Fail No_return"
    by (auto simp: vcs_connecting_def never_returns Let_def split: prod.splits)
  moreover have "vcs_send_hello rnd v \<noteq> Fail No_return"
    by (auto simp: vcs_send_hello_def never_returns do_send_returns make_openflow_xid_returns)
  moreover have "vcs_send_error rnd v \<noteq> Fail No_return"
    by (auto simp: vcs_send_error_def never_returns do_send_returns make_openflow_xid_returns update_openflow_length_def Let_def)
  moreover have "vcs_recv_hello n v = Fail No_return \<Longrightarrow> do_recv n v = Fail No_return"
    by (auto simp: vcs_recv_hello_def never_returns split: sum.splits) (metis sum.exhaust)
  ultimately show ?thesis using assms by (auto simp: vcs_step_def split: vconn_state.splits)
qed

lemma vconn_connect_loop_No_return:
  "vconn_connect_loop (rc_fuel env) (rc_rnd env) v = Fail No_return \<Longrightarrow> flooded env v"
proof (induction "rc_fuel env" "rc_rnd env" v rule: vconn_connect_loop.induct)
  case (1 v)
  show ?case
  proof (cases "vcs_step (rc_fuel env) (rc_rnd env) v")
    case (Ok w)
    then have st: "vc_state v \<noteq> VCS_CONNECTED" "vc_state v \<noteq> VCS_DISCONNECTED" "vc_state w \<noteq> vc_state v"
      "vconn_connect_loop (rc_fuel env) (rc_rnd env) w = Fail No_return"
      using 1(2) by (auto simp: vconn_connect_loop.simps [of _ _ v] split: if_splits)
    then have "flooded env w" using 1(1) Ok by blast
    moreover have "advances env v w" using Ok by (simp add: advances_def)
    ultimately show ?thesis unfolding flooded_def by (meson converse_rtranclp_into_rtranclp)
  next
    case (Fail e)
    then have "e = No_return" using 1(2) by (auto simp: vconn_connect_loop.simps [of _ _ v] split: if_splits)
    then show ?thesis using vcs_step_No_return Fail unfolding flooded_def by (metis rtranclp.rtrancl_refl)
  qed
qed

lemma vconn_connect_No_return: "vconn_connect (rc_fuel env) (rc_rnd env) v = Fail No_return \<Longrightarrow> flooded env v"
  by (auto simp: vconn_connect_def never_returns intro: vconn_connect_loop_No_return)

lemma vconn_send_No_return: "vconn_send (rc_fuel env) (rc_rnd env) v m = Fail No_return \<Longrightarrow> flooded env v"
  by (auto simp: vconn_send_def never_returns do_send_returns intro: vconn_connect_No_return split: if_splits)

definition settled :: "'t vconn \<Rightarrow> bool" where
  "settled v \<longleftrightarrow> vc_state v \<in> {VCS_CONNECTED, VCS_DISCONNECTED}"

lemma vconn_connect_loop_settled: "vconn_connect_loop n rnd v = Ok (v', e) \<Longrightarrow> e \<noteq> EAGAIN \<Longrightarrow> settled v'"
proof (induction n rnd v rule: vconn_connect_loop.induct)
  case (1 n rnd v)
  then show ?case
    by (subst (asm) (2) vconn_connect_loop.simps) (auto simp: bindR_eq_Ok settled_def split: if_splits)
qed

lemma vconn_send_settled:
  "vconn_send n rnd v m = Ok (v', 0) \<Longrightarrow> settled v'" "settled v \<Longrightarrow> vconn_send n rnd v m \<noteq> Fail No_return"
proof -
  show "settled v'" if s: "vconn_send n rnd v m = Ok (v', 0)"
  proof -
    obtain w e where w: "vconn_connect_loop n rnd v = Ok (w, e)" "(if e = 0 then do_send w m else Ok (w, e)) = Ok (v', 0)"
      using s by (auto simp: vconn_send_def vconn_connect_def bindR_eq_Ok guardR_eq_Ok)
    then have "settled w" "do_send w m = Ok (v', 0)" using vconn_connect_loop_settled [OF w(1)] by (auto split: if_splits)
    then show ?thesis using do_send_keeps [of w m v' 0] by (auto simp: settled_def)
  qed
  show "vconn_send n rnd v m \<noteq> Fail No_return" if "settled v"
    using that by (auto simp: settled_def vconn_send_def vconn_connect_def vconn_connect_loop.simps [of _ _ v] never_returns do_send_returns
        split: if_splits)
qed

lemma rc_try_send_No_return:
  "rc_try_send env rc = Fail No_return \<Longrightarrow> \<exists>v m. rc_vconn rc = Some v \<and> vconn_send (rc_fuel env) (rc_rnd env) v m = Fail No_return"
  by (auto simp: rc_try_send_def never_returns Let_def split: list.splits option.splits if_splits)

lemma rc_try_send_settled:
  assumes "rc_try_send env rc = Ok (rc', 0)"
  shows "\<exists>v. rc_vconn rc' = Some v \<and> settled v"
proof -
  obtain h c rest v where q: "rc_txq rc = (h, c) # rest" "rc_vconn rc = Some v"
    using assms by (auto simp: rc_try_send_def split: list.splits option.splits)
  then obtain w e where w: "vconn_send (rc_fuel env) (rc_rnd env) v h = Ok (w, e)"
    using assms by (auto simp: rc_try_send_def bindR_eq_Ok guardR_eq_Ok Let_def)
  have "e = 0" using assms q w by (cases "e = 0") (auto simp: rc_try_send_def guardR_eq_Ok Let_def)
  then show ?thesis
    using assms q w vconn_send_settled(1) [of "rc_fuel env" "rc_rnd env" v h w] by (auto simp: rc_try_send_def guardR_eq_Ok Let_def)
qed

lemma tx_loop_settled: "\<exists>v. rc_vconn rc = Some v \<and> settled v \<Longrightarrow> tx_loop k env rc \<noteq> Fail No_return"
proof (induction k arbitrary: rc)
  case (Suc k)
  then show ?case
    using rc_try_send_No_return [of env rc] rc_try_send_settled [of env rc] vconn_send_settled(2)
    by (fastforce simp: never_returns split: if_splits)
qed simp

lemma do_tx_work_No_return:
  assumes "do_tx_work env rc = Fail No_return"
  shows "\<exists>v \<in> set (conns rc). flooded env v"
proof -
  obtain k where k: "tx_loop k env rc = Fail No_return" using assms by (auto simp: do_tx_work_def)
  have "rc_try_send env rc = Fail No_return"
    using k tx_loop_settled rc_try_send_settled [of env rc] by (cases k) (auto simp: never_returns split: if_splits)
  then show ?thesis using rc_try_send_No_return vconn_send_No_return by (fastforce simp: conns_def)
qed

lemma copy_loop_No_return:
  "copy_loop env b i ms = Fail No_return \<Longrightarrow> \<exists>v \<in> set (drop i ms). flooded env v"
proof (induction env b i ms rule: copy_loop.induct)
  case (1 env b i ms)
  then have i: "i < length ms" by (subst (asm) (3) copy_loop.simps) (auto split: if_splits)
  show ?case
  proof (cases "vconn_send (rc_fuel env) (rc_rnd env) (ms ! i) b")
    case (Ok x)
    obtain v e where x: "x = (v, e)" by fastforce
    show ?thesis
    proof (cases "e = 0 \<or> e = EAGAIN")
      case True
      then have "copy_loop env b (i + 1) (ms[i := v]) = Fail No_return"
        using 1(3) i Ok x by (subst (asm) (1) copy_loop.simps) simp
      then have "\<exists>v' \<in> set (drop (i + 1) (ms[i := v])). flooded env v'" using 1(1) [OF i Ok [unfolded x] _ True] by simp
      then show ?thesis using i set_drop_subset_set_drop [of i "i + 1" ms] by auto
    next
      case False
      have "copy_loop env b i (butlast (ms[i := last ms])) = Fail No_return"
        using 1(3) i Ok x False by (subst (asm) (1) copy_loop.simps) simp
      then have "\<exists>v' \<in> set (drop i (butlast (ms[i := last ms]))). flooded env v'" using 1(2) [OF i Ok [unfolded x] _ False] by simp
      moreover have "set (drop i (butlast (ms[i := last ms]))) \<subseteq> set (drop i ms)"
      proof -
        have "set (drop i (butlast (ms[i := last ms]))) \<subseteq> set (drop i (ms[i := last ms]))"
          by (metis drop_butlast in_set_butlastD subsetI)
        also have "\<dots> \<subseteq> insert (last ms) (set (drop i ms))"
          using i set_update_subset_insert [of "drop i ms" 0 "last ms"] by (simp add: drop_update_swap)
        also have "\<dots> = set (drop i ms)"
          using i by (metis insert_absorb last_drop last_in_set drop_eq_Nil not_le)
        finally show ?thesis .
      qed
      ultimately show ?thesis by blast
    qed
  next
    case (Fail e)
    then have "e = No_return" using 1(3) i by (subst (asm) (1) copy_loop.simps) simp
    then show ?thesis using vconn_send_No_return Fail i by (metis Cons_nth_drop_Suc list.set_intros(1))
  qed
qed

lemma rc_send_No_return:
  assumes "rc_send env b c rc = Fail No_return"
  shows "\<exists>v \<in> set (conns rc). flooded env v"
proof (cases "copy_loop env b 0 (monitors rc)")
  case (Ok ms)
  have "\<exists>r1. rc_vconn r1 = rc_vconn rc \<and> rc_try_send env r1 = Fail No_return"
    using assms Ok by (intro exI [of _ "let rc = rc\<lparr>monitors := ms\<rparr> in rc\<lparr>rc_txq := rc_txq rc @ [(b, c)],
        n_queued := (case c of Some c \<Rightarrow> (n_queued rc)(c := n_queued rc c + 1) | None \<Rightarrow> n_queued rc)\<rparr>"])
      (simp add: rc_send_def copy_to_monitor_def mapR_def bindR_eq_Fail Let_def split: if_splits)
  then show ?thesis using rc_try_send_No_return vconn_send_No_return by (fastforce simp: conns_def)
next
  case (Fail e)
  then have "copy_loop env b 0 (monitors rc) = Fail No_return"
    using assms by (auto simp: rc_send_def copy_to_monitor_def mapR_def split: if_splits)
  then show ?thesis using copy_loop_No_return by (fastforce simp: conns_def)
qed

lemma run_state_No_return:
  assumes "run_state env rc = Fail No_return"
  shows "\<exists>v \<in> set (conns rc). flooded env v"
proof (cases "rc_state rc")
  case S_CONNECTING
  then have "run_CONNECTING env rc = Fail No_return" using assms by (simp add: run_state_def)
  then obtain v where "rc_vconn rc = Some v" "vconn_connect (rc_fuel env) (rc_rnd env) v = Fail No_return"
    by (auto simp: run_CONNECTING_def never_returns Let_def split: option.splits)
  then show ?thesis using vconn_connect_No_return by (fastforce simp: conns_def)
next
  case S_ACTIVE
  have "conns (state_transition env st rc) = conns rc" for st by (simp add: conns_def state_transition_def Let_def)
  then show ?thesis
    using assms S_ACTIVE rc_send_No_return do_tx_work_No_return
    by (fastforce simp: run_state_def run_ACTIVE_def mapR_No_return split: if_splits)
next
  case S_IDLE
  then show ?thesis using assms do_tx_work_No_return by (auto simp: run_state_def run_IDLE_def split: if_splits)
qed (use assms in \<open>auto simp: run_state_def run_BACKOFF_def\<close>)

lemma rconn_run_No_return:
  assumes "rconn_inv rc" "time_ok env" "max_backoff rc < 2 ^ 32" "phase env rc < n" "rconn_run n env rc = Fail No_return"
  shows "\<exists>rc'. (turn env)\<^sup>*\<^sup>* rc rc' \<and> (\<exists>v \<in> set (conns rc'). flooded env v)"
  using assms
proof (induction n arbitrary: rc)
  case (Suc n)
  show ?case
  proof (cases "run_state env rc")
    case (Ok r1)
    note r = run_state_inv [OF Suc.prems(1) Ok]
    have st: "rc_state r1 \<noteq> rc_state rc" "rconn_run n env r1 = Fail No_return" using Ok Suc.prems(5) by (auto split: if_splits)
    then have "phase env r1 < n" "max_backoff r1 < 2 ^ 32" using r(2) Suc.prems by auto
    then obtain rc' where "(turn env)\<^sup>*\<^sup>* r1 rc'" "\<exists>v \<in> set (conns rc'). flooded env v"
      using Suc.IH [OF r(1) Suc.prems(2)] st(2) by blast
    moreover have "turn env rc r1" using Ok st by (simp add: turn_def)
    ultimately show ?thesis by (meson converse_rtranclp_into_rtranclp)
  next
    case (Fail e)
    then have "\<exists>v \<in> set (conns rc). flooded env v" using Suc.prems(5) run_state_No_return by simp
    then show ?thesis by (intro exI [of _ rc]) simp
  qed
qed simp

text \<open>C24: \<open>rconn_run\<close> repeats until the state no longer changes, and five turns are always enough: with the clock
  between 1970 and 2106 and a largest backoff below \<open>2 ^ 32\<close> seconds, the result of five turns is the result of
  any larger number of turns, and it is a proper end of the loop. The one way in which the call
  does not return is inside a single turn, one that the turns lead to: a connection, or a
  monitor, has come by its own steps to where it waits for the greeting of its peer, and the
  peer goes on sending notifications, which are skipped.\<close>

theorem rconn_run_ends:
  assumes "rconn_reach rc" "time_ok env" "max_backoff rc < 2 ^ 32"
  shows "rconn_run (5 + k) env rc = rconn_run 5 env rc \<and>
    (rconn_run 5 env rc = Fail No_return \<longrightarrow> (\<exists>rc'. (turn env)\<^sup>*\<^sup>* rc rc' \<and> (\<exists>v \<in> set (conns rc'). flooded env v)))"
proof -
  have p: "phase env rc < 5" by (simp add: phase_def split: rconn_state.split)
  note inv = rconn_reach_inv [OF assms(1)]
  show ?thesis
    using rconn_run_phase [OF inv assms(2,3) p] rconn_run_No_return [OF inv assms(2,3) p] by blast
qed

theorem rconn_run_ends_witness:
  "rconn_run 100 (script_env 100) (rconn_create (script_env 100) 15 8 (\<lambda>_. 0)) =
     Ok (rconn_create (script_env 100) 15 8 (\<lambda>_. 0))"
proof -
  have "rconn_reach (rconn_create (script_env 100) 15 8 (\<lambda>_. 0))" by (rule rr_create) simp
  moreover have "rconn_run 5 (script_env 100) (rconn_create (script_env 100) 15 8 (\<lambda>_. 0)) =
     Ok (rconn_create (script_env 100) 15 8 (\<lambda>_. 0))"
    by (simp add: numeral_eq_Suc run_state_def rconn_create_def)
  ultimately show ?thesis
    using rconn_run_ends [of "rconn_create (script_env 100) 15 8 (\<lambda>_. 0)" "script_env 100" 95]
    by (simp add: time_ok_def script_env_def rconn_create_def)
qed

section \<open>Negotiation of the version\<close>

definition negotiated :: "'t vconn \<Rightarrow> bool" where
  "negotiated v \<longleftrightarrow> min_version v \<le> vc_version v \<and> vc_version v \<le> uint OFP_VERSION"

text \<open>A class reports a failure to receive by a nonzero error number.\<close>

definition recv_errors :: "'t vconn_class \<Rightarrow> bool" where
  "recv_errors cls \<longleftrightarrow> (\<forall>t t' e. class_recv cls t = (t', Inl e) \<longrightarrow> e \<noteq> 0)"

definition vconn_ok :: "'t vconn \<Rightarrow> bool" where
  "vconn_ok v \<longleftrightarrow> (vc_state v = VCS_DISCONNECTED \<longrightarrow> vc_error v \<noteq> 0) \<and> (vc_state v = VCS_CONNECTED \<longrightarrow> negotiated v) \<and>
     recv_errors (vc_class v)"

lemma do_recv_nonzero: "vconn_ok v \<Longrightarrow> do_recv n v = Ok (v', Inl e) \<Longrightarrow> e \<noteq> 0"
proof (induction n arbitrary: v)
  case (Suc n)
  obtain t q where t: "class_recv (vc_class v) (vc_private v) = (t, q)" by fastforce
  have "vconn_ok (v\<lparr>vc_private := t\<rparr>)" using Suc.prems(1) by (simp add: vconn_ok_def negotiated_def)
  then show ?case
    using Suc.prems t Suc.IH [of "v\<lparr>vc_private := t\<rparr>"]
    by (auto simp: Let_def guardR_eq_Ok vconn_ok_def recv_errors_def split: sum.splits if_splits)
qed simp

lemma vcs_step_ok:
  assumes ok: "vconn_ok v" and st: "vcs_step n rnd v = Ok v'" "vc_state v \<noteq> VCS_CONNECTED" "vc_state v \<noteq> VCS_DISCONNECTED"
  shows "vconn_ok v' \<and> min_version v' = min_version v"
proof -
  have dis: "vconn_ok (vconn_disconnected e w)" if "e \<noteq> 0" "vc_class w = vc_class v" for e and w :: "'a vconn"
    using that ok by (simp add: vconn_ok_def vconn_disconnected_def)
  have keep: "vconn_ok (v\<lparr>vc_private := t\<rparr>)" for t using ok by (simp add: vconn_ok_def negotiated_def)
  have send: "\<exists>t. w = v\<lparr>vc_private := t\<rparr>" if "do_send v m = Ok (w, e)" for m w e by (rule do_send_keeps [OF that])
  show ?thesis
  proof (cases "vc_state v")
    case VCS_CONNECTING
    then show ?thesis
      using st(1) dis keep ok
      by (auto simp: vcs_step_def vcs_connecting_def Let_def guardR_eq_Ok vconn_ok_def negotiated_def vconn_disconnected_def
          split: prod.splits if_splits)
  next
    case VCS_SEND_HELLO
    then obtain b w e where b: "do_send v b = Ok (w, e)"
      "v' = (if e = 0 then w\<lparr>vc_sent := inc_stat Ofps_hello (inc_stat Ofps_total (vc_sent w)), vc_state := VCS_RECV_HELLO\<rparr>
        else if e \<noteq> EAGAIN then vconn_disconnected e w else w)"
      using st(1) by (auto simp: vcs_step_def vcs_send_hello_def bindR_eq_Ok)
    then show ?thesis using send [OF b(1)] dis keep ok
      by (auto simp: vconn_ok_def negotiated_def vconn_disconnected_def)
  next
    case VCS_RECV_HELLO
    then obtain w r where w: "do_recv n v = Ok (w, r)" using st(1) by (auto simp: vcs_step_def vcs_recv_hello_def bindR_eq_Ok)
    obtain t where t: "w = v\<lparr>vc_private := t\<rparr>" using do_recv_keeps [OF w] by blast
    show ?thesis
    proof (cases r)
      case (Inl e)
      then have e: "e \<noteq> 0" "v' = (if e \<noteq> EAGAIN then vconn_disconnected e w else w)"
        using st(1) VCS_RECV_HELLO w do_recv_nonzero [OF ok, of n w e] by (simp_all add: vcs_step_def vcs_recv_hello_def)
      have "vconn_ok (vconn_disconnected e w)" by (rule dis) (simp_all add: e t)
      moreover have "vconn_ok w" unfolding t by (rule keep)
      ultimately show ?thesis unfolding e(2) by (simp add: t vconn_disconnected_def)
    next
      case (Inr b)
      then show ?thesis
        using st(1) VCS_RECV_HELLO w t ok
        by (auto simp: vcs_step_def vcs_recv_hello_def vconn_disconnected_def vconn_ok_def negotiated_def Let_def split: if_splits)
    qed
  next
    case VCS_SEND_ERROR
    define counted :: "int \<Rightarrow> 'a vconn \<Rightarrow> 'a vconn" where "counted e w = (if e \<noteq> 0 then w\<lparr>vc_sent := inc_stat Ec_hf_incompat (inc_stat Et_hello_fail
      (inc_stat Ofps_error (inc_stat Ofps_total (vc_sent w))))\<rparr> else w)" for e w
    from VCS_SEND_ERROR obtain b w e where b: "do_send v b = Ok (w, e)"
      and v': "v' = (if e \<noteq> EAGAIN then vconn_disconnected (if e \<noteq> 0 then e else EPROTO) (counted e w) else counted e w)"
      using st(1) unfolding vcs_step_def vcs_send_error_def counted_def [symmetric] Let_def by (auto simp: bindR_eq_Ok)
    obtain t where w: "w = v\<lparr>vc_private := t\<rparr>" using send [OF b] ..
    have "vconn_ok (vconn_disconnected (if e \<noteq> 0 then e else EPROTO) (counted e w))" by (rule dis) (simp_all add: w counted_def)
    moreover have "vconn_ok (counted e w)" using keep [of t] by (simp add: counted_def w vconn_ok_def negotiated_def)
    moreover have "min_version v' = min_version v" unfolding v' by (simp add: w counted_def vconn_disconnected_def)
    ultimately show ?thesis by (cases "e = EAGAIN") (simp_all add: v')
  qed (use st in simp_all)
qed

lemma connect_loop_ok:
  "vconn_ok v \<Longrightarrow> vconn_connect_loop n rnd v = Ok (v', 0) \<Longrightarrow>
   vconn_ok v' \<and> vc_state v' = VCS_CONNECTED \<and> min_version v' = min_version v"
proof (induction n rnd v rule: vconn_connect_loop.induct)
  case (1 n rnd v)
  show ?case
  proof (cases "vc_state v \<in> {VCS_CONNECTED, VCS_DISCONNECTED}")
    case True
    then show ?thesis using "1.prems" by (subst (asm) vconn_connect_loop.simps) (auto simp: vconn_ok_def)
  next
    case False
    then obtain v1 where v1: "vcs_step n rnd v = Ok v1"
      "(if vc_state v1 \<noteq> vc_state v then vconn_connect_loop n rnd v1 else Ok (v1, EAGAIN)) = Ok (v', 0)"
      using "1.prems"(2) by (subst (asm) vconn_connect_loop.simps) (auto simp: bindR_eq_Ok)
    have "vc_state v1 \<noteq> vc_state v" "vconn_connect_loop n rnd v1 = Ok (v', 0)" using v1(2) by (auto split: if_splits)
    moreover have "vconn_ok v1 \<and> min_version v1 = min_version v" using vcs_step_ok [OF "1.prems"(1) v1(1)] False by auto
    ultimately show ?thesis using "1.IH" [of v1] False v1(1) by simp
  qed
qed

text \<open>The greeting of our side, and the peer of the script that answers with its own.\<close>

definition our_hello :: bytes where
  "our_hello = [OFP_VERSION, OFPT_HELLO] @ le_bytes 2 (htons 8) @ le_bytes 4 (3 :: u32)"

lemma our_hello: "make_openflow_xid 8 OFPT_HELLO 3 = Ok our_hello" "length our_hello = 8" "ld16 our_hello 2 = htons 8"
    apply (simp_all add: make_openflow_xid_def put_openflow_xid_def our_hello_def del: le_bytes.simps)
  apply code_simp
  done

lemma hello_fields:
  "ld16 (hello n) 2 = htons 8" "length (hello n) = 8" "ld8 (hello n) 0 = n" "ld8 (hello n) (Suc 0) = OFPT_HELLO"
proof -
  have "ld16 (hello n) 2 = ld16 [0, 8] 0" by (simp add: hello_def ld16_def)
  also have "\<dots> = htons 8" by code_simp
  finally show "ld16 (hello n) 2 = htons 8" .
qed (simp_all add: hello_def)

lemma recv_hello:
  "vc_class v = script_class \<Longrightarrow> vc_private v = [hello n] \<Longrightarrow> do_recv (Suc k) v = Ok (v\<lparr>vc_private := []\<rparr>, Inr (hello n))"
  by (simp add: script_class_def hello_fields Let_def)

lemma script_connects: "\<exists>v'. vconn_connect (Suc k) (\<lambda>_. 3) (script_vconn [hello 4]) = Ok (v', 0)"
  apply (simp add: vconn_connect_def script_vconn_def vconn_init_def)
  apply (subst vconn_connect_loop.simps)
  apply (simp add: vcs_step_def vcs_send_hello_def our_hello do_send_def hello_fields guardR_def script_class_def)
  apply (fold script_class_def)
  apply (subst vconn_connect_loop.simps)
  apply (simp add: vcs_step_def vcs_recv_hello_def hello_fields recv_hello Let_def del: do_recv.simps)
  apply (subst vconn_connect_loop.simps, simp)
  done

text \<open>C25: When a connection reports that it is established, the version in use is
  acceptable: at least the minimum asked for and at most our own. From then on every
  message that is passed on has this version or is of one of the five types that may be sent with any version,
  and is never shorter than a header.\<close>

theorem vconn_negotiates_version:
  assumes ok: "vconn_ok v" and c: "vconn_connect n rnd v = Ok (v', 0)"
  shows "vc_state v' = VCS_CONNECTED \<and> 0 \<le> min_version v \<and> min_version v \<le> vc_version v' \<and> vc_version v' \<le> uint OFP_VERSION \<and>
    (\<forall>k w m. do_recv k v' = Ok (w, Inr m) \<longrightarrow> 8 \<le> length m \<and>
       (uint (ld8 m 0) = vc_version v' \<or> ld8 m 1 \<in> {OFPT_HELLO, OFPT_ERROR, OFPT_ECHO_REQUEST, OFPT_ECHO_REPLY, OFPT_VENDOR}))"
proof -
  have l: "vconn_connect_loop n rnd v = Ok (v', 0)" "0 \<le> min_version v" using c by (simp_all add: vconn_connect_def guardR_eq_Ok)
  note v' = connect_loop_ok [OF ok l(1)]
  have recv: "8 \<le> length m \<and> (uint (ld8 m 0) = vc_version x \<or>
      ld8 m 1 \<in> {OFPT_HELLO, OFPT_ERROR, OFPT_ECHO_REQUEST, OFPT_ECHO_REPLY, OFPT_VENDOR})"
    if "do_recv k x = Ok (w, Inr m)" for k m w and x :: "'a vconn"
    using that
  proof (induction k arbitrary: x)
    case (Suc k)
    obtain t q where "class_recv (vc_class x) (vc_private x) = (t, q)" by fastforce
    then show ?case
      using Suc.prems Suc.IH [of "x\<lparr>vc_private := t\<rparr>"]
      by (auto simp: Let_def guardR_eq_Ok split: sum.splits if_splits)
  qed simp
  show ?thesis using v' l(2) recv by (auto simp: vconn_ok_def negotiated_def)
qed

theorem vconn_negotiates_version_witness:
  "\<exists>v'. vconn_connect (Suc 4) (\<lambda>_. 3) (script_vconn [hello 4]) = Ok (v', 0) \<and> vc_version v' = 1"
proof -
  have ok: "vconn_ok (script_vconn [hello 4])"
    by (auto simp: vconn_ok_def recv_errors_def script_vconn_def vconn_init_def script_class_def split: list.splits)
  obtain v' where c: "vconn_connect (Suc 4) (\<lambda>_. 3) (script_vconn [hello 4]) = Ok (v', 0)"
    using script_connects [of 4] ..
  from vconn_negotiates_version [OF ok c]
  have "min_version (script_vconn [hello 4]) \<le> vc_version v'" "vc_version v' \<le> uint OFP_VERSION" by blast+
  then have "vc_version v' = 1" by (simp add: script_vconn_def)
  with c show ?thesis by blast
qed

end
