(* ===== verification/NF_Msg.thy ===== *)
theory NF_Msg
  imports OF_Prelude
begin

text \<open>
  Messages of the NAT/firewall signalling daemon (\<open>src/nsis-ka/natfw-nslp\<close>): addresses and message
  routing information as far as the daemon uses them (\<open>protlib/src/address.cpp\<close>, \<open>ntlp\<close>), the objects
  and messages of \<open>src/msg\<close>, and the envelope \<open>ntlp_msg\<close>. Messages are the parsed objects; the byte
  format is not modelled, but the check that serialising makes is, since it aborts the program.
\<close>

section \<open>Addresses\<close>

text \<open>The union of \<open>in_addr\<close> and \<open>in6_addr\<close> as four words in host order, the first of which is the IPv4 address.\<close>

record hostaddress =
  ipv4flag :: bool
  ip_words :: "u32 list"

definition hostaddress_default :: hostaddress where
  "hostaddress_default = \<lparr>ipv4flag = False, ip_words = [0, 0, 0, 0]\<rparr>"

definition hostaddress_eq :: "hostaddress \<Rightarrow> hostaddress \<Rightarrow> bool" where
  "hostaddress_eq a b =
     (if ipv4flag a then take 1 (ip_words a) = take 1 (ip_words b) else take 4 (ip_words a) = take 4 (ip_words b))"

record netaddress =
  na_host :: hostaddress
  prefix_length :: u8

text \<open>
  For IPv4 and a prefix of length 0 the words are shifted by 32, which C++ leaves undefined; the processor
  takes the count modulo 32 and the whole addresses are compared.
\<close>

definition word_prefix_eq :: "nat \<Rightarrow> u32 \<Rightarrow> u32 \<Rightarrow> bool" where
  "word_prefix_eq lenbits w1 w2 = (drop_bit ((32 - lenbits) mod 32) w1 = drop_bit ((32 - lenbits) mod 32) w2)"

definition match_against :: "hostaddress \<Rightarrow> netaddress \<Rightarrow> int" where
  "match_against a na =
     (let preflen = unat (prefix_length na); lenwords = preflen div 32; lenbits = preflen mod 32;
          ws = ip_words a; ns = ip_words (na_host na)
      in if ipv4flag a = ipv4flag (na_host na) then
           if ipv4flag a then
             let lenbits = (if preflen \<ge> 32 then 32 else lenbits)
             in if word_prefix_eq lenbits (ws ! 0) (ns ! 0) then int preflen else - 1
           else if preflen > 128 then - 1
           else if take lenwords ws \<noteq> take lenwords ns then - 1
           else if lenbits \<noteq> 0 \<longrightarrow> word_prefix_eq lenbits (ws ! lenwords) (ns ! lenwords) then int preflen
           else - 1
         else - 1)"

record appladdress =
  ap_host :: hostaddress
  ap_proto :: u8
  ap_port :: u16

definition appladdress_default :: appladdress where
  "appladdress_default = \<lparr>ap_host = hostaddress_default, ap_proto = 0, ap_port = 0\<rparr>"

definition appladdress_eq :: "appladdress \<Rightarrow> appladdress \<Rightarrow> bool" where
  "appladdress_eq a b \<longleftrightarrow> hostaddress_eq (ap_host a) (ap_host b) \<and> ap_proto a = ap_proto b \<and> ap_port a = ap_port b"

lemma hostaddress_eq_refl [simp]: "hostaddress_eq a a"
  by (simp add: hostaddress_eq_def)

lemma appladdress_eq_refl [simp]: "appladdress_eq a a"
  by (simp add: appladdress_eq_def)

section \<open>Message routing information\<close>

record mri_pathcoupled =
  pc_sourceaddress :: hostaddress
  pc_sourceprefix :: u8
  pc_sourceport :: u16
  pc_destaddress :: hostaddress
  pc_destprefix :: u8
  pc_destport :: u16
  pc_protocol :: u8
  pc_flowlabel :: u16
  pc_ds_field :: u8
  pc_spi :: u32
  pc_downstream :: bool

record mri_looseend =
  le_sourceaddress :: hostaddress
  le_destaddress :: hostaddress
  le_downstream :: bool

text \<open>The third method has the flow of a path-coupled one and three more addresses.\<close>

datatype mri = Mri_pc mri_pathcoupled | Mri_le mri_looseend
  | Mri_est mri_pathcoupled hostaddress hostaddress hostaddress

primrec get_sourceaddress :: "mri \<Rightarrow> hostaddress" where
  "get_sourceaddress (Mri_pc m) = pc_sourceaddress m"
| "get_sourceaddress (Mri_le m) = le_sourceaddress m"
| "get_sourceaddress (Mri_est m _ _ _) = pc_sourceaddress m"

primrec get_destaddress :: "mri \<Rightarrow> hostaddress" where
  "get_destaddress (Mri_pc m) = pc_destaddress m"
| "get_destaddress (Mri_le m) = le_destaddress m"
| "get_destaddress (Mri_est m _ _ _) = pc_destaddress m"

primrec invertDirection :: "mri \<Rightarrow> mri" where
  "invertDirection (Mri_pc m) = Mri_pc (m\<lparr>pc_downstream := \<not> pc_downstream m\<rparr>)"
| "invertDirection (Mri_le m) = Mri_le (m\<lparr>le_downstream := \<not> le_downstream m\<rparr>)"
| "invertDirection (Mri_est m a b c) = Mri_est (m\<lparr>pc_downstream := \<not> pc_downstream m\<rparr>) a b c"

lemma invertDirection_twice [simp]: "invertDirection (invertDirection m) = m"
  by (cases m) simp_all

section \<open>Objects\<close>

record data_terminal_info =
  sender_address :: hostaddress
  sender_prefix :: u8
  dti_protocol :: "u8 option"
  dti_ports :: "(u16 \<times> u16) option"
  dti_ipsec_spi :: "u32 option"

datatype msg_class = Natfw_create | Natfw_ext | Natfw_notify | Natfw_response

text \<open>
  The store of a message maps object types to objects. Only the eight registered types can occur, so it is one
  optional component per type: the lifetime, the external address with its port, action and number of
  subsequent ports, severity, response code and object type, and so on.
\<close>

record natfw_msg =
  nm_class :: msg_class
  proxy_mode_flag :: bool
  nm_lifetime :: "u32 option"
  nm_external_address :: "(hostaddress \<times> u16) option"
  nm_flow_info :: "(u16 \<times> u16) option"
  nm_information_code :: "(u8 \<times> u8 \<times> u16) option"
  nm_nonce :: "u32 option"
  nm_msn :: "u32 option"
  nm_dti :: "data_terminal_info option"
  nm_icmp_types :: "u8 list option"

definition new_natfw_msg :: "msg_class \<Rightarrow> bool \<Rightarrow> natfw_msg" where
  "new_natfw_msg c proxy = \<lparr>nm_class = c, proxy_mode_flag = proxy, nm_lifetime = None, nm_external_address = None,
     nm_flow_info = None, nm_information_code = None, nm_nonce = None, nm_msn = None, nm_dti = None, nm_icmp_types = None\<rparr>"

abbreviation (input) "ra_allow \<equiv> 1 :: u16"
abbreviation (input) "ra_deny \<equiv> 2 :: u16"

abbreviation (input) "sc_success \<equiv> 2 :: u8"
abbreviation (input) "sc_protocol_error \<equiv> 3 :: u8"
abbreviation (input) "sc_transient_failure \<equiv> 4 :: u8"
abbreviation (input) "sc_permanent_failure \<equiv> 5 :: u8"
abbreviation (input) "sc_signaling_session_failures \<equiv> 6 :: u8"
abbreviation (input) "suc_successfully_processed \<equiv> 1 :: u8"
abbreviation (input) "tfail_resources_unavailable \<equiv> 1 :: u8"
abbreviation (input) "fail_authentication_failed \<equiv> 1 :: u8"
abbreviation (input) "fail_nr_not_reached \<equiv> 7 :: u8"
abbreviation (input) "sigfail_lifetime_too_big \<equiv> 2 :: u8"
abbreviation (input) "sigfail_no_reservation_found \<equiv> 3 :: u8"
abbreviation (input) "sigfail_unknown_policy_rule_action \<equiv> 5 :: u8"

definition get_session_lifetime :: "natfw_msg \<Rightarrow> u32" where
  "get_session_lifetime m = (case nm_lifetime m of None \<Rightarrow> 0 | Some l \<Rightarrow> l)"

definition get_rule_action :: "natfw_msg \<Rightarrow> u16" where
  "get_rule_action m = (case nm_flow_info m of None \<Rightarrow> ra_deny | Some (a, _) \<Rightarrow> a)"

definition get_subsequent_ports :: "natfw_msg \<Rightarrow> u16" where
  "get_subsequent_ports m = (case nm_flow_info m of None \<Rightarrow> 0 | Some (_, p) \<Rightarrow> p)"

definition get_nonce :: "natfw_msg \<Rightarrow> u32" where
  "get_nonce m = (case nm_nonce m of None \<Rightarrow> 0 | Some n \<Rightarrow> n)"

definition has_msg_sequence_number :: "natfw_msg \<Rightarrow> bool" where
  "has_msg_sequence_number m \<longleftrightarrow> nm_msn m \<noteq> None"

definition get_msg_sequence_number :: "natfw_msg \<Rightarrow> u32 result" where
  "get_msg_sequence_number m = (case nm_msn m of None \<Rightarrow> Fail Assertion | Some n \<Rightarrow> Ok n)"

definition get_dr_port :: "natfw_msg \<Rightarrow> u16" where
  "get_dr_port m = (case nm_dti m of None \<Rightarrow> 0 | Some d \<Rightarrow> (case dti_ports d of None \<Rightarrow> 0 | Some (dst, _) \<Rightarrow> dst))"

definition get_protocol :: "natfw_msg \<Rightarrow> u8" where
  "get_protocol m = (case nm_dti m of None \<Rightarrow> 0 | Some d \<Rightarrow> (case dti_protocol d of None \<Rightarrow> 0 | Some p \<Rightarrow> p))"

definition set_data_terminal_info :: "u8 \<Rightarrow> u16 \<Rightarrow> u16 \<Rightarrow> natfw_msg \<Rightarrow> natfw_msg" where
  "set_data_terminal_info protocol dr_port ds_port m =
     m\<lparr>nm_dti := Some \<lparr>sender_address = \<lparr>ipv4flag = True, ip_words = [0, 0, 0, 0]\<rparr>, sender_prefix = 0,
        dti_protocol = (if protocol \<noteq> 0 then Some protocol else None),
        dti_ports = Some (dr_port, ds_port), dti_ipsec_spi = None\<rparr>\<rparr>"

definition is_success :: "natfw_msg \<Rightarrow> bool" where
  "is_success m = (case nm_information_code m of
     Some (severity, code, _) \<Rightarrow> severity = sc_success \<and> code = suc_successfully_processed | None \<Rightarrow> False)"

definition is_response_to :: "natfw_msg \<Rightarrow> natfw_msg \<Rightarrow> bool result" where
  "is_response_to resp m =
     bindR (get_msg_sequence_number resp) (\<lambda>a. bindR (get_msg_sequence_number m) (\<lambda>b. Ok (a = b)))"

section \<open>The state of a message that may be serialised\<close>

definition check_extended_flow_info :: "u16 \<times> u16 \<Rightarrow> bool" where
  "check_extended_flow_info f \<longleftrightarrow> \<not> (fst f > 2 \<or> snd f > 1) \<and> fst f \<noteq> 0"

definition check_information_code :: "u8 \<times> u8 \<times> u16 \<Rightarrow> bool" where
  "check_information_code c \<longleftrightarrow> fst c AND 0xF0 = 0 \<and> snd (snd c) AND 0xF000 = 0"

definition check_external_address :: "hostaddress \<times> u16 \<Rightarrow> bool" where
  "check_external_address e \<longleftrightarrow> \<not> hostaddress_eq (fst e) hostaddress_default"

definition check_data_terminal_info :: "data_terminal_info \<Rightarrow> bool" where
  "check_data_terminal_info d \<longleftrightarrow>
     \<not> (dti_ports d \<noteq> None \<and> dti_ipsec_spi d \<noteq> None) \<and>
     \<not> ((dti_ports d \<noteq> None \<or> dti_ipsec_spi d \<noteq> None) \<and> dti_protocol d = None) \<and> sender_prefix d \<le> 32"

definition natfw_msg_empty :: "natfw_msg \<Rightarrow> bool" where
  "natfw_msg_empty m \<longleftrightarrow> nm_lifetime m = None \<and> nm_external_address m = None \<and> nm_flow_info m = None \<and>
     nm_information_code m = None \<and> nm_nonce m = None \<and> nm_msn m = None \<and> nm_dti m = None \<and> nm_icmp_types m = None"

text \<open>The list of ICMP types has no check of its own, but its \<open>serialize_body\<close> refuses more than 255 types.\<close>

definition natfw_msg_check :: "natfw_msg \<Rightarrow> bool" where
  "natfw_msg_check m \<longleftrightarrow> \<not> natfw_msg_empty m \<and>
     (case nm_flow_info m of None \<Rightarrow> True | Some f \<Rightarrow> check_extended_flow_info f) \<and>
     (case nm_information_code m of None \<Rightarrow> True | Some c \<Rightarrow> check_information_code c) \<and>
     (case nm_external_address m of None \<Rightarrow> True | Some e \<Rightarrow> check_external_address e) \<and>
     (case nm_dti m of None \<Rightarrow> True | Some d \<Rightarrow> check_data_terminal_info d) \<and>
     (case nm_icmp_types m of None \<Rightarrow> True | Some ts \<Rightarrow> length ts \<le> 255)"

section \<open>The envelope\<close>

type_synonym session_id = "128 word"

text \<open>The body is missing when the received bytes could not be parsed.\<close>

record ntlp_msg =
  nt_sid :: session_id
  nt_mri :: mri
  sii_handle :: u32
  nt_msg :: "natfw_msg option"

text \<open>A refused request, with the severity and the response code of the answer to it.\<close>

record request_error =
  re_severity :: u8
  re_response_code :: u8

definition copy_for_forwarding :: "mri option \<Rightarrow> ntlp_msg \<Rightarrow> ntlp_msg" where
  "copy_for_forwarding new_mri msg =
     msg\<lparr>sii_handle := 0, nt_mri := (case new_mri of None \<Rightarrow> nt_mri msg | Some m \<Rightarrow> m)\<rparr>"

definition create_response :: "u8 \<Rightarrow> u8 \<Rightarrow> ntlp_msg \<Rightarrow> ntlp_msg" where
  "create_response severity response_code msg =
     \<lparr>nt_sid = nt_sid msg, nt_mri = invertDirection (nt_mri msg), sii_handle = 0,
      nt_msg = Some ((new_natfw_msg Natfw_response False)\<lparr>nm_information_code := Some (severity, response_code, 0),
        nm_msn := (case nt_msg msg of None \<Rightarrow> None | Some m \<Rightarrow> nm_msn m)\<rparr>)\<rparr>"

definition create_error_response :: "request_error \<Rightarrow> ntlp_msg \<Rightarrow> ntlp_msg" where
  "create_error_response e msg = create_response (re_severity e) (re_response_code e) msg"

definition create_success_response :: "u32 \<Rightarrow> ntlp_msg \<Rightarrow> ntlp_msg" where
  "create_success_response session_lifetime msg =
     (create_response sc_success suc_successfully_processed msg)
       \<lparr>nt_msg := map_option (nm_lifetime_update (\<lambda>_. Some session_lifetime))
          (nt_msg (create_response sc_success suc_successfully_processed msg))\<rparr>"

text \<open>Comparison of sequence numbers modulo \<open>2 ^ 32\<close> (RFC 1982).\<close>

definition is_greater_than :: "u32 \<Rightarrow> u32 \<Rightarrow> bool" where
  "is_greater_than s1 s2 \<longleftrightarrow>
     s1 \<noteq> s2 \<and> ((s1 < s2 \<and> s2 - s1 > 2147483648) \<or> (s1 > s2 \<and> s1 - s2 < 2147483648))"

text \<open>It is the reading of the RFC: the distance from the second to the first is between 1 and \<open>2 ^ 31 - 1\<close>.\<close>

lemma is_greater_than_iff:
  "is_greater_than s1 s2 \<longleftrightarrow> 0 < uint (s1 - s2) \<and> uint (s1 - s2) < 2 ^ 31"
proof -
  have d: "uint (s1 - s2) = (if uint s2 \<le> uint s1 then uint s1 - uint s2 else uint s1 - uint s2 + 2 ^ 32)"
    by (simp add: uint_sub_if')
  have d': "uint (s2 - s1) = (if uint s1 \<le> uint s2 then uint s2 - uint s1 else uint s2 - uint s1 + 2 ^ 32)"
    by (simp add: uint_sub_if')
  have lt: "s1 < s2 \<longleftrightarrow> uint s1 < uint s2" "s2 < s1 \<longleftrightarrow> uint s2 < uint s1" by (simp_all add: word_less_def)
  have lim: "s2 - s1 > 2147483648 \<longleftrightarrow> uint (s2 - s1) > 2 ^ 31" "s1 - s2 < 2147483648 \<longleftrightarrow> uint (s1 - s2) < 2 ^ 31"
    by (simp_all add: word_less_def)
  have ne: "s1 \<noteq> s2 \<longleftrightarrow> uint s1 \<noteq> uint s2" by (simp add: word_uint_eq_iff)
  define a b where ab: "a = uint s1" "b = uint s2"
  have "0 \<le> a" "b < 2 ^ 32" using uint_bounded [of s2] by (simp_all add: ab)
  then show ?thesis unfolding is_greater_than_def lt lim ne d d' ab [symmetric] by auto
qed

end
