(* ===== verification/NF_Node.thy ===== *)
theory NF_Node
  imports NF_Msg
begin

text \<open>
  The state of a node of the NAT/firewall signalling daemon and the services its sessions call: policy rules,
  the pool of external ports (\<open>nat_manager.cpp\<close>), timers, sending, and the events (\<open>events.h\<close>). Sessions are
  processed one event at a time; the locks of the program, which make it so for each session and each table,
  are left out.
\<close>

section \<open>Policy rules\<close>

datatype action_t = ACTION_ALLOW | ACTION_DENY

record fw_policy_rule =
  fw_action :: action_t
  fw_ds_addr :: hostaddress
  fw_ds_prefix :: u8
  fw_ds_port :: u16
  fw_dr_addr :: hostaddress
  fw_dr_prefix :: u8
  fw_dr_port :: u16
  fw_protocol :: u8

datatype rule_type_t = TYPE_DEST_NAT | TYPE_SOURCE_NAT

record nat_policy_rule =
  nat_ds_addr :: hostaddress
  nat_ds_port :: u16
  nat_ext_addr :: hostaddress
  nat_ext_port :: u16
  nat_dr_addr :: hostaddress
  nat_dr_port :: u16
  nat_protocol :: u8
  nat_rule_type :: rule_type_t

text \<open>The calls of a policy rule installer: a NAT rule and a firewall rule, either of which may be missing.\<close>

datatype rule_call = Install "nat_policy_rule option" "fw_policy_rule option"
  | Remove "nat_policy_rule option" "fw_policy_rule option"

section \<open>Configuration and events\<close>

record natfw_config =
  is_nf_nat :: bool
  is_nf_firewall :: bool
  is_nf_edge_node :: bool
  nf_private_networks :: "netaddress list"
  nf_max_session_lifetime :: u32
  nr_max_session_lifetime :: u32
  ni_response_timeout :: u32
  ni_max_retries :: u32
  nr_ext_response_timeout :: u32
  nr_ext_max_retries :: u32

record api_create_event =
  ac_source :: hostaddress
  ac_source_port :: u16
  ac_dest :: hostaddress
  ac_dest_port :: u16
  ac_protocol :: u8
  ac_icmp_types :: "u8 list"
  ac_lifetime :: u32
  ac_proxy :: bool
  ac_return_queue :: bool

record api_ext_event =
  ae_action :: action_t
  ae_nr_address :: hostaddress
  ae_nr_prefix :: u8
  ae_nr_port :: u16
  ae_ni_address :: hostaddress
  ae_ni_prefix :: u8
  ae_ni_port :: u16
  ae_protocol :: u8
  ae_lifetime :: u32
  ae_ni_known :: bool
  ae_proxy :: bool
  ae_return_queue :: bool

datatype natfw_event = Network_notification_event
  | Route_changed_bad_event session_id
  | No_next_node_found_event session_id
  | Routing_state_check_event session_id mri
  | Msg_event session_id ntlp_msg bool
  | Timer_event session_id u32
  | Api_create_event api_create_event
  | Api_ext_event api_ext_event
  | Api_teardown_event session_id

primrec get_session_id :: "natfw_event \<Rightarrow> session_id option" where
  "get_session_id Network_notification_event = None"
| "get_session_id (Route_changed_bad_event sid) = Some sid"
| "get_session_id (No_next_node_found_event sid) = Some sid"
| "get_session_id (Routing_state_check_event sid _) = Some sid"
| "get_session_id (Msg_event sid _ _) = Some sid"
| "get_session_id (Timer_event sid _) = Some sid"
| "get_session_id (Api_create_event _) = None"
| "get_session_id (Api_ext_event _) = None"
| "get_session_id (Api_teardown_event sid) = Some sid"

text \<open>The message of an event with its body, when the body is of the given class.\<close>

definition event_msg :: "msg_class \<Rightarrow> natfw_event \<Rightarrow> (ntlp_msg \<times> natfw_msg) option" where
  "event_msg c evt =
     (case evt of
        Msg_event _ m _ \<Rightarrow> (case nt_msg m of Some b \<Rightarrow> if nm_class b = c then Some (m, b) else None | None \<Rightarrow> None)
      | _ \<Rightarrow> None)"

definition is_natfw_create :: "natfw_event \<Rightarrow> bool" where
  "is_natfw_create evt \<longleftrightarrow> event_msg Natfw_create evt \<noteq> None"

definition is_natfw_ext :: "natfw_event \<Rightarrow> bool" where
  "is_natfw_ext evt \<longleftrightarrow> event_msg Natfw_ext evt \<noteq> None"

text \<open>The form of \<open>is_natfw_response\<close> that compares the sequence number with that of an earlier message.\<close>

definition is_natfw_response :: "natfw_event \<Rightarrow> ntlp_msg \<Rightarrow> bool" where
  "is_natfw_response evt msg \<longleftrightarrow>
     (case nt_msg msg of
        Some m \<Rightarrow> has_msg_sequence_number m \<and>
          (case event_msg Natfw_response evt of Some (_, r) \<Rightarrow> has_msg_sequence_number r \<and> nm_msn m = nm_msn r | None \<Rightarrow> False)
      | None \<Rightarrow> False)"

definition is_invalid_natfw_msg :: "natfw_event \<Rightarrow> bool" where
  "is_invalid_natfw_msg evt \<longleftrightarrow> (case evt of Msg_event _ m _ \<Rightarrow> nt_msg m = None | _ \<Rightarrow> False)"

definition is_timer :: "natfw_event \<Rightarrow> u32 \<Rightarrow> bool" where
  "is_timer evt t \<longleftrightarrow> (case evt of Timer_event _ i \<Rightarrow> i = t | _ \<Rightarrow> False)"

definition is_no_next_node_found_event :: "natfw_event \<Rightarrow> bool" where
  "is_no_next_node_found_event evt \<longleftrightarrow> (case evt of No_next_node_found_event _ \<Rightarrow> True | _ \<Rightarrow> False)"

definition is_api_teardown :: "natfw_event \<Rightarrow> bool" where
  "is_api_teardown evt \<longleftrightarrow> (case evt of Api_teardown_event _ \<Rightarrow> True | _ \<Rightarrow> False)"

definition is_route_changed_bad_event :: "natfw_event \<Rightarrow> bool" where
  "is_route_changed_bad_event evt \<longleftrightarrow> (case evt of Route_changed_bad_event _ \<Rightarrow> True | _ \<Rightarrow> False)"

section \<open>Sessions\<close>

datatype state_t = STATE_IDLE | STATE_WAITRESP | STATE_SESSION | STATE_FINAL

record ni_session =
  ni_state :: state_t
  ni_msn :: u32
  ni_mri :: "mri option"
  ni_icmp_types :: "u8 list"
  ni_last_create :: "ntlp_msg option"
  ni_proxy_mode :: bool
  ni_lifetime :: u32
  ni_refresh_interval :: u32
  ni_timeout :: u32
  create_counter :: u32
  ni_retries :: u32
  ni_proxy_session :: bool
  ni_nonce :: u32
  ni_response_timer :: u32
  ni_refresh_timer :: u32

record nr_session =
  nr_state :: state_t
  nr_msn :: u32
  nr_lifetime :: u32
  nr_max_lifetime :: u32
  nr_state_timer :: u32

record nf_session =
  nf_state :: state_t
  nf_msn :: u32
  nf_proxy_mode :: bool
  nf_lifetime :: u32
  nf_max_lifetime :: u32
  nf_timeout :: u32
  nf_state_timer :: u32
  nf_response_timer :: u32
  ni_side_mri :: "mri_pathcoupled option"
  nr_side_mri :: "mri_pathcoupled option"
  nf_create_message :: "ntlp_msg option"
  nf_fw_rule :: "fw_policy_rule option"
  nf_nat_rule :: "nat_policy_rule option"
  nf_ext_addr :: "appladdress option"

record nr_ext_session =
  ne_state :: state_t
  ne_msn :: u32
  ne_proxy_mode :: bool
  ext_template :: "ntlp_msg option"
  ne_last_ext :: "ntlp_msg option"
  ne_lifetime :: u32
  ne_refresh_interval :: u32
  ne_timeout :: u32
  ext_counter :: u32
  ne_retries :: u32
  ne_response_timer :: u32
  ne_refresh_timer :: u32

text \<open>An address that was never assigned has the value of its default constructor.\<close>

record nf_edge_ext_session =
  ed_state :: state_t
  ed_msn :: u32
  ed_proxy_mode :: bool
  proxy_session_id :: session_id
  ed_lifetime :: u32
  ed_max_lifetime :: u32
  ed_state_timer :: u32
  ed_ext_addr :: appladdress
  ed_fw_rule :: "fw_policy_rule option"
  ed_nat_rule :: "nat_policy_rule option"

record nf_non_edge_ext_session =
  no_state :: state_t
  no_msn :: u32
  no_lifetime :: u32
  no_max_lifetime :: u32
  no_timeout :: u32
  no_state_timer :: u32
  no_response_timer :: u32
  no_ext_addr :: appladdress
  no_last_ext :: "ntlp_msg option"

datatype natfw_session = NI_session ni_session | NR_session nr_session | NF_session nf_session
  | NR_ext_session nr_ext_session | NF_edge_session nf_edge_ext_session | NF_non_edge_session nf_non_edge_ext_session

primrec is_final :: "natfw_session \<Rightarrow> bool" where
  "is_final (NI_session s) = (ni_state s = STATE_FINAL)"
| "is_final (NR_session s) = (nr_state s = STATE_FINAL)"
| "is_final (NF_session s) = (nf_state s = STATE_FINAL)"
| "is_final (NR_ext_session s) = (ne_state s = STATE_FINAL)"
| "is_final (NF_edge_session s) = (ed_state s = STATE_FINAL)"
| "is_final (NF_non_edge_session s) = (no_state s = STATE_FINAL)"

section \<open>The node\<close>

text \<open>
  The messages handed to the transport layer, the answers to its queries, the identifiers returned to callers
  and the calls of the rule installer are kept in the order they are made.
\<close>

record node =
  nd_config :: natfw_config
  session_table :: "session_id \<Rightarrow> natfw_session option"
  nat_address :: hostaddress
  available :: "u16 list"
  external_to_private :: "(appladdress \<times> appladdress) list"
  rule_calls :: "rule_call list"
  sent :: "ntlp_msg list"
  query_answers :: "(session_id \<times> mri) list"
  returned_ids :: "session_id list"
  n_timers :: nat
  n_random :: nat

text \<open>
  What the surroundings decide: the identifiers of timer messages, random numbers, the waiting time that
  \<open>ni_session::setup_session\<close> draws for a given refresh interval, and which calls the rule installer refuses.
\<close>

record natfw_env =
  timer_id :: "nat \<Rightarrow> u32"
  random_bytes :: "nat \<Rightarrow> 128 word"
  draw_timeout :: "nat \<Rightarrow> u32 \<Rightarrow> u32"
  installer_refuses :: "rule_call \<Rightarrow> bool"
  id_tries :: nat

definition send_message :: "ntlp_msg \<Rightarrow> node \<Rightarrow> node result" where
  "send_message msg nd =
     (case nt_msg msg of
        None \<Rightarrow> Fail Bad_access
      | Some m \<Rightarrow> guardR (natfw_msg_check m) Assertion (Ok (nd\<lparr>sent := sent nd @ [msg]\<rparr>)))"

definition start_timer :: "natfw_env \<Rightarrow> node \<Rightarrow> node \<times> u32" where
  "start_timer env nd = (nd\<lparr>n_timers := n_timers nd + 1\<rparr>, timer_id env (n_timers nd))"

definition random_number :: "natfw_env \<Rightarrow> node \<Rightarrow> node \<times> 128 word" where
  "random_number env nd = (nd\<lparr>n_random := n_random nd + 1\<rparr>, random_bytes env (n_random nd))"

text \<open>A call is made and recorded, and then either takes effect or throws (the second component).\<close>

definition install_policy_rules ::
  "natfw_env \<Rightarrow> nat_policy_rule option \<Rightarrow> fw_policy_rule option \<Rightarrow> node \<Rightarrow> node \<times> bool" where
  "install_policy_rules env nat_rule fw_rule nd =
     (if installer_refuses env (Install nat_rule fw_rule) then (nd, True)
      else (nd\<lparr>rule_calls := rule_calls nd @ [Install nat_rule fw_rule]\<rparr>, False))"

definition remove_policy_rules ::
  "natfw_env \<Rightarrow> nat_policy_rule option \<Rightarrow> fw_policy_rule option \<Rightarrow> node \<Rightarrow> node \<times> bool" where
  "remove_policy_rules env nat_rule fw_rule nd =
     (if installer_refuses env (Remove nat_rule fw_rule) then (nd, True)
      else (nd\<lparr>rule_calls := rule_calls nd @ [Remove nat_rule fw_rule]\<rparr>, False))"

definition is_from_private_side :: "natfw_config \<Rightarrow> hostaddress \<Rightarrow> bool" where
  "is_from_private_side config addr \<longleftrightarrow>
     list_ex (\<lambda>na. match_against addr na = int (unat (prefix_length na))) (nf_private_networks config)"

text \<open>Authorization is not implemented in the program; everything is accepted.\<close>

definition is_authorized :: "natfw_event \<Rightarrow> bool" where
  "is_authorized evt \<longleftrightarrow> True"

definition check_lifetime :: "u32 \<Rightarrow> u32 \<Rightarrow> request_error option" where
  "check_lifetime lifetime max_lifetime =
     (if lifetime > max_lifetime
      then Some \<lparr>re_severity = sc_signaling_session_failures, re_response_code = sigfail_lifetime_too_big\<rparr> else None)"

definition check_authorization :: "natfw_event \<Rightarrow> request_error option" where
  "check_authorization evt =
     (if \<not> is_authorized evt
      then Some \<lparr>re_severity = sc_permanent_failure, re_response_code = fail_authentication_failed\<rparr> else None)"

definition check_request :: "u32 \<Rightarrow> u32 \<Rightarrow> natfw_event \<Rightarrow> request_error option" where
  "check_request lifetime max_lifetime evt =
     (case check_lifetime lifetime max_lifetime of Some e \<Rightarrow> Some e | None \<Rightarrow> check_authorization evt)"

section \<open>The pool of external addresses\<close>

definition fill_available :: "u16 \<Rightarrow> u16 \<Rightarrow> u16 list" where
  "fill_available start stop = map of_nat [unat start ..< Suc (unat stop)]"

definition reserve_external_address :: "appladdress \<Rightarrow> node \<Rightarrow> node \<times> (request_error + appladdress)" where
  "reserve_external_address priv_addr nd =
     (case available nd of
        port # ports \<Rightarrow>
          let ext_addr = \<lparr>ap_host = nat_address nd, ap_proto = ap_proto priv_addr, ap_port = port\<rparr>
          in (nd\<lparr>available := ports,
                external_to_private := (ext_addr, priv_addr) #
                  filter (\<lambda>(k, _). \<not> appladdress_eq k ext_addr) (external_to_private nd)\<rparr>, Inr ext_addr)
      | [] \<Rightarrow> (nd, Inl \<lparr>re_severity = sc_transient_failure, re_response_code = tfail_resources_unavailable\<rparr>))"

definition release_external_address :: "appladdress \<Rightarrow> node \<Rightarrow> node" where
  "release_external_address ext_addr nd =
     nd\<lparr>available := available nd @ [ap_port ext_addr],
        external_to_private := filter (\<lambda>(k, _). \<not> appladdress_eq k ext_addr) (external_to_private nd)\<rparr>"

definition lookup_private_address :: "appladdress \<Rightarrow> node \<Rightarrow> request_error + appladdress" where
  "lookup_private_address ext_addr nd =
     (case find (\<lambda>(k, _). appladdress_eq k ext_addr) (external_to_private nd) of
        Some (_, priv_addr) \<Rightarrow> Inr priv_addr
      | None \<Rightarrow> Inl \<lparr>re_severity = sc_signaling_session_failures, re_response_code = sigfail_no_reservation_found\<rparr>)"

section \<open>The session table\<close>

definition get_session :: "session_id \<Rightarrow> node \<Rightarrow> natfw_session option" where
  "get_session sid nd = session_table nd sid"

definition put_session :: "session_id \<Rightarrow> natfw_session \<Rightarrow> node \<Rightarrow> node" where
  "put_session sid s nd = nd\<lparr>session_table := (session_table nd)(sid := Some s)\<rparr>"

definition remove_session :: "session_id \<Rightarrow> node \<Rightarrow> node" where
  "remove_session sid nd = nd\<lparr>session_table := (session_table nd)(sid := None)\<rparr>"

primrec create_unique_id :: "nat \<Rightarrow> natfw_env \<Rightarrow> node \<Rightarrow> (node \<times> session_id) result" where
  "create_unique_id 0 env nd = Fail No_return"
| "create_unique_id (Suc n) env nd =
     (let (nd, sid) = random_number env nd
      in if session_table nd sid \<noteq> None then create_unique_id n env nd else Ok (nd, sid))"

text \<open>The constructor calls \<open>set_nonce\<close>, which also marks the session as a proxy session.\<close>

definition new_ni_session :: "natfw_env \<Rightarrow> node \<Rightarrow> node \<times> ni_session" where
  "new_ni_session env nd =
     (let (nd, msn) = random_number env nd; (nd, nonce) = random_number env nd
      in (nd, \<lparr>ni_state = STATE_IDLE, ni_msn = ucast msn, ni_mri = None, ni_icmp_types = [], ni_last_create = None,
          ni_proxy_mode = False, ni_lifetime = 0, ni_refresh_interval = 20,
          ni_timeout = ni_response_timeout (nd_config nd), create_counter = 0, ni_retries = ni_max_retries (nd_config nd),
          ni_proxy_session = True, ni_nonce = ucast nonce, ni_response_timer = 0, ni_refresh_timer = 0\<rparr>))"

definition new_nr_session :: "natfw_config \<Rightarrow> nr_session" where
  "new_nr_session config = \<lparr>nr_state = STATE_IDLE, nr_msn = 0, nr_lifetime = 0,
     nr_max_lifetime = nr_max_session_lifetime config, nr_state_timer = 0\<rparr>"

definition new_nf_session :: nf_session where
  "new_nf_session = \<lparr>nf_state = STATE_IDLE, nf_msn = 0, nf_proxy_mode = False, nf_lifetime = 0, nf_max_lifetime = 0,
     nf_timeout = 0, nf_state_timer = 0, nf_response_timer = 0, ni_side_mri = None, nr_side_mri = None,
     nf_create_message = None, nf_fw_rule = None, nf_nat_rule = None, nf_ext_addr = None\<rparr>"

definition new_nr_ext_session :: "natfw_env \<Rightarrow> node \<Rightarrow> node \<times> nr_ext_session" where
  "new_nr_ext_session env nd =
     (let (nd, msn) = random_number env nd
      in (nd, \<lparr>ne_state = STATE_IDLE, ne_msn = ucast msn, ne_proxy_mode = False, ext_template = None, ne_last_ext = None,
          ne_lifetime = 0, ne_refresh_interval = 20, ne_timeout = nr_ext_response_timeout (nd_config nd), ext_counter = 0,
          ne_retries = nr_ext_max_retries (nd_config nd), ne_response_timer = 0, ne_refresh_timer = 0\<rparr>))"

definition new_nf_edge_ext_session :: nf_edge_ext_session where
  "new_nf_edge_ext_session = \<lparr>ed_state = STATE_IDLE, ed_msn = 0, ed_proxy_mode = False, proxy_session_id = 0,
     ed_lifetime = 0, ed_max_lifetime = 60, ed_state_timer = 0, ed_ext_addr = appladdress_default,
     ed_fw_rule = None, ed_nat_rule = None\<rparr>"

definition new_nf_non_edge_ext_session :: nf_non_edge_ext_session where
  "new_nf_non_edge_ext_session = \<lparr>no_state = STATE_IDLE, no_msn = 0, no_lifetime = 0, no_max_lifetime = 60,
     no_timeout = 0, no_state_timer = 0, no_response_timer = 0, no_ext_addr = appladdress_default, no_last_ext = None\<rparr>"

text \<open>The address and port of the responder: from the flow of a path-coupled message, from the data terminal
  object of a loose-end one. Other routing methods throw.\<close>

definition get_nr_address :: "ntlp_msg \<Rightarrow> (request_error + appladdress) result" where
  "get_nr_address msg =
     (case nt_mri msg of
        Mri_pc m \<Rightarrow> Ok (Inr \<lparr>ap_host = pc_destaddress m, ap_proto = pc_protocol m, ap_port = pc_destport m\<rparr>)
      | Mri_le m \<Rightarrow>
          (case nt_msg msg of
             Some b \<Rightarrow> guardR (nm_class b = Natfw_ext) Assertion
               (Ok (Inr \<lparr>ap_host = le_destaddress m, ap_proto = get_protocol b, ap_port = get_dr_port b\<rparr>))
           | None \<Rightarrow> Fail Assertion)
      | Mri_est _ _ _ _ \<Rightarrow> Ok (Inl \<lparr>re_severity = 0, re_response_code = 0\<rparr>))"

end
