(* ===== verification/NF_Session.thy ===== *)
theory NF_Session
  imports NF_Node
begin

text \<open>
  The state machines of the initiator, the responder and the forwarder of a CREATE session
  (\<open>ni_session.cpp\<close>, \<open>nr_session.cpp\<close>, \<open>nf_session.cpp\<close>). A handler takes the node and the session and returns
  both; the forwarder can also throw, which the last component of its result tells. Failed assertions and null
  pointers are failures. Log output and the reports to the user, which are only logged, are left out.
\<close>

section \<open>The initiator\<close>

definition build_create_message :: "session_id \<Rightarrow> ni_session \<Rightarrow> (ni_session \<times> ntlp_msg) result" where
  "build_create_message sid s =
     (case ni_mri s of
        None \<Rightarrow> Fail Assertion
      | Some m \<Rightarrow>
          let s = s\<lparr>ni_msn := ni_msn s + 1\<rparr>;
              create = (new_natfw_msg Natfw_create (ni_proxy_mode s))
                \<lparr>nm_lifetime := Some (ni_lifetime s), nm_flow_info := Some (ra_allow, 0), nm_msn := Some (ni_msn s),
                 nm_icmp_types := (if ni_icmp_types s \<noteq> [] then Some (ni_icmp_types s) else None),
                 nm_nonce := (if ni_proxy_mode s \<or> ni_proxy_session s then Some (ni_nonce s) else None)\<rparr>
          in Ok (s, \<lparr>nt_sid = sid, nt_mri = m, sii_handle = 0, nt_msg = Some create\<rparr>))"

text \<open>
  The floating-point expression \<open>ceil(lifetime / ((max_retries + 0.5) * 1.5))\<close>. Its divisor is exact and the
  quotient is either an integer or further from one than the rounding error, so that it equals the quotient of integers.
  Without retries it can be \<open>2 ^ 32\<close> or more, for which C++ does not define the conversion; the processor keeps the low 32 bits.
\<close>

definition refresh_interval :: "u32 \<Rightarrow> u32 \<Rightarrow> u32" where
  "refresh_interval lifetime max_retries =
     (let d = 3 * (2 * unat max_retries + 1) in of_nat ((4 * unat lifetime + d - 1) div d))"

definition ni_setup_session :: "natfw_env \<Rightarrow> api_create_event \<Rightarrow> ni_session \<Rightarrow> node \<Rightarrow> (node \<times> ni_session) result" where
  "ni_setup_session env e s nd =
     (let m = \<lparr>pc_sourceaddress = ac_source e, pc_sourceprefix = 32, pc_sourceport = ac_source_port e,
               pc_destaddress = ac_dest e, pc_destprefix = 32, pc_destport = ac_dest_port e,
               pc_protocol = ac_protocol e, pc_flowlabel = 0, pc_ds_field = 0, pc_spi = 0, pc_downstream = True\<rparr>;
          s = s\<lparr>ni_mri := Some (Mri_pc m)\<rparr>;
          s = (if ac_lifetime e \<noteq> 0 then s\<lparr>ni_lifetime := ac_lifetime e\<rparr> else s);
          r = refresh_interval (ni_lifetime s) (ni_retries s)
      in guardR (r > 0) Assertion
           (Ok (nd\<lparr>n_random := n_random nd + 1\<rparr>,
                s\<lparr>ni_refresh_interval := r, ni_timeout := draw_timeout env (n_random nd) r, ni_proxy_mode := ac_proxy e\<rparr>)))"

definition ni_handle_state_idle ::
  "natfw_env \<Rightarrow> session_id \<Rightarrow> natfw_event \<Rightarrow> node \<Rightarrow> ni_session \<Rightarrow> (node \<times> ni_session) result" where
  "ni_handle_state_idle env sid evt nd s =
     (case evt of
        Api_create_event e \<Rightarrow>
          bindR (ni_setup_session env e s nd) (\<lambda>(nd, s).
          bindR (build_create_message sid s) (\<lambda>(s, m).
          bindR (send_message m nd) (\<lambda>nd.
            let s = s\<lparr>ni_last_create := Some m\<rparr>;
                (nd, t) = start_timer env nd;
                nd = (if ac_return_queue e then nd\<lparr>returned_ids := returned_ids nd @ [sid]\<rparr> else nd)
            in Ok (nd, s\<lparr>ni_response_timer := t, ni_state := STATE_WAITRESP\<rparr>))))
      | _ \<Rightarrow> Ok (nd, s\<lparr>ni_state := STATE_FINAL\<rparr>))"

text \<open>The last CREATE message with its body; there is one in the states that use it.\<close>

definition ni_last :: "ni_session \<Rightarrow> (ntlp_msg \<times> natfw_msg) result" where
  "ni_last s =
     (case ni_last_create s of
        None \<Rightarrow> Fail Assertion
      | Some m \<Rightarrow> (case nt_msg m of Some b \<Rightarrow> Ok (m, b) | None \<Rightarrow> Fail Bad_access))"

text \<open>Both states send the message again when there was no answer, and give up when that was done often enough.\<close>

definition ni_response_timeout_event ::
  "natfw_env \<Rightarrow> node \<Rightarrow> ni_session \<Rightarrow> (node \<times> ni_session) result" where
  "ni_response_timeout_event env nd s =
     (if create_counter s < ni_retries s then
        bindR (ni_last s) (\<lambda>(m, b).
        bindR (send_message m nd) (\<lambda>nd.
          let (nd, t) = start_timer env nd
          in Ok (nd, s\<lparr>create_counter := create_counter s + 1, ni_response_timer := t\<rparr>)))
      else Ok (nd, s\<lparr>ni_state := STATE_FINAL\<rparr>))"

definition ni_response_event ::
  "natfw_env \<Rightarrow> natfw_msg \<Rightarrow> node \<Rightarrow> ni_session \<Rightarrow> (node \<times> ni_session) result" where
  "ni_response_event env resp nd s =
     bindR (ni_last s) (\<lambda>(m, c).
     bindR (is_response_to resp c) (\<lambda>answers.
       if \<not> answers then Ok (nd, s)
       else if is_success resp then
         let (nd, t) = start_timer env nd
         in Ok (nd, s\<lparr>ni_response_timer := 0, ni_refresh_timer := t, create_counter := 0, ni_state := STATE_SESSION\<rparr>)
       else Ok (nd, s\<lparr>ni_state := STATE_FINAL\<rparr>)))"

definition ni_teardown_event :: "session_id \<Rightarrow> node \<Rightarrow> ni_session \<Rightarrow> (node \<times> ni_session) result" where
  "ni_teardown_event sid nd s =
     bindR (build_create_message sid (s\<lparr>ni_lifetime := 0, ni_last_create := None\<rparr>)) (\<lambda>(s, m).
     bindR (send_message m nd) (\<lambda>nd. Ok (nd, s\<lparr>ni_state := STATE_FINAL\<rparr>)))"

definition ni_handle_state_waitresp ::
  "natfw_env \<Rightarrow> session_id \<Rightarrow> natfw_event \<Rightarrow> node \<Rightarrow> ni_session \<Rightarrow> (node \<times> ni_session) result" where
  "ni_handle_state_waitresp env sid evt nd s =
     (case event_msg Natfw_response evt of
        Some (_, resp) \<Rightarrow> ni_response_event env resp nd s
      | None \<Rightarrow>
          if is_timer evt (ni_response_timer s) then ni_response_timeout_event env nd s
          else if is_no_next_node_found_event evt then Ok (nd, s\<lparr>ni_state := STATE_FINAL\<rparr>)
          else if is_api_teardown evt then ni_teardown_event sid nd s
          else Ok (nd, s))"

definition ni_handle_state_session ::
  "natfw_env \<Rightarrow> session_id \<Rightarrow> natfw_event \<Rightarrow> node \<Rightarrow> ni_session \<Rightarrow> (node \<times> ni_session) result" where
  "ni_handle_state_session env sid evt nd s =
     bindR (ni_last s) (\<lambda>(m, c).
       case (if is_natfw_response evt m then event_msg Natfw_response evt else None) of
         Some (_, resp) \<Rightarrow> ni_response_event env resp nd s
       | None \<Rightarrow>
           if is_timer evt (ni_refresh_timer s) then
             bindR (build_create_message sid s) (\<lambda>(s, m).
             bindR (send_message m nd) (\<lambda>nd.
               let (nd, t) = start_timer env nd
               in Ok (nd, s\<lparr>ni_last_create := Some m, ni_response_timer := t\<rparr>)))
           else if is_timer evt (ni_response_timer s) then ni_response_timeout_event env nd s
           else if is_api_teardown evt then ni_teardown_event sid nd s
           else Ok (nd, s))"

definition ni_process_event ::
  "natfw_env \<Rightarrow> session_id \<Rightarrow> natfw_event \<Rightarrow> node \<Rightarrow> ni_session \<Rightarrow> (node \<times> ni_session) result" where
  "ni_process_event env sid evt nd s =
     (case ni_state s of
        STATE_IDLE \<Rightarrow> ni_handle_state_idle env sid evt nd s
      | STATE_WAITRESP \<Rightarrow> ni_handle_state_waitresp env sid evt nd s
      | STATE_SESSION \<Rightarrow> ni_handle_state_session env sid evt nd s
      | STATE_FINAL \<Rightarrow> Ok (nd, s))"

section \<open>The responder\<close>

definition nr_handle_state_idle ::
  "natfw_env \<Rightarrow> natfw_event \<Rightarrow> node \<Rightarrow> nr_session \<Rightarrow> (node \<times> nr_session) result" where
  "nr_handle_state_idle env evt nd s =
     (case event_msg Natfw_create evt of
        Some (msg, c) \<Rightarrow>
          bindR (get_msg_sequence_number c) (\<lambda>msn.
            let lifetime = get_session_lifetime c
            in case check_request lifetime (nr_max_lifetime s) evt of
                 Some e \<Rightarrow> bindR (send_message (create_error_response e msg) nd) (\<lambda>nd. Ok (nd, s\<lparr>nr_state := STATE_FINAL\<rparr>))
               | None \<Rightarrow>
                   if lifetime > 0 then
                     bindR (send_message (create_success_response lifetime msg) nd) (\<lambda>nd.
                       let (nd, t) = start_timer env nd
                       in Ok (nd, s\<lparr>nr_lifetime := lifetime, nr_msn := msn, nr_state_timer := t, nr_state := STATE_SESSION\<rparr>))
                   else Ok (nd, s\<lparr>nr_state := STATE_FINAL\<rparr>))
      | None \<Rightarrow> Ok (nd, s\<lparr>nr_state := STATE_FINAL\<rparr>))"

definition nr_handle_state_session ::
  "natfw_env \<Rightarrow> natfw_event \<Rightarrow> node \<Rightarrow> nr_session \<Rightarrow> (node \<times> nr_session) result" where
  "nr_handle_state_session env evt nd s =
     (case event_msg Natfw_create evt of
        Some (msg, c) \<Rightarrow>
          bindR (get_msg_sequence_number c) (\<lambda>msn.
            let lifetime = get_session_lifetime c
            in case check_request lifetime (nr_max_lifetime s) evt of
                 Some e \<Rightarrow> bindR (send_message (create_error_response e msg) nd) (\<lambda>nd. Ok (nd, s))
               | None \<Rightarrow>
                   if \<not> is_greater_than msn (nr_msn s) then Ok (nd, s)
                   else if lifetime > 0 then
                     bindR (send_message (create_success_response lifetime msg) nd) (\<lambda>nd.
                       let (nd, t) = start_timer env nd
                       in Ok (nd, s\<lparr>nr_lifetime := lifetime, nr_msn := msn, nr_state_timer := t\<rparr>))
                   else Ok (nd, s\<lparr>nr_state := STATE_FINAL\<rparr>))
      | None \<Rightarrow> Ok (nd, if is_timer evt (nr_state_timer s) then s\<lparr>nr_state := STATE_FINAL\<rparr> else s))"

definition nr_process_event ::
  "natfw_env \<Rightarrow> natfw_event \<Rightarrow> node \<Rightarrow> nr_session \<Rightarrow> (node \<times> nr_session) result" where
  "nr_process_event env evt nd s =
     (case nr_state s of
        STATE_IDLE \<Rightarrow> nr_handle_state_idle env evt nd s
      | STATE_SESSION \<Rightarrow> nr_handle_state_session env evt nd s
      | STATE_FINAL \<Rightarrow> Ok (nd, s)
      | STATE_WAITRESP \<Rightarrow> Fail Assertion)"

section \<open>The forwarder\<close>

definition create_mri_with_dest :: "mri_pathcoupled \<Rightarrow> appladdress \<Rightarrow> mri_pathcoupled result" where
  "create_mri_with_dest orig_mri priv_addr =
     guardR (pc_downstream orig_mri) Assertion
       (Ok (orig_mri\<lparr>pc_destaddress := ap_host priv_addr, pc_destport := ap_port priv_addr\<rparr>))"

definition create_mri_with_source :: "mri_pathcoupled \<Rightarrow> appladdress \<Rightarrow> mri_pathcoupled result" where
  "create_mri_with_source orig_mri priv_addr =
     guardR (pc_downstream orig_mri) Assertion
       (Ok (orig_mri\<lparr>pc_sourceaddress := ap_host priv_addr, pc_sourceport := ap_port priv_addr\<rparr>))"

definition create_mri_inverted :: "mri_pathcoupled \<Rightarrow> mri_pathcoupled result" where
  "create_mri_inverted orig_mri =
     guardR (pc_downstream orig_mri) Assertion (Ok (orig_mri\<lparr>pc_downstream := \<not> pc_downstream orig_mri\<rparr>))"

definition create_msg_for_nr :: "natfw_config \<Rightarrow> nf_session \<Rightarrow> ntlp_msg \<Rightarrow> ntlp_msg result" where
  "create_msg_for_nr config s msg =
     (if is_nf_nat config then
        case nr_side_mri s of None \<Rightarrow> Fail Assertion | Some m \<Rightarrow> Ok (copy_for_forwarding (Some (Mri_pc m)) msg)
      else Ok (copy_for_forwarding None msg))"

definition create_msg_for_ni :: "natfw_config \<Rightarrow> nf_session \<Rightarrow> ntlp_msg \<Rightarrow> ntlp_msg result" where
  "create_msg_for_ni config s msg =
     (if is_nf_nat config then
        case ni_side_mri s of None \<Rightarrow> Fail Assertion | Some m \<Rightarrow> Ok (copy_for_forwarding (Some (Mri_pc m)) msg)
      else Ok (copy_for_forwarding None msg))"

definition unsupported_rule :: request_error where
  "unsupported_rule = \<lparr>re_severity = sc_signaling_session_failures, re_response_code = sigfail_unknown_policy_rule_action\<rparr>"

text \<open>The rule for a flow; without a path-coupled flow the saved rule stays as it was.\<close>

definition save_fw_policy_rule :: "ntlp_msg \<Rightarrow> natfw_msg \<Rightarrow> nf_session \<Rightarrow> (request_error + nf_session) result" where
  "save_fw_policy_rule msg create s =
     (case nt_mri msg of
        Mri_pc m \<Rightarrow>
          guardR (pc_downstream m) Assertion
            (Ok (if get_subsequent_ports create \<noteq> 0 then Inl unsupported_rule
                 else if get_rule_action create \<noteq> ra_allow \<and> get_rule_action create \<noteq> ra_deny then Inl unsupported_rule
                 else Inr (s\<lparr>nf_fw_rule := Some
                   \<lparr>fw_action = (if get_rule_action create = ra_allow then ACTION_ALLOW else ACTION_DENY),
                    fw_ds_addr = pc_sourceaddress m, fw_ds_prefix = pc_sourceprefix m, fw_ds_port = pc_sourceport m,
                    fw_dr_addr = pc_destaddress m, fw_dr_prefix = pc_destprefix m, fw_dr_port = pc_destport m,
                    fw_protocol = pc_protocol m\<rparr>\<rparr>)))
      | _ \<Rightarrow> Ok (Inr s))"

definition save_nat_policy_rule :: "mri_pathcoupled \<Rightarrow> appladdress \<Rightarrow> rule_type_t \<Rightarrow> nf_session \<Rightarrow> nf_session result" where
  "save_nat_policy_rule m dr_addr nat_type s =
     guardR (pc_downstream m) Assertion
       (Ok (s\<lparr>nf_nat_rule := Some
          \<lparr>nat_ds_addr = pc_sourceaddress m, nat_ds_port = pc_sourceport m,
           nat_ext_addr = pc_destaddress m, nat_ext_port = pc_destport m,
           nat_dr_addr = ap_host dr_addr, nat_dr_port = ap_port dr_addr, nat_protocol = pc_protocol m,
           nat_rule_type = nat_type\<rparr>\<rparr>))"

text \<open>The addresses that a NAT rewrites: the destination of a CREATE from the public side, for which there must be
  a reservation, and the source of one from the private side, for which it reserves a port. The address that
  \<open>get_nr_address\<close> gives for a path-coupled message is its destination.\<close>

definition nf_nat_setup :: "ntlp_msg \<Rightarrow> mri_pathcoupled \<Rightarrow> node \<Rightarrow> nf_session \<Rightarrow>
    (node \<times> (request_error + nf_session)) result" where
  "nf_nat_setup msg m nd s =
     (if \<not> is_nf_nat (nd_config nd) then Ok (nd, Inr s)
      else if \<not> is_from_private_side (nd_config nd) (get_sourceaddress (nt_mri msg)) then
        case lookup_private_address \<lparr>ap_host = pc_destaddress m, ap_proto = pc_protocol m, ap_port = pc_destport m\<rparr> nd of
          Inl e \<Rightarrow> Ok (nd, Inl e)
        | Inr addr \<Rightarrow>
            bindR (create_mri_with_dest m addr) (\<lambda>to_nr.
            bindR (create_mri_inverted m) (\<lambda>to_ni.
            bindR (save_nat_policy_rule m addr TYPE_DEST_NAT (s\<lparr>nr_side_mri := Some to_nr, ni_side_mri := Some to_ni\<rparr>)) (\<lambda>s.
              Ok (nd, Inr s))))
      else
        case reserve_external_address \<lparr>ap_host = pc_destaddress m, ap_proto = pc_protocol m, ap_port = pc_destport m\<rparr> nd of
          (nd, Inl e) \<Rightarrow> Ok (nd, Inl e)
        | (nd, Inr addr) \<Rightarrow>
            bindR (create_mri_with_source m addr) (\<lambda>to_nr.
            bindR (create_mri_inverted m) (\<lambda>to_ni.
            bindR (save_nat_policy_rule m addr TYPE_SOURCE_NAT
                (s\<lparr>nf_ext_addr := Some addr, nr_side_mri := Some to_nr, ni_side_mri := Some to_ni\<rparr>)) (\<lambda>s.
              Ok (nd, Inr s)))))"

definition nf_refuse :: "request_error \<Rightarrow> ntlp_msg \<Rightarrow> state_t \<Rightarrow> node \<Rightarrow> nf_session \<Rightarrow> (node \<times> nf_session \<times> bool) result" where
  "nf_refuse e msg st nd s =
     bindR (send_message (create_error_response e msg) nd) (\<lambda>nd. Ok (nd, s\<lparr>nf_state := st\<rparr>, False))"

definition nf_forward_create ::
  "natfw_env \<Rightarrow> ntlp_msg \<Rightarrow> mri_pathcoupled \<Rightarrow> node \<Rightarrow> nf_session \<Rightarrow> (node \<times> nf_session \<times> bool) result" where
  "nf_forward_create env msg m nd s =
     bindR (nf_nat_setup msg m nd s) (\<lambda>(nd, r).
       case r of
         Inl e \<Rightarrow> nf_refuse e msg STATE_FINAL nd s
       | Inr s \<Rightarrow>
           bindR (create_msg_for_nr (nd_config nd) s msg) (\<lambda>m.
           bindR (send_message m nd) (\<lambda>nd.
             let (nd, t) = start_timer env nd
             in Ok (nd, s\<lparr>nf_state_timer := t, nf_state := STATE_WAITRESP\<rparr>, False))))"

definition handle_state_idle_create ::
  "natfw_env \<Rightarrow> ntlp_msg \<Rightarrow> natfw_msg \<Rightarrow> node \<Rightarrow> nf_session \<Rightarrow> (node \<times> nf_session \<times> bool) result" where
  "handle_state_idle_create env msg create nd s =
     (let s = s\<lparr>nf_create_message := Some msg\<rparr>
      in bindR (if is_nf_firewall (nd_config nd) then save_fw_policy_rule msg create s else Ok (Inr s)) (\<lambda>r.
           case r of
             Inl e \<Rightarrow> nf_refuse e msg STATE_FINAL nd s
           | Inr s \<Rightarrow> (case nt_mri msg of Mri_pc m \<Rightarrow> nf_forward_create env msg m nd s | _ \<Rightarrow> Fail Assertion)))"

definition nf_handle_state_idle ::
  "natfw_env \<Rightarrow> natfw_event \<Rightarrow> node \<Rightarrow> nf_session \<Rightarrow> (node \<times> nf_session \<times> bool) result" where
  "nf_handle_state_idle env evt nd s =
     (case event_msg Natfw_create evt of
        Some (msg, create) \<Rightarrow>
          bindR (get_msg_sequence_number create) (\<lambda>msn.
            let lifetime = get_session_lifetime create;
                s = s\<lparr>nf_max_lifetime := nf_max_session_lifetime (nd_config nd),
                      nf_timeout := nf_max_session_lifetime (nd_config nd)\<rparr>
            in case check_request lifetime (nf_max_lifetime s) evt of
                 Some e \<Rightarrow> nf_refuse e msg STATE_FINAL nd s
               | None \<Rightarrow>
                   if lifetime = 0 then Ok (nd, s\<lparr>nf_state := STATE_FINAL\<rparr>, False)
                   else handle_state_idle_create env msg create nd (s\<lparr>nf_lifetime := lifetime, nf_msn := msn\<rparr>))
      | None \<Rightarrow> Ok (nd, s\<lparr>nf_state := STATE_FINAL\<rparr>, False))"

definition nf_last :: "nf_session \<Rightarrow> (ntlp_msg \<times> natfw_msg) result" where
  "nf_last s =
     (case nf_create_message s of
        None \<Rightarrow> Fail Assertion
      | Some m \<Rightarrow> (case nt_msg m of Some b \<Rightarrow> Ok (m, b) | None \<Rightarrow> Fail Bad_access))"

definition nf_release :: "nf_session \<Rightarrow> node \<Rightarrow> node" where
  "nf_release s nd = (case nf_ext_addr s of Some a \<Rightarrow> release_external_address a nd | None \<Rightarrow> nd)"

text \<open>The end of a session whose rules are in force: they are removed, a message is sent, the port is given back.
  A refused removal throws before anything else is done.\<close>

definition nf_close :: "natfw_env \<Rightarrow> ntlp_msg option result \<Rightarrow> node \<Rightarrow> nf_session \<Rightarrow> (node \<times> nf_session \<times> bool) result" where
  "nf_close env m nd s =
     (case remove_policy_rules env (nf_nat_rule s) (nf_fw_rule s) nd of
        (nd, True) \<Rightarrow> Ok (nd, s, True)
      | (nd, False) \<Rightarrow>
          bindR m (\<lambda>m.
          bindR (case m of Some m \<Rightarrow> send_message m nd | None \<Rightarrow> Ok nd) (\<lambda>nd.
            Ok (nf_release s nd, s\<lparr>nf_state := STATE_FINAL\<rparr>, False))))"

text \<open>The end of a session that waits for a response.\<close>

definition nf_abandon :: "ntlp_msg \<Rightarrow> node \<Rightarrow> nf_session \<Rightarrow> (node \<times> nf_session \<times> bool) result" where
  "nf_abandon m nd s =
     bindR (send_message m nd) (\<lambda>nd. Ok (nf_release s nd, s\<lparr>nf_state := STATE_FINAL\<rparr>, False))"

definition nf_waitresp_response ::
  "natfw_env \<Rightarrow> ntlp_msg \<Rightarrow> natfw_msg \<Rightarrow> node \<Rightarrow> nf_session \<Rightarrow> (node \<times> nf_session \<times> bool) result" where
  "nf_waitresp_response env msg resp nd s =
     (if is_success resp then
        case install_policy_rules env (nf_nat_rule s) (nf_fw_rule s) nd of
          (nd, True) \<Rightarrow> Ok (nd, s, True)
        | (nd, False) \<Rightarrow>
            bindR (create_msg_for_ni (nd_config nd) s msg) (\<lambda>m.
            bindR (send_message m nd) (\<lambda>nd.
              let (nd, t) = start_timer env nd
              in Ok (nd, s\<lparr>nf_state_timer := t, nf_state := STATE_SESSION\<rparr>, False)))
      else
        bindR (create_msg_for_ni (nd_config nd) s msg) (\<lambda>m. nf_abandon m nd (s\<lparr>nf_state_timer := 0\<rparr>)))"

definition nf_waitresp_create ::
  "natfw_env \<Rightarrow> natfw_event \<Rightarrow> ntlp_msg \<Rightarrow> natfw_msg \<Rightarrow> natfw_msg \<Rightarrow> node \<Rightarrow> nf_session \<Rightarrow> (node \<times> nf_session \<times> bool) result" where
  "nf_waitresp_create env evt msg create previous nd s =
     (case check_authorization evt of
        Some e \<Rightarrow> nf_refuse e msg STATE_WAITRESP nd s
      | None \<Rightarrow>
          bindR (get_msg_sequence_number create) (\<lambda>msn.
          bindR (get_msg_sequence_number previous) (\<lambda>prev_msn.
            if msn > prev_msn \<and> get_session_lifetime create = 0 then
              nf_abandon (copy_for_forwarding None msg) nd (s\<lparr>nf_state_timer := 0\<rparr>)
            else if msn = prev_msn then
              bindR (send_message (copy_for_forwarding None msg) nd) (\<lambda>nd.
                let (nd, t) = start_timer env nd in Ok (nd, s\<lparr>nf_state_timer := t\<rparr>, False))
            else Ok (nd, s, False))))"

definition nf_waitresp_proxy ::
  "natfw_env \<Rightarrow> ntlp_msg \<Rightarrow> node \<Rightarrow> nf_session \<Rightarrow> (node \<times> nf_session \<times> bool) result" where
  "nf_waitresp_proxy env m nd s =
     (case install_policy_rules env None (nf_fw_rule s) nd of
        (nd, True) \<Rightarrow> Ok (nd, s\<lparr>nf_proxy_mode := True\<rparr>, True)
      | (nd, False) \<Rightarrow>
          bindR (send_message (create_success_response (nf_lifetime s) m) nd) (\<lambda>nd.
            Ok (nd, s\<lparr>nf_proxy_mode := True, nf_state_timer := 0, nf_state := STATE_SESSION\<rparr>, False)))"

definition nf_handle_state_waitresp ::
  "natfw_env \<Rightarrow> natfw_event \<Rightarrow> node \<Rightarrow> nf_session \<Rightarrow> (node \<times> nf_session \<times> bool) result" where
  "nf_handle_state_waitresp env evt nd s =
     bindR (nf_last s) (\<lambda>(m, c).
       case (if is_natfw_response evt m then event_msg Natfw_response evt else None) of
         Some (msg, resp) \<Rightarrow>
           bindR (is_response_to resp c) (\<lambda>answers.
             if \<not> answers then Ok (nd, s, False) else nf_waitresp_response env msg resp nd s)
       | None \<Rightarrow>
           (case event_msg Natfw_create evt of
              Some (msg, create) \<Rightarrow> nf_waitresp_create env evt msg create c nd s
            | None \<Rightarrow>
                if \<not> is_nf_nat (nd_config nd) \<and> is_no_next_node_found_event evt \<and> proxy_mode_flag c then
                  nf_waitresp_proxy env m nd s
                else if is_no_next_node_found_event evt \<or> is_timer evt (nf_state_timer s) then
                  nf_abandon (create_response sc_permanent_failure fail_nr_not_reached m) nd s
                else Ok (nd, s, False)))"

definition nf_session_create ::
  "natfw_env \<Rightarrow> natfw_event \<Rightarrow> ntlp_msg \<Rightarrow> natfw_msg \<Rightarrow> node \<Rightarrow> nf_session \<Rightarrow> (node \<times> nf_session \<times> bool) result" where
  "nf_session_create env evt msg create nd s =
     bindR (get_msg_sequence_number create) (\<lambda>msn.
       let lifetime = get_session_lifetime create
       in case check_request lifetime (nf_max_lifetime s) evt of
            Some e \<Rightarrow> nf_refuse e msg STATE_SESSION nd s
          | None \<Rightarrow>
              if \<not> is_greater_than msn (nf_msn s) then Ok (nd, s, False)
              else if lifetime > 0 then
                let s = s\<lparr>nf_lifetime := lifetime, nf_msn := msn, nf_create_message := Some msg\<rparr>
                in if \<not> nf_proxy_mode s then
                     bindR (create_msg_for_nr (nd_config nd) s msg) (\<lambda>m.
                     bindR (send_message m nd) (\<lambda>nd.
                       let (nd, t) = start_timer env nd in Ok (nd, s\<lparr>nf_response_timer := t\<rparr>, False)))
                   else
                     bindR (send_message (create_success_response lifetime msg) nd) (\<lambda>nd. Ok (nd, s, False))
              else
                let s = s\<lparr>nf_state_timer := 0, nf_response_timer := 0\<rparr>
                in nf_close env (mapR Some (create_msg_for_nr (nd_config nd) s msg)) nd s)"

definition nf_session_response ::
  "natfw_env \<Rightarrow> ntlp_msg \<Rightarrow> natfw_msg \<Rightarrow> node \<Rightarrow> nf_session \<Rightarrow> (node \<times> nf_session \<times> bool) result" where
  "nf_session_response env msg resp nd s =
     (if is_success resp then
        bindR (create_msg_for_ni (nd_config nd) s msg) (\<lambda>m.
        bindR (send_message m nd) (\<lambda>nd. let (nd, t) = start_timer env nd in Ok (nd, s\<lparr>nf_state_timer := t\<rparr>, False)))
      else nf_close env (mapR Some (create_msg_for_ni (nd_config nd) s msg)) nd s)"

definition nf_handle_state_session ::
  "natfw_env \<Rightarrow> natfw_event \<Rightarrow> node \<Rightarrow> nf_session \<Rightarrow> (node \<times> nf_session \<times> bool) result" where
  "nf_handle_state_session env evt nd s =
     (case event_msg Natfw_create evt of
        Some (msg, create) \<Rightarrow> nf_session_create env evt msg create nd s
      | None \<Rightarrow>
          bindR (nf_last s) (\<lambda>(m, c).
            case (if is_natfw_response evt m then event_msg Natfw_response evt else None) of
              Some (msg, resp) \<Rightarrow>
                bindR (is_response_to resp c) (\<lambda>answers.
                  if \<not> answers then Ok (nd, s, False) else nf_session_response env msg resp nd s)
            | None \<Rightarrow>
                if \<not> nf_proxy_mode s \<and> (is_no_next_node_found_event evt \<or> is_timer evt (nf_response_timer s)) then
                  nf_close env (Ok (Some (create_response sc_permanent_failure fail_nr_not_reached m))) nd
                    (s\<lparr>nf_state_timer := 0, nf_response_timer := 0\<rparr>)
                else if is_timer evt (nf_state_timer s) then nf_close env (Ok None) nd (s\<lparr>nf_response_timer := 0\<rparr>)
                else if is_route_changed_bad_event evt then Ok (nd, s\<lparr>nf_state := STATE_FINAL\<rparr>, False)
                else Ok (nd, s, False)))"

definition nf_process_event ::
  "natfw_env \<Rightarrow> natfw_event \<Rightarrow> node \<Rightarrow> nf_session \<Rightarrow> (node \<times> nf_session \<times> bool) result" where
  "nf_process_event env evt nd s =
     (case nf_state s of
        STATE_IDLE \<Rightarrow> nf_handle_state_idle env evt nd s
      | STATE_WAITRESP \<Rightarrow> nf_handle_state_waitresp env evt nd s
      | STATE_SESSION \<Rightarrow> nf_handle_state_session env evt nd s
      | STATE_FINAL \<Rightarrow> Ok (nd, s, False))"

end
