(* ===== verification/NF_Ext.thy ===== *)
theory NF_Ext
  imports NF_Session
begin

text \<open>
  The sessions started by an EXT message (\<open>nr_ext_session.cpp\<close>, \<open>nf_non_edge_ext_session.cpp\<close>,
  \<open>nf_edge_ext_session.cpp\<close>) and the dispatcher that finds or creates the session of an event and deletes it when it
  has ended (\<open>dispatcher.cpp\<close>, \<open>session_manager.cpp\<close>).
\<close>

section \<open>The responder that asks for a reservation\<close>

definition build_ext_message :: "nr_ext_session \<Rightarrow> (nr_ext_session \<times> ntlp_msg) result" where
  "build_ext_message s =
     (case ext_template s of
        None \<Rightarrow> Fail Assertion
      | Some t \<Rightarrow>
          (case nt_msg t of
             None \<Rightarrow> Fail Assertion
           | Some ext \<Rightarrow>
               let s = s\<lparr>ne_msn := ne_msn s + 1\<rparr>
               in Ok (s, t\<lparr>nt_msg := Some (ext\<lparr>nm_lifetime := Some (ne_lifetime s), nm_msn := Some (ne_msn s)\<rparr>)\<rparr>)))"

definition ne_setup_session ::
  "natfw_env \<Rightarrow> session_id \<Rightarrow> api_ext_event \<Rightarrow> nr_ext_session \<Rightarrow> node \<Rightarrow> (node \<times> nr_ext_session) result" where
  "ne_setup_session env sid e s nd =
     (let ext = (new_natfw_msg Natfw_ext (ae_proxy e))\<lparr>nm_lifetime := Some 0, nm_msn := Some 0,
            nm_flow_info := Some (if ae_action e = ACTION_ALLOW then ra_allow else ra_deny, 0)\<rparr>;
          ext = (if \<not> ae_ni_known e then set_data_terminal_info (ae_protocol e) (ae_nr_port e) (ae_ni_port e) ext else ext);
          (nd, nonce) = (if ae_proxy e then random_number env nd else (nd, 0));
          ext = (if ae_proxy e then ext\<lparr>nm_nonce := Some (ucast nonce)\<rparr> else ext);
          m = (if ae_ni_known e then
                 Mri_pc \<lparr>pc_sourceaddress = ae_ni_address e, pc_sourceprefix = ae_ni_prefix e, pc_sourceport = ae_ni_port e,
                   pc_destaddress = ae_nr_address e, pc_destprefix = ae_nr_prefix e, pc_destport = ae_nr_port e,
                   pc_protocol = ae_protocol e, pc_flowlabel = 0, pc_ds_field = 0, pc_spi = 0, pc_downstream = False\<rparr>
               else Mri_le \<lparr>le_sourceaddress = ae_ni_address e, le_destaddress = ae_nr_address e, le_downstream = False\<rparr>);
          s = s\<lparr>ext_template := Some \<lparr>nt_sid = sid, nt_mri = m, sii_handle = 0, nt_msg = Some ext\<rparr>\<rparr>;
          s = (if ae_lifetime e \<noteq> 0 then s\<lparr>ne_lifetime := ae_lifetime e\<rparr> else s);
          r = refresh_interval (ne_lifetime s) (ne_retries s)
      in guardR (r > 0) Assertion (Ok (nd, s\<lparr>ne_refresh_interval := r, ne_proxy_mode := ae_proxy e\<rparr>)))"

definition ne_handle_state_idle ::
  "natfw_env \<Rightarrow> session_id \<Rightarrow> natfw_event \<Rightarrow> node \<Rightarrow> nr_ext_session \<Rightarrow> (node \<times> nr_ext_session) result" where
  "ne_handle_state_idle env sid evt nd s =
     (case evt of
        Api_ext_event e \<Rightarrow>
          bindR (ne_setup_session env sid e s nd) (\<lambda>(nd, s).
          bindR (build_ext_message s) (\<lambda>(s, m).
          bindR (send_message m nd) (\<lambda>nd.
            let (nd, t) = start_timer env nd;
                nd = (if ae_return_queue e then nd\<lparr>returned_ids := returned_ids nd @ [sid]\<rparr> else nd)
            in Ok (nd, s\<lparr>ne_last_ext := Some m, ne_response_timer := t, ne_state := STATE_WAITRESP\<rparr>))))
      | _ \<Rightarrow> Ok (nd, s\<lparr>ne_state := STATE_FINAL\<rparr>))"

definition ne_last :: "nr_ext_session \<Rightarrow> (ntlp_msg \<times> natfw_msg) result" where
  "ne_last s =
     (case ne_last_ext s of
        None \<Rightarrow> Fail Assertion
      | Some m \<Rightarrow> (case nt_msg m of Some b \<Rightarrow> Ok (m, b) | None \<Rightarrow> Fail Bad_access))"

definition ne_response_event ::
  "natfw_env \<Rightarrow> natfw_msg \<Rightarrow> node \<Rightarrow> nr_ext_session \<Rightarrow> (node \<times> nr_ext_session) result" where
  "ne_response_event env resp nd s =
     bindR (ne_last s) (\<lambda>(m, ext).
     bindR (is_response_to resp ext) (\<lambda>answers.
       if \<not> answers then Ok (nd, s)
       else if is_success resp then
         let (nd, t) = start_timer env nd
         in Ok (nd, s\<lparr>ne_response_timer := 0, ne_refresh_timer := t, ext_counter := 0, ne_state := STATE_SESSION\<rparr>)
       else Ok (nd, s\<lparr>ne_state := STATE_FINAL\<rparr>)))"

definition ne_response_timeout_event :: "natfw_env \<Rightarrow> node \<Rightarrow> nr_ext_session \<Rightarrow> (node \<times> nr_ext_session) result" where
  "ne_response_timeout_event env nd s =
     (if ext_counter s < ne_retries s then
        bindR (ne_last s) (\<lambda>(m, b).
        bindR (send_message m nd) (\<lambda>nd.
          let (nd, t) = start_timer env nd
          in Ok (nd, s\<lparr>ext_counter := ext_counter s + 1, ne_response_timer := t\<rparr>)))
      else Ok (nd, s\<lparr>ne_state := STATE_FINAL\<rparr>))"

definition ne_teardown_event :: "node \<Rightarrow> nr_ext_session \<Rightarrow> (node \<times> nr_ext_session) result" where
  "ne_teardown_event nd s =
     bindR (build_ext_message (s\<lparr>ne_lifetime := 0, ne_last_ext := None\<rparr>)) (\<lambda>(s, m).
     bindR (send_message m nd) (\<lambda>nd. Ok (nd, s\<lparr>ne_state := STATE_FINAL\<rparr>)))"

definition ne_handle_state_waitresp ::
  "natfw_env \<Rightarrow> natfw_event \<Rightarrow> node \<Rightarrow> nr_ext_session \<Rightarrow> (node \<times> nr_ext_session) result" where
  "ne_handle_state_waitresp env evt nd s =
     (case event_msg Natfw_response evt of
        Some (_, resp) \<Rightarrow> ne_response_event env resp nd s
      | None \<Rightarrow>
          if is_timer evt (ne_response_timer s) then ne_response_timeout_event env nd s
          else if is_api_teardown evt then ne_teardown_event nd s
          else Ok (nd, s))"

definition ne_handle_state_session ::
  "natfw_env \<Rightarrow> natfw_event \<Rightarrow> node \<Rightarrow> nr_ext_session \<Rightarrow> (node \<times> nr_ext_session) result" where
  "ne_handle_state_session env evt nd s =
     (case event_msg Natfw_response evt of
        Some (_, resp) \<Rightarrow> ne_response_event env resp nd s
      | None \<Rightarrow>
          if is_timer evt (ne_refresh_timer s) then
            bindR (build_ext_message s) (\<lambda>(s, m).
            bindR (send_message m nd) (\<lambda>nd.
              let (nd, t) = start_timer env nd
              in Ok (nd, s\<lparr>ne_last_ext := Some m, ne_response_timer := t\<rparr>)))
          else if is_timer evt (ne_response_timer s) then ne_response_timeout_event env nd s
          else if is_api_teardown evt then ne_teardown_event nd s
          else Ok (nd, s))"

definition ne_process_event ::
  "natfw_env \<Rightarrow> session_id \<Rightarrow> natfw_event \<Rightarrow> node \<Rightarrow> nr_ext_session \<Rightarrow> (node \<times> nr_ext_session) result" where
  "ne_process_event env sid evt nd s =
     (case ne_state s of
        STATE_IDLE \<Rightarrow> ne_handle_state_idle env sid evt nd s
      | STATE_WAITRESP \<Rightarrow> ne_handle_state_waitresp env evt nd s
      | STATE_SESSION \<Rightarrow> ne_handle_state_session env evt nd s
      | STATE_FINAL \<Rightarrow> Ok (nd, s))"

section \<open>The forwarder inside the private network\<close>

definition no_handle_state_idle ::
  "natfw_env \<Rightarrow> natfw_event \<Rightarrow> node \<Rightarrow> nf_non_edge_ext_session \<Rightarrow> (node \<times> nf_non_edge_ext_session) result" where
  "no_handle_state_idle env evt nd s =
     (case event_msg Natfw_ext evt of
        Some (msg, ext) \<Rightarrow>
          bindR (get_msg_sequence_number ext) (\<lambda>msn.
            let lifetime = get_session_lifetime ext;
                s = s\<lparr>no_max_lifetime := nf_max_session_lifetime (nd_config nd),
                      no_timeout := nf_max_session_lifetime (nd_config nd)\<rparr>
            in case check_request lifetime (no_max_lifetime s) evt of
                 Some e \<Rightarrow> bindR (send_message (create_error_response e msg) nd) (\<lambda>nd. Ok (nd, s\<lparr>no_state := STATE_FINAL\<rparr>))
               | None \<Rightarrow>
                   if lifetime = 0 then Ok (nd, s\<lparr>no_state := STATE_FINAL\<rparr>)
                   else
                     bindR (send_message (copy_for_forwarding None msg) nd) (\<lambda>nd.
                       let (nd, t) = start_timer env nd
                       in Ok (nd, s\<lparr>no_lifetime := lifetime, no_msn := msn, no_last_ext := Some msg,
                            no_state_timer := t, no_state := STATE_WAITRESP\<rparr>)))
      | None \<Rightarrow> Ok (nd, s\<lparr>no_state := STATE_FINAL\<rparr>))"

definition no_last :: "nf_non_edge_ext_session \<Rightarrow> (ntlp_msg \<times> natfw_msg) result" where
  "no_last s =
     (case no_last_ext s of
        None \<Rightarrow> Fail Assertion
      | Some m \<Rightarrow> (case nt_msg m of Some b \<Rightarrow> Ok (m, b) | None \<Rightarrow> Fail Bad_access))"

definition no_handle_state_waitresp ::
  "natfw_env \<Rightarrow> natfw_event \<Rightarrow> node \<Rightarrow> nf_non_edge_ext_session \<Rightarrow> (node \<times> nf_non_edge_ext_session) result" where
  "no_handle_state_waitresp env evt nd s =
     (case event_msg Natfw_response evt of
        Some (msg, resp) \<Rightarrow>
          bindR (no_last s) (\<lambda>(m, ext).
          bindR (is_response_to resp ext) (\<lambda>answers.
            if \<not> answers then Ok (nd, s)
            else
              bindR (send_message (copy_for_forwarding None msg) nd) (\<lambda>nd.
                if is_success resp then
                  let (nd, t) = start_timer env nd in Ok (nd, s\<lparr>no_state_timer := t, no_state := STATE_SESSION\<rparr>)
                else Ok (nd, s\<lparr>no_state_timer := 0, no_state := STATE_FINAL\<rparr>))))
      | None \<Rightarrow>
          (case event_msg Natfw_ext evt of
             Some (msg, ext) \<Rightarrow>
               bindR (no_last s) (\<lambda>(m, previous).
                 if \<not> is_authorized evt then
                   bindR (send_message (create_response sc_permanent_failure fail_authentication_failed msg) nd) (\<lambda>nd. Ok (nd, s))
                 else
                   bindR (get_msg_sequence_number ext) (\<lambda>msn.
                   bindR (get_msg_sequence_number previous) (\<lambda>prev_msn.
                     if msn > prev_msn \<and> get_session_lifetime ext = 0 then
                       bindR (send_message (copy_for_forwarding None msg) nd) (\<lambda>nd.
                         Ok (nd, s\<lparr>no_state_timer := 0, no_state := STATE_FINAL\<rparr>))
                     else Ok (nd, s))))
           | None \<Rightarrow>
               if is_no_next_node_found_event evt \<or> is_timer evt (no_state_timer s) then
                 bindR (no_last s) (\<lambda>(m, b).
                 bindR (send_message (create_response sc_permanent_failure fail_nr_not_reached m) nd) (\<lambda>nd.
                   Ok (nd, s\<lparr>no_state := STATE_FINAL\<rparr>)))
               else Ok (nd, s)))"

definition no_session_ext ::
  "natfw_env \<Rightarrow> natfw_event \<Rightarrow> ntlp_msg \<Rightarrow> natfw_msg \<Rightarrow> node \<Rightarrow> nf_non_edge_ext_session \<Rightarrow> (node \<times> nf_non_edge_ext_session) result" where
  "no_session_ext env evt msg ext nd s =
     bindR (get_msg_sequence_number ext) (\<lambda>msn.
       let lifetime = get_session_lifetime ext
       in case check_request lifetime (no_max_lifetime s) evt of
            Some e \<Rightarrow> bindR (send_message (create_error_response e msg) nd) (\<lambda>nd. Ok (nd, s))
          | None \<Rightarrow>
              if \<not> is_greater_than msn (no_msn s) then Ok (nd, s)
              else if lifetime > 0 then
                bindR (send_message (copy_for_forwarding None msg) nd) (\<lambda>nd.
                  let (nd, t) = start_timer env nd
                  in Ok (nd, s\<lparr>no_lifetime := lifetime, no_msn := msn, no_last_ext := Some msg, no_response_timer := t\<rparr>))
              else
                bindR (send_message (copy_for_forwarding None msg) (release_external_address (no_ext_addr s) nd)) (\<lambda>nd.
                  Ok (nd, s\<lparr>no_response_timer := 0, no_state_timer := 0, no_state := STATE_FINAL\<rparr>)))"

definition no_handle_state_session ::
  "natfw_env \<Rightarrow> natfw_event \<Rightarrow> node \<Rightarrow> nf_non_edge_ext_session \<Rightarrow> (node \<times> nf_non_edge_ext_session) result" where
  "no_handle_state_session env evt nd s =
     (case event_msg Natfw_ext evt of
        Some (msg, ext) \<Rightarrow> no_session_ext env evt msg ext nd s
      | None \<Rightarrow>
          (case event_msg Natfw_response evt of
             Some (msg, resp) \<Rightarrow>
               bindR (no_last s) (\<lambda>(m, ext).
               bindR (is_response_to resp ext) (\<lambda>answers.
                 if \<not> answers then Ok (nd, s)
                 else
                   bindR (send_message (copy_for_forwarding None msg) nd) (\<lambda>nd.
                     if is_success resp then
                       let (nd, t) = start_timer env nd in Ok (nd, s\<lparr>no_state_timer := t\<rparr>)
                     else Ok (nd, s\<lparr>no_state := STATE_FINAL\<rparr>))))
           | None \<Rightarrow>
               if is_no_next_node_found_event evt \<or> is_timer evt (no_response_timer s) then
                 bindR (no_last s) (\<lambda>(m, b).
                 bindR (send_message (create_response sc_permanent_failure fail_nr_not_reached m) nd) (\<lambda>nd.
                   Ok (nd, s\<lparr>no_state_timer := 0, no_state := STATE_FINAL\<rparr>)))
               else if is_timer evt (no_state_timer s) then
                 Ok (release_external_address (no_ext_addr s) nd, s\<lparr>no_response_timer := 0, no_state := STATE_FINAL\<rparr>)
               else Ok (nd, s)))"

definition no_process_event ::
  "natfw_env \<Rightarrow> natfw_event \<Rightarrow> node \<Rightarrow> nf_non_edge_ext_session \<Rightarrow> (node \<times> nf_non_edge_ext_session) result" where
  "no_process_event env evt nd s =
     (case no_state s of
        STATE_IDLE \<Rightarrow> no_handle_state_idle env evt nd s
      | STATE_WAITRESP \<Rightarrow> no_handle_state_waitresp env evt nd s
      | STATE_SESSION \<Rightarrow> no_handle_state_session env evt nd s
      | STATE_FINAL \<Rightarrow> Ok (nd, s))"

section \<open>The forwarder at the edge\<close>

definition build_edge_device_response :: "session_id \<Rightarrow> ntlp_msg \<Rightarrow> natfw_msg \<Rightarrow> appladdress option \<Rightarrow>
    nf_edge_ext_session \<Rightarrow> ntlp_msg result" where
  "build_edge_device_response sid msg ext addr s =
     bindR (get_msg_sequence_number ext) (\<lambda>msn.
       let resp = (new_natfw_msg Natfw_response False)\<lparr>nm_msn := Some msn,
             nm_information_code := Some (sc_success, suc_successfully_processed, 2), nm_lifetime := Some (ed_lifetime s)\<rparr>
       in bindR (case addr of
                   None \<Rightarrow> Ok resp
                 | Some a \<Rightarrow> guardR (ipv4flag (ap_host a)) Assertion
                     (Ok (resp\<lparr>nm_external_address := Some (ap_host a, ap_port a)\<rparr>)))
            (\<lambda>resp. Ok \<lparr>nt_sid = sid, nt_mri = invertDirection (nt_mri msg), sii_handle = 0, nt_msg = Some resp\<rparr>))"

text \<open>The rule that denies a flow; the left result is the exception for a number of ports that is not supported.\<close>

definition build_fw_policy_rule :: "ntlp_msg \<Rightarrow> natfw_msg \<Rightarrow> (request_error + fw_policy_rule option) result" where
  "build_fw_policy_rule msg ext =
     (case nt_mri msg of
        Mri_pc m \<Rightarrow>
          if get_subsequent_ports ext \<noteq> 0 then Ok (Inl unsupported_rule)
          else guardR (get_rule_action ext = ra_deny) Assertion
            (Ok (Inr (Some \<lparr>fw_action = ACTION_DENY,
               fw_ds_addr = pc_sourceaddress m, fw_ds_prefix = pc_sourceprefix m, fw_ds_port = pc_sourceport m,
               fw_dr_addr = pc_destaddress m, fw_dr_prefix = pc_destprefix m, fw_dr_port = pc_destport m,
               fw_protocol = pc_protocol m\<rparr>)))
      | _ \<Rightarrow> Ok (Inr None))"

definition create_ni_session :: "natfw_env \<Rightarrow> node \<Rightarrow> (node \<times> session_id \<times> ni_session) result" where
  "create_ni_session env nd =
     bindR (create_unique_id (id_tries env) env nd) (\<lambda>(nd, sid).
       let (nd, s) = new_ni_session env nd in Ok (put_session sid (NI_session s) nd, sid, s))"

definition create_ni_proxy_session ::
  "natfw_env \<Rightarrow> api_create_event \<Rightarrow> u32 \<Rightarrow> node \<Rightarrow> (node \<times> session_id) result" where
  "create_ni_proxy_session env e nonce nd =
     bindR (create_ni_session env nd) (\<lambda>(nd, sid, s).
     bindR (ni_process_event env sid (Api_create_event e) nd (s\<lparr>ni_nonce := nonce, ni_proxy_session := True\<rparr>)) (\<lambda>(nd, s).
       Ok (put_session sid (NI_session s) nd, sid)))"

definition tg_create_proxy ::
  "natfw_env \<Rightarrow> ntlp_msg \<Rightarrow> natfw_msg \<Rightarrow> node \<Rightarrow> nf_edge_ext_session \<Rightarrow> (node \<times> nf_edge_ext_session \<times> bool) result" where
  "tg_create_proxy env msg ext nd s =
     (case nt_mri msg of
        Mri_pc m \<Rightarrow>
          bindR (create_ni_proxy_session env
              \<lparr>ac_source = pc_sourceaddress m, ac_source_port = pc_sourceport m, ac_dest = pc_destaddress m,
               ac_dest_port = pc_destport m, ac_protocol = pc_protocol m, ac_icmp_types = [],
               ac_lifetime = ed_lifetime s, ac_proxy = False, ac_return_queue = False\<rparr> (get_nonce ext) nd) (\<lambda>(nd, sid).
            let nat_rule = (if is_nf_nat (nd_config nd) then Some
                  \<lparr>nat_ds_addr = pc_sourceaddress m, nat_ds_port = pc_sourceport m,
                   nat_ext_addr = ap_host (ed_ext_addr s), nat_ext_port = ap_port (ed_ext_addr s),
                   nat_dr_addr = pc_destaddress m, nat_dr_port = pc_destport m, nat_protocol = pc_protocol m,
                   nat_rule_type = TYPE_DEST_NAT\<rparr> else None);
                fw_rule = (if is_nf_firewall (nd_config nd) then Some
                  \<lparr>fw_action = ACTION_ALLOW,
                   fw_ds_addr = pc_sourceaddress m, fw_ds_prefix = pc_sourceprefix m, fw_ds_port = pc_sourceport m,
                   fw_dr_addr = pc_destaddress m, fw_dr_prefix = pc_destprefix m, fw_dr_port = pc_destport m,
                   fw_protocol = pc_protocol m\<rparr> else None);
                s = s\<lparr>proxy_session_id := sid, ed_nat_rule := nat_rule, ed_fw_rule := fw_rule\<rparr>;
                (nd, thrown) = install_policy_rules env nat_rule fw_rule nd
            in Ok (nd, s, thrown))
      | _ \<Rightarrow> Fail Assertion)"

text \<open>The teardown of the proxy session is an event for the dispatcher, which is an argument here.\<close>

definition tg_teardown_proxy :: "(session_id \<Rightarrow> node \<Rightarrow> node result) \<Rightarrow>
    natfw_env \<Rightarrow> node \<Rightarrow> nf_edge_ext_session \<Rightarrow> (node \<times> nf_edge_ext_session \<times> bool) result" where
  "tg_teardown_proxy teardown env nd s =
     bindR (teardown (proxy_session_id s) nd) (\<lambda>nd.
       let (nd, thrown) = remove_policy_rules env (ed_nat_rule s) (ed_fw_rule s) nd in Ok (nd, s, thrown))"

definition ed_answer :: "natfw_env \<Rightarrow> session_id \<Rightarrow> ntlp_msg \<Rightarrow> natfw_msg \<Rightarrow> appladdress option \<Rightarrow>
    node \<Rightarrow> nf_edge_ext_session \<Rightarrow> (node \<times> nf_edge_ext_session \<times> bool) result" where
  "ed_answer env sid msg ext addr nd s =
     bindR (build_edge_device_response sid msg ext addr s) (\<lambda>resp.
     bindR (send_message resp nd) (\<lambda>nd.
       let (nd, t) = start_timer env nd;
           s = s\<lparr>ed_state_timer := t\<rparr>
       in bindR (if ed_proxy_mode s then tg_create_proxy env msg ext nd s else Ok (nd, s, False)) (\<lambda>(nd, s, thrown).
            Ok (nd, if thrown then s else s\<lparr>ed_state := STATE_SESSION\<rparr>, thrown))))"

text \<open>A NAT reserves an address first, and names it in its answer.\<close>

definition ed_setup ::
  "natfw_env \<Rightarrow> session_id \<Rightarrow> ntlp_msg \<Rightarrow> natfw_msg \<Rightarrow> node \<Rightarrow> nf_edge_ext_session \<Rightarrow> (node \<times> nf_edge_ext_session \<times> bool) result" where
  "ed_setup env sid msg ext nd s =
     (if is_nf_nat (nd_config nd) then
        bindR (get_nr_address msg) (\<lambda>a.
          case a of
            Inl _ \<Rightarrow> Ok (nd, s, True)
          | Inr priv_addr \<Rightarrow>
              (case reserve_external_address priv_addr nd of
                 (nd, Inl e) \<Rightarrow>
                   bindR (send_message (create_error_response e msg) nd) (\<lambda>nd. Ok (nd, s\<lparr>ed_state := STATE_FINAL\<rparr>, False))
               | (nd, Inr addr) \<Rightarrow> ed_answer env sid msg ext (Some addr) nd (s\<lparr>ed_ext_addr := addr\<rparr>)))
      else ed_answer env sid msg ext None nd s)"

definition ed_handle_state_idle ::
  "natfw_env \<Rightarrow> session_id \<Rightarrow> natfw_event \<Rightarrow> node \<Rightarrow> nf_edge_ext_session \<Rightarrow> (node \<times> nf_edge_ext_session \<times> bool) result" where
  "ed_handle_state_idle env sid evt nd s =
     (case event_msg Natfw_ext evt of
        Some (msg, ext) \<Rightarrow>
          bindR (get_msg_sequence_number ext) (\<lambda>msn.
            let lifetime = get_session_lifetime ext
            in case check_request lifetime (ed_max_lifetime s) evt of
                 Some e \<Rightarrow>
                   bindR (send_message (create_error_response e msg) nd) (\<lambda>nd. Ok (nd, s\<lparr>ed_state := STATE_FINAL\<rparr>, False))
               | None \<Rightarrow>
                   if \<not> is_from_private_side (nd_config nd) (get_destaddress (nt_mri msg)) then
                     Ok (nd, s\<lparr>ed_state := STATE_FINAL\<rparr>, False)
                   else if lifetime = 0 then Ok (nd, s\<lparr>ed_state := STATE_FINAL\<rparr>, False)
                   else
                     let s = s\<lparr>ed_lifetime := lifetime, ed_msn := msn, ed_proxy_mode := proxy_mode_flag ext\<rparr>
                     in if is_nf_firewall (nd_config nd) \<and> get_rule_action ext = ra_deny then
                          bindR (build_fw_policy_rule msg ext) (\<lambda>r.
                            case r of
                              Inl _ \<Rightarrow> Ok (nd, s, True)
                            | Inr rule \<Rightarrow>
                                (case install_policy_rules env None rule nd of
                                   (nd, True) \<Rightarrow> Ok (nd, s, True)
                                 | (nd, False) \<Rightarrow> ed_setup env sid msg ext nd s))
                        else ed_setup env sid msg ext nd s)
      | None \<Rightarrow> Ok (nd, s\<lparr>ed_state := STATE_FINAL\<rparr>, False))"

definition ed_close :: "(session_id \<Rightarrow> node \<Rightarrow> node result) \<Rightarrow>
    natfw_env \<Rightarrow> node \<Rightarrow> nf_edge_ext_session \<Rightarrow> (node \<times> nf_edge_ext_session \<times> bool) result" where
  "ed_close teardown env nd s =
     (let nd = release_external_address (ed_ext_addr s) nd
      in bindR (if ed_proxy_mode s then tg_teardown_proxy teardown env nd s else Ok (nd, s, False)) (\<lambda>(nd, s, thrown).
           Ok (nd, if thrown then s else s\<lparr>ed_state := STATE_FINAL\<rparr>, thrown)))"

definition ed_handle_state_session :: "(session_id \<Rightarrow> node \<Rightarrow> node result) \<Rightarrow>
    natfw_env \<Rightarrow> natfw_event \<Rightarrow> node \<Rightarrow> nf_edge_ext_session \<Rightarrow> (node \<times> nf_edge_ext_session \<times> bool) result" where
  "ed_handle_state_session teardown env evt nd s =
     (case event_msg Natfw_ext evt of
        Some (msg, ext) \<Rightarrow>
          bindR (get_msg_sequence_number ext) (\<lambda>msn.
            let lifetime = get_session_lifetime ext
            in case check_request lifetime (ed_max_lifetime s) evt of
                 Some e \<Rightarrow> bindR (send_message (create_error_response e msg) nd) (\<lambda>nd. Ok (nd, s, False))
               | None \<Rightarrow>
                   if \<not> is_greater_than msn (ed_msn s) then Ok (nd, s, False)
                   else if lifetime > 0 then
                     bindR (send_message (create_success_response lifetime msg) nd) (\<lambda>nd.
                       let (nd, t) = start_timer env nd
                       in Ok (nd, s\<lparr>ed_lifetime := lifetime, ed_msn := msn, ed_state_timer := t\<rparr>, False))
                   else ed_close teardown env nd s)
      | None \<Rightarrow>
          if is_timer evt (ed_state_timer s) then ed_close teardown env nd s else Ok (nd, s, False))"

definition ed_process_event :: "(session_id \<Rightarrow> node \<Rightarrow> node result) \<Rightarrow>
    natfw_env \<Rightarrow> session_id \<Rightarrow> natfw_event \<Rightarrow> node \<Rightarrow> nf_edge_ext_session \<Rightarrow> (node \<times> nf_edge_ext_session \<times> bool) result" where
  "ed_process_event teardown env sid evt nd s =
     (case ed_state s of
        STATE_IDLE \<Rightarrow> ed_handle_state_idle env sid evt nd s
      | STATE_SESSION \<Rightarrow> ed_handle_state_session teardown env evt nd s
      | STATE_FINAL \<Rightarrow> Ok (nd, s, False)
      | STATE_WAITRESP \<Rightarrow> Fail Assertion)"

section \<open>The dispatcher\<close>

definition create_session :: "natfw_env \<Rightarrow> natfw_event \<Rightarrow> node \<Rightarrow> (node \<times> (session_id \<times> natfw_session) option) result" where
  "create_session env evt nd =
     (case evt of
        Api_create_event _ \<Rightarrow>
          bindR (create_ni_session env nd) (\<lambda>(nd, sid, s). Ok (nd, Some (sid, NI_session s)))
      | Api_ext_event _ \<Rightarrow>
          bindR (create_unique_id (id_tries env) env nd) (\<lambda>(nd, sid).
            let (nd, s) = new_nr_ext_session env nd
            in Ok (put_session sid (NR_ext_session s) nd, Some (sid, NR_ext_session s)))
      | Msg_event sid _ for_this_node \<Rightarrow>
          let config = nd_config nd
          in if is_natfw_create evt then
               let s = (if for_this_node \<and> \<not> is_nf_nat config then NR_session (new_nr_session config) else NF_session new_nf_session)
               in Ok (put_session sid s nd, Some (sid, s))
             else if is_natfw_ext evt \<and> (is_nf_nat config \<or> is_nf_firewall config) then
               let s = (if is_nf_edge_node config then NF_edge_session new_nf_edge_ext_session
                        else NF_non_edge_session new_nf_non_edge_ext_session)
               in Ok (put_session sid s nd, Some (sid, s))
             else Ok (nd, None)
      | _ \<Rightarrow> Ok (nd, None))"

text \<open>\<open>session::process\<close>: the method of the class of the session.\<close>

primrec session_process :: "(session_id \<Rightarrow> node \<Rightarrow> node result) \<Rightarrow>
    natfw_env \<Rightarrow> session_id \<Rightarrow> natfw_event \<Rightarrow> node \<Rightarrow> natfw_session \<Rightarrow> (node \<times> natfw_session \<times> bool) result" where
  "session_process teardown env sid evt nd (NI_session s) =
     mapR (\<lambda>(nd, s). (nd, NI_session s, False)) (ni_process_event env sid evt nd s)"
| "session_process teardown env sid evt nd (NR_session s) =
     mapR (\<lambda>(nd, s). (nd, NR_session s, False)) (nr_process_event env evt nd s)"
| "session_process teardown env sid evt nd (NF_session s) =
     mapR (\<lambda>(nd, s, thrown). (nd, NF_session s, thrown)) (nf_process_event env evt nd s)"
| "session_process teardown env sid evt nd (NR_ext_session s) =
     mapR (\<lambda>(nd, s). (nd, NR_ext_session s, False)) (ne_process_event env sid evt nd s)"
| "session_process teardown env sid evt nd (NF_edge_session s) =
     mapR (\<lambda>(nd, s, thrown). (nd, NF_edge_session s, thrown)) (ed_process_event teardown env sid evt nd s)"
| "session_process teardown env sid evt nd (NF_non_edge_session s) =
     mapR (\<lambda>(nd, s). (nd, NF_non_edge_session s, False)) (no_process_event env evt nd s)"

definition process_with :: "(session_id \<Rightarrow> node \<Rightarrow> node result) \<Rightarrow> natfw_env \<Rightarrow> natfw_event \<Rightarrow> node \<Rightarrow> node result" where
  "process_with teardown env evt nd =
     (case evt of
        Routing_state_check_event sid m \<Rightarrow> Ok (nd\<lparr>query_answers := query_answers nd @ [(sid, m)]\<rparr>)
      | _ \<Rightarrow>
          if is_invalid_natfw_msg evt then
            case evt of Msg_event _ msg _ \<Rightarrow> send_message (create_response sc_protocol_error 0 msg) nd | _ \<Rightarrow> Ok nd
          else
            bindR (case get_session_id evt of
                     Some sid \<Rightarrow>
                       (case get_session sid nd of Some s \<Rightarrow> Ok (nd, Some (sid, s)) | None \<Rightarrow> create_session env evt nd)
                   | None \<Rightarrow> create_session env evt nd) (\<lambda>(nd, found).
              case found of
                None \<Rightarrow> Ok nd
              | Some (sid, s) \<Rightarrow>
                  bindR (session_process teardown env sid evt nd s) (\<lambda>(nd, s, thrown).
                    Ok (if thrown \<or> is_final s then remove_session sid nd else put_session sid s nd))))"

text \<open>
  The call from within \<open>tg_teardown_proxy\<close> handles a teardown event, in which no session calls the
  dispatcher again.
\<close>

definition process_teardown :: "natfw_env \<Rightarrow> session_id \<Rightarrow> node \<Rightarrow> node result" where
  "process_teardown env sid nd = process_with (\<lambda>_ _. Fail No_return) env (Api_teardown_event sid) nd"

definition process :: "natfw_env \<Rightarrow> natfw_event \<Rightarrow> node \<Rightarrow> node result" where
  "process env evt nd = process_with (process_teardown env) env evt nd"

end
