(* ===== verification/NF_Inv.thy ===== *)
theory NF_Inv
  imports NF_Ext
begin

text \<open>
  The invariant of a node of the NAT/firewall daemon and that no event that carries a complete message makes
  one of its sessions violate an assertion or follow a null pointer.
\<close>

section \<open>Results that are not aborts\<close>

text \<open>The value, if there is one, has the property, and otherwise the computation is one that did not end.\<close>

definition safeR :: "('a \<Rightarrow> bool) \<Rightarrow> 'a result \<Rightarrow> bool" where
  "safeR P r \<longleftrightarrow> (case r of Ok x \<Rightarrow> P x | Fail f \<Rightarrow> f = No_return)"

lemma safeR_simps [simp]:
  "safeR P (Ok x) \<longleftrightarrow> P x" "safeR P (Fail f) \<longleftrightarrow> f = No_return"
  by (simp_all add: safeR_def)

lemma safeR_bindR [simp]: "safeR P (bindR m f) \<longleftrightarrow> safeR (\<lambda>x. safeR P (f x)) m"
  by (cases m) simp_all

lemma safeR_guardR [simp]: "safeR P (guardR c f m) \<longleftrightarrow> (if c then safeR P m else f = No_return)"
  by (simp add: guardR_def)

lemma safeR_mapR [simp]: "safeR P (mapR f m) \<longleftrightarrow> safeR (\<lambda>x. P (f x)) m"
  by (cases m) simp_all

lemma safeR_mono: "safeR P m \<Longrightarrow> (\<And>x. P x \<Longrightarrow> Q x) \<Longrightarrow> safeR Q m"
  by (cases m) simp_all

lemma safeR_Ok: "safeR P m \<Longrightarrow> m = Ok x \<Longrightarrow> P x"
  by simp

section \<open>Messages that can be sent\<close>

definition usable :: "ntlp_msg \<Rightarrow> bool" where
  "usable m \<longleftrightarrow> (case nt_msg m of Some b \<Rightarrow> nm_msn b \<noteq> None \<and> natfw_msg_check b | None \<Rightarrow> False)"

definition stored :: "ntlp_msg option \<Rightarrow> bool" where
  "stored m \<longleftrightarrow> (case m of Some m \<Rightarrow> usable m | None \<Rightarrow> False)"

definition sendable :: "ntlp_msg \<Rightarrow> bool" where
  "sendable m \<longleftrightarrow> (case nt_msg m of Some b \<Rightarrow> natfw_msg_check b | None \<Rightarrow> False)"

definition error_ok :: "request_error \<Rightarrow> bool" where
  "error_ok e \<longleftrightarrow> re_severity e AND 0xF0 = 0"

lemma safeR_send_message [simp]:
  "safeR P (send_message m nd) \<longleftrightarrow> sendable m \<and> P (nd\<lparr>sent := sent nd @ [m]\<rparr>)"
  by (simp add: send_message_def sendable_def split: option.splits)

lemma usable_sendable [simp]: "usable m \<Longrightarrow> sendable m"
  by (simp add: usable_def sendable_def split: option.splits)

lemma usable_forward [simp]:
  "usable (copy_for_forwarding r m) \<longleftrightarrow> usable m" "sendable (copy_for_forwarding r m) \<longleftrightarrow> sendable m"
  by (simp_all add: usable_def sendable_def copy_for_forwarding_def)

lemma response_sendable: "s AND 0xF0 = 0 \<Longrightarrow> sendable (create_response s c m)"
  by (simp add: sendable_def create_response_def natfw_msg_check_def natfw_msg_empty_def new_natfw_msg_def
      check_information_code_def)

lemma failure_response_sendable [simp]:
  "sendable (create_response 5 c m)" "sendable (create_response 3 c m)" "error_ok e \<Longrightarrow> sendable (create_error_response e m)"
  by (simp_all add: response_sendable create_error_response_def error_ok_def)

lemma success_response_sendable [simp]: "sendable (create_success_response l m)"
  by (simp add: sendable_def create_success_response_def create_response_def natfw_msg_check_def natfw_msg_empty_def
      new_natfw_msg_def check_information_code_def)

lemma check_request_error [simp]: "check_request l mx evt = Some e \<Longrightarrow> error_ok e"
  by (auto simp: check_request_def check_lifetime_def check_authorization_def is_authorized_def error_ok_def split: if_splits)

lemma check_authorization_None [simp]: "check_authorization evt = None"
  by (simp add: check_authorization_def is_authorized_def)

lemma pool_error [simp]:
  "reserve_external_address a nd = (nd', Inl e) \<Longrightarrow> error_ok e"
  "lookup_private_address a nd = Inl e \<Longrightarrow> error_ok e" "error_ok unsupported_rule"
  by (auto simp: reserve_external_address_def lookup_private_address_def error_ok_def unsupported_rule_def Let_def
      split: list.splits option.splits)

section \<open>Events that carry complete messages\<close>

text \<open>A lifetime for which the refresh interval is a positive number of 32 bits, whatever the number of retries.\<close>

definition lifetime_ok :: "u32 \<Rightarrow> bool" where
  "lifetime_ok l \<longleftrightarrow> l \<noteq> 0 \<and> l < 3221225472"

text \<open>
  A message that could be parsed has a sequence number and passes the check of its objects, a CREATE is
  routed along the data path, as is an EXT that asks for a proxy. A user names a lifetime in range, and a protocol when the address of the
  peer is not known.
\<close>

definition event_ok :: "natfw_event \<Rightarrow> bool" where
  "event_ok evt \<longleftrightarrow>
     (case evt of
        Msg_event sid m _ \<Rightarrow>
          (case nt_msg m of
             None \<Rightarrow> True
           | Some b \<Rightarrow> usable m \<and>
               (nm_class b = Natfw_create \<longrightarrow> (case nt_mri m of Mri_pc p \<Rightarrow> pc_downstream p | _ \<Rightarrow> False)) \<and>
               (nm_class b = Natfw_ext \<and> proxy_mode_flag b \<longrightarrow> (case nt_mri m of Mri_pc p \<Rightarrow> True | _ \<Rightarrow> False)))
      | Api_create_event e \<Rightarrow> lifetime_ok (ac_lifetime e)
      | Api_ext_event e \<Rightarrow> lifetime_ok (ae_lifetime e) \<and> (ae_ni_known e \<or> ae_protocol e \<noteq> 0)
      | _ \<Rightarrow> True)"

lemma event_msg_Some:
  "event_msg c evt = Some (m, b) \<longleftrightarrow> (\<exists>sid f. evt = Msg_event sid m f) \<and> nt_msg m = Some b \<and> nm_class b = c"
  by (auto simp: event_msg_def split: natfw_event.splits option.splits if_splits)

lemma event_ok_msg:
  assumes "event_ok evt" "event_msg c evt = Some (m, b)"
  shows "nt_msg m = Some b" "nm_msn b \<noteq> None" "usable m" "nm_class b = c"
    "c = Natfw_create \<Longrightarrow> \<exists>p. nt_mri m = Mri_pc p \<and> pc_downstream p"
    "c = Natfw_ext \<Longrightarrow> proxy_mode_flag b \<Longrightarrow> \<exists>p. nt_mri m = Mri_pc p"
  using assms by (auto simp: event_msg_Some event_ok_def usable_def split: mri.splits)

section \<open>The invariant\<close>

primrec session_ok :: "natfw_config \<Rightarrow> natfw_session \<Rightarrow> bool" where
  "session_ok config (NI_session s) \<longleftrightarrow> ni_icmp_types s = [] \<and>
     (ni_state s \<in> {STATE_WAITRESP, STATE_SESSION} \<longrightarrow> ni_mri s \<noteq> None \<and> stored (ni_last_create s))"
| "session_ok config (NR_session s) \<longleftrightarrow> nr_state s \<noteq> STATE_WAITRESP"
| "session_ok config (NF_session s) \<longleftrightarrow>
     (\<not> is_nf_nat config \<longrightarrow> nf_nat_rule s = None) \<and> (nf_state s = STATE_IDLE \<longrightarrow> nf_ext_addr s = None) \<and>
     (nf_state s \<in> {STATE_WAITRESP, STATE_SESSION} \<longrightarrow> stored (nf_create_message s) \<and>
        (is_nf_nat config \<longrightarrow> ni_side_mri s \<noteq> None \<and> nr_side_mri s \<noteq> None))"
| "session_ok config (NR_ext_session s) \<longleftrightarrow>
     (ne_state s \<in> {STATE_WAITRESP, STATE_SESSION} \<longrightarrow> stored (ext_template s) \<and> stored (ne_last_ext s))"
| "session_ok config (NF_edge_session s) \<longleftrightarrow> ed_state s \<noteq> STATE_WAITRESP \<and> ed_max_lifetime s = 60"
| "session_ok config (NF_non_edge_session s) \<longleftrightarrow> \<not> is_nf_edge_node config \<and>
     (no_state s \<in> {STATE_WAITRESP, STATE_SESSION} \<longrightarrow> stored (no_last_ext s))"

definition nat_address_ok :: "node \<Rightarrow> bool" where
  "nat_address_ok nd \<longleftrightarrow> (is_nf_nat (nd_config nd) \<longrightarrow>
     ipv4flag (nat_address nd) \<and> \<not> hostaddress_eq (nat_address nd) hostaddress_default)"

definition node_ok :: "node \<Rightarrow> bool" where
  "node_ok nd \<longleftrightarrow> nat_address_ok nd \<and>
     (\<forall>sid s. session_table nd sid = Some s \<longrightarrow> session_ok (nd_config nd) s \<and> \<not> is_final s)"

text \<open>What handlers of one session leave alone.\<close>

definition frame :: "node \<Rightarrow> node \<Rightarrow> bool" where
  "frame nd nd' \<longleftrightarrow> session_table nd' = session_table nd \<and> nd_config nd' = nd_config nd \<and> nat_address nd' = nat_address nd"

lemma frame_refl [simp]: "frame nd nd"
  by (simp add: frame_def)

lemma frame_trans: "frame a b \<Longrightarrow> frame b c \<Longrightarrow> frame a c"
  by (simp add: frame_def)

lemma frame_updates [simp]:
  "frame nd (nd'\<lparr>sent := x\<rparr>) \<longleftrightarrow> frame nd nd'" "frame nd (nd'\<lparr>n_timers := t\<rparr>) \<longleftrightarrow> frame nd nd'"
  "frame nd (nd'\<lparr>n_random := t\<rparr>) \<longleftrightarrow> frame nd nd'" "frame nd (nd'\<lparr>returned_ids := r\<rparr>) \<longleftrightarrow> frame nd nd'"
  "frame nd (nd'\<lparr>rule_calls := c\<rparr>) \<longleftrightarrow> frame nd nd'"
  "frame nd (nd'\<lparr>available := a\<rparr>) \<longleftrightarrow> frame nd nd'" "frame nd (nd'\<lparr>external_to_private := e\<rparr>) \<longleftrightarrow> frame nd nd'"
  by (simp_all add: frame_def)

lemmas node_op_defs = start_timer_def random_number_def Let_def

lemma get_msn_safe: "nm_msn b = Some n \<Longrightarrow> get_msg_sequence_number b = Ok n"
  by (simp add: get_msg_sequence_number_def)

lemma storedE:
  assumes "stored m"
  obtains x b n where "m = Some x" "nt_msg x = Some b" "nm_msn b = Some n" "natfw_msg_check b" "usable x"
  using assms by (auto simp: stored_def usable_def split: option.splits)

lemma stored_Some [simp]: "stored (Some m) \<longleftrightarrow> usable m" "\<not> stored None"
  by (simp_all add: stored_def)

section \<open>The initiator and the responder\<close>

lemma refresh_interval_pos:
  assumes "lifetime_ok lifetime"
  shows "refresh_interval lifetime n > 0"
proof -
  define d where "d = 3 * (2 * unat n + 1)"
  define q where "q = (4 * unat lifetime + d - 1) div d"
  have l: "0 < unat lifetime" "unat lifetime < 3 * 2 ^ 30"
    using assms by (simp_all add: lifetime_ok_def unat_gt_0 word_less_nat_alt)
  have d: "3 \<le> d" by (simp add: d_def)
  have "d \<le> 4 * unat lifetime + d - 1" using l d by simp
  then have "0 < q" using d by (simp add: q_def div_greater_zero_iff)
  moreover have "q < 2 ^ 32"
  proof -
    have "4 * unat lifetime + d - 1 < 2 ^ 32 * d" using l d by simp
    then show ?thesis by (simp add: q_def less_mult_imp_div_less)
  qed
  ultimately have "unat (of_nat q :: u32) = q" by (simp add: unsigned_of_nat take_bit_nat_eq_self)
  then have "unat (of_nat q :: u32) \<noteq> unat (0 :: u32)" using \<open>0 < q\<close> by simp
  then have "(of_nat q :: u32) \<noteq> 0" by metis
  then show ?thesis by (simp add: refresh_interval_def q_def d_def Let_def word_neq_0_conv)
qed

lemma build_create_safe:
  assumes "ni_mri s \<noteq> None" "ni_icmp_types s = []"
  shows "safeR (\<lambda>(s', m). usable m \<and> s' = s\<lparr>ni_msn := ni_msn s + 1\<rparr>) (build_create_message sid s)"
  using assms by (auto simp: build_create_message_def usable_def new_natfw_msg_def natfw_msg_check_def natfw_msg_empty_def
      check_extended_flow_info_def Let_def)

lemma build_create_Ok:
  assumes "ni_mri s \<noteq> None" "ni_icmp_types s = []"
  obtains m where "build_create_message sid s = Ok (s\<lparr>ni_msn := ni_msn s + 1\<rparr>, m)" "usable m"
  using build_create_safe [OF assms, of sid] by (cases "build_create_message sid s") (auto simp: build_create_message_def Let_def split: option.splits)

lemma ni_idle_safe:
  assumes "event_ok evt" "ni_icmp_types s = []"
  shows "safeR (\<lambda>(nd', s'). frame nd nd' \<and> session_ok config (NI_session s')) (ni_handle_state_idle env sid evt nd s)"
proof (cases evt)
  case (Api_create_event e)
  then have l: "lifetime_ok (ac_lifetime e)" "ac_lifetime e \<noteq> 0" using assms by (simp_all add: event_ok_def lifetime_ok_def)
  define s1 where "s1 = s\<lparr>ni_mri := Some (Mri_pc \<lparr>pc_sourceaddress = ac_source e, pc_sourceprefix = 32, pc_sourceport = ac_source_port e,
               pc_destaddress = ac_dest e, pc_destprefix = 32, pc_destport = ac_dest_port e,
               pc_protocol = ac_protocol e, pc_flowlabel = 0, pc_ds_field = 0, pc_spi = 0, pc_downstream = True\<rparr>),
      ni_lifetime := ac_lifetime e, ni_refresh_interval := refresh_interval (ac_lifetime e) (ni_retries s),
      ni_timeout := draw_timeout env (n_random nd) (refresh_interval (ac_lifetime e) (ni_retries s)), ni_proxy_mode := ac_proxy e\<rparr>"
  have "ni_setup_session env e s nd = Ok (nd\<lparr>n_random := n_random nd + 1\<rparr>, s1)"
    using l refresh_interval_pos [OF l(1)] by (simp add: ni_setup_session_def Let_def s1_def)
  moreover obtain m where "build_create_message sid s1 = Ok (s1\<lparr>ni_msn := ni_msn s1 + 1\<rparr>, m)" "usable m"
    by (rule build_create_Ok [of s1 sid]) (simp_all add: s1_def assms)
  ultimately show ?thesis using Api_create_event assms
    by (simp add: ni_handle_state_idle_def node_op_defs s1_def)
qed (use assms in \<open>simp_all add: ni_handle_state_idle_def\<close>)

lemma ni_parts_safe:
  assumes ok: "session_ok config (NI_session s)" and st: "ni_state s \<in> {STATE_WAITRESP, STATE_SESSION}"
  shows "safeR (\<lambda>(nd', s'). frame nd nd' \<and> session_ok config (NI_session s')) (ni_response_timeout_event env nd s)"
    and "nm_msn resp \<noteq> None \<Longrightarrow>
      safeR (\<lambda>(nd', s'). frame nd nd' \<and> session_ok config (NI_session s')) (ni_response_event env resp nd s)"
    and "safeR (\<lambda>(nd', s'). frame nd nd' \<and> session_ok config (NI_session s')) (ni_teardown_event sid nd s)"
proof -
  have so: "stored (ni_last_create s)" and mr: "ni_mri s \<noteq> None" and ic: "ni_icmp_types s = []" using ok st by auto
  obtain m b n where m: "ni_last_create s = Some m" "nt_msg m = Some b" "nm_msn b = Some n" "usable m"
    using so by (rule storedE)
  have last: "ni_last s = Ok (m, b)" by (simp add: ni_last_def m)
  show "safeR (\<lambda>(nd', s'). frame nd nd' \<and> session_ok config (NI_session s')) (ni_response_timeout_event env nd s)"
    using ok m by (auto simp: ni_response_timeout_event_def last node_op_defs)
  show "safeR (\<lambda>(nd', s'). frame nd nd' \<and> session_ok config (NI_session s')) (ni_response_event env resp nd s)"
    if "nm_msn resp \<noteq> None"
    using that ok m mr ic by (auto simp: ni_response_event_def last is_response_to_def get_msn_safe node_op_defs)
  define s1 where "s1 = s\<lparr>ni_lifetime := 0, ni_last_create := None\<rparr>"
  obtain x where "build_create_message sid s1 = Ok (s1\<lparr>ni_msn := ni_msn s1 + 1\<rparr>, x)" "usable x"
    by (rule build_create_Ok [of s1 sid]) (use mr ic in \<open>simp_all add: s1_def\<close>)
  then show "safeR (\<lambda>(nd', s'). frame nd nd' \<and> session_ok config (NI_session s')) (ni_teardown_event sid nd s)"
    using ic by (simp add: ni_teardown_event_def s1_def)
qed

lemma ni_safe:
  assumes ev: "event_ok evt" and ok: "session_ok config (NI_session s)"
  shows "safeR (\<lambda>(nd', s'). frame nd nd' \<and> session_ok config (NI_session s')) (ni_process_event env sid evt nd s)"
proof (cases "ni_state s")
  case STATE_IDLE
  then show ?thesis using ni_idle_safe [OF ev, of s nd config env sid] ok by (simp add: ni_process_event_def)
next
  case STATE_WAITRESP
  then have st: "ni_state s \<in> {STATE_WAITRESP, STATE_SESSION}" by simp
  note parts = ni_parts_safe [OF ok st]
  show ?thesis
  proof (cases "event_msg Natfw_response evt")
    case None
    then show ?thesis using parts(1,3) ok STATE_WAITRESP by (simp add: ni_process_event_def ni_handle_state_waitresp_def)
  next
    case (Some p)
    then obtain m b where "event_msg Natfw_response evt = Some (m, b)" by (cases p) simp
    moreover have "nm_msn b \<noteq> None" using event_ok_msg(2) [OF ev calculation] .
    ultimately show ?thesis using parts(2) STATE_WAITRESP by (simp add: ni_process_event_def ni_handle_state_waitresp_def)
  qed
next
  case STATE_SESSION
  then have st: "ni_state s \<in> {STATE_WAITRESP, STATE_SESSION}" by simp
  note parts = ni_parts_safe [OF ok st]
  have so: "stored (ni_last_create s)" and mr: "ni_mri s \<noteq> None" and ic: "ni_icmp_types s = []" using ok st by auto
  obtain m b n where m: "ni_last_create s = Some m" "nt_msg m = Some b" "nm_msn b = Some n" "usable m"
    using so by (rule storedE)
  have last: "ni_last s = Ok (m, b)" by (simp add: ni_last_def m)
  obtain x where x: "build_create_message sid s = Ok (s\<lparr>ni_msn := ni_msn s + 1\<rparr>, x)" "usable x"
    using mr ic by (rule build_create_Ok)
  show ?thesis
  proof (cases "if is_natfw_response evt m then event_msg Natfw_response evt else None")
    case None
    then show ?thesis using parts(1,3) ok STATE_SESSION x
      by (simp add: ni_process_event_def ni_handle_state_session_def last node_op_defs)
  next
    case (Some p)
    then obtain m' r where p: "p = (m', r)" "event_msg Natfw_response evt = Some (m', r)" by (cases p) (auto split: if_splits)
    moreover have "nm_msn r \<noteq> None" using event_ok_msg(2) [OF ev p(2)] .
    ultimately show ?thesis using parts(2) STATE_SESSION Some by (simp add: ni_process_event_def ni_handle_state_session_def last)
  qed
next
  case STATE_FINAL
  then show ?thesis using ok by (simp add: ni_process_event_def)
qed

lemma nr_safe:
  assumes ev: "event_ok evt" and ok: "session_ok config (NR_session s)"
  shows "safeR (\<lambda>(nd', s'). frame nd nd' \<and> session_ok config (NR_session s')) (nr_process_event env evt nd s)"
proof (cases "event_msg Natfw_create evt")
  case None
  then show ?thesis using ok
    by (cases "nr_state s") (simp_all add: nr_process_event_def nr_handle_state_idle_def nr_handle_state_session_def)
next
  case (Some p)
  then obtain m b where p: "event_msg Natfw_create evt = Some (m, b)" by (cases p) simp
  then obtain n where "nm_msn b = Some n" using event_ok_msg(2) [OF ev p] by auto
  then show ?thesis using ok p
    by (cases "nr_state s") (auto simp: nr_process_event_def nr_handle_state_idle_def nr_handle_state_session_def
        get_msn_safe node_op_defs split: option.splits)
qed

section \<open>The forwarder of a CREATE session\<close>

definition nf_post :: "natfw_config \<Rightarrow> node \<Rightarrow> node \<times> nf_session \<times> bool \<Rightarrow> bool" where
  "nf_post config nd r \<longleftrightarrow> (case r of (nd', s', thrown) \<Rightarrow> frame nd nd' \<and> session_ok config (NF_session s'))"

lemma nf_post_iff [simp]: "nf_post config nd (nd', s', thrown) \<longleftrightarrow> frame nd nd' \<and> session_ok config (NF_session s')"
  by (simp add: nf_post_def)

lemma forward_safe:
  assumes "is_nf_nat config \<longrightarrow> ni_side_mri s \<noteq> None \<and> nr_side_mri s \<noteq> None" "sendable m"
  shows "safeR sendable (create_msg_for_nr config s m)" "safeR sendable (create_msg_for_ni config s m)"
  using assms by (auto simp: create_msg_for_nr_def create_msg_for_ni_def)

lemma frame_pool:
  "reserve_external_address a nd = (nd', r) \<Longrightarrow> frame nd nd'" "frame nd (release_external_address b nd') = frame nd nd'"
  by (auto simp: reserve_external_address_def release_external_address_def Let_def split: list.splits)

lemma frame_rules:
  "install_policy_rules env a b nd = (nd', r) \<Longrightarrow> frame nd nd'" "remove_policy_rules env a b nd = (nd', r) \<Longrightarrow> frame nd nd'"
  by (auto simp: install_policy_rules_def remove_policy_rules_def split: if_splits)

lemma frame_nf_release [simp]: "frame nd (nf_release s nd') = frame nd nd'"
  by (simp add: nf_release_def frame_pool split: option.split)

lemma nf_refuse_safe:
  assumes "error_ok e" "session_ok config (NF_session (s\<lparr>nf_state := st\<rparr>))" "frame nd nd'"
  shows "safeR (nf_post config nd) (nf_refuse e m st nd' s)"
  using assms by (simp add: nf_refuse_def)

lemma nf_nat_setup_safe:
  assumes m: "pc_downstream m" and nat: "\<not> is_nf_nat (nd_config nd) \<longrightarrow> nf_nat_rule s = None"
    and r: "nf_ext_addr s = None"
  shows "safeR (\<lambda>(nd', r). frame nd nd' \<and>
      (case r of Inl e \<Rightarrow> error_ok e
       | Inr s' \<Rightarrow> nf_create_message s' = nf_create_message s \<and> nf_fw_rule s' = nf_fw_rule s \<and>
           (\<not> is_nf_nat (nd_config nd) \<longrightarrow> nf_nat_rule s' = None) \<and>
           (is_nf_nat (nd_config nd) \<longrightarrow> ni_side_mri s' \<noteq> None \<and> nr_side_mri s' \<noteq> None))) (nf_nat_setup msg m nd s)"
proof (cases "is_nf_nat (nd_config nd)")
  case True
  define a where "a = \<lparr>ap_host = pc_destaddress m, ap_proto = pc_protocol m, ap_port = pc_destport m\<rparr>"
  obtain nd1 x where x: "reserve_external_address a nd = (nd1, x)" by (cases "reserve_external_address a nd")
  have f: "frame nd nd1" using frame_pool(1) [OF x] .
  have e: "x = Inl e \<Longrightarrow> error_ok e" for e using x pool_error(1) by blast
  show ?thesis using True m f e x
    by (cases x; cases "lookup_private_address a nd")
       (simp_all add: nf_nat_setup_def a_def create_mri_with_dest_def create_mri_with_source_def create_mri_inverted_def
         save_nat_policy_rule_def)
qed (use nat in \<open>simp add: nf_nat_setup_def\<close>)

lemma save_fw_safe:
  assumes "nt_mri msg = Mri_pc m" "pc_downstream m"
  shows "safeR (\<lambda>r. case r of Inl e \<Rightarrow> error_ok e
      | Inr s' \<Rightarrow> \<exists>f. s' = s\<lparr>nf_fw_rule := f\<rparr>) (save_fw_policy_rule msg b s)"
  using assms by (auto simp: save_fw_policy_rule_def)

lemma forward_create_safe:
  assumes m: "pc_downstream m" "usable msg" and c: "nf_create_message s = Some msg" and e: "nf_ext_addr s = None"
    and nat: "\<not> is_nf_nat (nd_config nd) \<longrightarrow> nf_nat_rule s = None"
  shows "safeR (nf_post (nd_config nd) nd) (nf_forward_create env msg m nd s)"
  unfolding nf_forward_create_def safeR_bindR
proof (rule safeR_mono [OF nf_nat_setup_safe [OF m(1) nat e, of msg]], clarify)
  fix nd' and r :: "request_error + nf_session"
  assume f: "frame nd nd'" and r: "case r of Inl e \<Rightarrow> error_ok e
     | Inr s' \<Rightarrow> nf_create_message s' = nf_create_message s \<and> nf_fw_rule s' = nf_fw_rule s \<and>
         (\<not> is_nf_nat (nd_config nd) \<longrightarrow> nf_nat_rule s' = None) \<and>
         (is_nf_nat (nd_config nd) \<longrightarrow> ni_side_mri s' \<noteq> None \<and> nr_side_mri s' \<noteq> None)"
  have c': "nd_config nd' = nd_config nd" using f by (simp add: frame_def)
  show "safeR (nf_post (nd_config nd) nd)
     (case r of Inl e \<Rightarrow> nf_refuse e msg STATE_FINAL nd' s
      | Inr s \<Rightarrow>
          bindR (create_msg_for_nr (nd_config nd') s msg) (\<lambda>m.
          bindR (send_message m nd') (\<lambda>nd.
            let (nd, t) = start_timer env nd
            in Ok (nd, s\<lparr>nf_state_timer := t, nf_state := STATE_WAITRESP\<rparr>, False))))"
  proof (cases r)
    case (Inl e)
    then show ?thesis using r f nat nf_refuse_safe [of e "nd_config nd" STATE_FINAL s nd nd' msg] by simp
  next
    case (Inr s2)
    have "safeR sendable (create_msg_for_nr (nd_config nd) s2 msg)"
      by (rule forward_safe(1)) (use r Inr m(2) in auto)
    then show ?thesis using Inr r f c m(2) c'
      by (auto simp: node_op_defs elim!: safeR_mono)
  qed
qed

lemma idle_create_safe:
  assumes m: "nt_mri msg = Mri_pc m" "pc_downstream m" "usable msg"
    and ok: "session_ok (nd_config nd) (NF_session s)" and st: "nf_state s = STATE_IDLE"
  shows "safeR (nf_post (nd_config nd) nd) (handle_state_idle_create env msg b nd s)"
proof -
  define s0 where "s0 = s\<lparr>nf_create_message := Some msg\<rparr>"
  have fw: "safeR (\<lambda>r. case r of Inl e \<Rightarrow> error_ok e | Inr s' \<Rightarrow> \<exists>f. s' = s0\<lparr>nf_fw_rule := f\<rparr>)
      (if is_nf_firewall (nd_config nd) then save_fw_policy_rule msg b s0 else Ok (Inr s0))"
    using save_fw_safe [OF m(1,2), of s0 b] by (auto intro: exI [of _ "nf_fw_rule s0"])
  have rest: "safeR (nf_post (nd_config nd) nd) (nf_forward_create env msg m nd (s0\<lparr>nf_fw_rule := f\<rparr>))" for f
    by (rule forward_create_safe) (use m ok st in \<open>simp_all add: s0_def\<close>)
  have refused: "error_ok e \<Longrightarrow> safeR (nf_post (nd_config nd) nd) (nf_refuse e msg STATE_FINAL nd s0)" for e
    by (rule nf_refuse_safe) (use ok in \<open>simp_all add: s0_def\<close>)
  show ?thesis unfolding handle_state_idle_create_def Let_def s0_def [symmetric] safeR_bindR
    by (rule safeR_mono [OF fw]) (auto split: sum.splits simp: m(1) intro: rest refused)
qed

lemma nf_idle_safe:
  assumes ev: "event_ok evt" and ok: "session_ok (nd_config nd) (NF_session s)" and st: "nf_state s = STATE_IDLE"
  shows "safeR (nf_post (nd_config nd) nd) (nf_handle_state_idle env evt nd s)"
proof (cases "event_msg Natfw_create evt")
  case (Some p)
  then obtain msg b where p: "event_msg Natfw_create evt = Some (msg, b)" by (cases p) simp
  note e = event_ok_msg [OF ev p]
  obtain n where n: "nm_msn b = Some n" using e(2) by auto
  obtain m where m: "nt_mri msg = Mri_pc m" "pc_downstream m" using e(5) by auto
  define s1 where "s1 = s\<lparr>nf_max_lifetime := nf_max_session_lifetime (nd_config nd),
                      nf_timeout := nf_max_session_lifetime (nd_config nd)\<rparr>"
  have ok1: "session_ok (nd_config nd) (NF_session (s1\<lparr>nf_state := STATE_FINAL\<rparr>))"
    and ok2: "session_ok (nd_config nd) (NF_session (s1\<lparr>nf_lifetime := l, nf_msn := k\<rparr>))" for l k
    using ok st by (simp_all add: s1_def)
  have st2: "nf_state (s1\<lparr>nf_lifetime := l, nf_msn := k\<rparr>) = STATE_IDLE" for l k using st by (simp add: s1_def)
  show ?thesis unfolding nf_handle_state_idle_def p option.case prod.case get_msn_safe [OF n] bindR.simps Let_def s1_def [symmetric]
    using nf_refuse_safe [OF check_request_error ok1 frame_refl] ok1
      idle_create_safe [OF m e(3) ok2 st2]
    by (cases "check_request (get_session_lifetime b) (nf_max_lifetime s1) evt") simp_all
qed (use ok in \<open>simp add: nf_handle_state_idle_def\<close>)

lemma nf_close_safe:
  assumes "safeR (\<lambda>m. case m of Some m \<Rightarrow> sendable m | None \<Rightarrow> True) m" "session_ok config (NF_session s)"
    "nf_state s \<in> {STATE_WAITRESP, STATE_SESSION}"
  shows "safeR (nf_post config nd) (nf_close env m nd s)"
proof -
  obtain nd1 th where r: "remove_policy_rules env (nf_nat_rule s) (nf_fw_rule s) nd = (nd1, th)" by fastforce
  have f: "frame nd nd1" using frame_rules(2) [OF r] .
  show ?thesis
  proof (cases th)
    case False
    have "safeR (\<lambda>m. safeR (\<lambda>nd'. frame nd nd') (case m of Some m \<Rightarrow> send_message m nd1 | None \<Rightarrow> Ok nd1)) m"
      using assms(1) f by (auto elim!: safeR_mono split: option.splits)
    then show ?thesis using False r assms(2,3) by (auto simp: nf_close_def elim!: safeR_mono)
  qed (use r f assms in \<open>auto simp: nf_close_def\<close>)
qed

lemma nf_abandon_safe:
  assumes "sendable m" "session_ok config (NF_session s)"
  shows "safeR (nf_post config nd) (nf_abandon m nd s)"
  using assms by (simp add: nf_abandon_def)

lemma nf_waitresp_response_safe:
  assumes ok: "session_ok (nd_config nd) (NF_session s)" and st: "nf_state s = STATE_WAITRESP" and m: "sendable msg"
  shows "safeR (nf_post (nd_config nd) nd) (nf_waitresp_response env msg resp nd s)"
proof -
  obtain nd1 th where r: "install_policy_rules env (nf_nat_rule s) (nf_fw_rule s) nd = (nd1, th)" by fastforce
  have f: "frame nd nd1" using frame_rules(1) [OF r] .
  then have c: "nd_config nd1 = nd_config nd" by (simp add: frame_def)
  have fw: "safeR sendable (create_msg_for_ni (nd_config nd) s msg)"
    by (rule forward_safe(2)) (use ok st m in auto)
  have "safeR (\<lambda>x. safeR (nf_post (nd_config nd) nd) (nf_abandon x nd (s\<lparr>nf_state_timer := 0\<rparr>)))
      (create_msg_for_ni (nd_config nd) s msg)"
    by (rule safeR_mono [OF fw], rule nf_abandon_safe) (use ok st in auto)
  moreover have "safeR (\<lambda>x. sendable x \<and> frame nd nd1) (create_msg_for_ni (nd_config nd) s msg)"
    using fw f by (auto elim!: safeR_mono)
  ultimately show ?thesis using r f ok st c
    by (cases th) (auto simp: nf_waitresp_response_def node_op_defs elim!: safeR_mono)
qed

lemma nf_waitresp_safe:
  assumes ev: "event_ok evt" and ok: "session_ok (nd_config nd) (NF_session s)" and st: "nf_state s = STATE_WAITRESP"
  shows "safeR (nf_post (nd_config nd) nd) (nf_handle_state_waitresp env evt nd s)"
proof -
  have so: "stored (nf_create_message s)" using ok st by simp
  obtain m b n where m: "nf_create_message s = Some m" "nt_msg m = Some b" "nm_msn b = Some n" "usable m"
    using so by (rule storedE)
  have last: "nf_last s = Ok (m, b)" by (simp add: nf_last_def m)
  obtain nd1 th where r: "install_policy_rules env None (nf_fw_rule s) nd = (nd1, th)" by fastforce
  have f: "frame nd nd1" using frame_rules(1) [OF r] .
  have proxy: "\<not> is_nf_nat (nd_config nd) \<Longrightarrow> safeR (nf_post (nd_config nd) nd) (nf_waitresp_proxy env m nd s)"
    using r f ok st by (cases th) (simp_all add: nf_waitresp_proxy_def)
  have abandon: "safeR (nf_post (nd_config nd) nd) (nf_abandon (create_response 5 c m) nd s)" for c
    by (rule nf_abandon_safe) (use ok in simp_all)
  have create: "safeR (nf_post (nd_config nd) nd) (nf_waitresp_create env evt x c b nd s)"
    if c: "event_msg Natfw_create evt = Some (x, c)" for x c
    using event_ok_msg(2,3) [OF ev c] ok st m
    by (auto simp: nf_waitresp_create_def get_msn_safe node_op_defs intro!: nf_abandon_safe)
  show ?thesis
  proof (cases "if is_natfw_response evt m then event_msg Natfw_response evt else None")
    case None
    then show ?thesis unfolding nf_handle_state_waitresp_def last
      using ok proxy abandon create
      by (cases "event_msg Natfw_create evt") (auto simp: case_prod_unfold)
  next
    case (Some p)
    then obtain m' x where p: "p = (m', x)" "event_msg Natfw_response evt = Some (m', x)" by (cases p) (auto split: if_splits)
    note e = event_ok_msg(2,3) [OF ev p(2)]
    have "safeR (nf_post (nd_config nd) nd) (nf_waitresp_response env m' x nd s)"
      using nf_waitresp_response_safe [OF ok st] e by simp
    then show ?thesis using Some p e m ok
      by (auto simp: nf_handle_state_waitresp_def last is_response_to_def get_msn_safe)
  qed
qed

lemma nf_session_create_safe:
  assumes ok: "session_ok (nd_config nd) (NF_session s)" and st: "nf_state s = STATE_SESSION"
    and b: "nm_msn b = Some n" "usable msg"
  shows "safeR (nf_post (nd_config nd) nd) (nf_session_create env evt msg b nd s)"
proof -
  have c: "safeR sendable (create_msg_for_nr (nd_config nd) (s\<lparr>nf_lifetime := l, nf_msn := k, nf_create_message := x\<rparr>) msg)"
    "safeR sendable (create_msg_for_nr (nd_config nd) (s\<lparr>nf_state_timer := 0, nf_response_timer := 0\<rparr>) msg)" for l k x
    by (rule forward_safe(1); use ok st b in simp)+
  have refuse: "check_request l x evt = Some e \<Longrightarrow> safeR (nf_post (nd_config nd) nd) (nf_refuse e msg STATE_SESSION nd s)" for l x e
    by (rule nf_refuse_safe) (use ok st in simp_all)
  have close: "safeR (nf_post (nd_config nd) nd)
     (nf_close env (mapR Some (create_msg_for_nr (nd_config nd) (s\<lparr>nf_state_timer := 0, nf_response_timer := 0\<rparr>) msg)) nd
        (s\<lparr>nf_state_timer := 0, nf_response_timer := 0\<rparr>))"
    by (rule nf_close_safe) (use ok st c(2) in simp_all)
  show ?thesis using refuse close ok st b
    by (auto simp: nf_session_create_def get_msn_safe node_op_defs split: option.splits intro: safeR_mono [OF c(1)])
qed

lemma nf_session_safe:
  assumes ev: "event_ok evt" and ok: "session_ok (nd_config nd) (NF_session s)" and st: "nf_state s = STATE_SESSION"
  shows "safeR (nf_post (nd_config nd) nd) (nf_handle_state_session env evt nd s)"
proof (cases "event_msg Natfw_create evt")
  case (Some p)
  then obtain x c where p: "event_msg Natfw_create evt = Some (x, c)" by (cases p) simp
  obtain n where "nm_msn c = Some n" using event_ok_msg(2) [OF ev p] by auto
  then show ?thesis using nf_session_create_safe [OF ok st _ event_ok_msg(3) [OF ev p]] p
    by (simp add: nf_handle_state_session_def)
next
  case no_create: None
  have so: "stored (nf_create_message s)" using ok st by simp
  obtain m b n where m: "nf_create_message s = Some m" "nt_msg m = Some b" "nm_msn b = Some n" "usable m"
    using so by (rule storedE)
  have last: "nf_last s = Ok (m, b)" by (simp add: nf_last_def m)
  have close: "safeR (nf_post (nd_config nd) nd) (nf_close env (Ok (Some (create_response 5 c m))) nd
        (s\<lparr>nf_state_timer := 0, nf_response_timer := 0\<rparr>))"
     "safeR (nf_post (nd_config nd) nd) (nf_close env (Ok None) nd (s\<lparr>nf_response_timer := 0\<rparr>))" for c
    by (rule nf_close_safe; use ok st in simp)+
  show ?thesis
  proof (cases "if is_natfw_response evt m then event_msg Natfw_response evt else None")
    case None
    then show ?thesis using close ok no_create by (simp add: nf_handle_state_session_def last)
  next
    case (Some p)
    then obtain m' x where p: "p = (m', x)" "event_msg Natfw_response evt = Some (m', x)" by (cases p) (auto split: if_splits)
    note e = event_ok_msg(2,3) [OF ev p(2)]
    have c: "safeR sendable (create_msg_for_ni (nd_config nd) s m')"
      by (rule forward_safe(2)) (use ok st e in auto)
    have "safeR (nf_post (nd_config nd) nd) (nf_close env (mapR Some (create_msg_for_ni (nd_config nd) s m')) nd s)"
      by (rule nf_close_safe) (use ok st c in simp_all)
    then have "safeR (nf_post (nd_config nd) nd) (nf_session_response env m' x nd s)"
      using ok st by (auto simp: nf_session_response_def node_op_defs intro: safeR_mono [OF c])
    then show ?thesis using Some p e m ok no_create
      by (auto simp: nf_handle_state_session_def last is_response_to_def get_msn_safe)
  qed
qed

lemma nf_safe:
  assumes "event_ok evt" "session_ok (nd_config nd) (NF_session s)"
  shows "safeR (nf_post (nd_config nd) nd) (nf_process_event env evt nd s)"
  using nf_idle_safe [OF assms] nf_waitresp_safe [OF assms] nf_session_safe [OF assms] assms(2)
  by (cases "nf_state s") (simp_all add: nf_process_event_def)

section \<open>Sessions of EXT messages\<close>

lemma check_with_msn:
  "natfw_msg_check b \<Longrightarrow> natfw_msg_check (b\<lparr>nm_lifetime := Some l, nm_msn := Some n\<rparr>)"
  by (simp add: natfw_msg_check_def natfw_msg_empty_def)

lemma build_ext_Ok:
  assumes "stored (ext_template s)"
  obtains m where "build_ext_message s = Ok (s\<lparr>ne_msn := ne_msn s + 1\<rparr>, m)" "usable m"
proof -
  obtain t b n where t: "ext_template s = Some t" "nt_msg t = Some b" "natfw_msg_check b"
    using assms by (rule storedE) 
  then show thesis using check_with_msn [OF t(3)] that by (simp add: build_ext_message_def Let_def usable_def)
qed

lemma ext_setup_safe:
  assumes "lifetime_ok (ae_lifetime e)" "ae_ni_known e \<or> ae_protocol e \<noteq> 0"
  shows "safeR (\<lambda>(nd', s'). frame nd nd' \<and> stored (ext_template s')) (ne_setup_session env sid e s nd)"
proof -
  have l: "ae_lifetime e \<noteq> 0" "refresh_interval (ae_lifetime e) (ne_retries s) > 0"
    using assms(1) refresh_interval_pos by (simp_all add: lifetime_ok_def)
  then show ?thesis using assms(2)
    by (cases "ae_ni_known e"; cases "ae_proxy e"; cases "ae_action e")
       (simp_all add: ne_setup_session_def node_op_defs usable_def set_data_terminal_info_def new_natfw_msg_def
        natfw_msg_check_def natfw_msg_empty_def check_extended_flow_info_def check_data_terminal_info_def)
qed

abbreviation (input) "ne_post config nd \<equiv> \<lambda>(nd', s'). frame nd nd' \<and> session_ok config (NR_ext_session s')"

lemma ne_idle_safe:
  assumes "event_ok evt"
  shows "safeR (ne_post config nd) (ne_handle_state_idle env sid evt nd s)"
proof (cases evt)
  case (Api_ext_event e)
  have ne_set: "safeR (\<lambda>(nd', s'). frame nd nd' \<and> stored (ext_template s')) (ne_setup_session env sid e s nd)"
    by (rule ext_setup_safe) (use assms Api_ext_event in \<open>auto simp: event_ok_def\<close>)
  show ?thesis
  proof (cases "ne_setup_session env sid e s nd")
    case (Ok x)
    then obtain nd1 s1 where x: "ne_setup_session env sid e s nd = Ok (nd1, s1)" by (cases x) simp
    have f: "frame nd nd1" and so: "stored (ext_template s1)" using ne_set x by simp_all
    obtain m where m: "build_ext_message s1 = Ok (s1\<lparr>ne_msn := ne_msn s1 + 1\<rparr>, m)" "usable m"
      using so by (rule build_ext_Ok)
    show ?thesis using f so m x Api_ext_event by (simp add: ne_handle_state_idle_def node_op_defs)
  qed (use ne_set Api_ext_event in \<open>simp add: ne_handle_state_idle_def\<close>)
qed (simp_all add: ne_handle_state_idle_def)

lemma ne_parts_safe:
  assumes ok: "session_ok config (NR_ext_session s)" and st: "ne_state s \<in> {STATE_WAITRESP, STATE_SESSION}"
  shows "safeR (ne_post config nd) (ne_response_timeout_event env nd s)"
    and "nm_msn resp \<noteq> None \<Longrightarrow> safeR (ne_post config nd) (ne_response_event env resp nd s)"
    and "safeR (ne_post config nd) (ne_teardown_event nd s)"
proof -
  have so: "stored (ne_last_ext s)" and te: "stored (ext_template s)" using ok st by auto
  obtain m b n where m: "ne_last_ext s = Some m" "nt_msg m = Some b" "nm_msn b = Some n" "usable m"
    using so by (rule storedE)
  have last: "ne_last s = Ok (m, b)" by (simp add: ne_last_def m)
  show "safeR (ne_post config nd) (ne_response_timeout_event env nd s)"
    using ok m by (auto simp: ne_response_timeout_event_def last node_op_defs)
  show "safeR (ne_post config nd) (ne_response_event env resp nd s)" if "nm_msn resp \<noteq> None"
    using that ok m te by (auto simp: ne_response_event_def last is_response_to_def get_msn_safe node_op_defs)
  define s1 where "s1 = s\<lparr>ne_lifetime := 0, ne_last_ext := None\<rparr>"
  obtain x where "build_ext_message s1 = Ok (s1\<lparr>ne_msn := ne_msn s1 + 1\<rparr>, x)" "usable x"
    by (rule build_ext_Ok [of s1]) (use te in \<open>simp add: s1_def\<close>)
  then show "safeR (ne_post config nd) (ne_teardown_event nd s)"
    by (simp add: ne_teardown_event_def s1_def)
qed

lemma ne_safe:
  assumes ev: "event_ok evt" and ok: "session_ok config (NR_ext_session s)"
  shows "safeR (ne_post config nd) (ne_process_event env sid evt nd s)"
proof (cases "ne_state s \<in> {STATE_WAITRESP, STATE_SESSION}")
  case True
  note parts = ne_parts_safe [OF ok True]
  have te: "stored (ext_template s)" using ok True by auto
  obtain x where x: "build_ext_message s = Ok (s\<lparr>ne_msn := ne_msn s + 1\<rparr>, x)" "usable x"
    using te by (rule build_ext_Ok)
  show ?thesis
  proof (cases "event_msg Natfw_response evt")
    case None
    then show ?thesis using parts(1,3) ok True x
      by (auto simp: ne_process_event_def ne_handle_state_waitresp_def ne_handle_state_session_def node_op_defs)
  next
    case (Some p)
    then obtain m r where p: "event_msg Natfw_response evt = Some (m, r)" by (cases p) simp
    show ?thesis using parts(2) [OF event_ok_msg(2) [OF ev p]] p True
      by (auto simp: ne_process_event_def ne_handle_state_waitresp_def ne_handle_state_session_def)
  qed
qed (use ok ne_idle_safe [OF ev] in \<open>cases "ne_state s"; simp add: ne_process_event_def\<close>)

abbreviation (input) "no_post config nd \<equiv> \<lambda>(nd', s'). frame nd nd' \<and> session_ok config (NF_non_edge_session s')"

lemma no_idle_safe:
  assumes ev: "event_ok evt" and ok: "session_ok config (NF_non_edge_session s)"
  shows "safeR (no_post config nd) (no_handle_state_idle env evt nd s)"
proof (cases "event_msg Natfw_ext evt")
  case (Some p)
  then obtain m b where p: "event_msg Natfw_ext evt = Some (m, b)" by (cases p) simp
  then show ?thesis using event_ok_msg(2,3) [OF ev p] ok
    by (auto simp: no_handle_state_idle_def get_msn_safe node_op_defs split: option.splits)
qed (use ok in \<open>simp add: no_handle_state_idle_def\<close>)

lemma no_waitresp_safe:
  assumes ev: "event_ok evt" and ok: "session_ok config (NF_non_edge_session s)" and st: "no_state s = STATE_WAITRESP"
  shows "safeR (no_post config nd) (no_handle_state_waitresp env evt nd s)"
proof -
  have so: "stored (no_last_ext s)" using ok st by simp
  obtain m b n where m: "no_last_ext s = Some m" "nt_msg m = Some b" "nm_msn b = Some n" "usable m"
    using so by (rule storedE)
  have last: "no_last s = Ok (m, b)" by (simp add: no_last_def m)
  show ?thesis
  proof (cases "event_msg Natfw_response evt")
    case (Some p)
    then obtain x r where p: "event_msg Natfw_response evt = Some (x, r)" by (cases p) simp
    show ?thesis using event_ok_msg(2,3) [OF ev p] p ok st m
      by (auto simp: no_handle_state_waitresp_def last is_response_to_def get_msn_safe node_op_defs)
  next
    case none: None
    show ?thesis
    proof (cases "event_msg Natfw_ext evt")
      case (Some p)
      then obtain x r where p: "event_msg Natfw_ext evt = Some (x, r)" by (cases p) simp
      show ?thesis using event_ok_msg(2,3) [OF ev p] p none ok m
        by (auto simp: no_handle_state_waitresp_def last get_msn_safe)
    qed (use none ok in \<open>simp add: no_handle_state_waitresp_def last\<close>)
  qed
qed

lemma no_session_safe:
  assumes ev: "event_ok evt" and ok: "session_ok config (NF_non_edge_session s)" and st: "no_state s = STATE_SESSION"
  shows "safeR (no_post config nd) (no_handle_state_session env evt nd s)"
proof -
  have so: "stored (no_last_ext s)" using ok st by simp
  obtain m b n where m: "no_last_ext s = Some m" "nt_msg m = Some b" "nm_msn b = Some n" "usable m"
    using so by (rule storedE)
  have last: "no_last s = Ok (m, b)" by (simp add: no_last_def m)
  show ?thesis
  proof (cases "event_msg Natfw_ext evt")
    case (Some p)
    then obtain x r where p: "event_msg Natfw_ext evt = Some (x, r)" by (cases p) simp
    show ?thesis using event_ok_msg(2,3) [OF ev p] p ok st
      by (auto simp: no_handle_state_session_def no_session_ext_def get_msn_safe node_op_defs frame_pool split: option.splits)
  next
    case none: None
    show ?thesis
    proof (cases "event_msg Natfw_response evt")
      case (Some p)
      then obtain x r where p: "event_msg Natfw_response evt = Some (x, r)" by (cases p) simp
      show ?thesis using event_ok_msg(2,3) [OF ev p] p none ok m
        by (auto simp: no_handle_state_session_def last is_response_to_def get_msn_safe node_op_defs)
    qed (use none ok in \<open>simp add: no_handle_state_session_def last frame_pool\<close>)
  qed
qed

lemma no_safe:
  assumes "event_ok evt" "session_ok config (NF_non_edge_session s)"
  shows "safeR (no_post config nd) (no_process_event env evt nd s)"
  using no_idle_safe [OF assms] no_waitresp_safe [OF assms] no_session_safe [OF assms] assms(2)
  by (cases "no_state s") (simp_all add: no_process_event_def)

section \<open>The forwarder at the edge\<close>

text \<open>The handlers of this session also create a session and, through the dispatcher, end it.\<close>

definition keeps_node :: "node \<Rightarrow> node \<Rightarrow> bool" where
  "keeps_node nd nd' \<longleftrightarrow> node_ok nd' \<and> nd_config nd' = nd_config nd \<and> nat_address nd' = nat_address nd"

definition session_post :: "node \<Rightarrow> node \<times> natfw_session \<times> bool \<Rightarrow> bool" where
  "session_post nd r \<longleftrightarrow> (case r of (nd', s', _) \<Rightarrow> keeps_node nd nd' \<and> session_ok (nd_config nd) s')"

lemma session_post_iff [simp]:
  "session_post nd (nd', s', thrown) \<longleftrightarrow> keeps_node nd nd' \<and> session_ok (nd_config nd) s'"
  by (simp add: session_post_def)

lemma node_ok_frame: "node_ok nd \<Longrightarrow> frame nd nd' \<Longrightarrow> node_ok nd'"
  by (simp add: node_ok_def nat_address_ok_def frame_def)

lemma keeps_node_frame: "keeps_node nd nd1 \<Longrightarrow> frame nd1 nd' \<Longrightarrow> keeps_node nd nd'"
  by (auto simp: keeps_node_def frame_def node_ok_frame [unfolded frame_def])

lemma keeps_node_refl: "node_ok nd \<Longrightarrow> keeps_node nd nd"
  by (simp add: keeps_node_def)

lemma keeps_node_updates [simp]:
  "keeps_node nd (nd'\<lparr>sent := x\<rparr>) \<longleftrightarrow> keeps_node nd nd'" "keeps_node nd (nd'\<lparr>n_timers := t\<rparr>) \<longleftrightarrow> keeps_node nd nd'"
  "keeps_node nd (nd'\<lparr>n_random := t\<rparr>) \<longleftrightarrow> keeps_node nd nd'"
  "keeps_node nd (nd'\<lparr>query_answers := q\<rparr>) \<longleftrightarrow> keeps_node nd nd'"
  by (simp_all add: keeps_node_def node_ok_def nat_address_ok_def)

lemma keeps_node_put:
  assumes "keeps_node nd nd'" "session_ok (nd_config nd) s" "\<not> is_final s"
  shows "keeps_node nd (put_session sid s nd')"
  using assms by (auto simp: keeps_node_def node_ok_def nat_address_ok_def put_session_def)

lemma keeps_node_remove: "keeps_node nd nd' \<Longrightarrow> keeps_node nd (remove_session sid nd')"
  by (auto simp: keeps_node_def node_ok_def nat_address_ok_def remove_session_def)

lemma unique_id_safe:
  "safeR (\<lambda>(nd', sid). frame nd nd' \<and> session_table nd sid = None) (create_unique_id n env nd)"
proof (induction n arbitrary: nd)
  case (Suc n)
  have "safeR (\<lambda>(nd', sid). frame nd nd' \<and> session_table nd sid = None)
      (create_unique_id n env (nd\<lparr>n_random := n_random nd + 1\<rparr>))"
    using Suc [of "nd\<lparr>n_random := n_random nd + 1\<rparr>"] by (auto elim!: safeR_mono simp: frame_def)
  then show ?case by (simp add: random_number_def)
qed simp

lemma new_ni_safe:
  "new_ni_session env nd = (nd', s) \<Longrightarrow> frame nd nd' \<and> session_ok config (NI_session s) \<and> ni_state s = STATE_IDLE"
  by (auto simp: new_ni_session_def node_op_defs)

lemma create_ni_safe:
  assumes "node_ok nd"
  shows "safeR (\<lambda>(nd', sid, s). keeps_node nd nd' \<and> session_ok (nd_config nd) (NI_session s) \<and> ni_state s = STATE_IDLE)
    (create_ni_session env nd)"
  unfolding create_ni_session_def safeR_bindR
proof (rule safeR_mono [OF unique_id_safe], clarify)
  fix nd1 sid assume f: "frame nd nd1"
  obtain nd2 s where n: "new_ni_session env nd1 = (nd2, s)" by fastforce
  note new = new_ni_safe [OF n, of "nd_config nd"]
  have "keeps_node nd nd2" using keeps_node_frame [OF keeps_node_frame [OF keeps_node_refl [OF assms] f]] new by blast
  then have "keeps_node nd (put_session sid (NI_session s) nd2)" using new by (intro keeps_node_put) simp_all
  then show "safeR (\<lambda>(nd', sid, s). keeps_node nd nd' \<and> session_ok (nd_config nd) (NI_session s) \<and> ni_state s = STATE_IDLE)
      (let (nd, s) = new_ni_session env nd1 in Ok (put_session sid (NI_session s) nd, sid, s))"
    using new n by simp
qed

lemma ni_idle_waits:
  "ni_handle_state_idle env sid (Api_create_event e) nd s = Ok (nd', s') \<Longrightarrow> ni_state s' = STATE_WAITRESP"
  by (auto simp: ni_handle_state_idle_def node_op_defs result_simps)

lemma create_proxy_safe:
  assumes "node_ok nd" "lifetime_ok (ac_lifetime e)"
  shows "safeR (\<lambda>(nd', sid). keeps_node nd nd') (create_ni_proxy_session env e nonce nd)"
proof (cases "create_ni_session env nd")
  case (Ok x)
  then obtain nd1 sid s where x: "create_ni_session env nd = Ok (nd1, sid, s)" by (cases x) simp
  have k: "keeps_node nd nd1" and ok: "session_ok (nd_config nd) (NI_session s)" and st: "ni_state s = STATE_IDLE"
    using create_ni_safe [OF assms(1), of env] x by simp_all
  define s1 where "s1 = s\<lparr>ni_nonce := nonce, ni_proxy_session := True\<rparr>"
  have "safeR (\<lambda>(nd', s'). frame nd1 nd' \<and> session_ok (nd_config nd) (NI_session s'))
      (ni_process_event env sid (Api_create_event e) nd1 s1)"
    by (rule ni_safe) (use assms ok in \<open>simp_all add: event_ok_def s1_def\<close>)
  moreover have "ni_process_event env sid (Api_create_event e) nd1 s1 = Ok (nd', s') \<Longrightarrow> ni_state s' = STATE_WAITRESP" for nd' s'
    using ni_idle_waits st by (simp add: ni_process_event_def s1_def)
  ultimately have p: "safeR (\<lambda>(nd', s'). keeps_node nd nd' \<and> session_ok (nd_config nd) (NI_session s') \<and> ni_state s' = STATE_WAITRESP)
      (ni_process_event env sid (Api_create_event e) nd1 s1)"
    using keeps_node_frame [OF k] by (cases "ni_process_event env sid (Api_create_event e) nd1 s1") auto
  have "safeR (\<lambda>(nd', s'). keeps_node nd (put_session sid (NI_session s') nd')) (ni_process_event env sid (Api_create_event e) nd1 s1)"
    by (rule safeR_mono [OF p]) (auto intro!: keeps_node_put)
  then show ?thesis unfolding create_ni_proxy_session_def x bindR.simps prod.case s1_def [symmetric] safeR_bindR
    by (rule safeR_mono) auto
qed (use create_ni_safe [OF assms(1), of env] in \<open>simp add: create_ni_proxy_session_def\<close>)

definition ed_post :: "node \<Rightarrow> node \<times> nf_edge_ext_session \<times> bool \<Rightarrow> bool" where
  "ed_post nd r \<longleftrightarrow> (case r of (nd', s', _) \<Rightarrow> keeps_node nd nd' \<and> session_ok (nd_config nd) (NF_edge_session s'))"

lemma ed_post_iff [simp]:
  "ed_post nd (nd', s', thrown) \<longleftrightarrow> keeps_node nd nd' \<and> session_ok (nd_config nd) (NF_edge_session s')"
  by (simp add: ed_post_def)

lemma tg_create_proxy_safe:
  assumes "keeps_node nd nd1" "session_ok (nd_config nd) (NF_edge_session s)" "lifetime_ok (ed_lifetime s)" "nt_mri msg = Mri_pc m"
  shows "safeR (ed_post nd) (tg_create_proxy env msg b nd1 s)"
proof -
  have ok: "node_ok nd1" using assms(1) by (simp add: keeps_node_def)
  have t: "keeps_node nd nd2" if "keeps_node nd1 nd2" for nd2 using that assms(1) by (simp add: keeps_node_def)
  have i: "keeps_node nd nd3" if "keeps_node nd nd2" "install_policy_rules env x y nd2 = (nd3, th)" for nd2 nd3 x y th
    using that frame_rules(1) keeps_node_frame by blast
  have p: "safeR (\<lambda>(nd', sid). keeps_node nd nd') (create_ni_proxy_session env
      \<lparr>ac_source = pc_sourceaddress m, ac_source_port = pc_sourceport m, ac_dest = pc_destaddress m,
       ac_dest_port = pc_destport m, ac_protocol = pc_protocol m, ac_icmp_types = [],
       ac_lifetime = ed_lifetime s, ac_proxy = False, ac_return_queue = False\<rparr> (get_nonce b) nd1)"
    by (rule safeR_mono [OF create_proxy_safe [OF ok]]) (use assms t in auto)
  show ?thesis unfolding tg_create_proxy_def assms(4) mri.case safeR_bindR
    by (rule safeR_mono [OF p]) (use i assms(2) in \<open>auto simp: Let_def split: prod.split\<close>)
qed

lemma edge_response_safe:
  assumes "nm_msn b = Some n" "case addr of None \<Rightarrow> True | Some a \<Rightarrow> ipv4flag (ap_host a) \<and> \<not> hostaddress_eq (ap_host a) hostaddress_default"
  shows "safeR sendable (build_edge_device_response sid msg b addr s)"
  using assms by (cases addr) (simp_all add: build_edge_device_response_def get_msn_safe Let_def sendable_def new_natfw_msg_def
      natfw_msg_check_def natfw_msg_empty_def check_information_code_def check_external_address_def)

lemma ed_answer_safe:
  assumes k: "keeps_node nd nd1" and ok: "session_ok (nd_config nd) (NF_edge_session s)" and l: "lifetime_ok (ed_lifetime s)"
    and b: "nm_msn b = Some n" and p: "ed_proxy_mode s \<Longrightarrow> \<exists>m. nt_mri msg = Mri_pc m"
    and a: "case addr of None \<Rightarrow> True | Some a \<Rightarrow> ipv4flag (ap_host a) \<and> \<not> hostaddress_eq (ap_host a) hostaddress_default"
  shows "safeR (ed_post nd) (ed_answer env sid msg b addr nd1 s)"
  unfolding ed_answer_def safeR_bindR
proof (rule safeR_mono [OF edge_response_safe [OF b a]])
  fix r assume r: "sendable r"
  define nd2 where "nd2 = nd1\<lparr>sent := sent nd1 @ [r], n_timers := Suc (n_timers nd1)\<rparr>"
  define s2 where "s2 = s\<lparr>ed_state_timer := timer_id env (n_timers nd1)\<rparr>"
  have k2: "keeps_node nd nd2" using keeps_node_frame [OF k, of nd2] by (simp add: nd2_def)
  have ok2: "session_ok (nd_config nd) (NF_edge_session s2)" using ok by (simp add: s2_def)
  have "safeR (ed_post nd) (if ed_proxy_mode s2 then tg_create_proxy env msg b nd2 s2 else Ok (nd2, s2, False))"
  proof (cases "ed_proxy_mode s2")
    case True
    then obtain m where "nt_mri msg = Mri_pc m" using p by (auto simp: s2_def)
    then show ?thesis using tg_create_proxy_safe [OF k2 ok2 _, of msg m env b] l True by (simp add: s2_def)
  qed (use k2 ok2 in simp)
  then have "safeR (\<lambda>(nd', s', thrown). ed_post nd (nd', if thrown then s' else s'\<lparr>ed_state := STATE_SESSION\<rparr>, thrown))
      (if ed_proxy_mode s2 then tg_create_proxy env msg b nd2 s2 else Ok (nd2, s2, False))"
    by (rule safeR_mono) auto
  then have "safeR (ed_post nd) (bindR (if ed_proxy_mode s2 then tg_create_proxy env msg b nd2 s2 else Ok (nd2, s2, False))
      (\<lambda>(nd, s, thrown). Ok (nd, if thrown then s else s\<lparr>ed_state := STATE_SESSION\<rparr>, thrown)))"
    unfolding safeR_bindR by (rule safeR_mono) auto
  with r show "safeR (\<lambda>x. safeR (ed_post nd)
          (let (nd, t) = start_timer env x; s = s\<lparr>ed_state_timer := t\<rparr>
           in bindR (if ed_proxy_mode s then tg_create_proxy env msg b nd s else Ok (nd, s, False))
               (\<lambda>(nd, s, thrown). Ok (nd, if thrown then s else s\<lparr>ed_state := STATE_SESSION\<rparr>, thrown))))
        (send_message r nd1)"
    by (simp add: node_op_defs nd2_def s2_def del: safeR_bindR split del: if_split cong: if_cong)
qed

lemma ed_setup_safe:
  assumes k: "keeps_node nd nd1" and ok: "session_ok (nd_config nd) (NF_edge_session s)" and l: "lifetime_ok (ed_lifetime s)"
    and b: "nt_msg msg = Some b" "nm_msn b = Some n" "nm_class b = Natfw_ext"
    and p: "ed_proxy_mode s \<Longrightarrow> \<exists>m. nt_mri msg = Mri_pc m"
  shows "safeR (ed_post nd) (ed_setup env sid msg b nd1 s)"
proof (cases "is_nf_nat (nd_config nd1)")
  case False
  then show ?thesis using ed_answer_safe [OF k ok l b(2) p, of None env sid] by (simp add: ed_setup_def)
next
  case True
  then have nat: "ipv4flag (nat_address nd1)" "\<not> hostaddress_eq (nat_address nd1) hostaddress_default"
    using k by (auto simp: keeps_node_def node_ok_def nat_address_ok_def)
  have addr: "safeR (\<lambda>_. True) (get_nr_address msg)"
    using b by (simp add: get_nr_address_def split: mri.split)
  have "safeR (ed_post nd) (case reserve_external_address x nd1 of
          (nd, Inl e) \<Rightarrow> bindR (send_message (create_error_response e msg) nd) (\<lambda>nd. Ok (nd, s\<lparr>ed_state := STATE_FINAL\<rparr>, False))
        | (nd, Inr addr) \<Rightarrow> ed_answer env sid msg b (Some addr) nd (s\<lparr>ed_ext_addr := addr\<rparr>))" for x
  proof -
    obtain nd2 r where r: "reserve_external_address x nd1 = (nd2, r)" by fastforce
    have k2: "keeps_node nd nd2" using keeps_node_frame [OF k frame_pool(1) [OF r]] .
    show ?thesis
    proof (cases r)
      case (Inl e)
      have "keeps_node nd (nd2\<lparr>sent := sent nd2 @ [create_error_response e msg]\<rparr>)"
        by (rule keeps_node_frame [OF k2]) simp
      then show ?thesis using r Inl pool_error(1) [of x nd1 nd2 e] ok by simp
    next
      case (Inr a)
      have "ap_host a = nat_address nd1"
        using r Inr by (auto simp: reserve_external_address_def Let_def split: list.splits)
      moreover have "safeR (ed_post nd) (ed_answer env sid msg b (Some a) nd2 (s\<lparr>ed_ext_addr := a\<rparr>))"
        by (rule ed_answer_safe [OF k2 _ _ b(2)]) (use ok l p nat calculation in simp_all)
      ultimately show ?thesis using r Inr by simp
    qed
  qed
  moreover have "ed_post nd (nd1, s, True)" using k ok by simp
  ultimately show ?thesis unfolding ed_setup_def using True
    by (auto simp: safeR_bindR split: sum.split intro!: safeR_mono [OF addr])
qed

lemma ed_idle_safe:
  assumes ev: "event_ok evt" and ok: "session_ok (nd_config nd) (NF_edge_session s)" and n: "node_ok nd"
  shows "safeR (ed_post nd) (ed_handle_state_idle env sid evt nd s)"
proof (cases "event_msg Natfw_ext evt")
  case (Some p)
  then obtain msg b where p: "event_msg Natfw_ext evt = Some (msg, b)" by (cases p) simp
  note e = event_ok_msg [OF ev p]
  obtain k where k: "nm_msn b = Some k" using e(2) by auto
  define l where "l = get_session_lifetime b"
  define s1 where "s1 = s\<lparr>ed_lifetime := l, ed_msn := k, ed_proxy_mode := proxy_mode_flag b\<rparr>"
  have ok1: "session_ok (nd_config nd) (NF_edge_session s1)" using ok by (simp add: s1_def)
  have err: "safeR (ed_post nd) (bindR (send_message (create_error_response e msg) nd)
      (\<lambda>nd. Ok (nd, s\<lparr>ed_state := STATE_FINAL\<rparr>, False)))" if "check_request l x evt = Some e" for e x
    using check_request_error [OF that] ok keeps_node_frame [OF keeps_node_refl [OF n]] by simp
  have lt: "lifetime_ok l" if "check_request l (ed_max_lifetime s) evt = None" "l \<noteq> 0"
  proof -
    have "l \<le> 60" using that(1) ok by (simp add: check_request_def check_lifetime_def split: option.splits if_splits)
    then show ?thesis using that(2) by (simp add: lifetime_ok_def word_le_nat_alt word_less_nat_alt)
  qed
  have rest: "safeR (ed_post nd) (ed_setup env sid msg b nd1 s1)"
    if "lifetime_ok l" "frame nd nd1" for nd1
    by (rule ed_setup_safe [OF keeps_node_frame [OF keeps_node_refl [OF n] that(2)] ok1 _ e(1) k e(4)])
       (use that e(6) in \<open>simp_all add: s1_def\<close>)
  have deny: "safeR (ed_post nd) (bindR (build_fw_policy_rule msg b) (\<lambda>r. case r of
        Inl _ \<Rightarrow> Ok (nd, s1, True)
      | Inr rule \<Rightarrow> (case install_policy_rules env None rule nd of
           (nd, True) \<Rightarrow> Ok (nd, s1, True) | (nd, False) \<Rightarrow> ed_setup env sid msg b nd s1)))"
    if "lifetime_ok l" "get_rule_action b = 2"
  proof -
    have fw: "safeR (\<lambda>_. True) (build_fw_policy_rule msg b)"
      using that(2) by (simp add: build_fw_policy_rule_def split: mri.split)
    have "safeR (ed_post nd) (case install_policy_rules env None rule nd of
           (nd, True) \<Rightarrow> Ok (nd, s1, True) | (nd, False) \<Rightarrow> ed_setup env sid msg b nd s1)" for rule
    proof -
      obtain nd1 th where i: "install_policy_rules env None rule nd = (nd1, th)" by fastforce
      have f: "frame nd nd1" using frame_rules(1) [OF i] .
      show ?thesis using i rest [OF that(1) f] ok1 keeps_node_frame [OF keeps_node_refl [OF n] f] by (cases th) simp_all
    qed
    moreover have "ed_post nd (nd, s1, True)" using ok1 keeps_node_refl [OF n] by simp
    ultimately show ?thesis unfolding safeR_bindR by (auto split: sum.split intro!: safeR_mono [OF fw])
  qed
  have final: "ed_post nd (nd, s\<lparr>ed_state := STATE_FINAL\<rparr>, False)" using ok keeps_node_refl [OF n] by simp
  show ?thesis unfolding ed_handle_state_idle_def p option.case prod.case get_msn_safe [OF k] bindR.simps Let_def
      l_def [symmetric] s1_def [symmetric]
  proof (cases "check_request l (ed_max_lifetime s) evt")
    case None
    then show "safeR (ed_post nd) (case check_request l (ed_max_lifetime s) evt of
         Some e \<Rightarrow> bindR (send_message (create_error_response e msg) nd) (\<lambda>nd. Ok (nd, s\<lparr>ed_state := STATE_FINAL\<rparr>, False))
       | None \<Rightarrow>
           if \<not> is_from_private_side (nd_config nd) (get_destaddress (nt_mri msg)) then Ok (nd, s\<lparr>ed_state := STATE_FINAL\<rparr>, False)
           else if l = 0 then Ok (nd, s\<lparr>ed_state := STATE_FINAL\<rparr>, False)
           else if is_nf_firewall (nd_config nd) \<and> get_rule_action b = 2 then
             bindR (build_fw_policy_rule msg b) (\<lambda>r. case r of
                Inl _ \<Rightarrow> Ok (nd, s1, True)
              | Inr rule \<Rightarrow> (case install_policy_rules env None rule nd of
                   (nd, True) \<Rightarrow> Ok (nd, s1, True) | (nd, False) \<Rightarrow> ed_setup env sid msg b nd s1))
           else ed_setup env sid msg b nd s1)"
      using lt rest [OF _ frame_refl] deny final by (simp del: safeR_bindR)
  qed (use err in \<open>simp only: option.case\<close>)
qed (use ok n in \<open>simp add: ed_handle_state_idle_def keeps_node_refl\<close>)

lemma ed_close_safe:
  assumes td: "\<And>sid nd. node_ok nd \<Longrightarrow> safeR (keeps_node nd) (teardown sid nd)"
    and ok: "session_ok (nd_config nd) (NF_edge_session s)" and n: "node_ok nd"
  shows "safeR (ed_post nd) (ed_close teardown env nd s)"
proof -
  define nd1 where "nd1 = release_external_address (ed_ext_addr s) nd"
  have k1: "keeps_node nd nd1" by (rule keeps_node_frame [OF keeps_node_refl [OF n]]) (simp add: nd1_def frame_pool)
  have k2: "keeps_node nd nd2" if "keeps_node nd1 nd2" for nd2 using k1 that by (simp add: keeps_node_def)
  have k3: "keeps_node nd nd3" if "keeps_node nd1 nd2" "remove_policy_rules env x y nd2 = (nd3, th)" for nd2 nd3 x y th
    using keeps_node_frame [OF k2 [OF that(1)] frame_rules(2) [OF that(2)]] .
  have t: "safeR (keeps_node nd1) (teardown (proxy_session_id s) nd1)" using td k1 by (simp add: keeps_node_def)
  have p: "safeR (ed_post nd) (if ed_proxy_mode s then tg_teardown_proxy teardown env nd1 s else Ok (nd1, s, False))"
    using k1 ok k3 by (auto simp: tg_teardown_proxy_def split: prod.split intro!: safeR_mono [OF t])
  show ?thesis unfolding ed_close_def Let_def nd1_def [symmetric] safeR_bindR
    by (rule safeR_mono [OF p]) auto
qed

lemma ed_safe:
  assumes td: "\<And>sid nd. node_ok nd \<Longrightarrow> safeR (keeps_node nd) (teardown sid nd)"
    and ev: "event_ok evt" and ok: "session_ok (nd_config nd) (NF_edge_session s)" and n: "node_ok nd"
  shows "safeR (ed_post nd) (ed_process_event teardown env sid evt nd s)"
proof -
  have k: "keeps_node nd (nd\<lparr>sent := x\<rparr>)" "keeps_node nd (nd\<lparr>sent := x, n_timers := y\<rparr>)" for x y
    by (rule keeps_node_frame [OF keeps_node_refl [OF n]], simp)+
  have "safeR (ed_post nd) (ed_handle_state_session teardown env evt nd s)" if "ed_state s = STATE_SESSION"
  proof (cases "event_msg Natfw_ext evt")
    case (Some p)
    then obtain m b where p: "event_msg Natfw_ext evt = Some (m, b)" by (cases p) simp
    then show ?thesis using event_ok_msg(2) [OF ev p] ok k ed_close_safe [where env = env, OF td ok n] keeps_node_refl [OF n]
      by (auto simp: ed_handle_state_session_def get_msn_safe node_op_defs split: option.split)
  qed (use ok ed_close_safe [where env = env, OF td ok n] keeps_node_refl [OF n] in \<open>simp add: ed_handle_state_session_def\<close>)
  then show ?thesis using ed_idle_safe [OF ev ok n] ok keeps_node_refl [OF n]
    by (cases "ed_state s") (simp_all add: ed_process_event_def)
qed

section \<open>The dispatcher\<close>

lemma session_process_safe:
  assumes td: "\<And>sid nd. node_ok nd \<Longrightarrow> safeR (keeps_node nd) (teardown sid nd)"
    and ev: "event_ok evt" and ok: "session_ok (nd_config nd) s" and n: "node_ok nd"
  shows "safeR (session_post nd) (session_process teardown env sid evt nd s)"
proof -
  note k = keeps_node_frame [OF keeps_node_refl [OF n]]
  show ?thesis
  proof (cases s)
    case (NI_session t)
    then show ?thesis using ok by (auto intro!: safeR_mono [OF ni_safe [OF ev]] k simp del: session_ok.simps)
  next
    case (NR_session t)
    then show ?thesis using ok by (auto intro!: safeR_mono [OF nr_safe [OF ev]] k simp del: session_ok.simps)
  next
    case (NF_session t)
    then show ?thesis using ok by (auto intro!: safeR_mono [OF nf_safe [OF ev]] k simp del: session_ok.simps)
  next
    case (NR_ext_session t)
    then show ?thesis using ok by (auto intro!: safeR_mono [OF ne_safe [OF ev]] k simp del: session_ok.simps)
  next
    case (NF_edge_session t)
    then show ?thesis using ok by (auto intro!: safeR_mono [OF ed_safe [OF td ev _ n]] simp del: session_ok.simps)
  next
    case (NF_non_edge_session t)
    then show ?thesis using ok by (auto intro!: safeR_mono [OF no_safe [OF ev]] k simp del: session_ok.simps)
  qed
qed

lemma create_session_safe:
  assumes n: "node_ok nd"
  shows "safeR (\<lambda>(nd', found). keeps_node nd nd' \<and> (case found of Some (sid, s) \<Rightarrow> session_ok (nd_config nd) s | None \<Rightarrow> True))
    (create_session env evt nd)"
proof (cases evt)
  case (Api_create_event e)
  then show ?thesis unfolding create_session_def
    using create_ni_safe [OF n, of env] by (auto elim!: safeR_mono)
next
  case (Api_ext_event e)
  have "safeR (\<lambda>(nd', sid). keeps_node nd nd') (create_unique_id (id_tries env) env nd)"
    by (rule safeR_mono [OF unique_id_safe]) (auto intro: keeps_node_frame [OF keeps_node_refl [OF n]])
  then show ?thesis using Api_ext_event unfolding create_session_def
    by (auto elim!: safeR_mono intro!: keeps_node_put simp: new_nr_ext_session_def node_op_defs)
next
  case (Msg_event sid m f)
  then show ?thesis using keeps_node_refl [OF n]
    by (auto simp: create_session_def Let_def new_nr_session_def new_nf_session_def new_nf_edge_ext_session_def
        new_nf_non_edge_ext_session_def intro!: keeps_node_put)
qed (use keeps_node_refl [OF n] in \<open>simp_all add: create_session_def\<close>)

lemma process_with_safe:
  assumes td: "\<And>sid nd. node_ok nd \<Longrightarrow> safeR (keeps_node nd) (teardown sid nd)"
    and ev: "event_ok evt" and n: "node_ok nd"
  shows "safeR (keeps_node nd) (process_with teardown env evt nd)"
proof -
  define look where "look = (case get_session_id evt of
       Some sid \<Rightarrow> (case get_session sid nd of Some s \<Rightarrow> Ok (nd, Some (sid, s)) | None \<Rightarrow> create_session env evt nd)
     | None \<Rightarrow> create_session env evt nd)"
  define act where "act = (\<lambda>(nd, found). case found of
       None \<Rightarrow> Ok nd
     | Some (sid, s) \<Rightarrow> bindR (session_process teardown env sid evt nd s) (\<lambda>(nd, s, thrown).
         Ok (if thrown \<or> is_final s then remove_session sid nd else put_session sid s nd)))"
  have l: "safeR (\<lambda>(nd', found). keeps_node nd nd' \<and> (case found of Some (sid, s) \<Rightarrow> session_ok (nd_config nd) s | None \<Rightarrow> True)) look"
    using create_session_safe [OF n, of env evt] keeps_node_refl [OF n] n
    by (auto simp: look_def get_session_def node_ok_def split: option.split)
  have a: "safeR (keeps_node nd) (act (nd1, Some (sid, s)))" if k: "keeps_node nd nd1" and ok: "session_ok (nd_config nd) s" for nd1 sid s
  proof -
    have c: "nd_config nd1 = nd_config nd" "node_ok nd1" using k by (simp_all add: keeps_node_def)
    have "safeR (session_post nd1) (session_process teardown env sid evt nd1 s)"
      using session_process_safe [OF td ev _ c(2)] ok c by simp
    moreover have "keeps_node nd nd2" if "keeps_node nd1 nd2" for nd2 using that k by (simp add: keeps_node_def)
    ultimately show ?thesis using c
      by (auto simp: act_def session_post_def intro!: keeps_node_put keeps_node_remove elim!: safeR_mono)
  qed
  have "safeR (keeps_node nd) (bindR look act)" unfolding safeR_bindR
    by (rule safeR_mono [OF l]) (use a in \<open>auto split: option.splits simp: act_def\<close>)
  then show ?thesis unfolding process_with_def look_def [symmetric] act_def [symmetric]
    using keeps_node_refl [OF n] by (cases evt) simp_all
qed

lemma process_teardown_safe:
  assumes "node_ok nd"
  shows "safeR (keeps_node nd) (process_teardown env sid nd)"
  unfolding process_teardown_def by (rule process_with_safe) (use assms in \<open>simp_all add: event_ok_def\<close>)

lemma process_safe:
  assumes "event_ok evt" "node_ok nd"
  shows "safeR (keeps_node nd) (process env evt nd)"
  unfolding process_def by (rule process_with_safe [OF process_teardown_safe assms])

end
