(* ===== verification/NF_Ledger.thy ===== *)
theory NF_Ledger
  imports NF_Inv
begin

text \<open>
  What the sessions of a node hold, external ports and policy rules in force, against what the node has:
  a ledger that balances over every event. The two ledgers share their proof through a locale.
\<close>

section \<open>Partial correctness\<close>

definition okR :: "('a \<Rightarrow> bool) \<Rightarrow> 'a result \<Rightarrow> bool" where
  "okR P r \<longleftrightarrow> (case r of Ok x \<Rightarrow> P x | Fail f \<Rightarrow> True)"

lemma okR_simps [simp]:
  "okR P (Ok x) \<longleftrightarrow> P x" "okR P (Fail e)" "okR P (guardR c e' m') \<longleftrightarrow> (c \<longrightarrow> okR P m')"
  by (simp_all add: okR_def guardR_def)

lemma okR_bindR [simp]: "okR P (bindR m f) \<longleftrightarrow> okR (\<lambda>x. okR P (f x)) m"
  by (cases m) simp_all

lemma okR_mapR [simp]: "okR P (mapR g m) \<longleftrightarrow> okR (\<lambda>x. P (g x)) m"
  by (cases m) simp_all

lemma okR_send_message [simp]:
  "okR P (send_message m nd) \<longleftrightarrow> (sendable m \<longrightarrow> P (nd\<lparr>sent := sent nd @ [m]\<rparr>))"
  by (simp add: send_message_def sendable_def split: option.splits)

lemma okR_mono: "okR P m \<Longrightarrow> (\<And>x. P x \<Longrightarrow> Q x) \<Longrightarrow> okR Q m"
  by (cases m) simp_all

lemma okR_Ok: "okR P m \<Longrightarrow> m = Ok x \<Longrightarrow> P x"
  by simp

lemma okR_const: "P \<Longrightarrow> okR (\<lambda>x. P) m"
  by (cases m) simp_all

lemma okR_any: "(\<And>x. P x) \<Longrightarrow> okR P m"
  by (cases m) simp_all

section \<open>Handlers that touch neither ports nor rules\<close>

definition quiet :: "node \<Rightarrow> node \<Rightarrow> bool" where
  "quiet nd nd' \<longleftrightarrow> available nd' = available nd \<and> rule_calls nd' = rule_calls nd"

lemma quiet_updates [simp]:
  "quiet nd (nd'\<lparr>sent := x\<rparr>) \<longleftrightarrow> quiet nd nd'" "quiet nd (nd'\<lparr>n_timers := t\<rparr>) \<longleftrightarrow> quiet nd nd'"
  "quiet nd (nd'\<lparr>n_random := t\<rparr>) \<longleftrightarrow> quiet nd nd'" "quiet nd (nd'\<lparr>returned_ids := r\<rparr>) \<longleftrightarrow> quiet nd nd'"
  "quiet nd (nd'\<lparr>query_answers := q\<rparr>) \<longleftrightarrow> quiet nd nd'"
  "quiet nd (put_session sid s nd') \<longleftrightarrow> quiet nd nd'" "quiet nd (remove_session sid nd') \<longleftrightarrow> quiet nd nd'"
  by (simp_all add: quiet_def put_session_def remove_session_def)

lemma quiet_refl [simp]: "quiet nd nd"
  by (simp add: quiet_def)

lemma quiet_trans: "quiet a b \<Longrightarrow> quiet b c \<Longrightarrow> quiet a c"
  by (simp add: quiet_def)

lemma ni_parts_quiet:
  "okR (\<lambda>(nd', s'). quiet nd nd') (ni_handle_state_idle env sid evt nd s)"
  "okR (\<lambda>(nd', s'). quiet nd nd') (ni_response_event env resp nd s)"
  "okR (\<lambda>(nd', s'). quiet nd nd') (ni_response_timeout_event env nd s)"
  "okR (\<lambda>(nd', s'). quiet nd nd') (ni_teardown_event sid nd s)"
  by (simp_all add: ni_handle_state_idle_def ni_response_event_def ni_response_timeout_event_def ni_teardown_event_def
      ni_setup_session_def build_create_message_def
      ni_last_def is_response_to_def get_msg_sequence_number_def node_op_defs split: option.split natfw_event.split)

lemma ni_session_quiet: "okR (\<lambda>(nd', s'). quiet nd nd') (ni_handle_state_session env sid evt nd s)"
  using ni_parts_quiet
  by (simp add: ni_handle_state_session_def ni_last_def build_create_message_def node_op_defs split: option.split)

lemma ni_quiet: "okR (\<lambda>(nd', s'). quiet nd nd') (ni_process_event env sid evt nd s)"
  using ni_parts_quiet ni_session_quiet
  by (simp add: ni_process_event_def ni_handle_state_waitresp_def split: state_t.split option.split)

lemma nr_quiet: "okR (\<lambda>(nd', s'). quiet nd nd') (nr_process_event env evt nd s)"
  by (simp add: nr_process_event_def nr_handle_state_idle_def nr_handle_state_session_def get_msg_sequence_number_def node_op_defs
      split: state_t.split option.split)

lemma ne_setup_quiet: "okR (\<lambda>(nd', s'). quiet nd nd') (ne_setup_session env sid e s nd)"
  by (simp add: ne_setup_session_def node_op_defs)

lemma ne_parts_quiet:
  "okR (\<lambda>(nd', s'). quiet nd nd') (ne_response_event env resp nd s)"
  "okR (\<lambda>(nd', s'). quiet nd nd') (ne_response_timeout_event env nd s)"
  "okR (\<lambda>(nd', s'). quiet nd nd') (ne_teardown_event nd s)"
  by (simp_all add: ne_response_event_def ne_response_timeout_event_def ne_teardown_event_def build_ext_message_def
      ne_last_def is_response_to_def get_msg_sequence_number_def node_op_defs split: option.split)

lemma ne_idle_quiet: "okR (\<lambda>(nd', s'). quiet nd nd') (ne_handle_state_idle env sid evt nd s)"
proof (cases evt)
  case (Api_ext_event e)
  show ?thesis unfolding ne_handle_state_idle_def Api_ext_event natfw_event.case okR_bindR
    by (rule okR_mono [OF ne_setup_quiet]) (auto simp: build_ext_message_def node_op_defs split: option.split)
qed (simp_all add: ne_handle_state_idle_def)

lemma ne_quiet: "okR (\<lambda>(nd', s'). quiet nd nd') (ne_process_event env sid evt nd s)"
  using ne_parts_quiet ne_idle_quiet
  by (simp add: ne_process_event_def ne_handle_state_waitresp_def ne_handle_state_session_def build_ext_message_def node_op_defs
      split: state_t.split option.split)

lemmas no_step_defs = no_last_def is_response_to_def get_msg_sequence_number_def node_op_defs

lemma no_idle_rules: "okR (\<lambda>(nd', s'). rule_calls nd' = rule_calls nd) (no_handle_state_idle env evt nd s)"
  by (simp add: no_handle_state_idle_def no_step_defs split: option.split)

lemma no_waitresp_rules: "okR (\<lambda>(nd', s'). rule_calls nd' = rule_calls nd) (no_handle_state_waitresp env evt nd s)"
  by (cases "event_msg Natfw_response evt"; cases "event_msg Natfw_ext evt")
     (auto simp: no_handle_state_waitresp_def no_step_defs split: option.split)

lemma no_session_ext_rules: "okR (\<lambda>(nd', s'). rule_calls nd' = rule_calls nd) (no_session_ext env evt msg ext nd s)"
  by (simp add: no_session_ext_def no_step_defs release_external_address_def split: option.split)

lemma no_session_rules: "okR (\<lambda>(nd', s'). rule_calls nd' = rule_calls nd) (no_handle_state_session env evt nd s)"
  using no_session_ext_rules
  by (cases "event_msg Natfw_response evt"; cases "event_msg Natfw_ext evt")
     (auto simp: no_handle_state_session_def no_step_defs release_external_address_def split: option.split)

lemma no_keeps_rules: "okR (\<lambda>(nd', s'). rule_calls nd' = rule_calls nd) (no_process_event env evt nd s)"
  using no_idle_rules no_waitresp_rules no_session_rules
  by (simp add: no_process_event_def split: state_t.split)

section \<open>What sessions hold\<close>

primrec port_held :: "u16 \<Rightarrow> natfw_session \<Rightarrow> bool" where
  "port_held p (NI_session s) \<longleftrightarrow> False"
| "port_held p (NR_session s) \<longleftrightarrow> False"
| "port_held p (NF_session s) \<longleftrightarrow>
     nf_state s \<in> {STATE_WAITRESP, STATE_SESSION} \<and> map_option ap_port (nf_ext_addr s) = Some p"
| "port_held p (NR_ext_session s) \<longleftrightarrow> False"
| "port_held p (NF_edge_session s) \<longleftrightarrow> ed_state s = STATE_SESSION \<and> ap_port (ed_ext_addr s) = p"
| "port_held p (NF_non_edge_session s) \<longleftrightarrow> False"

primrec rules_held :: "nat_policy_rule option \<Rightarrow> fw_policy_rule option \<Rightarrow> natfw_session \<Rightarrow> bool" where
  "rules_held a b (NI_session s) \<longleftrightarrow> False"
| "rules_held a b (NR_session s) \<longleftrightarrow> False"
| "rules_held a b (NF_session s) \<longleftrightarrow> nf_state s = STATE_SESSION \<and> nf_nat_rule s = a \<and> nf_fw_rule s = b"
| "rules_held a b (NR_ext_session s) \<longleftrightarrow> False"
| "rules_held a b (NF_edge_session s) \<longleftrightarrow>
     ed_state s = STATE_SESSION \<and> ed_proxy_mode s \<and> ed_nat_rule s = a \<and> ed_fw_rule s = b"
| "rules_held a b (NF_non_edge_session s) \<longleftrightarrow> False"

definition free_ports :: "u16 \<Rightarrow> node \<Rightarrow> int" where
  "free_ports p nd = int (count_list (available nd) p)"

definition rules_absent :: "nat_policy_rule option \<Rightarrow> fw_policy_rule option \<Rightarrow> node \<Rightarrow> int" where
  "rules_absent a b nd = int (count_list (rule_calls nd) (Remove a b)) - int (count_list (rule_calls nd) (Install a b))"

text \<open>A step of a session moves ports and rules between the node and the session and loses none.\<close>

definition moves_ports :: "node \<Rightarrow> natfw_session \<Rightarrow> node \<Rightarrow> natfw_session \<Rightarrow> bool" where
  "moves_ports nd s nd' s' \<longleftrightarrow>
     (\<forall>p. free_ports p nd' + of_bool (port_held p s') = free_ports p nd + of_bool (port_held p s))"

definition moves_rules :: "node \<Rightarrow> natfw_session \<Rightarrow> node \<Rightarrow> natfw_session \<Rightarrow> bool" where
  "moves_rules nd s nd' s' \<longleftrightarrow>
     (\<forall>a b. rules_absent a b nd' + of_bool (rules_held a b s') = rules_absent a b nd + of_bool (rules_held a b s))"

lemmas moves_defs = moves_ports_def moves_rules_def free_ports_def rules_absent_def

definition never_refuses :: "natfw_env \<Rightarrow> bool" where
  "never_refuses env \<longleftrightarrow> (\<forall>c. \<not> installer_refuses env c)"

lemma count_list_snoc [simp]: "count_list (xs @ [x]) y = count_list xs y + (if x = y then 1 else 0)"
  by (induction xs) auto

section \<open>The forwarder of a CREATE session\<close>

definition nf_moves :: "node \<Rightarrow> nf_session \<Rightarrow> node \<times> nf_session \<times> bool \<Rightarrow> bool" where
  "nf_moves nd s r \<longleftrightarrow> (case r of (nd', s', thrown) \<Rightarrow>
     \<not> thrown \<and> moves_ports nd (NF_session s) nd' (NF_session s') \<and> moves_rules nd (NF_session s) nd' (NF_session s'))"

lemma nf_moves_iff [simp]:
  "nf_moves nd s (nd', s', thrown) \<longleftrightarrow>
     \<not> thrown \<and> moves_ports nd (NF_session s) nd' (NF_session s') \<and> moves_rules nd (NF_session s) nd' (NF_session s')"
  by (simp add: nf_moves_def)

lemma nf_release_free [simp]:
  "free_ports p (nf_release s nd) = free_ports p nd + of_bool (map_option ap_port (nf_ext_addr s) = Some p)"
  "rules_absent a b (nf_release s nd) = rules_absent a b nd"
  by (simp_all add: nf_release_def release_external_address_def free_ports_def rules_absent_def split: option.split)

lemma free_updates [simp]:
  "free_ports p (nd\<lparr>sent := x\<rparr>) = free_ports p nd" "rules_absent a b (nd\<lparr>sent := x\<rparr>) = rules_absent a b nd"
  "free_ports p (nd\<lparr>n_timers := t\<rparr>) = free_ports p nd" "rules_absent a b (nd\<lparr>n_timers := t\<rparr>) = rules_absent a b nd"
  "free_ports p (nd\<lparr>rule_calls := c\<rparr>) = free_ports p nd"
  by (simp_all add: free_ports_def rules_absent_def)

lemma absent_calls [simp]:
  "rules_absent a b (nd\<lparr>rule_calls := rule_calls nd @ [Install c d]\<rparr>) = rules_absent a b nd - of_bool (c = a \<and> d = b)"
  "rules_absent a b (nd\<lparr>rule_calls := rule_calls nd @ [Remove c d]\<rparr>) = rules_absent a b nd + of_bool (c = a \<and> d = b)"
  by (simp_all add: rules_absent_def)

lemma never_refuses_calls [simp]:
  "never_refuses env \<Longrightarrow> install_policy_rules env c d nd = (nd\<lparr>rule_calls := rule_calls nd @ [Install c d]\<rparr>, False)"
  "never_refuses env \<Longrightarrow> remove_policy_rules env c d nd = (nd\<lparr>rule_calls := rule_calls nd @ [Remove c d]\<rparr>, False)"
  by (simp_all add: never_refuses_def install_policy_rules_def remove_policy_rules_def)

lemma nf_close_moves:
  assumes "never_refuses env" "nf_state s = STATE_SESSION"
  shows "okR (nf_moves nd s) (nf_close env m nd s)"
proof -
  define nd1 where "nd1 = nd\<lparr>rule_calls := rule_calls nd @ [Remove (nf_nat_rule s) (nf_fw_rule s)]\<rparr>"
  have "okR (\<lambda>nd'. nf_moves nd s (nf_release s nd', s\<lparr>nf_state := STATE_FINAL\<rparr>, False))
      (case x of Some m \<Rightarrow> send_message m nd1 | None \<Rightarrow> Ok nd1)" for x
    using assms(2) by (auto simp: nd1_def moves_ports_def moves_rules_def split: option.split)
  then show ?thesis using assms(1) unfolding nf_close_def
    by (simp add: nd1_def [symmetric] okR_const)
qed

lemma nf_abandon_moves:
  assumes "nf_state s = STATE_WAITRESP" "nf_ext_addr t = nf_ext_addr s"
  shows "okR (nf_moves nd s) (nf_abandon m nd t)"
  using assms by (auto simp: nf_abandon_def moves_ports_def moves_rules_def)

lemma nf_refuse_moves:
  assumes "nf_state s = st \<or> st = STATE_FINAL \<and> nf_state s = STATE_IDLE"
  shows "okR (nf_moves nd s) (nf_refuse e m st nd s)"
  using assms by (auto simp: nf_refuse_def moves_ports_def moves_rules_def)

lemma nf_nat_setup_moves:
  assumes "nf_ext_addr s = None"
  shows "okR (\<lambda>(nd', r). (\<forall>a b. rules_absent a b nd' = rules_absent a b nd) \<and>
      (case r of Inl e \<Rightarrow> \<forall>p. free_ports p nd' = free_ports p nd
       | Inr s' \<Rightarrow> \<forall>p. free_ports p nd' + of_bool (map_option ap_port (nf_ext_addr s') = Some p) = free_ports p nd))
      (nf_nat_setup msg m nd s)"
  using assms
  by (auto simp: nf_nat_setup_def create_mri_with_dest_def create_mri_with_source_def create_mri_inverted_def
      save_nat_policy_rule_def reserve_external_address_def free_ports_def rules_absent_def Let_def
      split: sum.split list.split)

lemma nf_forward_moves:
  assumes "nf_ext_addr t = None" "nf_state s = STATE_IDLE"
  shows "okR (nf_moves nd s) (nf_forward_create env msg m nd t)"
  unfolding nf_forward_create_def okR_bindR
proof (rule okR_mono [OF nf_nat_setup_moves [OF assms(1), of nd msg m]], clarify)
  fix nd' and r :: "request_error + nf_session"
  assume a: "\<forall>a b. rules_absent a b nd' = rules_absent a b nd"
    and r: "case r of Inl e \<Rightarrow> \<forall>p. free_ports p nd' = free_ports p nd
       | Inr s' \<Rightarrow> \<forall>p. free_ports p nd' + of_bool (map_option ap_port (nf_ext_addr s') = Some p) = free_ports p nd"
  show "okR (nf_moves nd s) (case r of Inl e \<Rightarrow> nf_refuse e msg STATE_FINAL nd' t
      | Inr s \<Rightarrow> bindR (create_msg_for_nr (nd_config nd') s msg) (\<lambda>m. bindR (send_message m nd') (\<lambda>nd.
             let (nd, t) = start_timer env nd
             in Ok (nd, s\<lparr>nf_state_timer := t, nf_state := STATE_WAITRESP\<rparr>, False))))"
    using a r assms(2)
    by (cases r) (auto simp: nf_refuse_def moves_ports_def moves_rules_def node_op_defs create_msg_for_nr_def split: option.split)
qed

lemma idle_create_moves:
  assumes "nf_ext_addr s = None" "nf_state s = STATE_IDLE"
  shows "okR (nf_moves nd s) (handle_state_idle_create env msg b nd s)"
proof -
  define s0 where "s0 = s\<lparr>nf_create_message := Some msg\<rparr>"
  have fw: "okR (\<lambda>r. case r of Inl e \<Rightarrow> True | Inr s' \<Rightarrow> nf_ext_addr s' = None)
      (if is_nf_firewall (nd_config nd) then save_fw_policy_rule msg b s0 else Ok (Inr s0))"
    using assms by (auto simp: save_fw_policy_rule_def s0_def split: mri.split)
  have refuse: "okR (nf_moves nd s) (nf_refuse e msg STATE_FINAL nd s0)" for e
    using assms(2) by (auto simp: nf_refuse_def s0_def moves_ports_def moves_rules_def)
  show ?thesis unfolding handle_state_idle_create_def Let_def s0_def [symmetric] okR_bindR
    by (rule okR_mono [OF fw])
       (use refuse nf_forward_moves [OF _ assms(2)] in \<open>auto split: sum.split mri.split\<close>)
qed

lemma nf_idle_moves:
  assumes "nf_ext_addr s = None" "nf_state s = STATE_IDLE"
  shows "okR (nf_moves nd s) (nf_handle_state_idle env evt nd s)"
proof (cases "event_msg Natfw_create evt")
  case (Some p)
  then obtain msg b where p: "event_msg Natfw_create evt = Some (msg, b)" by (cases p) simp
  have same: "nf_moves nd s r" if "nf_moves nd (s\<lparr>nf_max_lifetime := x, nf_timeout := y, nf_lifetime := l, nf_msn := k\<rparr>) r" for r x y l k
    using that by (simp add: nf_moves_def moves_ports_def moves_rules_def split: prod.splits)
  have create: "okR (nf_moves nd s) (handle_state_idle_create env msg b nd
      (s\<lparr>nf_max_lifetime := x, nf_timeout := y, nf_lifetime := l, nf_msn := k\<rparr>))" for x y l k
    by (rule okR_mono [OF idle_create_moves same]) (use assms in simp_all)
  have refuse: "okR (nf_moves nd s) (nf_refuse e msg STATE_FINAL nd (s\<lparr>nf_max_lifetime := x, nf_timeout := y\<rparr>))" for e x y
    using assms(2) by (auto simp: nf_refuse_def moves_ports_def moves_rules_def)
  have final: "nf_moves nd s (nd, s\<lparr>nf_max_lifetime := x, nf_timeout := y, nf_state := STATE_FINAL\<rparr>, False)" for x y
    using assms(2) by (simp add: moves_ports_def moves_rules_def)
  show ?thesis using create refuse final
    by (auto simp: nf_handle_state_idle_def p Let_def get_msg_sequence_number_def simp del: nf_moves_iff split: option.split)
qed (use assms in \<open>simp add: nf_handle_state_idle_def moves_ports_def moves_rules_def\<close>)

lemma nf_waitresp_moves:
  assumes env: "never_refuses env" and ok: "session_ok (nd_config nd) (NF_session s)" and st: "nf_state s = STATE_WAITRESP"
  shows "okR (nf_moves nd s) (nf_handle_state_waitresp env evt nd s)"
proof -
  have abandon: "okR (nf_moves nd s) (nf_abandon m nd (s\<lparr>nf_state_timer := t\<rparr>))" "okR (nf_moves nd s) (nf_abandon m nd s)" for m t
    by (rule nf_abandon_moves; use st in simp)+
  have response: "okR (nf_moves nd s) (nf_waitresp_response env m r nd s)" for m r
    using env st abandon
    by (auto simp: nf_waitresp_response_def create_msg_for_ni_def node_op_defs moves_ports_def moves_rules_def split: option.split)
  have create: "okR (nf_moves nd s) (nf_waitresp_create env evt m c b nd s)" for m c b
    using abandon st
    by (auto simp: nf_waitresp_create_def get_msg_sequence_number_def node_op_defs moves_ports_def moves_rules_def
        simp del: nf_moves_iff split: option.split) (simp_all add: moves_ports_def moves_rules_def)
  have proxy: "okR (nf_moves nd s) (nf_waitresp_proxy env m nd s)" if "\<not> is_nf_nat (nd_config nd)" for m
    using env st ok that by (auto simp: nf_waitresp_proxy_def moves_ports_def moves_rules_def)
  have stay: "nf_moves nd s (nd, s, False)" by (simp add: moves_ports_def moves_rules_def)
  show ?thesis using response create proxy abandon stay
    by (auto simp: nf_handle_state_waitresp_def nf_last_def is_response_to_def get_msg_sequence_number_def
        simp del: nf_moves_iff split: option.split)
qed

lemma nf_session_moves:
  assumes env: "never_refuses env" and st: "nf_state s = STATE_SESSION" and ev: "\<not> is_route_changed_bad_event evt"
  shows "okR (nf_moves nd s) (nf_handle_state_session env evt nd s)"
proof -
  have same: "nf_moves nd s r" if "nf_moves nd (s\<lparr>nf_state_timer := x, nf_response_timer := y\<rparr>) r" for r x y
    using that by (simp add: nf_moves_def moves_ports_def moves_rules_def split: prod.splits)
  have close: "okR (nf_moves nd s) (nf_close env m nd (s\<lparr>nf_state_timer := x, nf_response_timer := y\<rparr>))"
     for m x y
    by (rule okR_mono [OF nf_close_moves [OF env] same]) (use st in simp_all)
  have close': "okR (nf_moves nd s) (nf_close env m nd s)" "okR (nf_moves nd s) (nf_close env m nd (s\<lparr>nf_response_timer := y\<rparr>))" for m y
    using nf_close_moves [OF env st] close [where x = "nf_state_timer s" and y = y and m = m] by simp_all
  have refuse: "okR (nf_moves nd s) (nf_refuse e m STATE_SESSION nd s)" for e m by (rule nf_refuse_moves) (use st in simp)
  have create: "okR (nf_moves nd s) (nf_session_create env evt m c nd s)" for m c
    using close refuse
    by (auto simp: nf_session_create_def get_msg_sequence_number_def create_msg_for_nr_def node_op_defs
        simp del: nf_moves_iff split: option.split) (simp_all add: moves_ports_def moves_rules_def st)
  have response: "okR (nf_moves nd s) (nf_session_response env m r nd s)" for m r
    using close'(1)
    by (auto simp: nf_session_response_def create_msg_for_ni_def node_op_defs
        simp del: nf_moves_iff split: option.split) (simp_all add: moves_ports_def moves_rules_def st)
  have stay: "nf_moves nd s (nd, s, False)" by (simp add: moves_ports_def moves_rules_def)
  show ?thesis using response create close close' stay ev
    by (auto simp: nf_handle_state_session_def nf_last_def is_response_to_def get_msg_sequence_number_def
        simp del: nf_moves_iff split: option.split)
qed

lemma nf_process_moves:
  assumes "never_refuses env" "session_ok (nd_config nd) (NF_session s)" "\<not> is_route_changed_bad_event evt"
  shows "okR (nf_moves nd s) (nf_process_event env evt nd s)"
  using nf_idle_moves [of s nd env evt] nf_waitresp_moves [OF assms(1,2)] nf_session_moves [OF assms(1) _ assms(3)] assms(2)
  by (cases "nf_state s") (simp_all add: nf_process_event_def moves_ports_def moves_rules_def)

section \<open>The forwarder at the edge\<close>

lemma unique_id_quiet: "okR (\<lambda>(nd', sid). quiet nd nd') (create_unique_id n env nd)"
proof (induction n arbitrary: nd)
  case (Suc n)
  have "okR (\<lambda>(nd', sid). quiet nd nd') (create_unique_id n env (nd\<lparr>n_random := n_random nd + 1\<rparr>))"
    using Suc [of "nd\<lparr>n_random := n_random nd + 1\<rparr>"] by (auto elim!: okR_mono simp: quiet_def)
  then show ?case by (simp add: random_number_def)
qed simp

lemma create_ni_quiet: "okR (\<lambda>(nd', sid, s). quiet nd nd') (create_ni_session env nd)"
  unfolding create_ni_session_def okR_bindR
  by (rule okR_mono [OF unique_id_quiet]) (auto simp: new_ni_session_def node_op_defs)

lemma create_proxy_quiet: "okR (\<lambda>(nd', sid). quiet nd nd') (create_ni_proxy_session env e nonce nd)"
  unfolding create_ni_proxy_session_def okR_bindR
proof (rule okR_mono [OF create_ni_quiet], clarify)
  fix nd1 sid s assume q: "quiet nd nd1"
  show "okR (\<lambda>(nd', sid). quiet nd nd') (bindR (ni_process_event env sid (Api_create_event e) nd1
      (s\<lparr>ni_nonce := nonce, ni_proxy_session := True\<rparr>)) (\<lambda>(nd, s). Ok (put_session sid (NI_session s) nd, sid)))"
    unfolding okR_bindR by (rule okR_mono [OF ni_quiet]) (auto intro: quiet_trans [OF q])
qed

lemma tg_create_proxy_moves:
  assumes "never_refuses env"
  shows "okR (\<lambda>(nd', s', thrown). \<not> thrown \<and> available nd' = available nd \<and>
      (\<forall>a b. rules_absent a b nd' = rules_absent a b nd - of_bool (ed_nat_rule s' = a \<and> ed_fw_rule s' = b)) \<and>
      ed_proxy_mode s' = ed_proxy_mode s \<and> ed_ext_addr s' = ed_ext_addr s) (tg_create_proxy env msg b nd s)"
proof (cases "nt_mri msg")
  case (Mri_pc m)
  show ?thesis unfolding tg_create_proxy_def Mri_pc mri.case okR_bindR
    by (rule okR_mono [OF create_proxy_quiet]) (use assms in \<open>auto simp: Let_def quiet_def rules_absent_def\<close>)
qed (simp_all add: tg_create_proxy_def)

lemma send_message_Ok [result_simps]:
  "send_message m nd = Ok nd' \<longleftrightarrow> sendable m \<and> nd' = nd\<lparr>sent := sent nd @ [m]\<rparr>"
  by (auto simp: send_message_def sendable_def result_simps split: option.splits)

lemma ed_answer_moves:
  assumes env: "never_refuses env" and r: "ed_answer env sid msg b addr nd s = Ok (nd', s', thrown)"
  shows "\<not> thrown" "available nd' = available nd" "ed_state s' = STATE_SESSION" "ed_ext_addr s' = ed_ext_addr s"
    "rules_absent x y nd' = rules_absent x y nd - of_bool (rules_held x y (NF_edge_session s'))"
proof -
  obtain resp where resp: "build_edge_device_response sid msg b addr s = Ok resp" "sendable resp"
    using r by (auto simp: ed_answer_def result_simps)
  define nd1 where "nd1 = nd\<lparr>sent := sent nd @ [resp], n_timers := Suc (n_timers nd)\<rparr>"
  define s1 where "s1 = s\<lparr>ed_state_timer := timer_id env (n_timers nd)\<rparr>"
  have q: "available nd1 = available nd" "rules_absent x y nd1 = rules_absent x y nd" by (simp_all add: nd1_def)
  have "send_message resp nd = Ok (nd\<lparr>sent := sent nd @ [resp]\<rparr>)" using resp(2) by (simp add: send_message_Ok)
  then have r1: "bindR (if ed_proxy_mode s then tg_create_proxy env msg b nd1 s1 else Ok (nd1, s1, False))
      (\<lambda>(nd, s, thrown). Ok (nd, if thrown then s else s\<lparr>ed_state := STATE_SESSION\<rparr>, thrown)) = Ok (nd', s', thrown)"
    using r resp(1) by (simp add: ed_answer_def node_op_defs nd1_def s1_def cong: if_cong split del: if_split)
  have "\<not> thrown \<and> available nd' = available nd \<and> ed_state s' = STATE_SESSION \<and> ed_ext_addr s' = ed_ext_addr s \<and>
    rules_absent x y nd' = rules_absent x y nd - of_bool (rules_held x y (NF_edge_session s'))"
  proof (cases "ed_proxy_mode s")
    case True
    then obtain nd2 s2 th where p: "tg_create_proxy env msg b nd1 s1 = Ok (nd2, s2, th)"
      using r1 by (auto simp: result_simps)
    then show ?thesis using okR_Ok [OF tg_create_proxy_moves [OF env] p] True r1 q by (auto simp: s1_def)
  qed (use r1 q in \<open>auto simp: s1_def\<close>)
  then show "\<not> thrown" "available nd' = available nd" "ed_state s' = STATE_SESSION" "ed_ext_addr s' = ed_ext_addr s"
    "rules_absent x y nd' = rules_absent x y nd - of_bool (rules_held x y (NF_edge_session s'))"
    by simp_all
qed

lemma ed_setup_moves:
  assumes env: "never_refuses env" and r: "ed_setup env sid msg b nd s = Ok (nd', s', thrown)" and st: "ed_state s = STATE_IDLE"
  shows "is_nf_nat (nd_config nd) \<Longrightarrow> free_ports p nd' + of_bool (port_held p (NF_edge_session s')) = free_ports p nd"
    and "rules_absent x y nd' + of_bool (rules_held x y (NF_edge_session s')) = rules_absent x y nd"
    and "thrown \<Longrightarrow> ed_state s' = STATE_IDLE"
proof -
  have a: "rules_absent x y nd' + of_bool (rules_held x y (NF_edge_session s')) = rules_absent x y nd1 \<and>
      free_ports p nd' + of_bool (port_held p (NF_edge_session s')) = free_ports p nd1 + of_bool (ap_port (ed_ext_addr s1) = p) \<and> \<not> thrown"
    if "ed_answer env sid msg b addr nd1 s1 = Ok (nd', s', thrown)" for addr nd1 s1
    using ed_answer_moves [OF env that] by (simp add: free_ports_def)
  have reserve: "free_ports p nd1 + of_bool (ap_port a = p) = free_ports p nd \<and> rules_absent x y nd1 = rules_absent x y nd"
    if "reserve_external_address v nd = (nd1, Inr a)" for v nd1 a
    using that by (auto simp: reserve_external_address_def Let_def free_ports_def rules_absent_def split: list.splits)
  have none: "nd1 = nd" if "reserve_external_address v nd = (nd1, Inl e)" for v nd1 e
    using that by (auto simp: reserve_external_address_def Let_def split: list.splits)
  have "(is_nf_nat (nd_config nd) \<longrightarrow> free_ports p nd' + of_bool (port_held p (NF_edge_session s')) = free_ports p nd) \<and>
     rules_absent x y nd' + of_bool (rules_held x y (NF_edge_session s')) = rules_absent x y nd \<and> (thrown \<longrightarrow> ed_state s' = STATE_IDLE)"
  proof (cases "is_nf_nat (nd_config nd)")
    case True
    then obtain x' where g: "get_nr_address msg = Ok x'" using r by (auto simp: ed_setup_def result_simps)
    show ?thesis
    proof (cases x')
      case (Inl e)
      then show ?thesis using r True g st by (simp add: ed_setup_def)
    next
      case (Inr v)
      obtain nd1 w where w: "reserve_external_address v nd = (nd1, w)" by fastforce
      show ?thesis
      proof (cases w)
        case (Inl e)
        then show ?thesis using r True g Inr w none [of v nd1 e] by (auto simp: ed_setup_def result_simps)
      next
        case (Inr c)
        then have "ed_answer env sid msg b (Some c) nd1 (s\<lparr>ed_ext_addr := c\<rparr>) = Ok (nd', s', thrown)"
          using r True g \<open>x' = Inr v\<close> w by (simp add: ed_setup_def)
        then show ?thesis using a [of "Some c" nd1 "s\<lparr>ed_ext_addr := c\<rparr>"] reserve [of v nd1 c] w Inr by simp
      qed
    qed
  next
    case False
    then show ?thesis using a [of None nd s] r by (simp add: ed_setup_def)
  qed
  then show "is_nf_nat (nd_config nd) \<Longrightarrow> free_ports p nd' + of_bool (port_held p (NF_edge_session s')) = free_ports p nd"
    and "rules_absent x y nd' + of_bool (rules_held x y (NF_edge_session s')) = rules_absent x y nd"
    and "thrown \<Longrightarrow> ed_state s' = STATE_IDLE" by simp_all
qed

definition denies :: "natfw_event \<Rightarrow> bool" where
  "denies evt \<longleftrightarrow> (case event_msg Natfw_ext evt of Some (_, b) \<Rightarrow> get_rule_action b = ra_deny | None \<Rightarrow> False)"

definition ed_moves :: "bool \<Rightarrow> node \<Rightarrow> nf_edge_ext_session \<Rightarrow> node \<times> nf_edge_ext_session \<times> bool \<Rightarrow> bool" where
  "ed_moves deny nd s r \<longleftrightarrow> (case r of (nd', s', thrown) \<Rightarrow>
     (is_nf_nat (nd_config nd) \<longrightarrow> moves_ports nd (NF_edge_session s) nd' (NF_edge_session s')) \<and>
     (\<not> deny \<longrightarrow> moves_rules nd (NF_edge_session s) nd' (NF_edge_session s')) \<and> (thrown \<longrightarrow> ed_state s' = STATE_IDLE))"

lemma ed_moves_stay:
  assumes "quiet nd nd'" "ed_state s' = ed_state s \<or> ed_state s = STATE_IDLE \<and> ed_state s' = STATE_FINAL"
    "ed_ext_addr s' = ed_ext_addr s" "ed_proxy_mode s' = ed_proxy_mode s" "ed_nat_rule s' = ed_nat_rule s" "ed_fw_rule s' = ed_fw_rule s"
  shows "ed_moves deny nd s (nd', s', False)"
  using assms by (auto simp: ed_moves_def moves_ports_def moves_rules_def free_ports_def rules_absent_def quiet_def)

lemma ed_setup_ed_moves:
  assumes env: "never_refuses env" and st: "ed_state s = STATE_IDLE" "ed_state t = STATE_IDLE"
    and nd1: "\<And>p. free_ports p nd1 = free_ports p nd" "nd_config nd1 = nd_config nd"
      "\<And>x y. \<not> deny \<Longrightarrow> rules_absent x y nd1 = rules_absent x y nd"
  shows "okR (ed_moves deny nd s) (ed_setup env sid msg b nd1 t)"
proof (cases "ed_setup env sid msg b nd1 t")
  case (Ok r)
  obtain nd' s' th where r: "r = (nd', s', th)" by (cases r)
  note e = ed_setup_moves [OF env _ st(2), of sid msg b nd1 nd' s' th]
  show ?thesis using e Ok r st nd1 by (auto simp: ed_moves_def moves_ports_def moves_rules_def)
qed simp

lemma ed_idle_moves:
  assumes env: "never_refuses env" and st: "ed_state s = STATE_IDLE"
  shows "okR (ed_moves (is_nf_firewall (nd_config nd) \<and> denies evt) nd s) (ed_handle_state_idle env sid evt nd s)"
proof (cases "event_msg Natfw_ext evt")
  case (Some p)
  then obtain msg b where p: "event_msg Natfw_ext evt = Some (msg, b)" by (cases p) simp
  define deny where "deny = (is_nf_firewall (nd_config nd) \<and> denies evt)"
  have deny: "deny \<longleftrightarrow> is_nf_firewall (nd_config nd) \<and> get_rule_action b = 2" by (simp add: deny_def denies_def p)
  have final: "ed_moves deny nd s (nd', s\<lparr>ed_state := STATE_FINAL\<rparr>, False)" if "quiet nd nd'" for nd'
    by (rule ed_moves_stay) (use that st in simp_all)
  have thrown: "ed_moves deny nd s (nd, s\<lparr>ed_lifetime := l, ed_msn := k, ed_proxy_mode := q\<rparr>, True)" for l k q
    using st by (simp add: ed_moves_def moves_ports_def moves_rules_def)
  have rest: "okR (ed_moves deny nd s) (ed_setup env sid msg b nd (s\<lparr>ed_lifetime := l, ed_msn := k, ed_proxy_mode := q\<rparr>))" for l k q
    by (rule ed_setup_ed_moves [OF env st]) (use st in simp_all)
  have rest': "okR (ed_moves deny nd s) (ed_setup env sid msg b (nd\<lparr>rule_calls := c\<rparr>)
      (s\<lparr>ed_lifetime := l, ed_msn := k, ed_proxy_mode := q\<rparr>))" if deny for c l k q
    by (rule ed_setup_ed_moves [OF env st]) (use st that in simp_all)
  show ?thesis unfolding deny_def [symmetric] ed_handle_state_idle_def p option.case prod.case okR_bindR
    using final thrown rest rest' env deny
    by (auto simp: get_msg_sequence_number_def Let_def never_refuses_calls split: option.split sum.split intro!: okR_const)
next
  case None
  have "ed_moves (is_nf_firewall (nd_config nd) \<and> denies evt) nd s (nd, s\<lparr>ed_state := STATE_FINAL\<rparr>, False)"
    by (rule ed_moves_stay) (use st in simp_all)
  then show ?thesis using None by (simp add: ed_handle_state_idle_def)
qed

lemma ed_close_moves:
  assumes td: "\<And>sid nd. node_ok nd \<Longrightarrow> okR (quiet nd) (teardown sid nd)" and n: "node_ok nd"
    and env: "never_refuses env" and st: "ed_state s = STATE_SESSION"
  shows "okR (ed_moves deny nd s) (ed_close teardown env nd s)"
proof -
  define nd1 where "nd1 = release_external_address (ed_ext_addr s) nd"
  have f: "free_ports p nd1 = free_ports p nd + of_bool (ap_port (ed_ext_addr s) = p)" "rules_absent x y nd1 = rules_absent x y nd" for p x y
    by (simp_all add: nd1_def release_external_address_def free_ports_def rules_absent_def)
  have "node_ok nd1" using n by (simp add: nd1_def release_external_address_def node_ok_def nat_address_ok_def)
  then have t: "okR (quiet nd1) (teardown (proxy_session_id s) nd1)" using td by simp
  have p: "okR (\<lambda>(nd', s', thrown). \<not> thrown \<and> available nd' = available nd1 \<and> s' = s \<and>
      (\<forall>x y. rules_absent x y nd' = rules_absent x y nd + of_bool (rules_held x y (NF_edge_session s))))
      (if ed_proxy_mode s then tg_teardown_proxy teardown env nd1 s else Ok (nd1, s, False))"
    using env st f(2) by (auto simp: tg_teardown_proxy_def quiet_def rules_absent_def intro!: okR_mono [OF t])
  show ?thesis unfolding ed_close_def Let_def nd1_def [symmetric] okR_bindR
    by (rule okR_mono [OF p])
       (use st f(1) in \<open>auto simp: ed_moves_def moves_ports_def moves_rules_def free_ports_def\<close>)
qed

lemma ed_process_moves:
  assumes td: "\<And>sid nd. node_ok nd \<Longrightarrow> okR (quiet nd) (teardown sid nd)" and n: "node_ok nd" and env: "never_refuses env"
  shows "okR (ed_moves (is_nf_firewall (nd_config nd) \<and> denies evt) nd s) (ed_process_event teardown env sid evt nd s)"
proof -
  define deny where "deny = (is_nf_firewall (nd_config nd) \<and> denies evt)"
  have stay: "ed_moves deny nd s (nd\<lparr>sent := x\<rparr>, s, False)" "ed_moves deny nd s (nd, s, False)"
    "ed_moves deny nd s (nd\<lparr>sent := x, n_timers := y\<rparr>, s\<lparr>ed_lifetime := l, ed_msn := k, ed_state_timer := u\<rparr>, False)" for x y l k u
    by (rule ed_moves_stay; simp)+
  have "okR (ed_moves deny nd s) (ed_handle_state_session teardown env evt nd s)" if st: "ed_state s = STATE_SESSION"
    using stay ed_close_moves [where env = env and deny = deny, OF td n env st]
    by (auto simp: ed_handle_state_session_def get_msg_sequence_number_def node_op_defs split: option.split)
  then show ?thesis using ed_idle_moves [OF env, of s nd evt sid] stay unfolding deny_def [symmetric]
    by (cases "ed_state s") (simp_all add: ed_process_event_def)
qed

section \<open>Which sessions an event touches\<close>

text \<open>Sessions that hold nothing because of their kind or their state.\<close>

primrec idle_session :: "natfw_session \<Rightarrow> bool" where
  "idle_session (NI_session s) \<longleftrightarrow> True"
| "idle_session (NR_session s) \<longleftrightarrow> True"
| "idle_session (NF_session s) \<longleftrightarrow> nf_state s \<notin> {STATE_WAITRESP, STATE_SESSION}"
| "idle_session (NR_ext_session s) \<longleftrightarrow> True"
| "idle_session (NF_edge_session s) \<longleftrightarrow> ed_state s \<noteq> STATE_SESSION"
| "idle_session (NF_non_edge_session s) \<longleftrightarrow> True"

definition idle_slot :: "natfw_session option \<Rightarrow> bool" where
  "idle_slot s \<longleftrightarrow> (case s of Some s \<Rightarrow> idle_session s | None \<Rightarrow> True)"

definition slots :: "node \<Rightarrow> node \<Rightarrow> bool" where
  "slots nd nd' \<longleftrightarrow> (\<forall>x. session_table nd' x = session_table nd x \<or> idle_slot (session_table nd x) \<and> idle_slot (session_table nd' x))"

lemma idle_slot_simps [simp]: "idle_slot None" "idle_slot (Some s) \<longleftrightarrow> idle_session s"
  by (simp_all add: idle_slot_def)

lemma final_idle: "is_final s \<Longrightarrow> idle_session s"
  by (cases s) simp_all

lemma slots_refl [simp]: "slots nd nd"
  by (simp add: slots_def)

lemma slots_trans: "slots a b \<Longrightarrow> slots b c \<Longrightarrow> slots a c"
  unfolding slots_def by metis

lemma slots_frame: "frame nd nd' \<Longrightarrow> slots nd nd'"
  by (simp add: frame_def slots_def)

lemma slots_put: "idle_slot (session_table nd sid) \<Longrightarrow> idle_session s \<Longrightarrow> slots nd (put_session sid s nd)"
  by (simp add: slots_def put_session_def)

lemma slots_remove: "idle_slot (session_table nd sid) \<Longrightarrow> slots nd (remove_session sid nd)"
  by (simp add: slots_def remove_session_def)

lemma put_same: "session_table nd sid = Some s \<Longrightarrow> put_session sid s nd = nd"
  by (simp add: put_session_def fun_upd_idem)

lemma teardown_event [simp]:
  "event_msg c (Api_teardown_event sid) = None" "\<not> is_natfw_response (Api_teardown_event sid) m"
  "\<not> is_timer (Api_teardown_event sid) t" "\<not> is_no_next_node_found_event (Api_teardown_event sid)"
  "\<not> is_route_changed_bad_event (Api_teardown_event sid)"
  "event_ok (Api_teardown_event sid)" "create_session env (Api_teardown_event sid) nd = Ok (nd, None)"
  by (simp_all add: event_msg_def is_natfw_response_def is_timer_def is_no_next_node_found_event_def
      is_route_changed_bad_event_def event_ok_def create_session_def split: option.split)

lemma nf_teardown:
  "session_ok config (NF_session s) \<Longrightarrow> nf_process_event env (Api_teardown_event sid) nd s =
     Ok (nd, if nf_state s = STATE_IDLE then s\<lparr>nf_state := STATE_FINAL\<rparr> else s, False)"
  by (cases "nf_state s") (auto simp: nf_process_event_def nf_handle_state_idle_def nf_handle_state_waitresp_def
      nf_handle_state_session_def nf_last_def elim!: storedE)

lemma no_teardown:
  "okR (\<lambda>(nd', s'). nd' = nd) (no_process_event env (Api_teardown_event sid) nd s)"
  by (cases "no_state s") (simp_all add: no_process_event_def no_handle_state_idle_def no_handle_state_waitresp_def
      no_handle_state_session_def)

lemma ed_teardown:
  "session_ok config (NF_edge_session s) \<Longrightarrow> ed_process_event td env sid' (Api_teardown_event sid) nd s =
     Ok (nd, if ed_state s = STATE_IDLE then s\<lparr>ed_state := STATE_FINAL\<rparr> else s, False)"
  by (cases "ed_state s") (auto simp: ed_process_event_def ed_handle_state_idle_def ed_handle_state_session_def)

text \<open>A teardown request changes nothing that is accounted for.\<close>

lemma session_teardown:
  assumes ok: "session_ok (nd_config nd) s"
    and r: "session_process td env sid' (Api_teardown_event sid) nd s = Ok (nd', s', thrown)"
  shows "quiet nd nd'" "frame nd nd'" "\<not> thrown" "s' = s \<or> idle_session s \<and> idle_session s'"
proof -
  have ev: "event_ok (Api_teardown_event sid)" by simp
  have "quiet nd nd' \<and> frame nd nd' \<and> \<not> thrown \<and> (s' = s \<or> idle_session s \<and> idle_session s')"
  proof (cases s)
    case (NI_session t)
    then obtain t' where p: "ni_process_event env sid' (Api_teardown_event sid) nd t = Ok (nd', t')" "s' = NI_session t'" "\<not> thrown"
      using r by (auto simp: mapR_def result_simps)
    then show ?thesis using okR_Ok [OF ni_quiet p(1)] safeR_Ok [OF ni_safe [OF ev] p(1)] ok NI_session
      by (simp del: session_ok.simps)
  next
    case (NR_session t)
    then obtain t' where p: "nr_process_event env (Api_teardown_event sid) nd t = Ok (nd', t')" "s' = NR_session t'" "\<not> thrown"
      using r by (auto simp: mapR_def result_simps)
    then show ?thesis using okR_Ok [OF nr_quiet p(1)] safeR_Ok [OF nr_safe [OF ev] p(1)] ok NR_session
      by (simp del: session_ok.simps)
  next
    case (NF_session t)
    then have "session_ok (nd_config nd) (NF_session t)" using ok by simp
    note nf_teardown [OF this, of env sid nd]
    then show ?thesis using r NF_session by (auto split: if_splits)
  next
    case (NR_ext_session t)
    then obtain t' where p: "ne_process_event env sid' (Api_teardown_event sid) nd t = Ok (nd', t')" "s' = NR_ext_session t'" "\<not> thrown"
      using r by (auto simp: mapR_def result_simps)
    then show ?thesis using okR_Ok [OF ne_quiet p(1)] safeR_Ok [OF ne_safe [OF ev] p(1)] ok NR_ext_session
      by (simp del: session_ok.simps)
  next
    case (NF_edge_session t)
    then have "session_ok (nd_config nd) (NF_edge_session t)" using ok by simp
    note ed_teardown [OF this, of td env sid' sid nd]
    then show ?thesis using r NF_edge_session by (auto split: if_splits)
  next
    case (NF_non_edge_session t)
    then obtain t' where p: "no_process_event env (Api_teardown_event sid) nd t = Ok (nd', t')" "s' = NF_non_edge_session t'" "\<not> thrown"
      using r by (auto simp: mapR_def result_simps)
    then show ?thesis using okR_Ok [OF no_teardown p(1)] NF_non_edge_session by simp
  qed
  then show "quiet nd nd'" "frame nd nd'" "\<not> thrown" "s' = s \<or> idle_session s \<and> idle_session s'" by simp_all
qed

lemma process_teardown_quiet:
  assumes n: "node_ok nd"
  shows "okR (\<lambda>nd'. quiet nd nd' \<and> slots nd nd') (process_teardown env sid nd)"
proof (cases "session_table nd sid")
  case None
  then show ?thesis by (simp add: process_teardown_def process_with_def get_session_def is_invalid_natfw_msg_def)
next
  case (Some s)
  have ok: "session_ok (nd_config nd) s" using n Some by (simp add: node_ok_def)
  have "quiet nd nd' \<and> slots nd nd'" if td: "process_teardown env sid nd = Ok nd'" for nd'
  proof -
    obtain nd1 s1 th where p: "session_process (\<lambda>_ _. Fail No_return) env sid (Api_teardown_event sid) nd s = Ok (nd1, s1, th)"
      and nd': "nd' = (if th \<or> is_final s1 then remove_session sid nd1 else put_session sid s1 nd1)"
      using td Some by (auto simp: process_teardown_def process_with_def get_session_def is_invalid_natfw_msg_def result_simps)
    note d = session_teardown [OF ok p]
    have t: "session_table nd1 sid = Some s" using d(2) Some by (simp add: frame_def)
    have "slots nd1 nd'"
    proof (cases "s1 = s")
      case True
      then have "\<not> is_final s1" using n Some by (simp add: node_ok_def)
      then show ?thesis using nd' d(3) True put_same [OF t] by simp
    next
      case False
      then show ?thesis using nd' d(4) t slots_put [of nd1 sid s1] slots_remove [of nd1 sid] by auto
    qed
    then show ?thesis using d(1) nd' slots_trans [OF slots_frame [OF d(2)]] by (auto split: if_splits)
  qed
  then show ?thesis by (simp add: okR_def split: result.split)
qed

lemma ni_idle_frame: "okR (\<lambda>(nd', s'). frame nd nd') (ni_handle_state_idle env sid evt nd s)"
  by (simp add: ni_handle_state_idle_def ni_setup_session_def build_create_message_def node_op_defs split: option.split natfw_event.split)

lemma create_proxy_slots:
  assumes r: "create_ni_proxy_session env e nonce nd = Ok (nd', sid)"
  shows "slots nd nd'"
proof -
  obtain nd1 s s1 nd2 where c: "create_ni_session env nd = Ok (nd1, sid, s)"
    and p: "ni_process_event env sid (Api_create_event e) nd1 (s\<lparr>ni_nonce := nonce, ni_proxy_session := True\<rparr>) = Ok (nd2, s1)"
    and nd': "nd' = put_session sid (NI_session s1) nd2"
    using r by (auto simp: create_ni_proxy_session_def result_simps)
  obtain nd0 where u: "create_unique_id (id_tries env) env nd = Ok (nd0, sid)"
      and t1: "session_table nd1 = (session_table nd0)(sid \<mapsto> NI_session s)" and st: "ni_state s = STATE_IDLE"
    using c by (auto simp: create_ni_session_def result_simps new_ni_session_def node_op_defs put_session_def)
  have "frame nd nd0" "session_table nd sid = None" using safeR_Ok [OF unique_id_safe u] by simp_all
  moreover have "frame nd1 nd2" using p st
    okR_Ok [OF ni_idle_frame [of nd1 env sid "Api_create_event e" "s\<lparr>ni_nonce := nonce, ni_proxy_session := True\<rparr>"], of "(nd2, s1)"]
    by (simp add: ni_process_event_def)
  ultimately show ?thesis using nd' t1 by (simp add: slots_def put_session_def frame_def)
qed

lemma slots_updates [simp]:
  "slots nd (nd'\<lparr>sent := x\<rparr>) \<longleftrightarrow> slots nd nd'" "slots nd (nd'\<lparr>n_timers := t\<rparr>) \<longleftrightarrow> slots nd nd'"
  "slots (nd\<lparr>sent := x\<rparr>) nd' \<longleftrightarrow> slots nd nd'" "slots (nd\<lparr>n_timers := t\<rparr>) nd' \<longleftrightarrow> slots nd nd'"
  by (simp_all add: slots_def)

lemma tg_create_proxy_slots: "okR (\<lambda>(nd', s', thrown). slots nd nd') (tg_create_proxy env msg b nd s)"
proof (cases "nt_mri msg")
  case (Mri_pc m)
  have p: "okR (\<lambda>(nd', sid). slots nd nd') (create_ni_proxy_session env e k nd)" for e k
    using create_proxy_slots [of env e k nd] by (auto simp: okR_def split: result.split)
  show ?thesis unfolding tg_create_proxy_def Mri_pc mri.case okR_bindR
    by (rule okR_mono [OF p])
       (auto simp: Let_def split: prod.split intro: slots_trans slots_frame frame_rules)
qed (simp_all add: tg_create_proxy_def)

lemma ed_answer_slots: "okR (\<lambda>(nd', s', thrown). slots nd nd') (ed_answer env sid msg b addr nd s)"
proof -
  have p: "okR (\<lambda>(nd', s', thrown). slots nd nd') (tg_create_proxy env msg b (nd\<lparr>sent := x, n_timers := y\<rparr>) s1)" for x y s1
    using tg_create_proxy_slots [of "nd\<lparr>sent := x, n_timers := y\<rparr>" env msg b s1] by simp
  show ?thesis unfolding ed_answer_def okR_bindR
    by (rule okR_any) (auto simp: node_op_defs intro!: okR_mono [OF p])
qed

lemma ed_setup_slots: "okR (\<lambda>(nd', s', thrown). slots nd nd') (ed_setup env sid msg b nd s)"
proof -
  have r: "okR (\<lambda>(nd', s', thrown). slots nd nd') (ed_answer env sid msg b addr nd1 s1)"
    if "reserve_external_address v nd = (nd1, w)" for addr nd1 s1 v w
    by (rule okR_mono [OF ed_answer_slots]) (use slots_trans [OF slots_frame [OF frame_pool(1) [OF that]]] in auto)
  have s: "slots nd nd1" if "reserve_external_address v nd = (nd1, w)" for nd1 v w
    using slots_frame [OF frame_pool(1) [OF that]] .
  show ?thesis
  proof (cases "is_nf_nat (nd_config nd)")
    case True
    have "okR (\<lambda>x. okR (\<lambda>(nd', s', thrown). slots nd nd') (case x of
            Inl _ \<Rightarrow> Ok (nd, s, True)
          | Inr priv_addr \<Rightarrow> (case reserve_external_address priv_addr nd of
                 (nd, Inl e) \<Rightarrow>
                   bindR (send_message (create_error_response e msg) nd) (\<lambda>nd. Ok (nd, s\<lparr>ed_state := STATE_FINAL\<rparr>, False))
               | (nd, Inr addr) \<Rightarrow> ed_answer env sid msg b (Some addr) nd (s\<lparr>ed_ext_addr := addr\<rparr>))))
        (get_nr_address msg)"
      by (rule okR_any) (auto split: sum.split prod.split intro: r s)
    then show ?thesis using True by (simp add: ed_setup_def)
  qed (use ed_answer_slots in \<open>simp add: ed_setup_def\<close>)
qed

lemma ed_close_slots:
  assumes td: "\<And>sid nd. node_ok nd \<Longrightarrow> okR (slots nd) (teardown sid nd)" and n: "node_ok nd"
  shows "okR (\<lambda>(nd', s', thrown). slots nd nd') (ed_close teardown env nd s)"
proof -
  define nd1 where "nd1 = release_external_address (ed_ext_addr s) nd"
  have f: "frame nd nd1" by (simp add: nd1_def frame_pool)
  have t: "okR (slots nd) (teardown (proxy_session_id s) nd1)"
    by (rule okR_mono [OF td]) (use node_ok_frame [OF n f] slots_trans [OF slots_frame [OF f]] in auto)
  have "okR (\<lambda>nd2. okR (\<lambda>(nd', s', thrown). slots nd nd')
      (let (nd, thrown) = remove_policy_rules env (ed_nat_rule s) (ed_fw_rule s) nd2 in Ok (nd, s, thrown)))
      (teardown (proxy_session_id s) nd1)"
    by (rule okR_mono [OF t]) (auto split: prod.split intro: slots_trans slots_frame frame_rules)
  then have "okR (\<lambda>(nd', s', thrown). slots nd nd')
      (if ed_proxy_mode s then tg_teardown_proxy teardown env nd1 s else Ok (nd1, s, False))"
    using slots_frame [OF f] by (simp add: tg_teardown_proxy_def)
  then show ?thesis unfolding ed_close_def Let_def nd1_def [symmetric] okR_bindR
    by (rule okR_mono) auto
qed

lemma ed_process_slots:
  assumes td: "\<And>sid nd. node_ok nd \<Longrightarrow> okR (slots nd) (teardown sid nd)" and n: "node_ok nd"
  shows "okR (\<lambda>(nd', s', thrown). slots nd nd') (ed_process_event teardown env sid evt nd s)"
proof -
  have i: "okR (\<lambda>(nd', s', thrown). slots nd nd') (case install_policy_rules env None rule nd of
        (nd, True) \<Rightarrow> Ok (nd, t, True) | (nd, False) \<Rightarrow> ed_setup env sid msg b nd t)" for rule t msg b
  proof -
    obtain nd1 th where th: "install_policy_rules env None rule nd = (nd1, th)" by fastforce
    have f: "slots nd nd1" using slots_frame [OF frame_rules(1) [OF th]] .
    show ?thesis using th f
      by (cases th) (auto intro!: okR_mono [OF ed_setup_slots] intro: slots_trans)
  qed
  have "okR (\<lambda>(nd', s', thrown). slots nd nd') (ed_handle_state_idle env sid evt nd s)"
    using i ed_setup_slots
    by (auto simp: ed_handle_state_idle_def get_msg_sequence_number_def Let_def split: option.split sum.split intro!: okR_const)
  moreover have "okR (\<lambda>(nd', s', thrown). slots nd nd') (ed_handle_state_session teardown env evt nd s)"
    using ed_close_slots [where env = env and s = s, OF td n]
    by (auto simp: ed_handle_state_session_def get_msg_sequence_number_def node_op_defs split: option.split)
  ultimately show ?thesis by (cases "ed_state s") (simp_all add: ed_process_event_def)
qed

lemma session_process_slots:
  assumes ev: "event_ok evt" and ok: "session_ok (nd_config nd) s" and n: "node_ok nd"
    and r: "session_process (process_teardown env) env sid evt nd s = Ok (nd', s', thrown)"
  shows "slots nd nd'"
proof (cases s)
  case (NI_session t)
  then obtain t' where p: "ni_process_event env sid evt nd t = Ok (nd', t')" using r by (auto simp: mapR_def result_simps)
  show ?thesis using safeR_Ok [OF ni_safe [OF ev] p] ok NI_session by (simp add: slots_frame del: session_ok.simps)
next
  case (NR_session t)
  then obtain t' where p: "nr_process_event env evt nd t = Ok (nd', t')" using r by (auto simp: mapR_def result_simps)
  show ?thesis using safeR_Ok [OF nr_safe [OF ev] p] ok NR_session by (simp add: slots_frame del: session_ok.simps)
next
  case (NF_session t)
  then obtain t' where p: "nf_process_event env evt nd t = Ok (nd', t', thrown)" using r by (auto simp: mapR_def result_simps)
  show ?thesis using safeR_Ok [OF nf_safe [OF ev] p] ok NF_session by (simp add: slots_frame del: session_ok.simps)
next
  case (NR_ext_session t)
  then obtain t' where p: "ne_process_event env sid evt nd t = Ok (nd', t')" using r by (auto simp: mapR_def result_simps)
  show ?thesis using safeR_Ok [OF ne_safe [OF ev] p] ok NR_ext_session by (simp add: slots_frame del: session_ok.simps)
next
  case (NF_edge_session t)
  then obtain t' where p: "ed_process_event (process_teardown env) env sid evt nd t = Ok (nd', t', thrown)"
    using r by (auto simp: mapR_def result_simps)
  have td: "okR (slots nd) (process_teardown env sid nd)" if "node_ok nd" for sid nd
    by (rule okR_mono [OF process_teardown_quiet [OF that]]) simp
  show ?thesis using okR_Ok [OF ed_process_slots [where env = env, OF td n] p] by simp
next
  case (NF_non_edge_session t)
  then obtain t' where p: "no_process_event env evt nd t = Ok (nd', t')" using r by (auto simp: mapR_def result_simps)
  show ?thesis using safeR_Ok [OF no_safe [OF ev] p] ok NF_non_edge_session by (simp add: slots_frame del: session_ok.simps)
qed

lemma create_session_slots:
  assumes c: "create_session env evt nd = Ok (nd', Some (sid, s))" and i: "\<And>x. get_session_id evt = Some x \<Longrightarrow> session_table nd x = None"
  shows "slots nd nd' \<and> quiet nd nd' \<and> session_table nd' sid = Some s"
proof -
  have u: "session_table nd x = None \<and> quiet nd nd1 \<and> session_table nd1 = session_table nd"
    if "create_unique_id k env nd = Ok (nd1, x)" for k nd1 x
    using safeR_Ok [OF unique_id_safe that] okR_Ok [OF unique_id_quiet that] by (simp add: frame_def)
  show ?thesis
  proof (cases evt)
    case (Api_create_event e)
    then obtain nd1 t where n: "create_unique_id (id_tries env) env nd = Ok (nd1, sid)"
        "nd' = put_session sid s (nd1\<lparr>n_random := t\<rparr>)" "idle_session s"
      using c by (auto simp: create_session_def create_ni_session_def new_ni_session_def node_op_defs result_simps)
    then show ?thesis using u [OF n(1)] by (simp add: slots_def) (simp add: put_session_def)
  next
    case (Api_ext_event e)
    then obtain nd1 t where n: "create_unique_id (id_tries env) env nd = Ok (nd1, sid)"
        "nd' = put_session sid s (nd1\<lparr>n_random := t\<rparr>)" "idle_session s"
      using c by (auto simp: create_session_def new_nr_ext_session_def node_op_defs result_simps)
    then show ?thesis using u [OF n(1)] by (simp add: slots_def) (simp add: put_session_def)
  next
    case (Msg_event x m f)
    then have "nd' = put_session sid s nd \<and> sid = x \<and> idle_session s" using c
      by (auto simp: create_session_def Let_def new_nf_session_def new_nf_edge_ext_session_def split: if_splits)
    then show ?thesis using i Msg_event by (simp add: slots_def) (simp add: put_session_def)
  qed (use c in \<open>simp_all add: create_session_def\<close>)
qed

text \<open>What an event does: it passes without a session, or a session, found or created, handles it and is
  stored or removed.\<close>

lemma process_cases:
  assumes r: "process env evt nd = Ok nd'"
  obtains "slots nd nd'" "quiet nd nd'"
  | nd1 sid s nd2 s2 th where "slots nd nd1" "quiet nd nd1" "session_table nd1 sid = Some s"
      "session_process (process_teardown env) env sid evt nd1 s = Ok (nd2, s2, th)"
      "nd' = (if th \<or> is_final s2 then remove_session sid nd2 else put_session sid s2 nd2)"
      "node_ok nd \<Longrightarrow> keeps_node nd nd1"
proof (cases "(\<exists>x m. evt = Routing_state_check_event x m) \<or> is_invalid_natfw_msg evt")
  case True
  then have "slots nd nd' \<and> quiet nd nd'" using r
    by (auto simp: process_def process_with_def is_invalid_natfw_msg_def result_simps slots_def split: natfw_event.splits)
  then show ?thesis using that(1) by blast
next
  case False
  define look where "look = (case get_session_id evt of
       Some sid \<Rightarrow> (case get_session sid nd of Some s \<Rightarrow> Ok (nd, Some (sid, s)) | None \<Rightarrow> create_session env evt nd)
     | None \<Rightarrow> create_session env evt nd)"
  define act where "act = (\<lambda>(nd, found). case found of
       None \<Rightarrow> Ok nd
     | Some (sid, s) \<Rightarrow> bindR (session_process (process_teardown env) env sid evt nd s) (\<lambda>(nd, s, thrown).
         Ok (if thrown \<or> is_final s then remove_session sid nd else put_session sid s nd)))"
  have "process env evt nd = bindR look act"
    unfolding process_def process_with_def look_def [symmetric] act_def [symmetric] using False by (cases evt) simp_all
  then have "bindR look act = Ok nd'" using r by simp
  then obtain nd1 found where l: "look = Ok (nd1, found)" and f: "act (nd1, found) = Ok nd'"
    by (auto simp: bindR_eq_Ok)
  show ?thesis
  proof (cases found)
    case None
    then have "nd' = nd1" using f by (simp add: act_def)
    moreover have "slots nd nd1 \<and> quiet nd nd1"
      using l None by (cases evt) (auto simp: look_def create_session_def Let_def result_simps split: option.splits if_splits prod.splits)
    ultimately show ?thesis using that(1) by blast
  next
    case (Some p)
    then obtain sid s where p: "found = Some (sid, s)" by (cases p) simp
    obtain nd2 s2 th where d: "session_process (process_teardown env) env sid evt nd1 s = Ok (nd2, s2, th)"
      "nd' = (if th \<or> is_final s2 then remove_session sid nd2 else put_session sid s2 nd2)"
      using f p by (auto simp: act_def result_simps)
    have k: "keeps_node nd nd1" if "node_ok nd"
      using safeR_Ok [OF create_session_safe [OF that]] keeps_node_refl [OF that] l p
      by (auto simp: look_def split: option.splits)
    have "slots nd nd1 \<and> quiet nd nd1 \<and> session_table nd1 sid = Some s"
      using l p create_session_slots [of env evt nd nd1 sid s]
      by (auto simp: look_def get_session_def split: option.splits)
    then show ?thesis using that(2) d k by blast
  qed
qed

section \<open>Ledgers\<close>

definition holders :: "(natfw_session \<Rightarrow> bool) \<Rightarrow> node \<Rightarrow> session_id set" where
  "holders held nd = {sid. case session_table nd sid of Some s \<Rightarrow> held s | None \<Rightarrow> False}"

definition total :: "(node \<Rightarrow> int) \<Rightarrow> (natfw_session \<Rightarrow> bool) \<Rightarrow> node \<Rightarrow> int" where
  "total amount held nd = amount nd + int (card (holders held nd))"

text \<open>The dispatcher thread: events are processed in the order they arrive.\<close>

primrec process_all :: "natfw_env \<Rightarrow> natfw_event list \<Rightarrow> node \<Rightarrow> node result" where
  "process_all env [] nd = Ok nd"
| "process_all env (evt # evts) nd = bindR (process env evt nd) (process_all env evts)"

locale ledger =
  fixes amount :: "node \<Rightarrow> int"
    and held :: "natfw_session \<Rightarrow> bool"
    and admitted :: "natfw_env \<Rightarrow> natfw_config \<Rightarrow> natfw_event \<Rightarrow> bool"
  assumes quiet_amount: "quiet nd nd' \<Longrightarrow> amount nd' = amount nd"
    and idle_held: "idle_session s \<Longrightarrow> \<not> held s"
    and admitted_ok: "admitted env config evt \<Longrightarrow> event_ok evt"
    and session_step: "admitted env (nd_config nd) evt \<Longrightarrow> node_ok nd \<Longrightarrow> session_ok (nd_config nd) s \<Longrightarrow>
      session_process (process_teardown env) env sid evt nd s = Ok (nd', s', thrown) \<Longrightarrow>
      amount nd' + of_bool (held s' \<and> \<not> thrown) = amount nd + of_bool (held s)"
begin

lemma holders_slots: "slots nd nd' \<Longrightarrow> holders held nd' = holders held nd"
proof -
  assume s: "slots nd nd'"
  have "(case session_table nd' x of Some s \<Rightarrow> held s | None \<Rightarrow> False) = (case session_table nd x of Some s \<Rightarrow> held s | None \<Rightarrow> False)" for x
  proof -
    have "session_table nd' x = session_table nd x \<or> idle_slot (session_table nd x) \<and> idle_slot (session_table nd' x)"
      using s by (simp add: slots_def)
    then show ?thesis using idle_held by (auto split: option.split)
  qed
  then show ?thesis by (simp add: holders_def)
qed

lemma card_holders:
  "card (holders held (put_session sid s nd)) = card (holders held nd - {sid}) + of_bool (held s)"
  "card (holders held (remove_session sid nd)) = card (holders held nd - {sid})"
proof -
  have "holders held (put_session sid s nd) = (if held s then insert sid (holders held nd - {sid}) else holders held nd - {sid})"
    "holders held (remove_session sid nd) = holders held nd - {sid}"
    by (auto simp: holders_def put_session_def remove_session_def)
  then show "card (holders held (put_session sid s nd)) = card (holders held nd - {sid}) + of_bool (held s)"
    "card (holders held (remove_session sid nd)) = card (holders held nd - {sid})"
    by (simp_all add: card.insert_remove)
qed

lemma card_holders_at:
  "session_table nd sid = Some s \<Longrightarrow> card (holders held nd) = card (holders held nd - {sid}) + of_bool (held s)"
  using card_holders(1) [of sid s nd] put_same [of nd sid s] by simp

lemma total_slots: "slots nd nd' \<Longrightarrow> quiet nd nd' \<Longrightarrow> total amount held nd' = total amount held nd"
  by (simp add: total_def holders_slots quiet_amount)

lemma total_session:
  assumes a: "admitted env (nd_config nd) evt" and n: "node_ok nd" and t: "session_table nd sid = Some s"
    and r: "session_process (process_teardown env) env sid evt nd s = Ok (nd', s', thrown)"
  shows "total amount held (if thrown \<or> is_final s' then remove_session sid nd' else put_session sid s' nd') = total amount held nd"
proof -
  have ok: "session_ok (nd_config nd) s" using n t by (simp add: node_ok_def)
  have sl: "holders held nd' = holders held nd"
    using holders_slots [OF session_process_slots [OF admitted_ok [OF a] ok n r]] .
  have am: "amount (remove_session sid nd') = amount nd'" "amount (put_session sid s' nd') = amount nd'"
    by (rule quiet_amount; simp)+
  show ?thesis using session_step [OF a n ok r] card_holders_at [OF t] am final_idle [of s'] idle_held [of s']
    by (auto simp: total_def card_holders sl)
qed

lemma total_process:
  assumes a: "admitted env (nd_config nd) evt" and n: "node_ok nd" and r: "process env evt nd = Ok nd'"
  shows "total amount held nd' = total amount held nd"
proof (rule process_cases [OF r])
  assume "slots nd nd'" "quiet nd nd'"
  then show ?thesis by (rule total_slots)
next
  fix nd1 sid s nd2 s2 th
  assume s: "slots nd nd1" "quiet nd nd1" and t: "session_table nd1 sid = Some s"
    and p: "session_process (process_teardown env) env sid evt nd1 s = Ok (nd2, s2, th)"
    and nd': "nd' = (if th \<or> is_final s2 then remove_session sid nd2 else put_session sid s2 nd2)"
    and k: "node_ok nd \<Longrightarrow> keeps_node nd nd1"
  have c: "nd_config nd1 = nd_config nd" "node_ok nd1" using k [OF n] by (simp_all add: keeps_node_def)
  then have a1: "admitted env (nd_config nd1) evt" using a by simp
  show ?thesis unfolding nd' total_session [OF a1 c(2) t p] using s by (rule total_slots)
qed

lemma total_run:
  assumes "process_all env evts nd = Ok nd'" "node_ok nd" "\<forall>evt\<in>set evts. admitted env (nd_config nd) evt"
  shows "total amount held nd' = total amount held nd"
  using assms
proof (induction evts arbitrary: nd)
  case (Cons evt evts)
  obtain nd1 where p: "process env evt nd = Ok nd1" "process_all env evts nd1 = Ok nd'"
    using Cons.prems(1) by (auto simp: result_simps)
  have a: "admitted env (nd_config nd) evt" using Cons.prems(3) by simp
  have "keeps_node nd nd1" using process_safe [OF admitted_ok [OF a] Cons.prems(2)] p(1) by (metis safeR_Ok)
  then have "node_ok nd1" "nd_config nd1 = nd_config nd" by (simp_all add: keeps_node_def)
  then show ?case using Cons.IH [OF p(2)] Cons.prems total_process [OF a Cons.prems(2) p(1)] by simp
qed simp

end

section \<open>The two ledgers\<close>

text \<open>
  Ports are accounted for on a NAT at the edge of its network. On other nodes sessions of EXT messages give back
  an address that they never reserved.
\<close>

definition port_events :: "natfw_env \<Rightarrow> natfw_config \<Rightarrow> natfw_event \<Rightarrow> bool" where
  "port_events env config evt \<longleftrightarrow> is_nf_nat config \<and> is_nf_edge_node config \<and> never_refuses env \<and> event_ok evt \<and>
     \<not> is_route_changed_bad_event evt"

text \<open>A firewall that is asked to deny a flow installs a rule and does not remember it.\<close>

definition rule_events :: "natfw_env \<Rightarrow> natfw_config \<Rightarrow> natfw_event \<Rightarrow> bool" where
  "rule_events env config evt \<longleftrightarrow> never_refuses env \<and> event_ok evt \<and> \<not> is_route_changed_bad_event evt \<and>
     \<not> (is_nf_firewall config \<and> denies evt)"

lemma session_step_moves:
  assumes ev: "never_refuses env" "event_ok evt" "\<not> is_route_changed_bad_event evt" and n: "node_ok nd"
    and ok: "session_ok (nd_config nd) s"
    and r: "session_process (process_teardown env) env sid evt nd s = Ok (nd', s', thrown)"
  shows "is_nf_nat (nd_config nd) \<Longrightarrow> is_nf_edge_node (nd_config nd) \<Longrightarrow> moves_ports nd s nd' s'"
    and "\<not> (is_nf_firewall (nd_config nd) \<and> denies evt) \<Longrightarrow> moves_rules nd s nd' s'"
    and "thrown \<Longrightarrow> idle_session s'"
proof -
  have q: "moves_ports nd s nd' s' \<and> moves_rules nd s nd' s'"
    if "quiet nd nd'" "\<And>p. \<not> port_held p s" "\<And>p. \<not> port_held p s'" "\<And>a b. \<not> rules_held a b s" "\<And>a b. \<not> rules_held a b s'"
    using that by (simp add: moves_defs quiet_def)
  have "(is_nf_nat (nd_config nd) \<longrightarrow> is_nf_edge_node (nd_config nd) \<longrightarrow> moves_ports nd s nd' s') \<and>
      (\<not> (is_nf_firewall (nd_config nd) \<and> denies evt) \<longrightarrow> moves_rules nd s nd' s') \<and> (thrown \<longrightarrow> idle_session s')"
  proof (cases s)
    case (NI_session t)
    then obtain t' where p: "ni_process_event env sid evt nd t = Ok (nd', t')" "s' = NI_session t'"
      using r by (auto simp: mapR_def result_simps)
    show ?thesis using q okR_Ok [OF ni_quiet p(1)] NI_session p(2) by simp
  next
    case (NR_session t)
    then obtain t' where p: "nr_process_event env evt nd t = Ok (nd', t')" "s' = NR_session t'"
      using r by (auto simp: mapR_def result_simps)
    show ?thesis using q okR_Ok [OF nr_quiet p(1)] NR_session p(2) by simp
  next
    case (NF_session t)
    then obtain t' where p: "nf_process_event env evt nd t = Ok (nd', t', thrown)" "s' = NF_session t'"
      using r by (auto simp: mapR_def result_simps)
    have "session_ok (nd_config nd) (NF_session t)" using ok NF_session by (simp del: session_ok.simps)
    note okR_Ok [OF nf_process_moves [OF ev(1) this ev(3)] p(1)]
    then show ?thesis using NF_session p(2) by simp
  next
    case (NR_ext_session t)
    then obtain t' where p: "ne_process_event env sid evt nd t = Ok (nd', t')" "s' = NR_ext_session t'"
      using r by (auto simp: mapR_def result_simps)
    show ?thesis using q okR_Ok [OF ne_quiet p(1)] NR_ext_session p(2) by simp
  next
    case (NF_edge_session t)
    then obtain t' where p: "ed_process_event (process_teardown env) env sid evt nd t = Ok (nd', t', thrown)" "s' = NF_edge_session t'"
      using r by (auto simp: mapR_def result_simps)
    have td: "okR (quiet nd) (process_teardown env sid nd)" if "node_ok nd" for sid nd
      by (rule okR_mono [OF process_teardown_quiet [OF that]]) simp
    show ?thesis using okR_Ok [OF ed_process_moves [where env = env, OF td n ev(1)] p(1)] NF_edge_session p(2)
      by (simp add: ed_moves_def)
  next
    case (NF_non_edge_session t)
    then obtain t' where p: "no_process_event env evt nd t = Ok (nd', t')" "s' = NF_non_edge_session t'"
      using r by (auto simp: mapR_def result_simps)
    show ?thesis using okR_Ok [OF no_keeps_rules p(1)] NF_non_edge_session p(2) ok by (simp add: moves_rules_def rules_absent_def)
  qed
  then show "is_nf_nat (nd_config nd) \<Longrightarrow> is_nf_edge_node (nd_config nd) \<Longrightarrow> moves_ports nd s nd' s'"
    and "\<not> (is_nf_firewall (nd_config nd) \<and> denies evt) \<Longrightarrow> moves_rules nd s nd' s'"
    and "thrown \<Longrightarrow> idle_session s'" by simp_all
qed

lemma idle_holds_nothing:
  "idle_session s \<Longrightarrow> \<not> port_held p s" "idle_session s \<Longrightarrow> \<not> rules_held a b s"
  by (cases s; simp; blast)+

interpretation ports: ledger "free_ports p" "port_held p" port_events for p
proof
  fix env nd evt s sid nd' s' thrown
  assume a: "port_events env (nd_config nd) evt" and n: "node_ok nd" "session_ok (nd_config nd) s"
    and r: "session_process (process_teardown env) env sid evt nd s = Ok (nd', s', thrown)"
  have a': "never_refuses env" "event_ok evt" "\<not> is_route_changed_bad_event evt" "is_nf_nat (nd_config nd)" "is_nf_edge_node (nd_config nd)"
    using a by (simp_all add: port_events_def)
  show "free_ports p nd' + of_bool (port_held p s' \<and> \<not> thrown) = free_ports p nd + of_bool (port_held p s)"
    using spec [OF session_step_moves(1) [OF a'(1-3) n r a'(4,5), unfolded moves_ports_def], of p]
      session_step_moves(3) [OF a'(1-3) n r] idle_holds_nothing(1) [of s' p] by (cases thrown) simp_all
qed (simp_all add: free_ports_def quiet_def idle_holds_nothing port_events_def)

interpretation rules: ledger "rules_absent a b" "rules_held a b" rule_events for a b
proof
  fix env nd evt s sid nd' s' thrown
  assume e: "rule_events env (nd_config nd) evt" and n: "node_ok nd" "session_ok (nd_config nd) s"
    and r: "session_process (process_teardown env) env sid evt nd s = Ok (nd', s', thrown)"
  have e': "never_refuses env" "event_ok evt" "\<not> is_route_changed_bad_event evt" "\<not> (is_nf_firewall (nd_config nd) \<and> denies evt)"
    using e by (simp_all add: rule_events_def)
  show "rules_absent a b nd' + of_bool (rules_held a b s' \<and> \<not> thrown) = rules_absent a b nd + of_bool (rules_held a b s)"
    using spec [OF spec [OF session_step_moves(2) [OF e'(1-3) n r e'(4), unfolded moves_rules_def], of a], of b]
      session_step_moves(3) [OF e'(1-3) n r] idle_holds_nothing(2) [of s' a b] by (cases thrown) simp_all
qed (simp_all add: rules_absent_def quiet_def idle_holds_nothing rule_events_def)

end
