(* ===== verification/NF_Props.thy ===== *)
theory NF_Props
  imports NF_Ledger
begin

text \<open>
  Properties of the NAT/firewall signalling daemon: no complete message aborts it, ports and rules are
  accounted for, and a request that crosses an initiator, a firewall and a responder puts the three in session.
\<close>

section \<open>A request from the initiator to the responder and back\<close>

text \<open>The network: the last message a node sent is delivered to the next, which is the addressee or not.\<close>

definition deliver :: "natfw_env \<Rightarrow> node \<Rightarrow> bool \<Rightarrow> node \<Rightarrow> node result" where
  "deliver env from addressee nd = (let m = last (sent from) in process env (Msg_event (nt_sid m) m addressee) nd)"

definition handshake :: "natfw_env \<Rightarrow> api_create_event \<Rightarrow> node \<Rightarrow> node \<Rightarrow> node \<Rightarrow> (node \<times> node \<times> node) result" where
  "handshake env e ni nf nr =
     bindR (process env (Api_create_event e) ni) (\<lambda>ni.
     bindR (deliver env ni False nf) (\<lambda>nf.
     bindR (deliver env nf True nr) (\<lambda>nr.
     bindR (deliver env nr False nf) (\<lambda>nf.
     bindR (deliver env nf True ni) (\<lambda>ni. Ok (ni, nf, nr))))))"

definition flow_rule :: "api_create_event \<Rightarrow> fw_policy_rule" where
  "flow_rule e = \<lparr>fw_action = ACTION_ALLOW, fw_ds_addr = ac_source e, fw_ds_prefix = 32, fw_ds_port = ac_source_port e,
     fw_dr_addr = ac_dest e, fw_dr_prefix = 32, fw_dr_port = ac_dest_port e, fw_protocol = ac_protocol e\<rparr>"

definition flow_mri :: "api_create_event \<Rightarrow> mri" where
  "flow_mri e = Mri_pc \<lparr>pc_sourceaddress = ac_source e, pc_sourceprefix = 32, pc_sourceport = ac_source_port e,
     pc_destaddress = ac_dest e, pc_destprefix = 32, pc_destport = ac_dest_port e,
     pc_protocol = ac_protocol e, pc_flowlabel = 0, pc_ds_field = 0, pc_spi = 0, pc_downstream = True\<rparr>"

text \<open>The CREATE message that the initiator sends for a request.\<close>

definition request :: "api_create_event \<Rightarrow> session_id \<Rightarrow> u32 \<Rightarrow> ntlp_msg \<Rightarrow> bool" where
  "request e sid msn m \<longleftrightarrow> nt_sid m = sid \<and> nt_mri m = flow_mri e \<and>
     (\<exists>b. nt_msg m = Some b \<and> nm_class b = Natfw_create \<and> nm_lifetime b = Some (ac_lifetime e) \<and>
        nm_flow_info b = Some (ra_allow, 0) \<and> nm_msn b = Some msn \<and> natfw_msg_check b)"

definition accepted :: "session_id \<Rightarrow> u32 \<Rightarrow> ntlp_msg \<Rightarrow> bool" where
  "accepted sid msn m \<longleftrightarrow> nt_sid m = sid \<and>
     (\<exists>b. nt_msg m = Some b \<and> nm_class b = Natfw_response \<and> nm_msn b = Some msn \<and> is_success b \<and> natfw_msg_check b)"

lemma ni_starts:
  assumes l: "lifetime_ok (ac_lifetime e)" and t: "0 < id_tries env" and s: "sid = random_bytes env (n_random nd)"
    and f: "session_table nd sid = None"
  obtains nd' m msn s where "process env (Api_create_event e) nd = Ok nd'" "sent nd' = sent nd @ [m]" "request e sid msn m"
    "session_table nd' sid = Some (NI_session s)" "ni_state s = STATE_WAITRESP" "ni_last_create s = Some m"
proof -
  obtain k where k: "id_tries env = Suc k" using t by (cases "id_tries env") auto
  have u: "create_unique_id (id_tries env) env nd = Ok (nd\<lparr>n_random := n_random nd + 1\<rparr>, sid)"
    using k f s by (simp add: random_number_def)
  have r: "refresh_interval (ac_lifetime e) n > 0" "ac_lifetime e \<noteq> 0" for n
    using l refresh_interval_pos by (simp_all add: lifetime_ok_def)
  obtain nd' where "process env (Api_create_event e) nd = Ok nd'"
    and *: "\<exists>m msn s. sent nd' = sent nd @ [m] \<and> request e sid msn m \<and> session_table nd' sid = Some (NI_session s) \<and>
       ni_state s = STATE_WAITRESP \<and> ni_last_create s = Some m"
    using r u
    by (simp add: process_def process_with_def is_invalid_natfw_msg_def create_session_def create_ni_session_def
        new_ni_session_def node_op_defs ni_process_event_def ni_handle_state_idle_def ni_setup_session_def
        build_create_message_def send_message_def new_natfw_msg_def natfw_msg_check_def natfw_msg_empty_def
        check_extended_flow_info_def put_session_def request_def flow_mri_def)
  then show thesis using that by blast
qed

text \<open>An event with a message for a session that the node has, or creates for it.\<close>

lemma process_known:
  assumes "nt_msg m = Some b" "session_table nd sid = Some s"
    "session_process (process_teardown env) env sid (Msg_event sid m f) nd s = Ok (nd1, s1, False)" "\<not> is_final s1"
  shows "process env (Msg_event sid m f) nd = Ok (put_session sid s1 nd1)"
  using assms by (simp add: process_def process_with_def is_invalid_natfw_msg_def get_session_def)

lemma process_new:
  assumes "nt_msg m = Some b" "session_table nd sid = None"
    "create_session env (Msg_event sid m f) nd = Ok (nd0, Some (sid, s))"
    "session_process (process_teardown env) env sid (Msg_event sid m f) nd0 s = Ok (nd1, s1, False)" "\<not> is_final s1"
  shows "process env (Msg_event sid m f) nd = Ok (put_session sid s1 nd1)"
  using assms by (simp add: process_def process_with_def is_invalid_natfw_msg_def get_session_def)

lemma request_accepted_by:
  assumes "request e sid msn m" "lifetime_ok (ac_lifetime e)" "ac_lifetime e \<le> mx"
  obtains b where "nt_msg m = Some b" "event_msg Natfw_create (Msg_event sid m f) = Some (m, b)" "nm_msn b = Some msn"
    "get_session_lifetime b = ac_lifetime e" "ac_lifetime e \<noteq> 0" "0 < ac_lifetime e" "natfw_msg_check b" "get_rule_action b = 1"
    "get_subsequent_ports b = 0" "check_request (ac_lifetime e) mx evt = None" "nt_mri m = flow_mri e" "usable m"
  using assms by (auto simp: request_def event_msg_def get_session_lifetime_def get_rule_action_def get_subsequent_ports_def
      check_request_def check_lifetime_def lifetime_ok_def usable_def word_neq_0_conv)

lemma nf_forwards:
  assumes r: "request e sid msn m" "lifetime_ok (ac_lifetime e)" and l: "ac_lifetime e \<le> nf_max_session_lifetime (nd_config nd)"
    and c: "is_nf_firewall (nd_config nd)" "\<not> is_nf_nat (nd_config nd)" and f: "session_table nd sid = None"
  obtains nd' s where "process env (Msg_event sid m False) nd = Ok nd'" "sent nd' = sent nd @ [copy_for_forwarding None m]"
    "session_table nd' sid = Some (NF_session s)" "nf_state s = STATE_WAITRESP" "nf_create_message s = Some m"
    "nf_fw_rule s = Some (flow_rule e)" "nf_nat_rule s = None" "rule_calls nd' = rule_calls nd" "nd_config nd' = nd_config nd"
proof -
  obtain b where b: "nt_msg m = Some b" "event_msg Natfw_create (Msg_event sid m False) = Some (m, b)" "nm_msn b = Some msn"
    "get_session_lifetime b = ac_lifetime e" "ac_lifetime e \<noteq> 0" "get_rule_action b = 1" "get_subsequent_ports b = 0"
    "check_request (ac_lifetime e) (nf_max_session_lifetime (nd_config nd)) (Msg_event sid m False) = None"
    "nt_mri m = flow_mri e" "usable m"
    using request_accepted_by [OF r l, where f = False and evt = "Msg_event sid m False"] by metis
  define nd0 where "nd0 = put_session sid (NF_session new_nf_session) nd"
  have c0: "create_session env (Msg_event sid m False) nd = Ok (nd0, Some (sid, NF_session new_nf_session))"
    using b(2) by (simp add: create_session_def is_natfw_create_def nd0_def Let_def)
  have cfg: "nd_config nd0 = nd_config nd" "sent nd0 = sent nd" "rule_calls nd0 = rule_calls nd" by (simp_all add: nd0_def put_session_def)
  define s1 where "s1 = new_nf_session\<lparr>nf_max_lifetime := nf_max_session_lifetime (nd_config nd),
      nf_timeout := nf_max_session_lifetime (nd_config nd), nf_lifetime := ac_lifetime e, nf_msn := msn,
      nf_create_message := Some m, nf_fw_rule := Some (flow_rule e), nf_state_timer := timer_id env (n_timers nd0),
      nf_state := STATE_WAITRESP\<rparr>"
  define nd1 where "nd1 = nd0\<lparr>sent := sent nd0 @ [copy_for_forwarding None m], n_timers := n_timers nd0 + 1\<rparr>"
  have fw: "save_fw_policy_rule m b s = Ok (Inr (s\<lparr>nf_fw_rule := Some (flow_rule e)\<rparr>))" for s
    using b by (simp add: save_fw_policy_rule_def flow_mri_def flow_rule_def)
  have snd: "send_message (copy_for_forwarding None m) nd0 = Ok (nd0\<lparr>sent := sent nd0 @ [copy_for_forwarding None m]\<rparr>)"
    using b by (simp add: send_message_Ok)
  have p: "session_process (process_teardown env) env sid (Msg_event sid m False) nd0 (NF_session new_nf_session) = Ok (nd1, NF_session s1, False)"
    using b c fw snd
    by (simp add: nf_process_event_def nf_handle_state_idle_def new_nf_session_def handle_state_idle_create_def
        nf_forward_create_def nf_nat_setup_def create_msg_for_nr_def flow_mri_def get_msn_safe cfg s1_def nd1_def node_op_defs)
  have "process env (Msg_event sid m False) nd = Ok (put_session sid (NF_session s1) nd1)"
    by (rule process_new [OF b(1) f c0 p]) (simp add: s1_def)
  then show thesis
    by (rule that [where s = s1]) (simp_all add: s1_def nd1_def put_session_def cfg new_nf_session_def)
qed

lemma nr_answers:
  assumes r: "request e sid msn m" "lifetime_ok (ac_lifetime e)" and l: "ac_lifetime e \<le> nr_max_session_lifetime (nd_config nd)"
    and c: "\<not> is_nf_nat (nd_config nd)" and f: "session_table nd sid = None"
  obtains nd' s a where "process env (Msg_event sid m True) nd = Ok nd'" "sent nd' = sent nd @ [a]" "accepted sid msn a"
    "session_table nd' sid = Some (NR_session s)" "nr_state s = STATE_SESSION"
proof -
  obtain b where b: "nt_msg m = Some b" "event_msg Natfw_create (Msg_event sid m True) = Some (m, b)" "nm_msn b = Some msn"
    "get_session_lifetime b = ac_lifetime e" "0 < ac_lifetime e"
    "check_request (ac_lifetime e) (nr_max_session_lifetime (nd_config nd)) (Msg_event sid m True) = None"
    using request_accepted_by [OF r l, where f = True and evt = "Msg_event sid m True"] by metis
  define s0 where "s0 = new_nr_session (nd_config nd)"
  define nd0 where "nd0 = put_session sid (NR_session s0) nd"
  define a where "a = create_success_response (ac_lifetime e) m"
  have c0: "create_session env (Msg_event sid m True) nd = Ok (nd0, Some (sid, NR_session s0))"
    using b(2) c by (simp add: create_session_def is_natfw_create_def nd0_def s0_def Let_def)
  have snd: "send_message a nd0 = Ok (nd0\<lparr>sent := sent nd0 @ [a]\<rparr>)" by (simp add: send_message_Ok a_def)
  define s1 where "s1 = s0\<lparr>nr_lifetime := ac_lifetime e, nr_msn := msn, nr_state_timer := timer_id env (n_timers nd0), nr_state := STATE_SESSION\<rparr>"
  define nd1 where "nd1 = nd0\<lparr>sent := sent nd0 @ [a], n_timers := n_timers nd0 + 1\<rparr>"
  have p: "session_process (process_teardown env) env sid (Msg_event sid m True) nd0 (NR_session s0) = Ok (nd1, NR_session s1, False)"
    using b snd
    by (simp add: nr_process_event_def nr_handle_state_idle_def s0_def new_nr_session_def get_msn_safe
        a_def [symmetric] s1_def nd1_def node_op_defs)
  have acc: "accepted sid msn a"
    using r(1) b by (auto simp: accepted_def request_def a_def create_success_response_def create_response_def is_success_def
        new_natfw_msg_def natfw_msg_check_def natfw_msg_empty_def check_information_code_def)
  have "process env (Msg_event sid m True) nd = Ok (put_session sid (NR_session s1) nd1)"
    by (rule process_new [OF b(1) f c0 p]) (simp add: s1_def)
  then show thesis
    by (rule that [where s = s1, OF _ _ acc]) (simp_all add: s1_def nd1_def put_session_def nd0_def)
qed

lemma response_matches:
  assumes a: "accepted sid msn a" and r: "request e sid msn m"
  obtains x b where "nt_msg a = Some x" "event_msg Natfw_response (Msg_event sid a f) = Some (a, x)" "is_success x"
    "nt_msg m = Some b" "is_natfw_response (Msg_event sid a f) m" "is_response_to x b = Ok True"
    "event_msg Natfw_create (Msg_event sid a f) = None" "sendable a"
  using a r by (auto simp: accepted_def request_def event_msg_def is_natfw_response_def has_msg_sequence_number_def
      is_response_to_def get_msg_sequence_number_def sendable_def)

lemma nf_installs:
  assumes a: "accepted sid msn a" and r: "request e sid msn m" and env: "never_refuses env" and c: "\<not> is_nf_nat (nd_config nd)"
    and s: "session_table nd sid = Some (NF_session s)" "nf_state s = STATE_WAITRESP" "nf_create_message s = Some m"
  obtains nd' s' where "process env (Msg_event sid a False) nd = Ok nd'" "sent nd' = sent nd @ [copy_for_forwarding None a]"
    "session_table nd' sid = Some (NF_session s')" "nf_state s' = STATE_SESSION" "nf_fw_rule s' = nf_fw_rule s"
    "rule_calls nd' = rule_calls nd @ [Install (nf_nat_rule s) (nf_fw_rule s)]"
proof -
  obtain x b where x: "nt_msg a = Some x" "event_msg Natfw_response (Msg_event sid a False) = Some (a, x)" "is_success x"
    "nt_msg m = Some b" "is_natfw_response (Msg_event sid a False) m" "is_response_to x b = Ok True" "sendable a"
    using response_matches [OF a r] by metis
  define nd1 where "nd1 = nd\<lparr>rule_calls := rule_calls nd @ [Install (nf_nat_rule s) (nf_fw_rule s)],
      sent := sent nd @ [copy_for_forwarding None a], n_timers := n_timers nd + 1\<rparr>"
  define s1 where "s1 = s\<lparr>nf_state_timer := timer_id env (n_timers nd), nf_state := STATE_SESSION\<rparr>"
  have snd: "send_message (copy_for_forwarding None a) nd2 = Ok (nd2\<lparr>sent := sent nd2 @ [copy_for_forwarding None a]\<rparr>)" for nd2
    using x(7) by (simp add: send_message_Ok)
  have p: "session_process (process_teardown env) env sid (Msg_event sid a False) nd (NF_session s) = Ok (nd1, NF_session s1, False)"
    using x s(2,3) env c snd
    by (simp add: nf_process_event_def nf_handle_state_waitresp_def nf_last_def nf_waitresp_response_def create_msg_for_ni_def
        node_op_defs nd1_def s1_def)
  have "process env (Msg_event sid a False) nd = Ok (put_session sid (NF_session s1) nd1)"
    by (rule process_known [OF x(1) s(1) p]) (simp add: s1_def)
  then show thesis
    by (rule that [where s' = s1]) (simp_all add: s1_def nd1_def put_session_def)
qed

lemma ni_established:
  assumes a: "accepted sid msn a" and r: "request e sid msn m"
    and s: "session_table nd sid = Some (NI_session s)" "ni_state s = STATE_WAITRESP" "ni_last_create s = Some m"
  obtains nd' s' where "process env (Msg_event sid a True) nd = Ok nd'"
    "session_table nd' sid = Some (NI_session s')" "ni_state s' = STATE_SESSION"
proof -
  obtain x b where x: "nt_msg a = Some x" "event_msg Natfw_response (Msg_event sid a True) = Some (a, x)" "is_success x"
    "nt_msg m = Some b" "is_response_to x b = Ok True"
    using response_matches [OF a r] by metis
  define nd1 where "nd1 = nd\<lparr>n_timers := n_timers nd + 1\<rparr>"
  define s1 where "s1 = s\<lparr>ni_response_timer := 0, ni_refresh_timer := timer_id env (n_timers nd), create_counter := 0, ni_state := STATE_SESSION\<rparr>"
  have p: "session_process (process_teardown env) env sid (Msg_event sid a True) nd (NI_session s) = Ok (nd1, NI_session s1, False)"
    using x s(2,3)
    by (simp add: ni_process_event_def ni_handle_state_waitresp_def ni_response_event_def ni_last_def node_op_defs nd1_def s1_def)
  have "process env (Msg_event sid a True) nd = Ok (put_session sid (NI_session s1) nd1)"
    by (rule process_known [OF x(1) s(1) p]) (simp add: s1_def)
  then show thesis
    by (rule that [where s' = s1]) (simp_all add: s1_def put_session_def)
qed

lemma forwarded:
  "request e sid msn m \<Longrightarrow> request e sid msn (copy_for_forwarding None m)"
  "accepted sid msn a \<Longrightarrow> accepted sid msn (copy_for_forwarding None a)"
  by (auto simp: request_def accepted_def copy_for_forwarding_def)

text \<open>C28: The exchange that the protocol is for works. An initiator asks for a flow of some lifetime, the request
  passes a firewall and reaches the responder, and the answer goes back the same way; no message is lost and the rule
  installer refuses nothing. If the lifetime is within the limits of firewall and responder and the new
  session identifier is in use on none of the three nodes, the exchange completes, all three sessions are in the state
  SESSION, and the firewall made exactly one call: to install the rule that allows this flow.\<close>

theorem natfw_handshake_completes:
  assumes "lifetime_ok (ac_lifetime e)" "0 < id_tries env" "never_refuses env"
    and "is_nf_firewall (nd_config nf)" "\<not> is_nf_nat (nd_config nf)" "\<not> is_nf_nat (nd_config nr)"
    and "ac_lifetime e \<le> nf_max_session_lifetime (nd_config nf)" "ac_lifetime e \<le> nr_max_session_lifetime (nd_config nr)"
    and sid: "sid = random_bytes env (n_random ni)"
    and "get_session sid ni = None" "get_session sid nf = None" "get_session sid nr = None"
  shows "\<exists>ni' nf' nr' s1 s2 s3. handshake env e ni nf nr = Ok (ni', nf', nr') \<and>
    get_session sid ni' = Some (NI_session s1) \<and> ni_state s1 = STATE_SESSION \<and>
    get_session sid nf' = Some (NF_session s2) \<and> nf_state s2 = STATE_SESSION \<and> nf_fw_rule s2 = Some (flow_rule e) \<and>
    get_session sid nr' = Some (NR_session s3) \<and> nr_state s3 = STATE_SESSION \<and>
    rule_calls nf' = rule_calls nf @ [Install None (Some (flow_rule e))]"
proof -
  have free: "session_table ni sid = None" "session_table nf sid = None" "session_table nr sid = None"
    using assms(10-12) by (simp_all add: get_session_def)
  obtain ni1 m msn t where a: "process env (Api_create_event e) ni = Ok ni1" "sent ni1 = sent ni @ [m]" "request e sid msn m"
    "session_table ni1 sid = Some (NI_session t)" "ni_state t = STATE_WAITRESP" "ni_last_create t = Some m"
    using ni_starts [OF assms(1,2) sid free(1)] by metis
  obtain nf1 u where b: "process env (Msg_event sid m False) nf = Ok nf1" "sent nf1 = sent nf @ [copy_for_forwarding None m]"
    "session_table nf1 sid = Some (NF_session u)" "nf_state u = STATE_WAITRESP" "nf_create_message u = Some m"
    "nf_fw_rule u = Some (flow_rule e)" "nf_nat_rule u = None" "rule_calls nf1 = rule_calls nf" "nd_config nf1 = nd_config nf"
    using nf_forwards [OF a(3) assms(1,7,4,5) free(2)] by metis
  obtain nr1 v r where c: "process env (Msg_event sid (copy_for_forwarding None m) True) nr = Ok nr1" "sent nr1 = sent nr @ [r]"
    "accepted sid msn r" "session_table nr1 sid = Some (NR_session v)" "nr_state v = STATE_SESSION"
    using nr_answers [OF forwarded(1) [OF a(3)] assms(1,8,6) free(3)] by metis
  have nn: "\<not> is_nf_nat (nd_config nf1)" using assms(5) b(9) by simp
  obtain nf2 u2 where d: "process env (Msg_event sid r False) nf1 = Ok nf2" "sent nf2 = sent nf1 @ [copy_for_forwarding None r]"
    "session_table nf2 sid = Some (NF_session u2)" "nf_state u2 = STATE_SESSION" "nf_fw_rule u2 = nf_fw_rule u"
    "rule_calls nf2 = rule_calls nf1 @ [Install (nf_nat_rule u) (nf_fw_rule u)]"
    using nf_installs [OF c(3) a(3) assms(3) nn b(3-5)] by metis
  obtain ni2 t2 where f: "process env (Msg_event sid (copy_for_forwarding None r) True) ni1 = Ok ni2"
    "session_table ni2 sid = Some (NI_session t2)" "ni_state t2 = STATE_SESSION"
    using ni_established [OF forwarded(2) [OF c(3)] a(3-6)] by metis
  have sids: "nt_sid m = sid" "nt_sid (copy_for_forwarding None m) = sid" "nt_sid r = sid" "nt_sid (copy_for_forwarding None r) = sid"
    using a(3) c(3) by (simp_all add: request_def accepted_def copy_for_forwarding_def)
  have "handshake env e ni nf nr = Ok (ni2, nf2, nr1)"
    by (simp add: handshake_def deliver_def a(1,2) b(1,2) c(1,2) d(1,2) f(1) sids)
  then show ?thesis using f(2,3) d(3-6) b(6-8) c(4,5) by (simp add: get_session_def)
qed

section \<open>Runs of a node\<close>

lemma new_node_ok: "session_table nd = (\<lambda>_. None) \<Longrightarrow> nat_address_ok nd \<Longrightarrow> node_ok nd"
  by (simp add: node_ok_def)

lemma run_safe:
  assumes "node_ok nd" "\<forall>evt\<in>set evts. event_ok evt"
  shows "safeR (keeps_node nd) (process_all env evts nd)"
  using assms
proof (induction evts arbitrary: nd)
  case (Cons evt evts)
  have "safeR (keeps_node nd) (process env evt nd)" using process_safe Cons.prems by simp
  moreover have "safeR (keeps_node nd) (process_all env evts nd1)" if "keeps_node nd nd1" for nd1
    using Cons.IH [of nd1] Cons.prems(2) that by (auto simp: keeps_node_def elim!: safeR_mono)
  ultimately show ?case by (auto elim!: safeR_mono)
qed (simp add: keeps_node_refl)

text \<open>C26: No sequence of events aborts a node that starts without sessions, whatever their order, under
  these conditions. Every parsed message has a sequence number and passes the check of its objects;
  a CREATE is routed along the data path downstream and an EXT that asks for a proxy along the data
  path. A user asks for a lifetime of at least one and less than \<open>3 * 2 ^ 30\<close> seconds, and names a protocol
  when a reservation leaves the peer open: the protocol 0, documented as a wildcard, would abort the
  node, see \<open>ext_wildcard_protocol_aborts\<close>. A NAT has an external IPv4 address other than the
  default one. Then no assertion of a session fails, none follows a null pointer and every message
  handed over for sending can be serialised; the only other end is that the search for an unused
  session identifier does not finish. Afterwards no session in the table is in its final state, and
  each has stored what its state needs.\<close>

theorem natfw_node_never_aborts:
  assumes "\<forall>evt\<in>set evts. event_ok evt" "session_table nd = (\<lambda>_. None)" "nat_address_ok nd"
  shows "case process_all env evts nd of
      Ok nd' \<Rightarrow> \<forall>sid s. get_session sid nd' = Some s \<longrightarrow> session_ok (nd_config nd) s \<and> \<not> is_final s
    | Fail f \<Rightarrow> f = No_return"
proof -
  have "safeR (keeps_node nd) (process_all env evts nd)"
    by (rule run_safe [OF new_node_ok]) (use assms in simp_all)
  then show ?thesis
    by (auto simp: safeR_def keeps_node_def node_ok_def get_session_def split: result.splits)
qed

text \<open>C27: Nothing is lost while a node runs. Take a node without sessions and any sequence of events without the report of a
  changed route, with complete messages and a rule installer that refuses nothing. On a NAT at the edge of its
  network, each port of the pool is afterwards as often free or held by a session as it was
  free at the start, so no port is handed out twice and none leaks. And on every node that is not asked to deny a flow, each pair of
  rules was installed as often as it was removed, plus once for each session that has it in force.\<close>

theorem natfw_resources_accounted:
  assumes run: "process_all env evts nd = Ok nd'" and new: "session_table nd = (\<lambda>_. None)" "nat_address_ok nd" "rule_calls nd = []"
    and ev: "\<forall>evt\<in>set evts. event_ok evt \<and> \<not> is_route_changed_bad_event evt" and env: "never_refuses env"
  shows "(is_nf_nat (nd_config nd) \<and> is_nf_edge_node (nd_config nd) \<longrightarrow>
      count_list (available nd') p + card {sid. \<exists>s. get_session sid nd' = Some s \<and> port_held p s} = count_list (available nd) p) \<and>
    ((\<forall>evt\<in>set evts. \<not> (is_nf_firewall (nd_config nd) \<and> denies evt)) \<longrightarrow>
      count_list (rule_calls nd') (Install a b) =
        count_list (rule_calls nd') (Remove a b) + card {sid. \<exists>s. get_session sid nd' = Some s \<and> rules_held a b s})"
proof (intro conjI)
  have ok: "node_ok nd" using new_node_ok [OF new(1,2)] .
  have h: "holders held n = {sid. \<exists>s. get_session sid n = Some s \<and> held s}" for held n
    by (auto simp: holders_def get_session_def split: option.splits)
  have z: "card (holders held nd) = 0" for held using new(1) by (simp add: holders_def)
  show "is_nf_nat (nd_config nd) \<and> is_nf_edge_node (nd_config nd) \<longrightarrow>
      count_list (available nd') p + card {sid. \<exists>s. get_session sid nd' = Some s \<and> port_held p s} = count_list (available nd) p"
  proof
    assume "is_nf_nat (nd_config nd) \<and> is_nf_edge_node (nd_config nd)"
    then have "total (free_ports p) (port_held p) nd' = total (free_ports p) (port_held p) nd"
      by (intro ports.total_run [OF run ok]) (use ev env in \<open>simp add: port_events_def\<close>)
    then show "count_list (available nd') p + card {sid. \<exists>s. get_session sid nd' = Some s \<and> port_held p s} = count_list (available nd) p"
      by (simp add: total_def free_ports_def z h [symmetric])
  qed
  show "(\<forall>evt\<in>set evts. \<not> (is_nf_firewall (nd_config nd) \<and> denies evt)) \<longrightarrow>
      count_list (rule_calls nd') (Install a b) =
        count_list (rule_calls nd') (Remove a b) + card {sid. \<exists>s. get_session sid nd' = Some s \<and> rules_held a b s}"
  proof
    assume "\<forall>evt\<in>set evts. \<not> (is_nf_firewall (nd_config nd) \<and> denies evt)"
    then have "total (rules_absent a b) (rules_held a b) nd' = total (rules_absent a b) (rules_held a b) nd"
      by (intro rules.total_run [OF run ok]) (use ev env in \<open>simp add: rule_events_def\<close>)
    then show "count_list (rule_calls nd') (Install a b) =
        count_list (rule_calls nd') (Remove a b) + card {sid. \<exists>s. get_session sid nd' = Some s \<and> rules_held a b s}"
      by (simp add: total_def rules_absent_def new(3) z h [symmetric])
  qed
qed

section \<open>Two ways in which the daemon fails\<close>

text \<open>When the route of an established session is reported as changed, the session is forgotten and its rules stay installed and its
  port reserved.\<close>

lemma route_change_leaks:
  assumes "get_session sid nd = Some (NF_session s)" "nf_state s = STATE_SESSION" "nf_create_message s = Some m" "nt_msg m = Some b"
  shows "process env (Route_changed_bad_event sid) nd = Ok (remove_session sid nd)"
  using assms
  by (simp add: process_def process_with_def is_invalid_natfw_msg_def nf_process_event_def nf_handle_state_session_def nf_last_def
      event_msg_def is_natfw_response_def is_no_next_node_found_event_def is_timer_def is_route_changed_bad_event_def)

text \<open>A CREATE message without a sequence number aborts the node that receives it.\<close>

lemma create_without_msn_aborts:
  assumes "get_session sid nd = None" "nt_msg m = Some b" "nm_class b = Natfw_create" "nm_msn b = None"
  shows "process env (Msg_event sid m f) nd = Fail Assertion"
  using assms
  by (simp add: process_def process_with_def is_invalid_natfw_msg_def create_session_def is_natfw_create_def event_msg_def Let_def
      nf_process_event_def nr_process_event_def nf_handle_state_idle_def nr_handle_state_idle_def new_nf_session_def new_nr_session_def
      get_msg_sequence_number_def)

text \<open>A user who asks for a reservation, names neither the peer nor a protocol and may rely on the documented wildcard aborts
  the node: the object with the ports and without a protocol does not pass the check before sending.\<close>

lemma ext_wildcard_protocol_aborts:
  assumes "\<not> ae_ni_known e" "ae_protocol e = 0" "lifetime_ok (ae_lifetime e)"
  shows "ne_handle_state_idle env sid (Api_ext_event e) nd s = Fail Assertion"
proof -
  have l: "ae_lifetime e \<noteq> 0" "refresh_interval (ae_lifetime e) (ne_retries s) > 0"
    using assms(3) refresh_interval_pos by (simp_all add: lifetime_ok_def)
  then show ?thesis
    using assms(1,2)
    by (cases "ae_proxy e") (simp_all add: ne_handle_state_idle_def ne_setup_session_def build_ext_message_def send_message_def
        set_data_terminal_info_def new_natfw_msg_def natfw_msg_check_def natfw_msg_empty_def check_data_terminal_info_def
        Let_def guardR_def split: prod.split)
qed

section \<open>Instances\<close>

definition ex_config :: "bool \<Rightarrow> natfw_config" where
  "ex_config n = \<lparr>is_nf_nat = n, is_nf_firewall = True, is_nf_edge_node = True,
     nf_private_networks = [\<lparr>na_host = \<lparr>ipv4flag = True, ip_words = [0x0a000000, 0, 0, 0]\<rparr>, prefix_length = 8\<rparr>],
     nf_max_session_lifetime = 60, nr_max_session_lifetime = 60, ni_response_timeout = 2, ni_max_retries = 3,
     nr_ext_response_timeout = 2, nr_ext_max_retries = 3\<rparr>"

definition ex_node :: "bool \<Rightarrow> node" where
  "ex_node n = \<lparr>nd_config = ex_config n, session_table = (\<lambda>_. None),
     nat_address = \<lparr>ipv4flag = True, ip_words = [0xc0000201, 0, 0, 0]\<rparr>, available = [5000, 5001], external_to_private = [],
     rule_calls = [], sent = [], query_answers = [], returned_ids = [], n_timers = 0, n_random = 0\<rparr>"

definition ex_env :: natfw_env where
  "ex_env = \<lparr>timer_id = (\<lambda>n. of_nat (n + 1)), random_bytes = (\<lambda>n. of_nat (n + 7)), draw_timeout = (\<lambda>n r. r),
     installer_refuses = (\<lambda>c. False), id_tries = 10\<rparr>"

definition ex_request :: api_create_event where
  "ex_request = \<lparr>ac_source = \<lparr>ipv4flag = True, ip_words = [0x0a000001, 0, 0, 0]\<rparr>, ac_source_port = 1000,
     ac_dest = \<lparr>ipv4flag = True, ip_words = [0xc6336401, 0, 0, 0]\<rparr>, ac_dest_port = 80, ac_protocol = 6, ac_icmp_types = [],
     ac_lifetime = 30, ac_proxy = False, ac_return_queue = False\<rparr>"

definition ex_create :: natfw_event where
  "ex_create = Msg_event 7 \<lparr>nt_sid = 7, nt_mri = flow_mri ex_request, sii_handle = 0,
     nt_msg = Some ((new_natfw_msg Natfw_create False)\<lparr>nm_lifetime := Some 30, nm_flow_info := Some (ra_allow, 0), nm_msn := Some 1\<rparr>)\<rparr> False"

lemma ex_create_ok:
  "event_ok ex_create" "\<not> is_route_changed_bad_event ex_create" "\<not> denies ex_create" "never_refuses ex_env"
  "nat_address_ok (ex_node n)" "session_table (ex_node n) = (\<lambda>_. None)" "rule_calls (ex_node n) = []"
  by (simp_all add: event_ok_def ex_create_def usable_def flow_mri_def natfw_msg_check_def natfw_msg_empty_def new_natfw_msg_def
      check_extended_flow_info_def is_route_changed_bad_event_def denies_def event_msg_def never_refuses_def ex_env_def
      nat_address_ok_def ex_node_def hostaddress_eq_def hostaddress_default_def)

theorem natfw_handshake_completes_witness:
  "\<exists>ni' nf' nr' s1 s2 s3. handshake ex_env ex_request (ex_node False) (ex_node False) (ex_node False) = Ok (ni', nf', nr') \<and>
    get_session 7 ni' = Some (NI_session s1) \<and> ni_state s1 = STATE_SESSION \<and>
    get_session 7 nf' = Some (NF_session s2) \<and> nf_state s2 = STATE_SESSION \<and> nf_fw_rule s2 = Some (flow_rule ex_request) \<and>
    get_session 7 nr' = Some (NR_session s3) \<and> nr_state s3 = STATE_SESSION \<and>
    rule_calls nf' = rule_calls (ex_node False) @ [Install None (Some (flow_rule ex_request))]"
  by (rule natfw_handshake_completes)
     (simp_all add: ex_request_def ex_node_def ex_config_def ex_env_def lifetime_ok_def never_refuses_def get_session_def)

theorem natfw_node_never_aborts_witness:
  "event_ok ex_create \<and> process_all ex_env [ex_create, ex_create, Timer_event 7 1] (ex_node True) \<noteq> Fail Assertion \<and>
   process_all ex_env [ex_create, ex_create, Timer_event 7 1] (ex_node True) \<noteq> Fail Bad_access"
  using natfw_node_never_aborts [of "[ex_create, ex_create, Timer_event 7 1]" "ex_node True" ex_env] ex_create_ok
  by (auto simp: event_ok_def split: result.splits)

lemma ex_run: "\<exists>nd'. process_all ex_env [ex_create] (ex_node True) = Ok nd'"
  by (simp add: process_def process_with_def is_invalid_natfw_msg_def create_session_def is_natfw_create_def event_msg_def Let_def
      ex_create_def ex_node_def ex_config_def ex_env_def flow_mri_def ex_request_def new_natfw_msg_def get_session_def put_session_def
      nf_process_event_def nf_handle_state_idle_def new_nf_session_def get_msg_sequence_number_def get_session_lifetime_def
      check_request_def check_lifetime_def handle_state_idle_create_def save_fw_policy_rule_def get_subsequent_ports_def
      get_rule_action_def nf_forward_create_def nf_nat_setup_def is_from_private_side_def match_against_def word_prefix_eq_def
      reserve_external_address_def create_mri_with_source_def create_mri_inverted_def save_nat_policy_rule_def create_msg_for_nr_def
      send_message_def copy_for_forwarding_def natfw_msg_check_def natfw_msg_empty_def check_extended_flow_info_def start_timer_def)

theorem natfw_resources_accounted_witness:
  "\<exists>nd'. process_all ex_env [ex_create] (ex_node True) = Ok nd' \<and>
     count_list (available nd') 5000 + card {sid. \<exists>s. get_session sid nd' = Some s \<and> port_held 5000 s} = 1"
proof -
  obtain nd' where r: "process_all ex_env [ex_create] (ex_node True) = Ok nd'" using ex_run by blast
  have "count_list (available nd') 5000 + card {sid. \<exists>s. get_session sid nd' = Some s \<and> port_held 5000 s} =
      count_list (available (ex_node True)) 5000"
    using natfw_resources_accounted [OF r, of 5000 None None] ex_create_ok by (simp add: ex_node_def ex_config_def)
  then show ?thesis using r by (auto simp: ex_node_def)
qed

end
