(* ===== verification/Spec2Isabelle.thy ===== *)
theory Spec2Isabelle
  imports OF_Chain_Props OF_Packet_Props OF_Ctl_Props OF_Stp_Props OF_Rconn_Props NF_Props
begin

text \<open>
  A verification of two programs of the repository: the OpenFlow 1.0 reference switch in user space
  (\<open>src/openflow/udatapath\<close> with the routines of \<open>src/openflow/lib\<close> that it uses, the spanning tree
  protocol and the OpenFlow connections of \<open>src/openflow/lib\<close>), and the NAT/firewall signalling daemon of the
  NSIS suite (\<open>src/nsis-ka/natfw-nslp\<close>). This theory only collects the others.

  \<^bold>\<open>The switch.\<close> A frame that a port receives is parsed into the fields of a flow (\<open>lib/flow.c\<close>) and looked up in a chain of
  flow tables (\<open>chain.c\<close>, \<open>table-hash.c\<close>, \<open>table-linear.c\<close>). The entry it finds has a block of actions, which
  \<open>dp_act.c\<close> carries out: they rewrite the packet, with its checksums (\<open>lib/csum.c\<close>), and send it to ports, to
  the controllers or back through the tables (\<open>datapath.c\<close>). A packet that matches no entry goes to the
  controllers, and may be saved in an array of buffers meanwhile. A controller changes tables,
  ports, queues and the configuration by messages and asks for statistics; every round of the switch
  also removes entries whose timeouts have passed.

  \<^item> \<open>OF_Prelude\<close> has the result type (\<open>Ok\<close>, or \<open>Fail\<close> with a failed assertion, an access outside an object, an
    exit, or a call that does not return), byte strings, byte order and shared lemmas. \<open>OF_Proto\<close> has
    the constants and structures of \<open>openflow.h\<close> and \<open>packets.h\<close>, \<open>OF_Buf\<close> the packet buffers of \<open>lib/ofpbuf.c\<close>.
  \<^item> \<open>OF_Csum\<close>, \<open>OF_Crc32\<close>: \<open>lib/csum.c\<close> and \<open>udatapath/crc32.c\<close>, related to arithmetic modulo 65535 and to
    polynomial division.
  \<^item> \<open>OF_Flow\<close>, \<open>OF_Switch_Flow\<close>: the parser \<open>flow_extract\<close>, keys, matching and entries of \<open>lib/flow.c\<close> and
    \<open>switch-flow.c\<close>.
  \<^item> \<open>OF_Table\<close>, \<open>OF_Table_Hash\<close>, \<open>OF_Table_Linear\<close>, \<open>OF_Chain\<close>: the interface of \<open>table.h\<close> as the locale \<open>flow_table\<close>, the
    three implementations that are shown to satisfy it, and the chain, whose lemmas use the
    locale only.
  \<^item> \<open>OF_Act\<close>: validation and execution of actions. \<open>OF_Pkt_Buffer\<close>: the saved packets, with the locale
    \<open>packet_store\<close> as their contract.
  \<^item> \<open>OF_Datapath\<close>, \<open>OF_Forward\<close>, \<open>OF_Control\<close>, \<open>OF_Stats\<close>, \<open>OF_Ext_Msg\<close>, \<open>OF_Dp_Run\<close>: the state of \<open>datapath.c\<close>, forwarding, the
    handlers of messages, statistics, vendor messages (\<open>of_ext_msg.c\<close>, \<open>private-msg.c\<close>) and one round of
    \<open>dp_run\<close>.
  \<^item> \<open>OF_Dp_Inv\<close>, \<open>OF_Fwd_Inv\<close>, \<open>OF_Entry\<close>, \<open>OF_Ctl_Inv\<close>, \<open>OF_Run_Inv\<close>: the invariant \<open>dp_inv\<close> and that every operation keeps it;
    the locale \<open>forwarding\<close> carries it through the mutual recursion of forwarding. \<open>OF_Fuel\<close>: more depth
    does not change a result. \<open>OF_Deliver\<close>: what connections and wires have been given.
  \<^item> \<open>OF_Chain_Props\<close>, \<open>OF_Packet_Props\<close>, \<open>OF_Dp_Props\<close>, \<open>OF_Ctl_Props\<close>: the properties. Lookup finds an entry of highest priority
    and agrees with a search of the list of entries; insertion, deletion, modification and timeouts
    change exactly the entries they should; parsing is safe; executing actions equals
    interpreting them one by one, and the incremental update of a checksum is right in every case but
    one; every reachable datapath satisfies the invariant; forwarding ends when no entry in force
    leads back to the tables, and does not for a packet whose entry does; messages have the effect
    they ask for, and the reports and replies reach the connections that can take them.

  \<^bold>\<open>Spanning tree.\<close> \<open>OF_Stp\<close> has every function of \<open>lib/stp.c\<close>, \<open>OF_Stp_Inv\<close> the invariant of a bridge over the step
  relation \<open>stp_step\<close>, \<open>OF_Stp_Props\<close> the properties: the port states of reachable bridges, the choice of the root
  port, that an update settles every port, the ranges of the timers, the round trip of a
  configuration message, and two defects, of the flags in messages and of the clock.

  \<^bold>\<open>Connections.\<close> \<open>OF_Vconn\<close> and \<open>OF_Rconn\<close> model \<open>lib/vconn.c\<close>, \<open>lib/ofpstat.c\<close> and \<open>lib/rconn.c\<close>; \<open>OF_Rconn_Props\<close> shows the invariant of
  every reachable connection, the negotiated version, and that \<open>rconn_run\<close> comes to its end in at most five turns.

  \<^bold>\<open>The NAT/firewall daemon.\<close> Sessions of six kinds exchange CREATE, EXT and RESPONSE messages along a path of nodes; a
  dispatcher finds or creates the session of an event, and sessions reserve external ports and
  install rules. \<open>NF_Msg\<close> has the messages (\<open>src/msg\<close>), \<open>NF_Node\<close> the resources and events, \<open>NF_Session\<close> and \<open>NF_Ext\<close> the state
  machines and the dispatcher. \<open>NF_Inv\<close> shows that no event aborts a node, \<open>NF_Ledger\<close> that ports and rules
  balance, by the locale \<open>ledger\<close> that is interpreted twice, and \<open>NF_Props\<close> states the properties, with the
  handshake of three nodes.

  \<^bold>\<open>Representation.\<close> Machine integers are words; C \<open>int\<close> is an integer where it cannot leave its range and goes
  through \<open>int32\<close> in the spanning tree, where it can. The host is little-endian. Structures of messages
  are bytes at their offsets. What the code does not decide is an argument: the record \<open>env\<close> has the
  clock, whether memory can be had, the outcome of transmissions and device operations, and the
  values of uninitialised variables; \<open>rcenv\<close> and \<open>natfw_env\<close> do the same for connections and the daemon. Whether
  memory can be had may depend on the size, for the tables of a new chain on the step, and when
  actions are replaced on the entry. The datapath has its own small record \<open>remote\<close> for a connection: the
  queue, its limit and whether the transport takes a message now. It has what \<open>datapath.c\<close> uses of \<open>rconn_send\<close> and
  leaves out disconnection on errors, statistics and monitors, for which \<open>OF_Rconn\<close> is the full
  model; the two are not connected by a theorem. \<open>dp_send_flow_end\<close> returns the datapath itself, since
  building its message of fixed size cannot fail (\<open>dp_send_flow_end_Ok\<close>).

  \<^bold>\<open>Bounds and fuel.\<close> Forwarding takes a depth, and running out of it is the failure \<open>No_return\<close>: \<open>OF_Fuel\<close> shows that a result
  does not depend on the depth once there is one, \<open>OF_Fwd_Inv\<close> that a small depth is enough without
  entries that lead back to the tables, and \<open>OF_Dp_Props\<close> that no depth is enough with one that does.
  \<open>do_recv\<close> has fuel since a peer can keep it skipping messages; \<open>rconn_run\<close> has fuel, and five turns are
  enough. The search for a session identifier has fuel, since random numbers may repeat. All other
  loops are total functions.

  \<^bold>\<open>Conditions of the properties of messages.\<close> \<open>flow_mod\<close> restricts the requests of two properties to those that name no saved packet
  and that an error message can quote: a saved packet is sent on by the actions of the request and
  can abort the program like any packet sent to the controller without room for a header, and a
  longer request makes the construction of the error message fail its assertion. \<open>event_ok\<close> asks
  that a user who leaves the peer open names a protocol: with the protocol 0, which the comment in
  \<open>natfw_ext.cpp\<close> calls a wildcard, the check in \<open>data_terminal_info.cpp\<close> fails and an assertion ends the
  daemon (\<open>ext_wildcard_protocol_aborts\<close>).

  \<^bold>\<open>Not modelled.\<close> Logging and printing, memory release, the poll loop, sockets and TLS, devices, the kernel module
  and hardware tables, the controller and the secure channel, the byte format of NATFW messages and
  the shell commands of the rule installer, threads and locks (one event is processed at a time), GIST
  and the QoS part of NSIS.
\<close>

end
